(* ===== verification/RustStr.thy ===== *)
theory RustStr
  imports Prelude
begin

text \<open>
  The part of Rust's \<open>str\<close>/\<open>String\<close> API the program uses, on strings held as
  the list of their UTF-8 bytes: prefixes and suffixes, searches and splits at
  ASCII patterns (byte positions, as in Rust), \<open>trim\<close> over every Unicode
  whitespace character, ASCII lower-casing, decimal parsing, and the validation
  of UTF-8 with its lossy variant.  \<open>to_lowercase\<close> lower-cases the ASCII letters
  and leaves the bytes of other characters as they are: that is Rust's
  \<open>str::to_lowercase\<close> on ASCII text, the alphabet of IRC nicknames, channels and
  commands in this program.
\<close>

section \<open>Prefixes, suffixes, searches\<close>

definition starts_with :: "string \<Rightarrow> string \<Rightarrow> bool" where
  "starts_with p s = (take (length p) s = p)"

definition ends_with :: "string \<Rightarrow> string \<Rightarrow> bool" where
  "ends_with p s = (length p \<le> length s \<and> drop (length s - length p) s = p)"

definition strip_prefix :: "string \<Rightarrow> string \<Rightarrow> string option" where
  "strip_prefix p s = (if starts_with p s then Some (drop (length p) s) else None)"

fun find_str :: "string \<Rightarrow> string \<Rightarrow> nat option" where
  "find_str p [] = (if p = [] then Some 0 else None)"
| "find_str p (c # s) = (if starts_with p (c # s) then Some 0
     else map_option Suc (find_str p s))"

definition contains :: "string \<Rightarrow> string \<Rightarrow> bool" where
  "contains p s = (find_str p s \<noteq> None)"

definition split_once :: "string \<Rightarrow> string \<Rightarrow> (string \<times> string) option" where
  "split_once p s = (case find_str p s of None \<Rightarrow> None
     | Some i \<Rightarrow> Some (take i s, drop (i + length p) s))"

fun split_char :: "char \<Rightarrow> string \<Rightarrow> string list" where
  "split_char c [] = [[]]"
| "split_char c (x # s) =
     (if x = c then [] # split_char c s
      else case split_char c s of [] \<Rightarrow> [[x]] | w # ws \<Rightarrow> (x # w) # ws)"

fun splitn_char :: "nat \<Rightarrow> char \<Rightarrow> string \<Rightarrow> string list" where
  "splitn_char 0 c s = []"
| "splitn_char (Suc 0) c s = [s]"
| "splitn_char (Suc (Suc n)) c s =
     (case split_once [c] s of None \<Rightarrow> [s]
      | Some (a, b) \<Rightarrow> a # splitn_char (Suc n) c b)"

fun join :: "string \<Rightarrow> string list \<Rightarrow> string" where
  "join sep [] = []"
| "join sep [w] = w"
| "join sep (w # v # ws) = w @ sep @ join sep (v # ws)"

lemma starts_with_append [simp]: "starts_with p (p @ s)"
  by (simp add: starts_with_def)

lemma starts_with_iff: "starts_with p s \<longleftrightarrow> (\<exists>t. s = p @ t)"
  by (auto simp: starts_with_def) (metis append_take_drop_id)

lemma starts_with_Nil [simp]: "starts_with [] s"
  by (simp add: starts_with_def)

lemma starts_with_Cons [simp]: "starts_with (x # p) (y # s) \<longleftrightarrow> x = y \<and> starts_with p s"
  by (auto simp: starts_with_def)

lemma starts_with_Cons_Nil [simp]: "\<not> starts_with (x # p) []"
  by (simp add: starts_with_def)

lemma strip_prefix_append [simp]: "strip_prefix p (p @ s) = Some s"
  by (simp add: strip_prefix_def)

lemma strip_prefix_Some: "strip_prefix p s = Some t \<longleftrightarrow> s = p @ t"
  by (auto simp: strip_prefix_def starts_with_iff split: if_splits)

lemma find_str_Some:
  "find_str p s = Some i \<Longrightarrow> i + length p \<le> length s \<and> take (length p) (drop i s) = p"
proof (induction s arbitrary: i)
  case Nil
  then show ?case by (auto split: if_splits)
next
  case (Cons c s)
  show ?case
  proof (cases "starts_with p (c # s)")
    case True
    then show ?thesis using Cons.prems
      by (auto simp: starts_with_iff) (metis le_add1 length_Cons length_append)
  next
    case False
    then obtain j where "find_str p s = Some j" "i = Suc j"
      using Cons.prems by auto
    then show ?thesis using Cons.IH [of j] by simp
  qed
qed

lemma find_str_split:
  assumes "find_str p s = Some i"
  shows "s = take i s @ p @ drop (i + length p) s"
proof -
  have "take (length p) (drop i s) = p" using find_str_Some [OF assms] by blast
  then have "drop i s = p @ drop (i + length p) s"
    by (metis append_take_drop_id drop_drop add.commute)
  then show ?thesis by (metis append_take_drop_id)
qed

lemma split_once_join: "split_once p s = Some (a, b) \<Longrightarrow> s = a @ p @ b"
  by (auto simp: split_once_def split: option.splits dest!: find_str_split)

lemma find_char_absent: "c \<notin> set s \<Longrightarrow> find_str [c] s = None"
  by (induction s) auto

lemma find_char_first: "c \<notin> set a \<Longrightarrow> find_str [c] (a @ c # b) = Some (length a)"
  by (induction a) auto

lemma contains_char [simp]: "contains [c] s \<longleftrightarrow> c \<in> set s"
  unfolding contains_def by (induction s) auto

lemma split_once_char: "c \<notin> set a \<Longrightarrow> split_once [c] (a @ c # b) = Some (a, b)"
  by (simp add: split_once_def find_char_first)

lemma split_char_not_Nil [simp]: "split_char c s \<noteq> []"
  by (induction s) (auto split: list.splits)

lemma split_char_join: "join [c] (split_char c s) = s"
proof (induction s)
  case (Cons x s)
  then show ?case
    by (cases "split_char c s" rule: list.exhaust; cases "tl (split_char c s)") auto
qed simp

lemma split_char_absent: "c \<notin> set s \<Longrightarrow> split_char c s = [s]"
  by (induction s) auto

section \<open>Whitespace\<close>

text \<open>\<open>ws_len s\<close> is the number of bytes of the whitespace character \<open>s\<close> starts
  with (\<open>char::is_whitespace\<close>), 0 when it starts with another one; \<open>ws_len_rev\<close> the
  same for the last character, on the reversed bytes.\<close>

definition ascii_ws :: "char \<Rightarrow> bool" where
  "ascii_ws c = (let n = (of_char c :: nat) in n = 32 \<or> (9 \<le> n \<and> n \<le> 13))"

definition ws2 :: "char \<Rightarrow> char \<Rightarrow> bool" where
  "ws2 a b = ((of_char a :: nat) = 194 \<and> ((of_char b :: nat) = 133 \<or> (of_char b :: nat) = 160))"

definition ws3 :: "char \<Rightarrow> char \<Rightarrow> char \<Rightarrow> bool" where
  "ws3 a b c = (let x = (of_char a :: nat); y = (of_char b :: nat); z = (of_char c :: nat) in
     (x = 225 \<and> y = 154 \<and> z = 128) \<or>
     (x = 226 \<and> y = 128 \<and> (128 \<le> z \<and> z \<le> 138 \<or> z = 168 \<or> z = 169 \<or> z = 175)) \<or>
     (x = 226 \<and> y = 129 \<and> z = 159) \<or>
     (x = 227 \<and> y = 128 \<and> z = 128))"

fun ws_len :: "string \<Rightarrow> nat" where
  "ws_len (a # b # c # s) = (if ascii_ws a then 1 else if ws2 a b then 2 else if ws3 a b c then 3 else 0)"
| "ws_len [a, b] = (if ascii_ws a then 1 else if ws2 a b then 2 else 0)"
| "ws_len [a] = (if ascii_ws a then 1 else 0)"
| "ws_len [] = 0"

fun ws_len_rev :: "string \<Rightarrow> nat" where
  "ws_len_rev (c # b # a # s) = (if ascii_ws c then 1 else if ws2 b c then 2 else if ws3 a b c then 3 else 0)"
| "ws_len_rev [b, a] = (if ascii_ws b then 1 else if ws2 a b then 2 else 0)"
| "ws_len_rev [a] = (if ascii_ws a then 1 else 0)"
| "ws_len_rev [] = 0"

lemma ws_len_le: "ws_len s \<le> length s"
  by (induction s rule: ws_len.induct) auto

lemma ws_len_rev_le: "ws_len_rev s \<le> length s"
  by (induction s rule: ws_len_rev.induct) auto

function trim_start :: "string \<Rightarrow> string" where
  "trim_start s = (if ws_len s = 0 then s else trim_start (drop (ws_len s) s))"
  by auto
termination
proof (relation "measure length", simp_all)
  fix s :: string assume "0 < ws_len s"
  with ws_len_le [of s] show "length s - ws_len s < length s" by linarith
qed

function trim_rev :: "string \<Rightarrow> string" where
  "trim_rev s = (if ws_len_rev s = 0 then s else trim_rev (drop (ws_len_rev s) s))"
  by auto
termination
proof (relation "measure length", simp_all)
  fix s :: string assume "0 < ws_len_rev s"
  with ws_len_rev_le [of s] show "length s - ws_len_rev s < length s" by linarith
qed

declare trim_start.simps [simp del] trim_rev.simps [simp del]

definition trim_end :: "string \<Rightarrow> string" where
  "trim_end s = rev (trim_rev (rev s))"

definition trim :: "string \<Rightarrow> string" where
  "trim s = trim_end (trim_start s)"

lemma ws_len_append: "ws_len s \<noteq> 0 \<Longrightarrow> ws_len (s @ t) = ws_len s"
proof (induction s rule: ws_len.induct)
  case (2 a b)
  then show ?case by (cases t) (auto split: if_splits)
next
  case (3 a)
  then show ?case by (cases t rule: ws_len.cases) (auto split: if_splits)
qed auto

lemma trim_start_ws_len [simp]: "ws_len (trim_start s) = 0"
proof (induction s rule: trim_start.induct)
  case (1 s)
  then show ?case by (subst trim_start.simps) auto
qed

lemma trim_rev_ws_len [simp]: "ws_len_rev (trim_rev s) = 0"
proof (induction s rule: trim_rev.induct)
  case (1 s)
  then show ?case by (subst trim_rev.simps) auto
qed

lemma trim_start_id: "ws_len s = 0 \<Longrightarrow> trim_start s = s"
  by (subst trim_start.simps) simp

lemma trim_rev_id: "ws_len_rev s = 0 \<Longrightarrow> trim_rev s = s"
  by (subst trim_rev.simps) simp

lemma trim_rev_suffix: "\<exists>p. s = p @ trim_rev s"
proof (induction s rule: trim_rev.induct)
  case (1 s)
  show ?case
  proof (cases "ws_len_rev s = 0")
    case True
    then show ?thesis by (simp add: trim_rev_id)
  next
    case False
    then obtain p where "drop (ws_len_rev s) s = p @ trim_rev (drop (ws_len_rev s) s)"
      using 1 by blast
    then have "s = (take (ws_len_rev s) s @ p) @ trim_rev s"
      using False by (subst trim_rev.simps) (metis append_take_drop_id append.assoc)
    then show ?thesis by blast
  qed
qed

lemma trim_end_prefix: "\<exists>p. s = trim_end s @ p"
  using trim_rev_suffix [of "rev s"] unfolding trim_end_def by (metis rev_append rev_rev_ident)

lemma trim_start_suffix: "\<exists>p. s = p @ trim_start s"
proof (induction s rule: trim_start.induct)
  case (1 s)
  show ?case
  proof (cases "ws_len s = 0")
    case True
    then show ?thesis by (simp add: trim_start_id)
  next
    case False
    then obtain p where "drop (ws_len s) s = p @ trim_start (drop (ws_len s) s)"
      using 1 by blast
    then have "s = (take (ws_len s) s @ p) @ trim_start s"
      using False by (subst trim_start.simps) (metis append_take_drop_id append.assoc)
    then show ?thesis by blast
  qed
qed

lemma ws_len_prefix: "ws_len (s @ t) = 0 \<Longrightarrow> ws_len s = 0"
  using ws_len_append [of s t] by (cases "ws_len s = 0") auto

lemma ws_len_trim [simp]: "ws_len (trim s) = 0"
  unfolding trim_def using trim_end_prefix [of "trim_start s"] ws_len_prefix
  by (metis trim_start_ws_len)

lemma ws_len_rev_trim [simp]: "ws_len_rev (rev (trim s)) = 0"
  by (simp add: trim_def trim_end_def)

lemma trim_id: "ws_len s = 0 \<Longrightarrow> ws_len_rev (rev s) = 0 \<Longrightarrow> trim s = s"
  by (simp add: trim_def trim_end_def trim_start_id trim_rev_id)

lemma trim_idem [simp]: "trim (trim s) = trim s"
  by (rule trim_id) simp_all

lemma length_trim: "length (trim s) \<le> length s"
proof -
  obtain p q where "s = p @ trim_start s" "trim_start s = trim_end (trim_start s) @ q"
    using trim_start_suffix trim_end_prefix by blast
  then have "length s = length p + length (trim s) + length q"
    unfolding trim_def by (metis length_append add.assoc)
  then show ?thesis by simp
qed

lemma set_trim: "set (trim s) \<subseteq> set s"
proof -
  obtain p q where "s = p @ trim_start s" "trim_start s = trim_end (trim_start s) @ q"
    using trim_start_suffix trim_end_prefix by blast
  then show ?thesis unfolding trim_def by (metis set_append Un_iff subsetI)
qed

lemma trim_Nil [simp]: "trim [] = []"
  by (simp add: trim_id)

text \<open>ASCII text without spaces and control characters is left alone by \<open>trim\<close>.\<close>

definition graphic :: "char \<Rightarrow> bool" where
  "graphic c = (let n = (of_char c :: nat) in 33 \<le> n \<and> n \<le> 126)"

lemma graphic_not_ws: "graphic c \<Longrightarrow> \<not> ascii_ws c" "graphic c \<Longrightarrow> \<not> ws2 c d"
  "graphic c \<Longrightarrow> \<not> ws3 c d e" "graphic d \<Longrightarrow> \<not> ws2 c d" "graphic e \<Longrightarrow> \<not> ws3 c d e"
  by (auto simp: graphic_def ascii_ws_def ws2_def ws3_def Let_def)

lemma ws_len_graphic: "graphic c \<Longrightarrow> ws_len (c # s) = 0"
  by (cases "c # s" rule: ws_len.cases) (auto simp: graphic_not_ws)

lemma ws_len_rev_graphic: "graphic c \<Longrightarrow> ws_len_rev (c # s) = 0"
  by (cases "c # s" rule: ws_len_rev.cases) (auto simp: graphic_not_ws)

lemma trim_graphic:
  assumes "list_all graphic s"
  shows "trim s = s"
proof (rule trim_id)
  show "ws_len s = 0" using assms by (cases s) (auto simp: ws_len_graphic)
  show "ws_len_rev (rev s) = 0"
  proof (cases s rule: rev_cases)
    case (snoc t c)
    then show ?thesis using assms by (simp add: ws_len_rev_graphic)
  qed simp
qed

text \<open>\<open>split_whitespace\<close>: the words between runs of whitespace.\<close>

fun take_word :: "string \<Rightarrow> string \<times> string" where
  "take_word [] = ([], [])"
| "take_word (c # s) =
     (if ws_len (c # s) \<noteq> 0 then ([], c # s)
      else (let (w, r) = take_word s in (c # w, r)))"

lemma length_take_word: "length (snd (take_word s)) \<le> length s"
  by (induction s) (auto split: prod.splits)

lemma take_word_shrinks:
  "s \<noteq> [] \<Longrightarrow> ws_len s = 0 \<Longrightarrow> length (snd (take_word s)) < length s"
  by (cases s) (use length_take_word in \<open>auto simp: less_Suc_eq_le split: prod.splits\<close>,
    metis snd_conv)

lemma length_trim_start: "length (trim_start s) \<le> length s"
  using trim_start_suffix [of s] by (metis le_add2 length_append)

function split_whitespace :: "string \<Rightarrow> string list" where
  "split_whitespace s =
     (if trim_start s = [] then []
      else fst (take_word (trim_start s)) # split_whitespace (snd (take_word (trim_start s))))"
  by auto
termination
proof (relation "measure length", simp_all)
  fix s :: string assume "trim_start s \<noteq> []"
  then show "length (snd (take_word (trim_start s))) < length s"
    using take_word_shrinks [of "trim_start s"] length_trim_start [of s] by simp
qed

declare split_whitespace.simps [simp del]

section \<open>Letter case\<close>

definition lower_char :: "char \<Rightarrow> char" where
  "lower_char c = (let n = (of_char c :: nat) in
     if 65 \<le> n \<and> n \<le> 90 then char_of (n + 32) else c)"

definition upper_char :: "char \<Rightarrow> char" where
  "upper_char c = (let n = (of_char c :: nat) in
     if 97 \<le> n \<and> n \<le> 122 then char_of (n - 32) else c)"

definition to_lowercase :: "string \<Rightarrow> string" where
  "to_lowercase s = map lower_char s"

definition to_uppercase :: "string \<Rightarrow> string" where
  "to_uppercase s = map upper_char s"

definition is_ascii_char :: "char \<Rightarrow> bool" where
  "is_ascii_char c = ((of_char c :: nat) < 128)"

definition is_ascii_digit :: "char \<Rightarrow> bool" where
  "is_ascii_digit c = (let n = (of_char c :: nat) in 48 \<le> n \<and> n \<le> 57)"

definition is_ascii_alpha :: "char \<Rightarrow> bool" where
  "is_ascii_alpha c = (let n = (of_char c :: nat) in (65 \<le> n \<and> n \<le> 90) \<or> (97 \<le> n \<and> n \<le> 122))"

lemma of_lower_char: "(of_char (lower_char c) :: nat) =
    (if 65 \<le> (of_char c :: nat) \<and> (of_char c :: nat) \<le> 90 then of_char c + 32 else of_char c)"
  by (simp add: lower_char_def Let_def)

lemma char_eq_code: "c = d \<longleftrightarrow> (of_char c :: nat) = of_char d"
  by simp

lemma lower_char_idem [simp]: "lower_char (lower_char c) = lower_char c"
  by (auto simp: lower_char_def Let_def)

lemma to_lowercase_idem [simp]: "to_lowercase (to_lowercase s) = to_lowercase s"
  by (simp add: to_lowercase_def)

lemma to_lowercase_append [simp]: "to_lowercase (s @ t) = to_lowercase s @ to_lowercase t"
  by (simp add: to_lowercase_def)

lemma to_lowercase_Nil [simp]: "to_lowercase [] = []" "to_lowercase s = [] \<longleftrightarrow> s = []"
  by (simp_all add: to_lowercase_def)

lemma length_to_lowercase [simp]: "length (to_lowercase s) = length s"
  by (simp add: to_lowercase_def)

lemma ascii_ws_lower [simp]: "ascii_ws (lower_char c) = ascii_ws c"
  by (simp add: ascii_ws_def of_lower_char Let_def)

lemma ws2_lower [simp]: "ws2 (lower_char a) (lower_char b) = ws2 a b"
  by (auto simp: ws2_def of_lower_char Let_def)

lemma lower_eq: "128 \<le> k \<Longrightarrow> (of_char (lower_char c) :: nat) = k \<longleftrightarrow> (of_char c :: nat) = k"
  by (auto simp: of_lower_char)

lemma lower_le: "128 \<le> k \<Longrightarrow> (of_char (lower_char c) :: nat) \<le> k \<longleftrightarrow> (of_char c :: nat) \<le> k"
  by (auto simp: of_lower_char)

lemma lower_ge: "128 \<le> k \<Longrightarrow> k \<le> (of_char (lower_char c) :: nat) \<longleftrightarrow> k \<le> (of_char c :: nat)"
  by (auto simp: of_lower_char)

lemma ws3_lower [simp]: "ws3 (lower_char a) (lower_char b) (lower_char c) = ws3 a b c"
  by (simp add: ws3_def Let_def lower_eq lower_le lower_ge)

lemma ws_len_lower [simp]: "ws_len (to_lowercase s) = ws_len s"
  unfolding to_lowercase_def by (induction s rule: ws_len.induct) auto

lemma ws_len_rev_lower [simp]: "ws_len_rev (to_lowercase s) = ws_len_rev s"
  unfolding to_lowercase_def by (induction s rule: ws_len_rev.induct) auto

lemma rev_to_lowercase: "rev (to_lowercase s) = to_lowercase (rev s)"
  by (simp add: to_lowercase_def rev_map)

lemma drop_to_lowercase: "drop n (to_lowercase s) = to_lowercase (drop n s)"
  by (simp add: to_lowercase_def drop_map)

lemma trim_start_lower: "trim_start (to_lowercase s) = to_lowercase (trim_start s)"
proof (induction s rule: trim_start.induct)
  case (1 s)
  then show ?case
    by (subst (1 2) trim_start.simps) (simp add: drop_to_lowercase)
qed

lemma trim_rev_lower: "trim_rev (to_lowercase s) = to_lowercase (trim_rev s)"
proof (induction s rule: trim_rev.induct)
  case (1 s)
  then show ?case
    by (subst (1 2) trim_rev.simps) (simp add: drop_to_lowercase)
qed

lemma trim_to_lowercase: "trim (to_lowercase s) = to_lowercase (trim s)"
  by (simp add: trim_def trim_end_def trim_start_lower trim_rev_lower rev_to_lowercase)

section \<open>Decimal parsing\<close>

text \<open>\<open>str::parse\<close> for unsigned types (an optional plus sign, at least one digit,
  no overflow) and for \<open>i64\<close>.\<close>

fun digits_val :: "nat \<Rightarrow> string \<Rightarrow> nat option" where
  "digits_val acc [] = Some acc"
| "digits_val acc (c # s) = (if is_ascii_digit c then digits_val (10 * acc + (of_char c - 48)) s else None)"

definition parse_digits :: "string \<Rightarrow> nat option" where
  "parse_digits s = (if s = [] then None else digits_val 0 s)"

definition parse_unsigned :: "nat \<Rightarrow> string \<Rightarrow> nat option" where
  "parse_unsigned w s =
     (case parse_digits (case s of c # t \<Rightarrow> if c = CHR ''+'' then t else s | [] \<Rightarrow> []) of
        None \<Rightarrow> None
      | Some n \<Rightarrow> if n < 2 ^ w then Some n else None)"

definition parse_i64 :: "string \<Rightarrow> int option" where
  "parse_i64 s =
     (case s of [] \<Rightarrow> None
      | c # t \<Rightarrow>
        if c = CHR ''-'' then
          (case parse_digits t of None \<Rightarrow> None | Some n \<Rightarrow> if n \<le> 2 ^ 63 then Some (- int n) else None)
        else (case parse_digits (if c = CHR ''+'' then t else s) of
                None \<Rightarrow> None | Some n \<Rightarrow> if n < 2 ^ 63 then Some (int n) else None))"

lemma digit_char_code: "d < 10 \<Longrightarrow> (of_char (digit_char d) :: nat) = 48 + d"
  by (simp add: digit_char_def)

lemma digit_char_digit: "d < 10 \<Longrightarrow> is_ascii_digit (digit_char d)"
  by (simp add: is_ascii_digit_def Let_def digit_char_code)

lemma digits_val_append:
  "digits_val acc (s @ t) = (case digits_val acc s of None \<Rightarrow> None | Some m \<Rightarrow> digits_val m t)"
  by (induction s arbitrary: acc) auto

lemma digits_val_show: "digits_val 0 (show_nat n) = Some n"
proof (induction n rule: show_nat.induct)
  case (1 n)
  show ?case
  proof (cases "n < 10")
    case True
    then show ?thesis
      by (subst show_nat.simps) (simp add: digit_char_digit digit_char_code)
  next
    case False
    then have "digits_val 0 (show_nat (n div 10)) = Some (n div 10)" using 1 by simp
    then show ?thesis using False
      by (subst show_nat.simps) (simp add: digits_val_append digit_char_digit digit_char_code)
  qed
qed

lemma show_nat_not_Nil [simp]: "show_nat n \<noteq> []"
  by (subst show_nat.simps) simp

lemma show_nat_digits: "c \<in> set (show_nat n) \<Longrightarrow> is_ascii_digit c"
proof (induction n rule: show_nat.induct)
  case (1 n)
  then show ?case
    by (subst (asm) show_nat.simps) (auto simp: digit_char_digit split: if_splits)
qed

lemma show_nat_hd: "hd (show_nat n) \<noteq> CHR ''+''" "hd (show_nat n) \<noteq> CHR ''-''"
  using show_nat_digits [of "hd (show_nat n)" n]
  by (auto simp: is_ascii_digit_def Let_def)

lemma parse_show_nat: "parse_digits (show_nat n) = Some n"
  by (simp add: parse_digits_def digits_val_show)

lemma parse_unsigned_show: "n < 2 ^ w \<Longrightarrow> parse_unsigned w (show_nat n) = Some n"
  using show_nat_hd [of n] parse_show_nat [of n]
  by (cases "show_nat n") (auto simp: parse_unsigned_def)

lemma parse_i64_show: "- (2 ^ 63) \<le> i \<Longrightarrow> i < 2 ^ 63 \<Longrightarrow> parse_i64 (show_int i) = Some i"
proof (cases "i < 0")
  case True
  assume "- (2 ^ 63) \<le> i"
  then have "nat (- i) \<le> 2 ^ 63" by simp
  then show ?thesis using True parse_show_nat [of "nat (- i)"]
    by (simp add: parse_i64_def show_int_def)
next
  case False
  assume "i < 2 ^ 63"
  then have "nat i < 2 ^ 63" using False by simp
  then show ?thesis using False show_nat_hd [of "nat i"] parse_show_nat [of "nat i"]
    by (cases "show_nat (nat i)") (auto simp: parse_i64_def show_int_def)
qed

section \<open>UTF-8\<close>

text \<open>\<open>utf8_step\<close> reads the head of a byte string as \<open>core::str::Utf8Chunks\<close> does:
  whether a whole character stands there, and how many bytes the character, or
  else the maximal ill-formed piece of it, has.\<close>

definition utf8_cont :: "u8 \<Rightarrow> bool" where
  "utf8_cont b = (0x80 \<le> b \<and> b \<le> 0xBF)"

definition second_ok :: "u8 \<Rightarrow> u8 \<Rightarrow> bool" where
  "second_ok a b =
     (if a = 0xE0 then 0xA0 \<le> b \<and> b \<le> 0xBF
      else if a = 0xED then 0x80 \<le> b \<and> b \<le> 0x9F
      else if a = 0xF0 then 0x90 \<le> b \<and> b \<le> 0xBF
      else if a = 0xF4 then 0x80 \<le> b \<and> b \<le> 0x8F
      else utf8_cont b)"

definition nth0 :: "bytes \<Rightarrow> nat \<Rightarrow> u8" where
  "nth0 bs i = (if i < length bs then bs ! i else 0)"

definition utf8_step :: "bytes \<Rightarrow> bool \<times> nat" where
  "utf8_step bs =
     (let a = nth0 bs 0; b = nth0 bs 1; c = nth0 bs 2; d = nth0 bs 3 in
      if a < 0x80 then (True, 1)
      else if 0xC2 \<le> a \<and> a \<le> 0xDF then (if utf8_cont b then (True, 2) else (False, 1))
      else if 0xE0 \<le> a \<and> a \<le> 0xEF then
        (if \<not> second_ok a b then (False, 1) else if utf8_cont c then (True, 3) else (False, 2))
      else if 0xF0 \<le> a \<and> a \<le> 0xF4 then
        (if \<not> second_ok a b then (False, 1) else if \<not> utf8_cont c then (False, 2)
         else if utf8_cont d then (True, 4) else (False, 3))
      else (False, 1))"

lemma utf8_step_pos: "0 < snd (utf8_step bs)"
  by (simp add: utf8_step_def Let_def)

function utf8_valid :: "bytes \<Rightarrow> bool" where
  "utf8_valid bs =
     (if bs = [] then True
      else if fst (utf8_step bs) then utf8_valid (drop (snd (utf8_step bs)) bs) else False)"
  by auto
termination
  by (relation "measure length") (auto simp: utf8_step_pos)

function lossy_bytes :: "bytes \<Rightarrow> bytes" where
  "lossy_bytes bs =
     (if bs = [] then []
      else (if fst (utf8_step bs) then take (snd (utf8_step bs)) bs else [0xEF, 0xBF, 0xBD]) @
           lossy_bytes (drop (snd (utf8_step bs)) bs))"
  by auto
termination
  by (relation "measure length") (auto simp: utf8_step_pos)

declare utf8_valid.simps [simp del] lossy_bytes.simps [simp del]

definition from_utf8 :: "bytes \<Rightarrow> string option" where
  "from_utf8 bs = (if utf8_valid bs then Some (str_of bs) else None)"

definition from_utf8_lossy :: "bytes \<Rightarrow> string" where
  "from_utf8_lossy bs = str_of (lossy_bytes bs)"

lemma lossy_valid: "utf8_valid bs \<Longrightarrow> lossy_bytes bs = bs"
proof (induction bs rule: utf8_valid.induct)
  case (1 bs)
  then show ?case
    by (subst (asm) (2) utf8_valid.simps, subst lossy_bytes.simps) auto
qed

lemma utf8_valid_Nil [simp]: "utf8_valid []"
  by (subst utf8_valid.simps) simp

lemma utf8_valid_ascii: "list_all (\<lambda>b. b < 0x80) bs \<Longrightarrow> utf8_valid bs"
proof (induction bs)
  case (Cons b bs)
  then have "utf8_step (b # bs) = (True, 1)"
    by (simp add: utf8_step_def nth0_def)
  then show ?case using Cons by (subst utf8_valid.simps) simp
qed simp

lemma from_utf8_lossy_valid: "utf8_valid bs \<Longrightarrow> from_utf8_lossy bs = str_of bs"
  by (simp add: from_utf8_lossy_def lossy_valid)

lemma from_utf8_Some: "from_utf8 bs = Some s \<Longrightarrow> as_bytes s = bs"
  by (auto simp: from_utf8_def split: if_splits)

text \<open>Valid strings put together are valid.\<close>

lemma not_cont_zero: "\<not> utf8_cont 0" "\<not> second_ok a 0"
  by (simp_all add: utf8_cont_def second_ok_def)

lemma utf8_step_whole:
  assumes "a \<noteq> []" "fst (utf8_step a)"
  shows "utf8_step (a @ b) = utf8_step a" "snd (utf8_step a) \<le> length a"
proof -
  have e: "nth0 (a @ b) i = nth0 a i" if "i < length a" for i using that by (simp add: nth0_def nth_append)
  have p: "nth0 a i = 0" if "length a \<le> i" for i using that by (simp add: nth0_def)
  have l: "0 < length a" using assms(1) by simp
  have c: "utf8_cont (nth0 a 1) \<longrightarrow> 1 < length a" "second_ok (nth0 a 0) (nth0 a 1) \<longrightarrow> 1 < length a"
    "utf8_cont (nth0 a 2) \<longrightarrow> 2 < length a" "utf8_cont (nth0 a 3) \<longrightarrow> 3 < length a"
    using p [of 1] p [of 2] p [of 3] not_cont_zero by (metis not_le)+
  show "utf8_step (a @ b) = utf8_step a"
    using assms(2) c l unfolding utf8_step_def Let_def by (auto simp: e split: if_splits)
  show "snd (utf8_step a) \<le> length a"
    using assms(2) c l unfolding utf8_step_def Let_def by (auto simp: Suc_le_eq split: if_splits)
qed

lemma utf8_valid_append: "utf8_valid a \<Longrightarrow> utf8_valid b \<Longrightarrow> utf8_valid (a @ b)"
proof (induction a rule: utf8_valid.induct)
  case (1 a)
  show ?case
  proof (cases "a = []")
    case False
    then have f: "fst (utf8_step a)" "utf8_valid (drop (snd (utf8_step a)) a)"
      using 1(2) by (subst (asm) utf8_valid.simps, simp split: if_splits)+
    then have "utf8_valid (drop (snd (utf8_step a)) a @ b)" using 1 False by simp
    then show ?thesis using utf8_step_whole(1) [OF False f(1), of b] utf8_step_whole(2) [OF False f(1)] False f(1)
      by (subst utf8_valid.simps) simp
  qed (use 1 in simp)
qed

lemma ascii_valid: "list_all (\<lambda>c. (of_char c :: nat) < 128) s \<Longrightarrow> utf8_valid (as_bytes s)"
  by (rule utf8_valid_ascii) (auto simp: as_bytes_def list_all_iff byte_of_def word_less_nat_alt unat_of_nat)

lemma graphic_code: "graphic c \<Longrightarrow> (of_char c :: nat) < 128" "graphic c \<Longrightarrow> c \<noteq> CHR 0x00"
  "graphic c \<Longrightarrow> c \<noteq> CHR 0x0D" "graphic c \<Longrightarrow> c \<noteq> CHR 0x0A"
  by (auto simp: graphic_def Let_def)

lemma graphic_valid: "list_all graphic s \<Longrightarrow> utf8_valid (as_bytes s)"
  by (rule ascii_valid) (auto simp: list_all_iff graphic_code)

section \<open>Lines\<close>

definition CRLF :: string where "CRLF = [CHR 0x0D, CHR 0x0A]"

lemma split_once_shrinks: "split_once p s = Some (a, b) \<Longrightarrow> p \<noteq> [] \<Longrightarrow> length b < length s"
  using split_once_join [of p s a b] by auto

text \<open>\<open>str::split\<close> with a pattern that is not empty.\<close>

function split_str :: "string \<Rightarrow> string \<Rightarrow> string list" where
  "split_str p s =
     (if p = [] then [s]
      else case split_once p s of None \<Rightarrow> [s] | Some ab \<Rightarrow> fst ab # split_str p (snd ab))"
  by auto
termination
  by (relation "measure (\<lambda>(p, s). length s)") (auto dest: split_once_shrinks)

declare split_str.simps [simp del]

lemma split_str_None: "split_once p s = None \<Longrightarrow> split_str p s = [s]"
  by (subst split_str.simps) simp

lemma split_str_Some: "p \<noteq> [] \<Longrightarrow> split_once p s = Some (a, b) \<Longrightarrow> split_str p s = a # split_str p b"
  by (subst split_str.simps) simp

lemma split_str_not_Nil [simp]: "split_str p s \<noteq> []"
  by (subst split_str.simps) (simp split: option.split)

lemma split_str_join: "p \<noteq> [] \<Longrightarrow> join p (split_str p s) = s"
proof (induction p s rule: split_str.induct)
  case (1 p s)
  show ?case
  proof (cases "split_once p s")
    case None
    then show ?thesis by (simp add: split_str_None)
  next
    case (Some ab)
    then have "join p (split_str p (snd ab)) = snd ab" "s = fst ab @ p @ snd ab" "split_str p s = fst ab # split_str p (snd ab)"
      using 1 split_once_join [of p s "fst ab" "snd ab"] split_str_Some [of p s "fst ab" "snd ab"] by simp_all
    then show ?thesis by (cases "split_str p (snd ab)") auto
  qed
qed

end
