(* ===== verification/ExtLib.thy ===== *)
theory ExtLib
  imports RustStr
begin

text \<open>
  The crates the program calls (cryptography, base64, big integers, dates), as
  parameters: a record of functions, which every operation of the model that
  reaches a crate takes as its argument \<open>L\<close>.  What the program relies on is a named predicate on the record
  (\<open>b64_law\<close>, \<open>aead_law\<close>, \<open>caead_law\<close>, \<open>dh_law\<close>, \<open>hkdf_law\<close>, \<open>bf_law\<close>, \<open>modpow_law\<close>, \<open>bn_law\<close>, \<open>hex_law\<close>, \<open>date_law\<close>), each a
  documented property of the crate.  A \<open>DecodeError\<close> is its displayed text.
  The last section gives one concrete library that satisfies every law: RFC 4648
  base64 with transparent stand-ins for the ciphers, on which the witnesses run.
\<close>

record ext_lib =
  b64_enc :: "bytes \<Rightarrow> string"                             \<comment> \<open>base64 STANDARD.encode\<close>
  b64_dec :: "string \<Rightarrow> (string, bytes) result"            \<comment> \<open>base64 STANDARD.decode\<close>
  xseal :: "bytes \<Rightarrow> bytes \<Rightarrow> bytes \<Rightarrow> bytes \<Rightarrow> bytes option" \<comment> \<open>XChaCha20Poly1305 encrypt: key, nonce, aad, text\<close>
  xopen :: "bytes \<Rightarrow> bytes \<Rightarrow> bytes \<Rightarrow> bytes \<Rightarrow> bytes option" \<comment> \<open>XChaCha20Poly1305 decrypt\<close>
  cseal :: "bytes \<Rightarrow> bytes \<Rightarrow> bytes \<Rightarrow> bytes option"          \<comment> \<open>ChaCha20Poly1305 encrypt: key, nonce, text\<close>
  copen :: "bytes \<Rightarrow> bytes \<Rightarrow> bytes \<Rightarrow> bytes option"          \<comment> \<open>ChaCha20Poly1305 decrypt\<close>
  hkdf :: "bytes \<Rightarrow> bytes \<Rightarrow> bytes \<Rightarrow> nat \<Rightarrow> bytes option"   \<comment> \<open>HKDF-SHA256: salt, ikm, info, length\<close>
  sha256 :: "bytes \<Rightarrow> bytes"
  dh_mul :: "bytes \<Rightarrow> bytes \<Rightarrow> bytes"                       \<comment> \<open>X25519 of a secret and a public key\<close>
  dh_pub :: "bytes \<Rightarrow> bytes"                                \<comment> \<open>X25519 public key of a secret\<close>
  bf_enc :: "bytes \<Rightarrow> u32 \<times> u32 \<Rightarrow> u32 \<times> u32"               \<comment> \<open>Blowfish block encryption\<close>
  bf_dec :: "bytes \<Rightarrow> u32 \<times> u32 \<Rightarrow> u32 \<times> u32"
  modpow :: "nat \<Rightarrow> nat \<Rightarrow> nat \<Rightarrow> nat"                       \<comment> \<open>BigUint::modpow base exponent modulus\<close>
  bn_of :: "bytes \<Rightarrow> nat"                                   \<comment> \<open>BigUint::from_bytes_be\<close>
  bn_to :: "nat \<Rightarrow> bytes"                                   \<comment> \<open>BigUint::to_bytes_be\<close>
  hex_enc :: "bytes \<Rightarrow> string"                              \<comment> \<open>hex::encode\<close>
  hex_dec :: "string \<Rightarrow> (string, bytes) result"             \<comment> \<open>hex::decode\<close>
  date_fmt :: "int \<Rightarrow> string"                               \<comment> \<open>chrono: local seconds to year-month-day hour:minute:second\<close>
  date_parse :: "string \<Rightarrow> int option"                      \<comment> \<open>NaiveDateTime::parse_from_str of the same format\<close>
  rfc_fmt :: "int \<Rightarrow> string"                                \<comment> \<open>DateTime::to_rfc3339\<close>
  rfc_parse :: "string \<Rightarrow> int option"                       \<comment> \<open>DateTime::parse_from_rfc3339\<close>

section \<open>What the program relies on\<close>

definition b64_char :: "char \<Rightarrow> bool" where
  "b64_char c = (is_ascii_alpha c \<or> is_ascii_digit c \<or> c = CHR ''+'' \<or> c = CHR ''/'')"

definition b64_pad :: "nat \<Rightarrow> nat" where
  "b64_pad n = (3 - n mod 3) mod 3"

text \<open>RFC 4648: decoding inverts encoding; the text is made of alphabet characters
  followed by the padding that completes the last group of four.\<close>

definition b64_law :: "ext_lib \<Rightarrow> bool" where
  "b64_law L \<longleftrightarrow>
     (\<forall>bs. b64_dec L (b64_enc L bs) = Inr bs \<and>
       (\<exists>t. b64_enc L bs = t @ replicate (b64_pad (length bs)) (CHR ''='') \<and> list_all b64_char t) \<and>
       length (b64_enc L bs) = 4 * ((length bs + 2) div 3))"

definition aead_law :: "ext_lib \<Rightarrow> bool" where
  "aead_law L \<longleftrightarrow>
     (\<forall>k n a m. length k = 32 \<longrightarrow> length n = 24 \<longrightarrow>
        (\<exists>c. xseal L k n a m = Some c \<and> length c = length m + 16 \<and> xopen L k n a c = Some m))"

definition caead_law :: "ext_lib \<Rightarrow> bool" where
  "caead_law L \<longleftrightarrow>
     (\<forall>k n m. length k = 32 \<longrightarrow> length n = 12 \<longrightarrow>
        (\<exists>c. cseal L k n m = Some c \<and> length c = length m + 16 \<and> copen L k n c = Some m))"

definition hkdf_law :: "ext_lib \<Rightarrow> bool" where
  "hkdf_law L \<longleftrightarrow>
     (\<forall>s k i n. n \<le> 8160 \<longrightarrow> (\<exists>out. hkdf L s k i n = Some out \<and> length out = n)) \<and>
     (\<forall>d. length (sha256 L d) = 32)"

definition dh_law :: "ext_lib \<Rightarrow> bool" where
  "dh_law L \<longleftrightarrow> (\<forall>a b. dh_mul L a (dh_pub L b) = dh_mul L b (dh_pub L a)) \<and>
     (\<forall>a. length a = 32 \<longrightarrow> length (dh_pub L a) = 32) \<and>
     (\<forall>a p. length a = 32 \<longrightarrow> length p = 32 \<longrightarrow> length (dh_mul L a p) = 32)"

definition bf_law :: "ext_lib \<Rightarrow> bool" where
  "bf_law L \<longleftrightarrow> (\<forall>k b. bf_dec L k (bf_enc L k b) = b)"

definition modpow_law :: "ext_lib \<Rightarrow> bool" where
  "modpow_law L \<longleftrightarrow> (\<forall>b e m. 0 < m \<longrightarrow> modpow L b e m = b ^ e mod m)"

text \<open>Big-endian bytes without leading zeros on the way out, with any on the way in.\<close>

definition bn_law :: "ext_lib \<Rightarrow> bool" where
  "bn_law L \<longleftrightarrow> (\<forall>n z. bn_of L (replicate z 0 @ bn_to L n) = n) \<and>
     (\<forall>n k. n < 256 ^ k \<longrightarrow> 0 < k \<longrightarrow> length (bn_to L n) \<le> k)"

definition hex_digit :: "char \<Rightarrow> bool" where
  "hex_digit c = (is_ascii_digit c \<or> (let n = of_char c :: nat in (97 \<le> n \<and> n \<le> 102) \<or> (65 \<le> n \<and> n \<le> 70)))"

definition hex_law :: "ext_lib \<Rightarrow> bool" where
  "hex_law L \<longleftrightarrow> (\<forall>bs. hex_dec L (hex_enc L bs) = Inr bs \<and> length (hex_enc L bs) = 2 * length bs \<and>
     list_all hex_digit (hex_enc L bs)) \<and>
     (\<forall>s. length s mod 2 = 0 \<longrightarrow> list_all hex_digit s \<longrightarrow> (\<exists>bs. hex_dec L s = Inr bs \<and> 2 * length bs = length s))"

text \<open>Four-digit years, which is what the format writes and reads.\<close>

definition date_law :: "ext_lib \<Rightarrow> bool" where
  "date_law L \<longleftrightarrow> (\<forall>t. 0 \<le> t \<and> t < 253402300800 \<longrightarrow>
     date_parse L (date_fmt L t) = Some t \<and> rfc_parse L (rfc_fmt L t) = Some t)"

definition lib_ok :: "ext_lib \<Rightarrow> bool" where
  "lib_ok L \<longleftrightarrow> b64_law L \<and> aead_law L \<and> caead_law L \<and> hkdf_law L \<and> dh_law L \<and> bf_law L \<and> modpow_law L \<and> bn_law L \<and>
     hex_law L \<and> date_law L"

lemma b64_roundtrip: "b64_law L \<Longrightarrow> b64_dec L (b64_enc L bs) = Inr bs"
  by (simp add: b64_law_def)

lemma b64_length: "b64_law L \<Longrightarrow> length (b64_enc L bs) = 4 * ((length bs + 2) div 3)"
  by (simp add: b64_law_def)

lemma b64_char_graphic: "b64_char c \<Longrightarrow> graphic c"
  by (auto simp: b64_char_def graphic_def is_ascii_alpha_def is_ascii_digit_def Let_def)

lemma b64_char_noteq: "b64_char c \<Longrightarrow> c \<noteq> CHR ''=''"
  by (auto simp: b64_char_def is_ascii_alpha_def is_ascii_digit_def Let_def)

lemma b64_form:
  assumes "b64_law L"
  obtains t where "b64_enc L bs = t @ replicate (b64_pad (length bs)) (CHR ''='')" "list_all b64_char t"
  using assms unfolding b64_law_def by blast

lemma b64_graphic: "b64_law L \<Longrightarrow> list_all graphic (b64_enc L bs)"
proof (rule b64_form [of L bs])
  fix t assume "b64_enc L bs = t @ replicate (b64_pad (length bs)) (CHR ''='')" "list_all b64_char t"
  moreover have "graphic (CHR ''='')" by (simp add: graphic_def)
  ultimately show "list_all graphic (b64_enc L bs)"
    by (auto simp: list_all_iff intro: b64_char_graphic)
qed

lemma b64_trim [simp]: "b64_law L \<Longrightarrow> trim (b64_enc L bs) = b64_enc L bs"
  by (simp add: trim_graphic b64_graphic)

lemma b64_inject: "b64_law L \<Longrightarrow> b64_enc L a = b64_enc L b \<Longrightarrow> a = b"
  by (metis b64_roundtrip sum.inject(2))

lemma aead_seal:
  assumes "aead_law L" "length k = 32" "length n = 24"
  obtains c where "xseal L k n a m = Some c" "length c = length m + 16" "xopen L k n a c = Some m"
  using assms unfolding aead_law_def by blast

lemma caead_seal:
  assumes "caead_law L" "length k = 32" "length n = 12"
  obtains c where "cseal L k n m = Some c" "length c = length m + 16" "copen L k n c = Some m"
  using assms unfolding caead_law_def by blast

lemma hkdf_out:
  assumes "hkdf_law L" "n \<le> 8160"
  obtains out where "hkdf L s k i n = Some out" "length out = n"
  using assms unfolding hkdf_law_def by blast

section \<open>A library that satisfies the laws\<close>

definition b64_alpha :: string where
  "b64_alpha = ''ABCDEFGHIJKLMNOPQRSTUVWXYZabcdefghijklmnopqrstuvwxyz0123456789+/''"

fun index_of :: "'a \<Rightarrow> 'a list \<Rightarrow> nat option" where
  "index_of x [] = None"
| "index_of x (y # ys) = (if x = y then Some 0 else map_option Suc (index_of x ys))"

lemma index_of_nth: "distinct xs \<Longrightarrow> i < length xs \<Longrightarrow> index_of (xs ! i) xs = Some i"
proof (induction xs arbitrary: i)
  case (Cons y ys)
  then show ?case by (cases i) auto
qed simp

lemma index_of_SomeD: "index_of x xs = Some i \<Longrightarrow> i < length xs \<and> xs ! i = x"
  by (induction xs arbitrary: i) (auto split: if_splits)

lemma index_of_None [simp]: "index_of x xs = None \<longleftrightarrow> x \<notin> set xs"
  by (induction xs) auto

definition sx :: "nat \<Rightarrow> char" where
  "sx i = b64_alpha ! i"

definition xs_val :: "char \<Rightarrow> nat option" where
  "xs_val c = index_of c b64_alpha"

lemma length_b64_alpha: "length b64_alpha = 64"
  by (simp add: b64_alpha_def)

lemma distinct_b64_alpha: "distinct b64_alpha"
  by (simp add: b64_alpha_def)

lemma b64_alpha_chars: "list_all b64_char b64_alpha"
  by code_simp

lemma sx_char: "i < 64 \<Longrightarrow> b64_char (sx i)"
  using b64_alpha_chars by (simp add: sx_def list_all_length length_b64_alpha)

lemma xs_sx: "i < 64 \<Longrightarrow> xs_val (sx i) = Some i"
  by (simp add: xs_val_def sx_def index_of_nth distinct_b64_alpha length_b64_alpha)

lemma xs_eq: "xs_val (CHR ''='') = None"
  by code_simp

fun ref_enc :: "nat list \<Rightarrow> string" where
  "ref_enc [] = []"
| "ref_enc [a] = [sx (a div 4), sx (a mod 4 * 16), CHR ''='', CHR ''='']"
| "ref_enc [a, b] = [sx (a div 4), sx (a mod 4 * 16 + b div 16), sx (b mod 16 * 4), CHR ''='']"
| "ref_enc (a # b # c # r) =
     sx (a div 4) # sx (a mod 4 * 16 + b div 16) # sx (b mod 16 * 4 + c div 64) # sx (c mod 64) # ref_enc r"

fun ref_dec :: "string \<Rightarrow> nat list option" where
  "ref_dec [] = Some []"
| "ref_dec (p # q # r # s # t) =
     (case (xs_val p, xs_val q) of
        (Some w, Some x) \<Rightarrow>
          (case (xs_val r, xs_val s) of
             (Some y, Some z) \<Rightarrow>
               map_option (\<lambda>m. (w * 4 + x div 16) # (x mod 16 * 16 + y div 4) # (y mod 4 * 64 + z) # m) (ref_dec t)
           | (Some y, None) \<Rightarrow> if s = CHR ''='' \<and> t = [] \<and> y mod 4 = 0
               then Some [w * 4 + x div 16, x mod 16 * 16 + y div 4] else None
           | (None, _) \<Rightarrow> if r = CHR ''='' \<and> s = CHR ''='' \<and> t = [] \<and> x mod 16 = 0
               then Some [w * 4 + x div 16] else None)
      | _ \<Rightarrow> None)"
| "ref_dec _ = None"

lemma parts_small:
  fixes a :: nat assumes "a < 256"
  shows "a div 4 < 64" "a div 16 < 16" "a div 64 < 4"
  using assms by (simp_all add: less_mult_imp_div_less)

lemma mod_small: "(a :: nat) mod 4 < 4" "a mod 16 < 16" "a mod 64 < 64"
  by simp_all

lemma sextets:
  fixes a b c :: nat assumes "a < 256" "b < 256" "c < 256"
  shows "a div 4 < 64" "a mod 4 * 16 < 64" "a mod 4 * 16 + b div 16 < 64"
    "b mod 16 * 4 < 64" "b mod 16 * 4 + c div 64 < 64" "c mod 64 < 64"
  using parts_small [OF assms(1)] parts_small [OF assms(2)] parts_small [OF assms(3)]
    mod_small [of a] mod_small [of b] mod_small [of c]
  by linarith+

lemma sextets_back:
  fixes a b c :: nat assumes "a < 256" "b < 256" "c < 256"
  shows "a div 4 * 4 + (a mod 4 * 16) div 16 = a"
    "a div 4 * 4 + (a mod 4 * 16 + b div 16) div 16 = a"
    "(a mod 4 * 16 + b div 16) mod 16 * 16 + (b mod 16 * 4) div 4 = b"
    "(a mod 4 * 16 + b div 16) mod 16 * 16 + (b mod 16 * 4 + c div 64) div 4 = b"
    "(b mod 16 * 4 + c div 64) mod 4 * 64 + c mod 64 = c"
    "(a mod 4 * 16) mod 16 = 0" "(b mod 16 * 4) mod 4 = 0"
  using parts_small [OF assms(2)] parts_small [OF assms(3)] by simp_all

lemma ref_dec_enc: "list_all (\<lambda>b. b < 256) bs \<Longrightarrow> ref_dec (ref_enc bs) = Some bs"
proof (induction bs rule: ref_enc.induct)
  case (3 a b)
  then show ?case
    using sextets [of a b 0] sextets_back [of a b 0] by (simp add: xs_sx xs_eq)
next
  case (4 a b c r)
  then show ?case
    using sextets [of a b c] sextets_back [of a b c] parts_small [of b] parts_small [of c] by (simp add: xs_sx)
next
  case (2 a)
  then show ?case
    using sextets [of a 0 0] sextets_back [of a 0 0] by (simp add: xs_sx xs_eq)
qed simp

lemma length_ref_enc: "length (ref_enc bs) = 4 * ((length bs + 2) div 3)"
proof (induction bs rule: ref_enc.induct)
  case (4 a b c r)
  have "(length (a # b # c # r) + 2) div 3 = Suc ((length r + 2) div 3)"
    using div_add1_eq [of "length r + 2" 3 3] by (simp add: add.commute)
  then show ?case using 4 by simp
qed simp_all

lemma ref_enc_form: "list_all (\<lambda>b. b < 256) bs \<Longrightarrow>
  \<exists>t. ref_enc bs = t @ replicate (b64_pad (length bs)) (CHR ''='') \<and> list_all b64_char t"
proof (induction bs rule: ref_enc.induct)
  case (2 a)
  then show ?case
    by (intro exI [of _ "[sx (a div 4), sx (a mod 4 * 16)]"])
      (use 2 sextets [of a 0 0] in \<open>simp add: b64_pad_def numeral_2_eq_2 sx_char\<close>)
next
  case (3 a b)
  then show ?case
    by (intro exI [of _ "[sx (a div 4), sx (a mod 4 * 16 + b div 16), sx (b mod 16 * 4)]"])
      (use 3 sextets [of a b 0] in \<open>simp add: b64_pad_def sx_char\<close>)
next
  case (4 a b c r)
  then obtain t where t: "ref_enc r = t @ replicate (b64_pad (length r)) (CHR ''='')" "list_all b64_char t"
    by auto
  have "b64_pad (length (a # b # c # r)) = b64_pad (length r)"
    by (simp add: b64_pad_def)
  then show ?case using 4 t
    by (intro exI [of _ "sx (a div 4) # sx (a mod 4 * 16 + b div 16) # sx (b mod 16 * 4 + c div 64) # sx (c mod 64) # t"])
      (use 4 sextets [of a b c] in \<open>simp add: sx_char\<close>)
qed (simp add: b64_pad_def)

definition ref_b64_dec :: "string \<Rightarrow> (string, bytes) result" where
  "ref_b64_dec s = (case ref_dec s of None \<Rightarrow> Inl ''Invalid input'' | Some ns \<Rightarrow> Inr (map of_nat ns))"

definition zip_xor :: "bytes \<Rightarrow> bytes \<Rightarrow> bytes" where
  "zip_xor a b = map (\<lambda>(x, y). x + y) (zip a b)"

definition ref_tag :: "bytes \<Rightarrow> bytes \<Rightarrow> bytes \<Rightarrow> bytes" where
  "ref_tag k n a = take 8 k @ take 7 n @ [sum_list a]"

function ref_bn_to :: "nat \<Rightarrow> bytes" where
  "ref_bn_to n = (if n < 256 then [of_nat n] else ref_bn_to (n div 256) @ [of_nat (n mod 256)])"
  by pat_completeness auto
termination by (relation "measure id") auto

declare ref_bn_to.simps [simp del]

definition ref_bn_of :: "bytes \<Rightarrow> nat" where
  "ref_bn_of bs = foldl (\<lambda>acc b. acc * 256 + unat b) 0 bs"

definition hexd :: "nat \<Rightarrow> char" where
  "hexd i = ''0123456789abcdef'' ! i"

definition hexv :: "char \<Rightarrow> nat option" where
  "hexv c = (case index_of c ''0123456789abcdef'' of
     Some i \<Rightarrow> Some i
   | None \<Rightarrow> map_option (\<lambda>i. i + 10) (index_of c ''ABCDEF''))"

fun ref_hex_dec :: "string \<Rightarrow> (string, bytes) result" where
  "ref_hex_dec [] = Inr []"
| "ref_hex_dec [c] = Inl ''Odd number of digits''"
| "ref_hex_dec (c # d # s) =
     (case (hexv c, hexv d, ref_hex_dec s) of
        (Some x, Some y, Inr r) \<Rightarrow> Inr (of_nat (x * 16 + y) # r)
      | _ \<Rightarrow> Inl ''Invalid character'')"

definition ref_hex_enc :: "bytes \<Rightarrow> string" where
  "ref_hex_enc bs = concat (map (\<lambda>b. [hexd (unat b div 16), hexd (unat b mod 16)]) bs)"

definition ref_lib :: ext_lib where
  "ref_lib = \<lparr>
     b64_enc = (\<lambda>bs. ref_enc (map unat bs)),
     b64_dec = ref_b64_dec,
     xseal = (\<lambda>k n a m. Some (m @ ref_tag k n a)),
     xopen = (\<lambda>k n a c. if 16 \<le> length c \<and> drop (length c - 16) c = ref_tag k n a
                        then Some (take (length c - 16) c) else None),
     cseal = (\<lambda>k n m. Some (m @ take 8 k @ take 8 n)),
     copen = (\<lambda>k n c. if 16 \<le> length c \<and> drop (length c - 16) c = take 8 k @ take 8 n
                      then Some (take (length c - 16) c) else None),
     hkdf = (\<lambda>s k i n. if n \<le> 8160 then Some (take n (rev k @ s @ i @ replicate n 0)) else None),
     sha256 = (\<lambda>d. take 32 (d @ replicate 32 1)),
     dh_mul = zip_xor,
     dh_pub = (\<lambda>a. a),
     bf_enc = (\<lambda>k (l, r). (r + 1, l + 2)),
     bf_dec = (\<lambda>k (l, r). (r - 2, l - 1)),
     modpow = (\<lambda>b e m. b ^ e mod m),
     bn_of = ref_bn_of, bn_to = ref_bn_to,
     hex_enc = ref_hex_enc, hex_dec = ref_hex_dec,
     date_fmt = show_int, date_parse = parse_i64,
     rfc_fmt = show_int, rfc_parse = parse_i64 \<rparr>"

lemma ref_simps:
  "b64_enc ref_lib bs = ref_enc (map unat bs)"
  "b64_dec ref_lib x = ref_b64_dec x"
  "xseal ref_lib k n a m = Some (m @ ref_tag k n a)"
  "xopen ref_lib k n a c = (if 16 \<le> length c \<and> drop (length c - 16) c = ref_tag k n a
     then Some (take (length c - 16) c) else None)"
  "cseal ref_lib k n m = Some (m @ take 8 k @ take 8 n)"
  "copen ref_lib k n c = (if 16 \<le> length c \<and> drop (length c - 16) c = take 8 k @ take 8 n
     then Some (take (length c - 16) c) else None)"
  "hkdf ref_lib s k i j = (if j \<le> 8160 then Some (take j (rev k @ s @ i @ replicate j 0)) else None)"
  "sha256 ref_lib d = take 32 (d @ replicate 32 1)"
  "dh_mul ref_lib = zip_xor" "dh_pub ref_lib a = a"
  "modpow ref_lib b e m' = b ^ e mod m'"
  "bn_of ref_lib = ref_bn_of" "bn_to ref_lib = ref_bn_to"
  "hex_enc ref_lib = ref_hex_enc" "hex_dec ref_lib = ref_hex_dec"
  "date_fmt ref_lib = show_int" "date_parse ref_lib = parse_i64"
  "rfc_fmt ref_lib = show_int" "rfc_parse ref_lib = parse_i64"
  by (simp_all add: ref_lib_def)

lemma unat_u8: "unat (b :: u8) < 256"
proof -
  have "unat b < 2 ^ LENGTH(8)" by (rule unsigned_less)
  then show ?thesis by simp
qed

lemma zip_xor_comm: "zip_xor a b = zip_xor b a"
  unfolding zip_xor_def
proof (induction a arbitrary: b)
  case (Cons x a)
  then show ?case by (cases b) (simp_all add: add.commute)
qed simp

lemma ref_b64_law: "b64_law ref_lib"
proof -
  have small: "list_all (\<lambda>b. b < 256) (map unat bs)" for bs :: bytes
    by (simp add: list_all_iff unat_u8)
  have "ref_b64_dec (ref_enc (map unat bs)) = Inr bs" for bs
    using ref_dec_enc [OF small, of bs]
    by (simp add: ref_b64_dec_def o_def)
  moreover have "\<exists>t. ref_enc (map unat bs) = t @ replicate (b64_pad (length bs)) (CHR ''='') \<and> list_all b64_char t"
    for bs :: bytes using ref_enc_form [OF small, of bs] by simp
  ultimately show ?thesis
    unfolding b64_law_def by (simp add: ref_lib_def length_ref_enc)
qed

lemma ref_aead_laws: "aead_law ref_lib" "caead_law ref_lib"
  unfolding aead_law_def caead_law_def by (simp_all add: ref_lib_def ref_tag_def)

lemma ref_hkdf_law: "hkdf_law ref_lib"
  unfolding hkdf_law_def by (auto simp: ref_lib_def)

lemma ref_dh_law: "dh_law ref_lib"
  unfolding dh_law_def by (simp add: ref_lib_def zip_xor_comm) (simp add: zip_xor_def)

lemma ref_bf_law: "bf_law ref_lib"
  unfolding bf_law_def by (simp add: ref_lib_def)

lemma ref_modpow_law: "modpow_law ref_lib"
  unfolding modpow_law_def by (simp add: ref_lib_def)

lemma ref_bn_law: "bn_law ref_lib"
proof -
  have app: "ref_bn_of (bs @ [b]) = ref_bn_of bs * 256 + unat b" for bs b
    by (simp add: ref_bn_of_def)
  have z: "ref_bn_of (replicate z 0) = 0" for z
    by (induction z) (simp_all add: ref_bn_of_def)
  have of_to: "ref_bn_of (replicate z 0 @ ref_bn_to n) = n" for n z
  proof (induction n rule: ref_bn_to.induct)
    case (1 n)
    show ?case
    proof (cases "n < 256")
      case True
      then show ?thesis using app [of "replicate z 0" "of_nat n"] z
        by (subst ref_bn_to.simps) (simp add: unat_of_nat)
    next
      case False
      then show ?thesis using 1 app [of "replicate z 0 @ ref_bn_to (n div 256)" "of_nat (n mod 256)"]
        by (subst ref_bn_to.simps) (simp add: unat_of_nat)
    qed
  qed
  have len: "n < 256 ^ k \<Longrightarrow> 0 < k \<Longrightarrow> length (ref_bn_to n) \<le> k" for n k
  proof (induction n arbitrary: k rule: ref_bn_to.induct)
    case (1 n)
    show ?case
    proof (cases "n < 256")
      case True
      then show ?thesis using 1(3) by (subst ref_bn_to.simps) simp
    next
      case False
      obtain j where j: "k = Suc j" using 1(3) by (cases k) auto
      have "j \<noteq> 0" using False 1(2) j by (cases j) auto
      moreover have "n div 256 < 256 ^ j"
        using 1(2) j by (simp add: less_mult_imp_div_less mult.commute)
      ultimately have "length (ref_bn_to (n div 256)) \<le> j" using 1(1) False by simp
      then show ?thesis using False j by (subst ref_bn_to.simps) simp
    qed
  qed
  show ?thesis unfolding bn_law_def using of_to len by (simp add: ref_lib_def)
qed

lemma hexv_hexd: "i < 16 \<Longrightarrow> hexv (hexd i) = Some i \<and> hex_digit (hexd i)"
proof -
  have "list_all (\<lambda>i. hexv (hexd i) = Some i \<and> hex_digit (hexd i)) [0..<16]" by code_simp
  then show "i < 16 \<Longrightarrow> ?thesis" by (auto simp: list_all_iff)
qed

lemma hex_digit_hexv:
  assumes "hex_digit c"
  shows "\<exists>i. hexv c = Some i"
proof -
  have "list_all (\<lambda>n. hexv (char_of n) \<noteq> None) ([48..<58] @ [97..<103] @ [65..<71])"
    by (simp add: upt_rec hexv_def char_of_def bit_iff_odd)
  moreover have "(of_char c :: nat) \<in> set ([48..<58] @ [97..<103] @ [65..<71])"
    using assms unfolding set_append set_upt Un_iff atLeastLessThan_iff hex_digit_def is_ascii_digit_def Let_def
    by linarith
  ultimately have "hexv (char_of (of_char c :: nat)) \<noteq> None"
    unfolding list_all_iff by blast
  then show ?thesis by simp
qed

lemma ref_hex_law: "hex_law ref_lib"
proof -
  have nib: "unat b div 16 < 16" "unat b mod 16 < 16" for b :: u8
    using unat_u8 [of b] by (simp_all add: less_mult_imp_div_less)
  have "ref_hex_dec (ref_hex_enc bs) = Inr bs" for bs
  proof (induction bs)
    case (Cons b bs)
    have "of_nat (unat b div 16 * 16 + unat b mod 16) = b" by simp
    then show ?case using Cons nib [of b] by (simp add: ref_hex_enc_def hexv_hexd)
  qed (simp add: ref_hex_enc_def)
  moreover have "length (ref_hex_enc bs) = 2 * length bs \<and> list_all hex_digit (ref_hex_enc bs)" for bs
    using nib by (induction bs) (simp_all add: ref_hex_enc_def hexv_hexd)
  moreover have "length s mod 2 = 0 \<longrightarrow> list_all hex_digit s \<longrightarrow>
      (\<exists>bs. ref_hex_dec s = Inr bs \<and> 2 * length bs = length s)" for s
  proof (induction s rule: ref_hex_dec.induct)
    case (3 c d s)
    then show ?case by (auto dest!: hex_digit_hexv)
  qed auto
  ultimately show ?thesis by (simp add: hex_law_def ref_lib_def)
qed

lemma ref_date_law: "date_law ref_lib"
  unfolding date_law_def by (simp add: ref_lib_def parse_i64_show)

lemmas ref_laws [simp] =
  ref_b64_law ref_aead_laws ref_hkdf_law ref_dh_law ref_bf_law ref_modpow_law ref_bn_law ref_hex_law ref_date_law

lemma ref_lib_ok [simp]: "lib_ok ref_lib"
  by (simp add: lib_ok_def)

end
