(* ===== verification/Models.thy ===== *)
theory Models
  imports ExtLib
begin

text \<open>
  The data of the DLL's configuration (\<open>config/models.rs\<close>): entries, settings,
  the ratchet state and the nonce cache of a channel, the metrics and the
  \<open>FishConfig\<close> that holds them all.  \<open>[u8; 32]\<close> keys and \<open>[u8; 24]\<close> nonces are byte
  lists; a \<open>VecDeque\<close> is a list whose head is its front.
\<close>

definition MAX_PREVIOUS_KEYS :: nat where "MAX_PREVIOUS_KEYS = 5"
definition MAX_NONCE_CACHE_SIZE :: nat where "MAX_NONCE_CACHE_SIZE = 100"

record EntryData =
  e_key :: "string option"
  e_date :: "string option"
  e_is_exchange :: "bool option"

record Fish11Section =
  f_nickname :: string
  f_process_incoming :: bool
  f_process_outgoing :: bool
  f_plain_prefix :: string
  f_encrypt_notice :: bool
  f_encrypt_action :: bool
  f_mark_position :: u8
  f_mark_encrypted :: string
  f_no_fish10_legacy :: bool
  f_key_ttl :: "int option"
  f_encryption_prefix :: string
  f_fish_prefix :: bool

definition fish11_default :: Fish11Section where
  "fish11_default = \<lparr>
     f_nickname = [],
     f_process_incoming = True,
     f_process_outgoing = True,
     f_plain_prefix = ''+p '',
     f_encrypt_notice = False,
     f_encrypt_action = False,
     f_mark_position = 1,
     f_mark_encrypted = '' 12$chr(183)'',
     f_no_fish10_legacy = False,
     f_key_ttl = None,
     f_encryption_prefix = ''+FiSH'',
     f_fish_prefix = False \<rparr>"

record RatchetState =
  current_key :: bytes
  epoch :: nat
  previous_keys :: "bytes list"

definition ratchet_new :: "bytes \<Rightarrow> RatchetState" where
  "ratchet_new initial_key = \<lparr>current_key = initial_key, epoch = 0, previous_keys = []\<rparr>"

definition ratchet_advance :: "bytes \<Rightarrow> RatchetState \<Rightarrow> RatchetState" where
  "ratchet_advance next_key s =
     (let kept = (if length (previous_keys s) = MAX_PREVIOUS_KEYS
                  then tl (previous_keys s) else previous_keys s)
      in s\<lparr>previous_keys := kept @ [current_key s],
           current_key := next_key,
           epoch := epoch s + 1\<rparr>)"

record NonceCache =
  recent_nonces :: "bytes list"

definition nonce_cache_new :: NonceCache where
  "nonce_cache_new = \<lparr>recent_nonces = []\<rparr>"

definition check_and_add :: "bytes \<Rightarrow> NonceCache \<Rightarrow> bool \<times> NonceCache" where
  "check_and_add nonce c =
     (if nonce \<in> set (recent_nonces c) then (True, c)
      else
        (let kept = (if length (recent_nonces c) = MAX_NONCE_CACHE_SIZE
                     then tl (recent_nonces c) else recent_nonces c)
         in (False, c\<lparr>recent_nonces := kept @ [nonce]\<rparr>)))"

record EncryptionMetrics =
  encryption_count :: nat
  decryption_count :: nat
  key_exchange_count :: nat

record FishConfig =
  c_keys :: "(string, string) hmap"
  c_nick_networks :: "(string, string) hmap"
  c_our_private_key :: "string option"
  c_our_public_key :: "string option"
  c_keypair_creation_time :: "string option"
  c_fish11 :: Fish11Section
  c_startup_date :: "nat option"
  c_entries :: "(string, EntryData) hmap"
  c_channel_keys :: "(string, bytes) hmap"
  c_ratchets :: "(string, RatchetState) hmap"
  c_nonces :: "(string, NonceCache) hmap"
  c_topics :: "(string, string) hmap"
  c_metrics :: EncryptionMetrics
  c_dirty :: bool

text \<open>\<open>now_secs\<close> is the \<open>UNIX_EPOCH\<close> clock at creation.\<close>

definition fish_config_new :: "nat \<Rightarrow> FishConfig" where
  "fish_config_new now_secs = \<lparr>
     c_keys = [],
     c_nick_networks = [],
     c_our_private_key = None,
     c_our_public_key = None,
     c_keypair_creation_time = None,
     c_fish11 = fish11_default,
     c_startup_date = Some now_secs,
     c_entries = [],
     c_channel_keys = [],
     c_ratchets = [],
     c_nonces = [],
     c_topics = [],
     c_metrics = \<lparr>encryption_count = 0, decryption_count = 0, key_exchange_count = 0\<rparr>,
     c_dirty = False \<rparr>"

definition mark_dirty :: "FishConfig \<Rightarrow> FishConfig" where
  "mark_dirty c = c\<lparr>c_dirty := True\<rparr>"

definition mark_clean :: "FishConfig \<Rightarrow> FishConfig" where
  "mark_clean c = c\<lparr>c_dirty := False\<rparr>"

definition get_entry :: "FishConfig \<Rightarrow> string \<Rightarrow> EntryData option" where
  "get_entry c k = hm_get (c_entries c) k"

definition set_entry :: "string \<Rightarrow> EntryData \<Rightarrow> FishConfig \<Rightarrow> FishConfig" where
  "set_entry k e c = mark_dirty (c\<lparr>c_entries := hm_insert k e (c_entries c)\<rparr>)"

definition get_entries_with_prefix :: "FishConfig \<Rightarrow> string \<Rightarrow> (string \<times> EntryData) list" where
  "get_entries_with_prefix c prefix = filter (\<lambda>kv. starts_with prefix (fst kv)) (c_entries c)"

section \<open>Bounded windows\<close>

text \<open>The contract the ratchet's key window and the nonce cache share: pushing an
  accepted element keeps the last \<open>cap\<close> of everything pushed.\<close>

locale bounded_window =
  fixes cap :: nat
    and invar :: "'s \<Rightarrow> bool"
    and win :: "'s \<Rightarrow> 'a list"
    and accepts :: "'a \<Rightarrow> 's \<Rightarrow> bool"
    and push :: "'a \<Rightarrow> 's \<Rightarrow> 's"
  assumes cap_pos: "0 < cap"
    and invar_len: "invar s \<Longrightarrow> length (win s) \<le> cap"
    and invar_push: "invar s \<Longrightarrow> accepts x s \<Longrightarrow> invar (push x s)"
    and win_push: "invar s \<Longrightarrow> accepts x s \<Longrightarrow> win (push x s) = last_n cap (win s @ [x])"
begin

fun accepted :: "'a list \<Rightarrow> 's \<Rightarrow> bool" where
  "accepted [] s = True"
| "accepted (x # xs) s = (accepts x s \<and> accepted xs (push x s))"

lemma invar_fold: "invar s \<Longrightarrow> accepted xs s \<Longrightarrow> invar (fold push xs s)"
  by (induction xs arbitrary: s) (auto simp: invar_push)

lemma win_fold: "invar s \<Longrightarrow> accepted xs s \<Longrightarrow> win (fold push xs s) = last_n cap (win s @ xs)"
proof (induction xs arbitrary: s)
  case Nil
  then show ?case by (simp add: invar_len)
next
  case (Cons x xs)
  then have "win (fold push (x # xs) s) = last_n cap (last_n cap (win s @ [x]) @ xs)"
    by (simp add: win_push invar_push)
  also have "\<dots> = last_n cap ((win s @ [x]) @ xs)"
    by (rule last_n_append)
  finally show ?case by simp
qed

lemma newest_in_window: "invar s \<Longrightarrow> accepts x s \<Longrightarrow> x \<in> set (win (push x s))"
  using cap_pos by (simp add: win_push last_n_def Suc_diff_le)

lemma evicted: "invar s \<Longrightarrow> accepts x s \<Longrightarrow> length (win s) = cap \<Longrightarrow> win (push x s) = tl (win s) @ [x]"
  using cap_pos by (cases "win s") (simp_all add: win_push last_n_def)

end

definition ratchet_ok :: "RatchetState \<Rightarrow> bool" where
  "ratchet_ok s \<longleftrightarrow> length (previous_keys s) \<le> MAX_PREVIOUS_KEYS"

text \<open>The keys a ratchet state can decrypt with, oldest first.\<close>

definition ratchet_window :: "RatchetState \<Rightarrow> bytes list" where
  "ratchet_window s = previous_keys s @ [current_key s]"

definition nonce_cache_ok :: "NonceCache \<Rightarrow> bool" where
  "nonce_cache_ok c \<longleftrightarrow> length (recent_nonces c) \<le> MAX_NONCE_CACHE_SIZE \<and> distinct (recent_nonces c)"

interpretation ratchet: bounded_window "Suc MAX_PREVIOUS_KEYS" ratchet_ok ratchet_window
  "\<lambda>_ _. True" ratchet_advance
proof (unfold_locales, goal_cases)
  case (4 s x)
  then show ?case
    by (cases "previous_keys s")
      (auto simp: ratchet_ok_def ratchet_window_def ratchet_advance_def last_n_def MAX_PREVIOUS_KEYS_def)
qed (auto simp: ratchet_ok_def ratchet_window_def ratchet_advance_def Let_def MAX_PREVIOUS_KEYS_def)

interpretation nonces: bounded_window MAX_NONCE_CACHE_SIZE nonce_cache_ok recent_nonces
  "\<lambda>n c. n \<notin> set (recent_nonces c)" "\<lambda>n c. snd (check_and_add n c)"
proof (unfold_locales, goal_cases)
  case (3 s x)
  then show ?case
    by (auto simp: nonce_cache_ok_def check_and_add_def Let_def MAX_NONCE_CACHE_SIZE_def
        distinct_tl dest: list.set_sel(2) [rotated])
next
  case (4 s x)
  then show ?case
    by (cases "recent_nonces s")
      (auto simp: nonce_cache_ok_def check_and_add_def last_n_def MAX_NONCE_CACHE_SIZE_def)
qed (auto simp: nonce_cache_ok_def MAX_NONCE_CACHE_SIZE_def)

lemma epoch_fold: "epoch (fold ratchet_advance ks s) = epoch s + length ks"
  by (induction ks arbitrary: s) (auto simp: ratchet_advance_def Let_def)

section \<open>Properties\<close>

text \<open>C36: after any number of advances the keys a ratchet can decrypt with are the last
  six of its key sequence, in order, and the epoch counts the advances.\<close>

theorem ratchet_window_after_advances:
  "ratchet_window (fold ratchet_advance ks (ratchet_new k0)) = last_n 6 (k0 # ks) \<and>
   epoch (fold ratchet_advance ks (ratchet_new k0)) = length ks"
proof -
  have "ratchet.accepted ks s" for s by (induction ks arbitrary: s) auto
  moreover have "ratchet_ok (ratchet_new k0)" "ratchet_window (ratchet_new k0) = [k0]" "epoch (ratchet_new k0) = 0"
    by (simp_all add: ratchet_ok_def ratchet_window_def ratchet_new_def)
  ultimately show ?thesis
    using ratchet.win_fold [of "ratchet_new k0" ks] epoch_fold [of ks "ratchet_new k0"]
    by (simp add: MAX_PREVIOUS_KEYS_def)
qed

lemma fresh_accepted:
  "nonce_cache_ok c \<Longrightarrow> distinct ns \<Longrightarrow> set ns \<inter> set (recent_nonces c) = {} \<Longrightarrow> nonces.accepted ns c"
proof (induction ns arbitrary: c)
  case (Cons n ns)
  have n: "n \<notin> set (recent_nonces c)" using Cons.prems by simp
  have "set (recent_nonces (snd (check_and_add n c))) \<subseteq> insert n (set (recent_nonces c))"
    using nonces.win_push [OF Cons.prems(1) n] by (auto simp: last_n_def dest: in_set_dropD)
  then show ?case using Cons nonces.invar_push [OF Cons.prems(1) n] n by auto
qed simp

lemma last_n_short: "length ys < k \<Longrightarrow> x \<in> set (last_n k (xs @ x # ys))"
proof -
  assume "length ys < k"
  then have "length xs + Suc (length ys) - k \<le> length xs" by simp
  then show ?thesis by (auto simp: last_n_def)
qed

lemma last_n_long: "k \<le> length ys \<Longrightarrow> last_n k (xs @ ys) = last_n k ys"
  by (simp add: last_n_def)

text \<open>the nonce cache keeps its invariant, at most 100 distinct nonces, and
  reports a fresh nonce as a replay exactly until 100 newer ones have come in.\<close>

theorem nonce_replay_window:
  assumes "nonce_cache_ok c" "distinct (n # ns)" "set (n # ns) \<inter> set (recent_nonces c) = {}"
  shows "nonce_cache_ok (fold (\<lambda>x d. snd (check_and_add x d)) (n # ns) c) \<and>
    (fst (check_and_add n (fold (\<lambda>x d. snd (check_and_add x d)) (n # ns) c)) \<longleftrightarrow> length ns < 100)"
proof -
  let ?d = "fold (\<lambda>x d. snd (check_and_add x d)) (n # ns) c"
  have acc: "nonces.accepted (n # ns) c" using fresh_accepted [OF assms] .
  have win: "recent_nonces ?d = last_n 100 (recent_nonces c @ n # ns)"
    using nonces.win_fold [OF assms(1) acc] by (simp add: MAX_NONCE_CACHE_SIZE_def)
  have "n \<in> set (recent_nonces ?d) \<longleftrightarrow> length ns < 100"
  proof (cases "length ns < 100")
    case True
    then show ?thesis unfolding win by (simp add: last_n_short)
  next
    case False
    then have "last_n 100 ((recent_nonces c @ [n]) @ ns) = last_n 100 ns" by (intro last_n_long) simp
    then have "set (recent_nonces ?d) \<subseteq> set ns" unfolding win by (auto simp: last_n_def dest: in_set_dropD)
    then show ?thesis using False assms(2) by auto
  qed
  then have "fst (check_and_add n ?d) \<longleftrightarrow> length ns < 100" by (simp add: check_and_add_def Let_def)
  then show ?thesis using nonces.invar_fold [OF assms(1) acc] by blast
qed

lemma nonce_replay_window_witness:
  "fst (check_and_add [1] (fold (\<lambda>x d. snd (check_and_add x d)) [[1], [2], [3]] nonce_cache_new)) \<and>
   \<not> fst (check_and_add [0] (fold (\<lambda>x d. snd (check_and_add x d)) ([0] # map (\<lambda>i. [1, of_nat i]) [0..<100]) nonce_cache_new))"
proof
  have ok: "nonce_cache_ok nonce_cache_new" "recent_nonces nonce_cache_new = []"
    by (simp_all add: nonce_cache_ok_def nonce_cache_new_def)
  show "fst (check_and_add [1] (fold (\<lambda>x d. snd (check_and_add x d)) [[1], [2], [3]] nonce_cache_new))"
    using nonce_replay_window [OF ok(1), of "[1]" "[[2], [3]]"] ok(2) by simp
  have inj: "inj_on (\<lambda>i. [1, of_nat i :: u8]) {0..<100}"
  proof (rule inj_onI)
    fix i j :: nat
    assume "i \<in> {0..<100}" "j \<in> {0..<100}" "[1, of_nat i :: u8] = [1, of_nat j]"
    then have "i < 256" "j < 256" "unat (of_nat i :: u8) = unat (of_nat j :: u8)" by auto
    then show "i = j" by (simp add: unat_of_nat)
  qed
  have "distinct ([0 :: u8] # map (\<lambda>i. [1, of_nat i]) [0..<100])"
    using inj by (auto simp: distinct_map)
  then show "\<not> fst (check_and_add [0] (fold (\<lambda>x d. snd (check_and_add x d)) ([0] # map (\<lambda>i. [1, of_nat i]) [0..<100]) nonce_cache_new))"
    using nonce_replay_window [OF ok(1), of "[0]" "map (\<lambda>i. [1, of_nat i]) [0..<100]"] ok(2) by simp
qed

end
