(* ===== verification/Errors.thy ===== *)
theory Errors
  imports RustStr
begin

text \<open>
  The two error types of the DLL (\<open>error.rs\<close>, \<open>unified_error.rs\<close>), their displayed
  text, the conversion of the older into the unified one, and the answer the
  unified one gives mIRC.  A wrapped library error (I/O, base64, UTF-8, NUL) is
  its displayed text; a Rust \<open>char\<close> payload is its UTF-8 bytes.
\<close>

datatype (plugins only: code) FishError =
    FE_ConfigError string
  | FE_CryptoError string
  | FE_IoError string
  | FE_InvalidInput string
  | FE_KeyNotFound string
  | FE_DuplicateEntry string
  | FE_InvalidNetworkName string
  | FE_MalformedEntry string
  | FE_InvalidKeyLength nat
  | FE_Base64Error string
  | FE_NullByteInString
  | FE_NonAsciiCharacter string
  | FE_AuthenticationFailed
  | FE_NonceReuse
  | FE_OversizedMessage
  | FE_InvalidCiphertext
  | FE_KeyExpired string

primrec fish_display :: "FishError \<Rightarrow> string" where
  "fish_display (FE_ConfigError m) = ''Configuration error: '' @ m"
| "fish_display (FE_CryptoError m) = ''Cryptography error: '' @ m"
| "fish_display (FE_IoError e) = ''IO error: '' @ e"
| "fish_display (FE_InvalidInput m) = ''Invalid input: '' @ m"
| "fish_display (FE_KeyNotFound n) = ''Key not found for nickname: '' @ n"
| "fish_display (FE_DuplicateEntry n) = ''Entry '' @ [CHR 0x27] @ n @ [CHR 0x27] @ '' already exists''"
| "fish_display (FE_InvalidNetworkName n) =
     ''Invalid network name '' @ [CHR 0x27] @ n @ [CHR 0x27] @ '' (contains forbidden characters)''"
| "fish_display (FE_MalformedEntry e) = ''Malformed entry key: '' @ [CHR 0x27] @ e @ [CHR 0x27]"
| "fish_display (FE_InvalidKeyLength n) = ''Invalid key length: '' @ show_nat n @ '' (expected 32 bytes)''"
| "fish_display FE_AuthenticationFailed = ''Message authentication failed''"
| "fish_display FE_NonceReuse = ''Nonce reuse detected''"
| "fish_display FE_OversizedMessage = ''Message exceeds maximum allowed size''"
| "fish_display FE_InvalidCiphertext = ''Invalid ciphertext format or size''"
| "fish_display (FE_KeyExpired n) = ''Key expired for nickname: '' @ n"
| "fish_display (FE_Base64Error e) = ''Base64 decoding error: '' @ e"
| "fish_display FE_NullByteInString = ''String contains null byte''"
| "fish_display (FE_NonAsciiCharacter c) =
     ''String contains non-ASCII character: '' @ [CHR 0x27] @ c @ [CHR 0x27]"

datatype (plugins only: code) DllError =
    LegacyError string string
  | ConfigNotFound string
  | ConfigMalformed string
  | ConfigErr string
  | ConfigInvalidValue string string string
  | KeyNotFound string
  | KeyExpired string
  | NotConnected string
  | KeyInvalid string
  | InvalidKeySize nat nat
  | EncryptionFailed string string
  | DecryptionFailed string string
  | KeyExchangeFailed string
  | AuthenticationFailed
  | ReplayAttackDetected string
  | RatchetStateNotFound string
  | MessageTooLarge nat nat
  | InvalidInput string string
  | MalformedInput string string
  | InputTooLong nat nat
  | MissingParameter string
  | NullPointer string
  | InvalidBufferSize nat nat
  | BufferWriteFailed string
  | NullByteInString string
  | IoErrorAt string string string
  | Io string
  | FileNotFound string
  | PermissionDenied string
  | Base64ErrorAt string string
  | Base64DecodeFailed string string
  | Base64 string
  | Utf8Error string
  | FromUtf8 string
  | Utf8 string
  | NulByte string
  | NonAsciiCharacter string string
  | DuplicateEntry string
  | InvalidState string string
  | Timeout string nat string
  | InvalidNetwork string
  | ProtocolMismatch string string
  | RngFailed string
  | Internal string
  | NotImplemented string
  | KeyDerivationFailed

definition quoted :: "string \<Rightarrow> string" where
  "quoted s = [CHR 0x27] @ s @ [CHR 0x27]"

primrec dll_display :: "DllError \<Rightarrow> string" where
  "dll_display (LegacyError context cause) = ''legacy FiSH 10 error: '' @ context @ '' - '' @ cause"
| "dll_display (ConfigNotFound m) = ''configuration file not found: '' @ m"
| "dll_display (ConfigMalformed m) = ''configuration malformed: '' @ m"
| "dll_display (ConfigErr m) = ''configuration error: '' @ m"
| "dll_display (ConfigInvalidValue key val reason) =
     ''invalid config value for '' @ quoted key @ '': '' @ quoted val @ '' ('' @ reason @ '')''"
| "dll_display (KeyNotFound n) = ''no encryption key found for '' @ quoted n"
| "dll_display (KeyExpired n) = ''encryption key for '' @ quoted n @ '' has expired''"
| "dll_display (NotConnected m) = ''not connected to IRC: '' @ m"
| "dll_display (KeyInvalid r) = ''invalid key: '' @ r"
| "dll_display (InvalidKeySize expected actual) =
     ''invalid key size: expected '' @ show_nat expected @ '' bytes, got '' @ show_nat actual"
| "dll_display (EncryptionFailed context cause) = ''encryption failed ('' @ context @ ''): '' @ cause"
| "dll_display (DecryptionFailed context cause) = ''decryption failed ('' @ context @ ''): '' @ cause"
| "dll_display (KeyExchangeFailed m) = ''key exchange failed: '' @ m"
| "dll_display AuthenticationFailed = ''message authentication failed (possibly tampered)''"
| "dll_display (ReplayAttackDetected c) = ''potential replay attack detected on channel '' @ c"
| "dll_display (RatchetStateNotFound c) = ''ratchet state not found for channel '' @ c"
| "dll_display (MessageTooLarge sz limit) =
     ''message too large ('' @ show_nat sz @ '' bytes, limit: '' @ show_nat limit @ '')''"
| "dll_display (InvalidInput param reason) = ''invalid input for '' @ quoted param @ '': '' @ reason"
| "dll_display (MalformedInput input expected) =
     ''malformed input: '' @ quoted input @ '' (expected: '' @ expected @ '')''"
| "dll_display (InputTooLong len mx) =
     ''input too long ('' @ show_nat len @ '' chars, max: '' @ show_nat mx @ '')''"
| "dll_display (MissingParameter p) = ''missing required parameter: '' @ p"
| "dll_display (NullPointer context) = ''null pointer in '' @ context"
| "dll_display (InvalidBufferSize sz required) =
     ''buffer too small ('' @ show_nat sz @ '' bytes, need: '' @ show_nat required @ '')''"
| "dll_display (BufferWriteFailed m) = ''failed to write to buffer: '' @ m"
| "dll_display (NullByteInString context) = ''null byte in string ('' @ context @ '')''"
| "dll_display (IoErrorAt op path src) = ''I/O error during '' @ op @ '' on '' @ quoted path @ '': '' @ src"
| "dll_display (Io e) = ''I/O error: '' @ e"
| "dll_display (FileNotFound f) = ''file not found: '' @ f"
| "dll_display (PermissionDenied r) = ''permission denied: '' @ r"
| "dll_display (Base64ErrorAt context src) = ''base64 error ('' @ context @ ''): '' @ src"
| "dll_display (Base64DecodeFailed context cause) = ''base64 decoding failed ('' @ context @ ''): '' @ cause"
| "dll_display (Base64 e) = ''base64 decoding failed: '' @ e"
| "dll_display (Utf8Error context) = ''invalid UTF-8 ('' @ context @ '')''"
| "dll_display (FromUtf8 e) = ''UTF-8 conversion failed: '' @ e"
| "dll_display (Utf8 e) = ''invalid UTF-8: '' @ e"
| "dll_display (NulByte e) = ''null byte in string: '' @ e"
| "dll_display (NonAsciiCharacter c context) = ''non-ASCII character '' @ quoted c @ '' in '' @ context"
| "dll_display (DuplicateEntry n) = ''entry already exists: '' @ n"
| "dll_display (InvalidState current required) =
     ''invalid state: '' @ current @ '' (required: '' @ required @ '')''"
| "dll_display (Timeout op secs stage) =
     ''operation '' @ quoted op @ '' timed out after '' @ show_nat secs @ ''s during stage: '' @ stage"
| "dll_display (InvalidNetwork n) = ''invalid network name: '' @ n"
| "dll_display (ProtocolMismatch expected got) =
     ''protocol version mismatch: expected '' @ expected @ '', got '' @ got"
| "dll_display (RngFailed context) = ''RNG failed: '' @ context"
| "dll_display (Internal m) = ''internal error: '' @ m"
| "dll_display (NotImplemented m) = ''not implemented: '' @ m"
| "dll_display KeyDerivationFailed = ''key derivation failed''"

definition MAX_MESSAGE_SIZE :: nat where
  "MAX_MESSAGE_SIZE = 4096"

primrec dll_of_fish :: "FishError \<Rightarrow> DllError" where
  "dll_of_fish (FE_ConfigError m) = ConfigMalformed m"
| "dll_of_fish (FE_CryptoError m) = EncryptionFailed ''crypto operation'' m"
| "dll_of_fish (FE_IoError e) = Io e"
| "dll_of_fish (FE_InvalidInput m) = InvalidInput ''unknown'' m"
| "dll_of_fish (FE_KeyNotFound t) = KeyNotFound t"
| "dll_of_fish (FE_DuplicateEntry n) = DuplicateEntry n"
| "dll_of_fish (FE_InvalidNetworkName n) = InvalidNetwork n"
| "dll_of_fish (FE_MalformedEntry e) = MalformedInput e ''valid entry format''"
| "dll_of_fish (FE_InvalidKeyLength n) =
     KeyInvalid (''invalid length: '' @ show_nat n @ '' bytes (expected 32)'')"
| "dll_of_fish FE_AuthenticationFailed = AuthenticationFailed"
| "dll_of_fish FE_NonceReuse = ReplayAttackDetected ''unknown''"
| "dll_of_fish FE_OversizedMessage = MessageTooLarge 0 MAX_MESSAGE_SIZE"
| "dll_of_fish FE_InvalidCiphertext =
     DecryptionFailed ''ciphertext validation'' ''invalid format or corrupted data''"
| "dll_of_fish (FE_Base64Error e) = Base64 e"
| "dll_of_fish FE_NullByteInString = NullByteInString ''string conversion''"
| "dll_of_fish (FE_NonAsciiCharacter c) = NonAsciiCharacter c ''ASCII validation''"
| "dll_of_fish (FE_KeyExpired n) = KeyExpired n"

datatype BufferError = BE_NullPointer | BE_InvalidBufferSize | BE_MessageTooLarge | BE_EncodingError

fun dll_of_buffer :: "BufferError \<Rightarrow> DllError" where
  "dll_of_buffer BE_NullPointer = NullPointer ''buffer operation''"
| "dll_of_buffer BE_InvalidBufferSize = InvalidBufferSize 0 1"
| "dll_of_buffer BE_MessageTooLarge = BufferWriteFailed ''message exceeds buffer capacity''"
| "dll_of_buffer BE_EncodingError = Utf8Error ''buffer encoding''"

definition dll_of_str :: "string \<Rightarrow> DllError" where
  "dll_of_str s = InvalidInput ''data'' s"

definition with_context :: "string \<Rightarrow> DllError \<Rightarrow> DllError" where
  "with_context ctx e =
     (case e of
        EncryptionFailed _ cause \<Rightarrow> EncryptionFailed ctx cause
      | DecryptionFailed _ cause \<Rightarrow> DecryptionFailed ctx cause
      | _ \<Rightarrow> e)"

text \<open>The tests of \<open>to_mirc_response\<close> on the variant.\<close>

definition is_null_pointer :: "DllError \<Rightarrow> bool" where
  "is_null_pointer e = (case e of NullPointer _ \<Rightarrow> True | _ \<Rightarrow> False)"

definition expired_nick :: "DllError \<Rightarrow> string option" where
  "expired_nick e = (case e of KeyExpired n \<Rightarrow> Some n | _ \<Rightarrow> None)"

definition halts_mirc :: "DllError \<Rightarrow> bool" where
  "halts_mirc e = (case e of NullPointer _ \<Rightarrow> True | Internal _ \<Rightarrow> True
     | InvalidBufferSize _ _ \<Rightarrow> True | _ \<Rightarrow> False)"

text \<open>Only an expired key is converted to the \<open>KeyExpired\<close> answer mIRC scripts react to.\<close>

lemma dll_of_fish_expired: "dll_of_fish e = KeyExpired n \<longleftrightarrow> e = FE_KeyExpired n"
  by (cases e) simp_all

lemma dll_of_fish_not_null [simp]: "dll_of_fish e \<noteq> NullPointer c"
  by (cases e) simp_all

end
