(* ===== verification/Store.thy ===== *)
theory Store
  imports Models Errors
begin

text \<open>
  The process state around the configuration and the access pattern of
  \<open>config/config_access.rs\<close>: the global \<open>CONFIG\<close>, the configuration last written
  to the file, whether writes to the file succeed, the current network of
  \<open>lib.rs\<close>, the local clock (\<open>Local::now\<close>, in seconds) and the ratchet and nonce
  operations of \<open>config/state_management.rs\<close> with the counters of \<open>config/mod.rs\<close>.
  The \<open>CONFIG\<close> lock is not re-entrant: an operation that would take it while the
  same thread holds it never returns, written \<open>None\<close>.
\<close>

record store =
  s_config :: FishConfig
  s_disk :: "FishConfig option"
  s_disk_ok :: bool
  s_network :: "string option"
  s_clock :: int

definition get_current_network :: "store \<Rightarrow> string option" where
  "get_current_network st = s_network st"

definition set_current_network :: "string \<Rightarrow> store \<Rightarrow> store" where
  "set_current_network net st = st\<lparr>s_network := Some net\<rparr>"

section \<open>Access to the configuration\<close>

text \<open>\<open>save_config\<close> writes a temporary file, renames it and then marks the
  configuration clean; a failing write or rename leaves everything as it was.\<close>

definition save_config :: "store \<Rightarrow> (FishError, unit) result \<times> store" where
  "save_config st =
     (if s_disk_ok st
      then (Inr (), st\<lparr>s_disk := Some (mark_clean (s_config st)), s_config := mark_clean (s_config st)\<rparr>)
      else (Inl (FE_ConfigError ''Failed to write config''), st))"

text \<open>The write guard: the \<open>modified\<close> flag beside the store.\<close>

definition save_if_modified :: "bool \<times> store \<Rightarrow> (FishError, unit) result \<times> bool \<times> store" where
  "save_if_modified g =
     (let (modified, st) = g in
      if modified \<or> c_dirty (s_config st) then
        (case save_config st of
           (Inl e, st') \<Rightarrow> (Inl e, modified, st')
         | (Inr _, st') \<Rightarrow> (Inr (), False, st'))
      else (Inr (), modified, st))"

definition drop_guard :: "bool \<times> store \<Rightarrow> store" where
  "drop_guard g =
     (let (modified, st) = g in
      if modified \<or> c_dirty (s_config st) then snd (save_config st) else st)"

definition with_config :: "(FishConfig \<Rightarrow> 'r) \<Rightarrow> store \<Rightarrow> 'r" where
  "with_config f st = f (s_config st)"

definition with_config_mut ::
  "(FishConfig \<Rightarrow> (FishError, 'a) result \<times> FishConfig) \<Rightarrow> store \<Rightarrow> (FishError, 'a) result \<times> store" where
  "with_config_mut f st =
     (let (r, c) = f (mark_dirty (s_config st));
          st1 = st\<lparr>s_config := c\<rparr>
      in case r of
           Inr a \<Rightarrow>
             (let (_, _, st2) = save_if_modified (True, st1) in (Inr a, drop_guard (False, st2)))
         | Inl e \<Rightarrow> (Inl e, drop_guard (False, st1)))"

text \<open>A closure that cannot fail.\<close>

definition update_config :: "(FishConfig \<Rightarrow> FishConfig) \<Rightarrow> store \<Rightarrow> store" where
  "update_config f st = snd (with_config_mut (\<lambda>c. (Inr (), f c)) st)"

section \<open>Ratchet state, nonce caches and counters\<close>

definition init_ratchet_state :: "string \<Rightarrow> bytes \<Rightarrow> store \<Rightarrow> (FishError, unit) result \<times> store" where
  "init_ratchet_state channel initial_key =
     (let channel_name = to_lowercase channel in
      with_config_mut (\<lambda>c. (Inr (),
        (case hm_get (c_ratchets c) channel_name of
           Some _ \<Rightarrow> c
         | None \<Rightarrow> c\<lparr>c_ratchets := hm_insert channel_name (ratchet_new initial_key) (c_ratchets c)\<rparr>))))"

text \<open>The action runs under the \<open>CONFIG\<close> lock; when it does not return, neither
  does the call.\<close>

definition with_ratchet_state_mut ::
  "string \<Rightarrow> (RatchetState \<Rightarrow> ((DllError, 'r) result \<times> RatchetState) option) \<Rightarrow> store
   \<Rightarrow> ((DllError, 'r) result \<times> store) option" where
  "with_ratchet_state_mut channel action st =
     (let channel_name = to_lowercase channel in
      case hm_get (c_ratchets (s_config st)) channel_name of
        None \<Rightarrow>
          (let (r, st') = with_config_mut (\<lambda>c. (Inl (FE_ConfigError
                 (''Ratchet state not found for channel '' @ channel_name)), c)) st
           in Some (map_err dll_of_fish r, st'))
      | Some state \<Rightarrow>
          (case action state of
             None \<Rightarrow> None
           | Some (r, state') \<Rightarrow>
               (let (r', st') = with_config_mut (\<lambda>c.
                      (map_err (\<lambda>e. FE_ConfigError (dll_display e)) r,
                       c\<lparr>c_ratchets := hm_insert channel_name state' (c_ratchets c)\<rparr>)) st
                in Some (map_err dll_of_fish r', st'))))"

definition check_nonce :: "string \<Rightarrow> bytes \<Rightarrow> store \<Rightarrow> bool" where
  "check_nonce channel nonce =
     with_config (\<lambda>c. case hm_get (c_nonces c) (to_lowercase channel) of
        Some cache \<Rightarrow> nonce \<in> set (recent_nonces cache)
      | None \<Rightarrow> False)"

definition add_nonce :: "string \<Rightarrow> bytes \<Rightarrow> store \<Rightarrow> (FishError, unit) result \<times> store" where
  "add_nonce channel nonce =
     (let channel_name = to_lowercase channel in
      with_config_mut (\<lambda>c.
        (let cache = (case hm_get (c_nonces c) channel_name of Some x \<Rightarrow> x | None \<Rightarrow> nonce_cache_new)
         in (Inr (), c\<lparr>c_nonces := hm_insert channel_name (snd (check_and_add nonce cache)) (c_nonces c)\<rparr>))))"

text \<open>\<open>usize\<close> counters saturate at the 64-bit maximum.\<close>

definition sat_incr :: "nat \<Rightarrow> nat" where
  "sat_incr n = min (n + 1) (2 ^ 64 - 1)"

definition increment_encryption_counter :: "store \<Rightarrow> store" where
  "increment_encryption_counter =
     update_config (\<lambda>c. c\<lparr>c_metrics := (c_metrics c)\<lparr>encryption_count := sat_incr (encryption_count (c_metrics c))\<rparr>\<rparr>)"

definition increment_decryption_counter :: "store \<Rightarrow> store" where
  "increment_decryption_counter =
     update_config (\<lambda>c. c\<lparr>c_metrics := (c_metrics c)\<lparr>decryption_count := sat_incr (decryption_count (c_metrics c))\<rparr>\<rparr>)"

definition increment_key_exchange_counter :: "store \<Rightarrow> store" where
  "increment_key_exchange_counter =
     update_config (\<lambda>c. c\<lparr>c_metrics := (c_metrics c)\<lparr>key_exchange_count := sat_incr (key_exchange_count (c_metrics c))\<rparr>\<rparr>)"

definition has_ratchet_channel_key :: "string \<Rightarrow> store \<Rightarrow> bool" where
  "has_ratchet_channel_key channel_name =
     with_config (\<lambda>c. hm_has (c_ratchets c) (to_lowercase channel_name))"

definition remove_ratchet_channel_key :: "string \<Rightarrow> store \<Rightarrow> (FishError, unit) result \<times> store" where
  "remove_ratchet_channel_key channel_name =
     with_config_mut (\<lambda>c. (Inr (), c\<lparr>c_ratchets := hm_remove (to_lowercase channel_name) (c_ratchets c)\<rparr>))"

definition count_keys :: "store \<Rightarrow> nat" where
  "count_keys = with_config (\<lambda>c.
     length (filter (\<lambda>kv. starts_with ''key_'' (fst kv)) (c_entries c)) + length (c_channel_keys c)
     + length (filter (\<lambda>kv. starts_with ''channel_key_'' (fst kv)) (c_entries c)))"

section \<open>Facts\<close>

text \<open>What is left after any mutation, successful or not: the new configuration in
  memory, and on disk when the disk takes writes.\<close>

definition persist :: "FishConfig \<Rightarrow> store \<Rightarrow> store" where
  "persist c st =
     (if s_disk_ok st then st\<lparr>s_config := mark_clean c, s_disk := Some (mark_clean c)\<rparr>
      else st\<lparr>s_config := c\<rparr>)"

lemma mark_clean_simps [simp]:
  "mark_clean (mark_clean c) = mark_clean c"
  "c_dirty (mark_clean c) = False" "c_dirty (mark_dirty c) = True"
  "c_entries (mark_clean c) = c_entries c" "c_entries (mark_dirty c) = c_entries c"
  "c_keys (mark_clean c) = c_keys c" "c_keys (mark_dirty c) = c_keys c"
  "c_nick_networks (mark_clean c) = c_nick_networks c" "c_nick_networks (mark_dirty c) = c_nick_networks c"
  "c_channel_keys (mark_clean c) = c_channel_keys c" "c_channel_keys (mark_dirty c) = c_channel_keys c"
  "c_ratchets (mark_clean c) = c_ratchets c" "c_ratchets (mark_dirty c) = c_ratchets c"
  "c_nonces (mark_clean c) = c_nonces c" "c_nonces (mark_dirty c) = c_nonces c"
  "c_topics (mark_clean c) = c_topics c" "c_topics (mark_dirty c) = c_topics c"
  "c_metrics (mark_clean c) = c_metrics c" "c_metrics (mark_dirty c) = c_metrics c"
  "c_fish11 (mark_clean c) = c_fish11 c" "c_fish11 (mark_dirty c) = c_fish11 c"
  "c_our_private_key (mark_clean c) = c_our_private_key c" "c_our_private_key (mark_dirty c) = c_our_private_key c"
  "c_our_public_key (mark_clean c) = c_our_public_key c" "c_our_public_key (mark_dirty c) = c_our_public_key c"
  "c_keypair_creation_time (mark_clean c) = c_keypair_creation_time c"
  "c_keypair_creation_time (mark_dirty c) = c_keypair_creation_time c"
  "c_startup_date (mark_clean c) = c_startup_date c" "c_startup_date (mark_dirty c) = c_startup_date c"
  by (simp_all add: mark_clean_def mark_dirty_def)

lemma persist_simps [simp]:
  "s_network (persist c st) = s_network st" "s_clock (persist c st) = s_clock st"
  "s_disk_ok (persist c st) = s_disk_ok st"
  "c_entries (s_config (persist c st)) = c_entries c"
  "c_keys (s_config (persist c st)) = c_keys c"
  "c_nick_networks (s_config (persist c st)) = c_nick_networks c"
  "c_channel_keys (s_config (persist c st)) = c_channel_keys c"
  "c_ratchets (s_config (persist c st)) = c_ratchets c"
  "c_nonces (s_config (persist c st)) = c_nonces c"
  "c_topics (s_config (persist c st)) = c_topics c"
  "c_metrics (s_config (persist c st)) = c_metrics c"
  "c_fish11 (s_config (persist c st)) = c_fish11 c"
  "c_our_private_key (s_config (persist c st)) = c_our_private_key c"
  "c_our_public_key (s_config (persist c st)) = c_our_public_key c"
  "c_keypair_creation_time (s_config (persist c st)) = c_keypair_creation_time c"
  by (simp_all add: persist_def)

lemma with_config_mut_persist:
  assumes "f (mark_dirty (s_config st)) = (r, c)" "c_dirty c"
  shows "with_config_mut f st = (r, persist c st)"
  using assms
  by (cases r; cases "s_disk_ok st")
    (simp_all add: with_config_mut_def save_if_modified_def drop_guard_def save_config_def persist_def Let_def)

text \<open>C32: a mutation of the configuration is written out whatever the closure
  returned: the store after \<open>with_config_mut\<close> holds the closure's configuration and,
  when the disk takes writes, the file holds the same.  In particular a failed
  operation is saved by the guard's destructor, though the code says it is not.\<close>

theorem with_config_mut_saves_even_on_error:
  assumes "f (mark_dirty (s_config st)) = (r, c)" "c_dirty c" "s_disk_ok st"
  shows "with_config_mut f st =
    (r, st\<lparr>s_config := mark_clean c, s_disk := Some (mark_clean c)\<rparr>)"
  using with_config_mut_persist [of f st r c] assms by (simp add: persist_def)

lemma with_config_mut_saves_even_on_error_witness:
  "\<exists>st :: store. s_disk st = None \<and>
    (\<exists>d. s_disk (snd (with_config_mut (\<lambda>c. (Inl (FE_KeyNotFound ''bob'') :: (FishError, unit) result, c)) st)) = Some d)"
proof -
  define st where "st = \<lparr>s_config = fish_config_new 0, s_disk = None, s_disk_ok = True,
    s_network = None, s_clock = 0\<rparr>"
  show ?thesis
    by (rule exI [of _ st])
      (use with_config_mut_saves_even_on_error
          [of "\<lambda>c. (Inl (FE_KeyNotFound ''bob'') :: (FishError, unit) result, c)" st] in
       \<open>simp add: st_def\<close>)
qed

lemma update_config_persist:
  "c_dirty (f (mark_dirty (s_config st))) \<Longrightarrow> update_config f st = persist (f (mark_dirty (s_config st))) st"
  by (simp add: update_config_def with_config_mut_persist)

lemma counters_persist:
  "\<exists>m. increment_encryption_counter st = persist ((mark_dirty (s_config st))\<lparr>c_metrics := m\<rparr>) st"
  "\<exists>m. increment_decryption_counter st = persist ((mark_dirty (s_config st))\<lparr>c_metrics := m\<rparr>) st"
  "\<exists>m. increment_key_exchange_counter st = persist ((mark_dirty (s_config st))\<lparr>c_metrics := m\<rparr>) st"
  unfolding increment_encryption_counter_def increment_decryption_counter_def increment_key_exchange_counter_def
  by (subst update_config_persist; auto simp: mark_dirty_def)+

text \<open>Everything but the metrics and the dirty flag of two stores agrees.\<close>

definition same_but_metrics :: "store \<Rightarrow> store \<Rightarrow> bool" where
  "same_but_metrics a b \<longleftrightarrow>
     (\<exists>m d. s_config b = (s_config a)\<lparr>c_metrics := m, c_dirty := d\<rparr>) \<and>
     s_network a = s_network b \<and> s_clock a = s_clock b \<and> s_disk_ok a = s_disk_ok b"

lemma same_but_metrics_refl [simp]: "same_but_metrics a a"
  unfolding same_but_metrics_def
  by (auto intro!: exI [of _ "c_metrics (s_config a)"] exI [of _ "c_dirty (s_config a)"])

lemma same_but_metrics_trans: "same_but_metrics a b \<Longrightarrow> same_but_metrics b c \<Longrightarrow> same_but_metrics a c"
  unfolding same_but_metrics_def by clarsimp (metis (no_types, lifting))

lemma same_but_metrics_persist:
  "same_but_metrics st (persist ((mark_dirty (s_config st))\<lparr>c_metrics := m\<rparr>) st)"
proof -
  have "s_config (persist ((mark_dirty (s_config st))\<lparr>c_metrics := m\<rparr>) st) =
      (s_config st)\<lparr>c_metrics := m, c_dirty := \<not> s_disk_ok st\<rparr>"
    by (simp add: persist_def mark_dirty_def mark_clean_def)
  then show ?thesis unfolding same_but_metrics_def by auto
qed

lemma counters_same:
  "same_but_metrics st (increment_encryption_counter st)"
  "same_but_metrics st (increment_decryption_counter st)"
  "same_but_metrics st (increment_key_exchange_counter st)"
  using counters_persist same_but_metrics_persist by metis+

lemma same_but_metrics_fields:
  assumes "same_but_metrics a b"
  shows "c_entries (s_config b) = c_entries (s_config a)" "c_keys (s_config b) = c_keys (s_config a)"
    "c_nick_networks (s_config b) = c_nick_networks (s_config a)"
    "c_channel_keys (s_config b) = c_channel_keys (s_config a)"
    "c_ratchets (s_config b) = c_ratchets (s_config a)" "c_nonces (s_config b) = c_nonces (s_config a)"
    "c_fish11 (s_config b) = c_fish11 (s_config a)" "c_topics (s_config b) = c_topics (s_config a)"
    "c_our_private_key (s_config b) = c_our_private_key (s_config a)"
    "c_our_public_key (s_config b) = c_our_public_key (s_config a)"
    "c_keypair_creation_time (s_config b) = c_keypair_creation_time (s_config a)"
    "s_network b = s_network a" "s_clock b = s_clock a" "s_disk_ok b = s_disk_ok a"
  using assms unfolding same_but_metrics_def by auto

end
