(* ===== verification/Utils.thy ===== *)
theory Utils
  imports Errors ExtLib
begin

text \<open>
  Normalisation and validation of nicknames and targets (\<open>fish_11_dll/src/utils.rs\<close>),
  the base64 wrappers, the password-derived keys (\<open>utils/key_derivation.rs\<close>), and
  the parsing of the \<open><target> <message>\<close> argument of the exported functions
  (\<open>dll_interface/utility.rs\<close>).
\<close>

section \<open>Nicknames and targets\<close>

definition normalize_nick :: "string \<Rightarrow> string" where
  "normalize_nick nick = to_lowercase (trim nick)"

definition status_char :: "char \<Rightarrow> bool" where
  "status_char c = (c = CHR ''@'' \<or> c = CHR ''+'' \<or> c = CHR ''%'' \<or> c = CHR ''~'')"

definition chan_char :: "char \<Rightarrow> bool" where
  "chan_char c = (c = CHR ''#'' \<or> c = CHR ''&'')"

fun scan_status :: "string \<Rightarrow> nat \<Rightarrow> bool \<Rightarrow> nat option \<times> bool" where
  "scan_status [] idx seen = (None, seen)"
| "scan_status (ch # s) idx seen =
     (if chan_char ch then (Some idx, seen)
      else if status_char ch then scan_status s (Suc idx) True
      else (None, seen))"

definition normalize_target :: "string \<Rightarrow> string" where
  "normalize_target target =
     (let trimmed = trim target in
      if trimmed = [] then trimmed
      else case scan_status trimmed 0 False of
             (Some idx, seen_status) \<Rightarrow>
               if seen_status \<and> 0 < idx then drop idx trimmed else trimmed
           | (None, _) \<Rightarrow> trimmed)"

definition normalize_target_lowercase :: "string \<Rightarrow> string" where
  "normalize_target_lowercase target = normalize_nick (normalize_target target)"

definition first_non_ascii :: "string \<Rightarrow> string option" where
  "first_non_ascii s =
     (let r = dropWhile is_ascii_char s in
      if r = [] then None else Some (take (snd (utf8_step (as_bytes r))) r))"

definition validate_nick_basic :: "string \<Rightarrow> (FishError, unit) result" where
  "validate_nick_basic nick =
     (if CHR 0x00 \<in> set nick then Inl FE_NullByteInString
      else case first_non_ascii nick of
             Some c \<Rightarrow> Inl (FE_NonAsciiCharacter c)
           | None \<Rightarrow> Inr ())"

text \<open>\<open>NICK_VALIDATOR\<close> of \<open>globals.rs\<close>: a letter or one of the eight specials, then up
  to 15 of those, digits and hyphens.\<close>

definition nick_special :: "char \<Rightarrow> bool" where
  "nick_special c = (c = CHR ''['' \<or> c = CHR '']'' \<or> c = CHR 0x5C \<or> c = CHR 0x60 \<or> c = CHR ''_'' \<or>
     c = CHR ''^'' \<or> c = CHR ''{'' \<or> c = CHR ''|'' \<or> c = CHR ''}'')"

definition nick_head :: "char \<Rightarrow> bool" where
  "nick_head c = (is_ascii_alpha c \<or> nick_special c)"

definition nick_tail :: "char \<Rightarrow> bool" where
  "nick_tail c = (is_ascii_alpha c \<or> is_ascii_digit c \<or> nick_special c \<or> c = CHR ''-'')"

definition nick_validator :: "string \<Rightarrow> bool" where
  "nick_validator s =
     (case s of [] \<Rightarrow> False | c # t \<Rightarrow> nick_head c \<and> list_all nick_tail t \<and> length t \<le> 15)"

text \<open>\<open>validate_nickname\<close> answers \<open>false\<close> with the message it writes to the buffer.\<close>

definition validate_nickname :: "string \<Rightarrow> (string, unit) result" where
  "validate_nickname nickname =
     (if nickname = [] then Inl ''Usage: /dll fish_11.dll FiSH11_ExchangeKey <nickname>''
      else if \<not> is_ok (validate_nick_basic nickname) then Inl ''Error: nickname contains invalid characters''
      else if \<not> nick_validator nickname then
        Inl (''Error: nickname must be 1-16 characters, start with letter/['' @ [CHR 0x5C] @ '']'' @ [CHR 0x60] @ ''_^{|}, contain only valid IRC characters'')
      else Inr ())"

section \<open>Base64 and derived keys\<close>

definition base64_encode :: "ext_lib \<Rightarrow> bytes \<Rightarrow> string" where
  "base64_encode L data = b64_enc L data"

definition base64_decode :: "ext_lib \<Rightarrow> string \<Rightarrow> (FishError, bytes) result" where
  "base64_decode L s = map_err FE_Base64Error (b64_dec L s)"

definition derive_key_from_password :: "ext_lib \<Rightarrow> string \<Rightarrow> (DllError, bytes) result" where
  "derive_key_from_password L password =
     (case hkdf L (as_bytes ''FiSH11-DerivedKey'') (as_bytes password) (as_bytes ''key-expansion'') 32 of
        None \<Rightarrow> Inl (InvalidInput ''password'' ''HKDF key derivation failed: invalid number of blocks, too large output'')
      | Some output \<Rightarrow> Inr output)"

definition text_to_legacy_key :: "ext_lib \<Rightarrow> string \<Rightarrow> bytes" where
  "text_to_legacy_key L text = take 32 (sha256 L (as_bytes text))"

section \<open>Arguments of the exported functions\<close>

record ParsedInput =
  pi_target :: string
  pi_message :: string

definition parse_input :: "string \<Rightarrow> (DllError, ParsedInput) result" where
  "parse_input input =
     (case splitn_char 2 (CHR '' '') input of
        target_raw # message # _ \<Rightarrow>
          (let target = normalize_target target_raw in
           if target = [] then Inl (MissingParameter ''target'')
           else if message = [] then Inl (MissingParameter ''message'')
           else Inr \<lparr>pi_target = target, pi_message = message\<rparr>)
      | _ \<Rightarrow> Inl (InvalidInput ''input'' ''expected format: <target> <message>''))"

definition normalize_private_target :: "string \<Rightarrow> (DllError, string) result" where
  "normalize_private_target target =
     (let nickname = normalize_nick target in
      if nickname = [] then Inl (MissingParameter ''nickname'') else Inr nickname)"

section \<open>Facts\<close>

lemma base64_roundtrip [simp]: "b64_law L \<Longrightarrow> base64_decode L (base64_encode L bs) = Inr bs"
  by (simp add: base64_decode_def base64_encode_def b64_roundtrip)

lemma trim_lower_trim: "trim (to_lowercase (trim s)) = to_lowercase (trim s)"
  by (simp add: trim_to_lowercase)

lemma normalize_nick_idem [simp]: "normalize_nick (normalize_nick n) = normalize_nick n"
  by (simp add: normalize_nick_def trim_lower_trim)

lemma to_lowercase_normalize_nick [simp]: "to_lowercase (normalize_nick n) = normalize_nick n"
  by (simp add: normalize_nick_def)

lemma scan_status_shift:
  "scan_status s (k + i) b = (map_option ((+) k) (fst (scan_status s i b)), snd (scan_status s i b))"
proof (induction s arbitrary: i b)
  case (Cons c s)
  show ?case using Cons.IH [of "Suc i" True] by simp
qed simp

lemma scan_status_cases:
  "scan_status s i b = (Some j, r) \<Longrightarrow>
   \<exists>p c t. s = p @ c # t \<and> list_all status_char p \<and> chan_char c \<and> j = i + length p"
proof (induction s arbitrary: i b)
  case (Cons ch s)
  show ?case
  proof (cases "chan_char ch")
    case True
    then show ?thesis using Cons.prems by (intro exI [of _ "[]"]) auto
  next
    case False
    then have ch: "status_char ch" and "scan_status s (Suc i) True = (Some j, r)"
      using Cons.prems by (auto split: if_splits)
    from Cons.IH [OF this(2)] obtain p c t
      where "s = p @ c # t" "list_all status_char p" "chan_char c" "j = Suc i + length p" by blast
    then show ?thesis using ch
      by (intro exI [of _ "ch # p"] exI [of _ c] exI [of _ t]) auto
  qed
qed simp

lemma status_not_chan: "status_char c \<Longrightarrow> \<not> chan_char c"
  by (auto simp: status_char_def chan_char_def)

lemma scan_status_prefix:
  "list_all status_char p \<Longrightarrow> chan_char c \<Longrightarrow>
   scan_status (p @ c # t) i b = (Some (i + length p), b \<or> p \<noteq> [])"
  by (induction p arbitrary: i b) (auto simp: status_not_chan)

lemma chan_char_graphic: "chan_char c \<Longrightarrow> graphic c" "status_char c \<Longrightarrow> graphic c"
  by (auto simp: chan_char_def status_char_def graphic_def)

lemma graphic_not_ws3: "graphic d \<Longrightarrow> \<not> ws3 c d e"
  by (auto simp: graphic_def ws3_def Let_def)

lemma ws_len_rev_append: "ws_len_rev s \<noteq> 0 \<Longrightarrow> ws_len_rev (s @ t) = ws_len_rev s"
proof (induction s rule: ws_len_rev.induct)
  case (2 b a)
  then show ?case by (cases t) (auto split: if_splits)
next
  case (3 a)
  then show ?case by (cases t rule: ws_len_rev.cases) (auto split: if_splits)
qed auto

lemma ws_len_rev_graphic_last:
  "xs \<noteq> [] \<Longrightarrow> graphic (last xs) \<Longrightarrow> ws_len_rev xs = 0 \<Longrightarrow> ws_len_rev (xs @ ys) = 0"
proof (induction xs rule: ws_len_rev.induct)
  case (2 b a)
  then show ?case by (cases ys) (auto simp: graphic_not_ws graphic_not_ws3 split: if_splits)
next
  case (3 a)
  then show ?case by (simp add: ws_len_rev_graphic)
qed auto

lemma trim_suffix: "trim (p @ c # t) = p @ c # t \<Longrightarrow> chan_char c \<Longrightarrow> trim (c # t) = c # t"
proof (rule trim_id)
  assume "chan_char c"
  then show "ws_len (c # t) = 0" by (simp add: chan_char_graphic ws_len_graphic)
next
  assume "trim (p @ c # t) = p @ c # t"
  then have "ws_len_rev (rev (c # t) @ rev p) = 0"
    by (metis ws_len_rev_trim rev_append)
  then show "ws_len_rev (rev (c # t)) = 0"
    using ws_len_rev_append [of "rev (c # t)" "rev p"] by (cases "ws_len_rev (rev (c # t)) = 0") auto
qed

text \<open>The two shapes of a normalised target.\<close>

lemma normalize_target_shape:
  "normalize_target t = trim t \<or>
   (\<exists>p c s. trim t = p @ c # s \<and> p \<noteq> [] \<and> list_all status_char p \<and> chan_char c \<and> normalize_target t = c # s)"
proof (cases "scan_status (trim t) 0 False")
  case (Pair o' seen)
  show ?thesis
  proof (cases o')
    case None
    then show ?thesis using Pair by (simp add: normalize_target_def Let_def)
  next
    case (Some j)
    then obtain p c s where "trim t = p @ c # s" "list_all status_char p" "chan_char c" "j = length p"
      using scan_status_cases [of "trim t" 0 False j seen] Pair by auto
    then show ?thesis using Pair Some by (auto simp: normalize_target_def Let_def)
  qed
qed

lemma normalize_target_id_chan: "chan_char c \<Longrightarrow> trim (c # s) = c # s \<Longrightarrow> normalize_target (c # s) = c # s"
  by (simp add: normalize_target_def Let_def)

lemma normalize_target_idem [simp]: "normalize_target (normalize_target t) = normalize_target t"
  using normalize_target_shape [of t]
proof
  assume "normalize_target t = trim t"
  then show ?thesis by (simp add: normalize_target_def Let_def split: option.splits prod.splits)
next
  assume "\<exists>p c s. trim t = p @ c # s \<and> p \<noteq> [] \<and> list_all status_char p \<and> chan_char c \<and> normalize_target t = c # s"
  then show ?thesis using trim_suffix normalize_target_id_chan by (metis trim_idem)
qed

lemma lower_chars [simp]: "chan_char (lower_char c) = chan_char c" "status_char (lower_char c) = status_char c"
proof -
  have eq: "lower_char c = d \<longleftrightarrow> c = d"
    if "(of_char d :: nat) < 65 \<or> 122 < (of_char d :: nat)" for d
    unfolding char_eq_code of_lower_char using that by auto
  show "chan_char (lower_char c) = chan_char c"
    by (simp add: chan_char_def eq)
  show "status_char (lower_char c) = status_char c"
    by (simp add: status_char_def eq)
qed

lemma scan_status_lower: "scan_status (to_lowercase s) i b = scan_status s i b"
  unfolding to_lowercase_def by (induction s i b rule: scan_status.induct) simp_all

lemma normalize_target_lower: "normalize_target (to_lowercase s) = to_lowercase (normalize_target s)"
  by (simp add: normalize_target_def Let_def trim_to_lowercase scan_status_lower drop_to_lowercase
      split: prod.splits option.splits)

lemma trim_normalize_target [simp]: "trim (normalize_target t) = normalize_target t"
  using normalize_target_shape [of t] by (metis trim_idem trim_suffix)

text \<open>target normalisation is idempotent, and every STATUSMSG form of a channel
  (any run of the prefixes @, +, %, ~ before a # or & name) normalises to the bare
  channel, so all forms of a target select the same key.\<close>

theorem normalize_target_statusmsg:
  "normalize_target_lowercase (normalize_target_lowercase t) = normalize_target_lowercase t \<and>
   (list_all status_char p \<and> chan_char c \<and> trim (c # s) = c # s \<longrightarrow>
    normalize_target (p @ c # s) = c # s \<and>
    normalize_target_lowercase (p @ c # s) = normalize_target_lowercase (c # s))"
proof (intro conjI impI)
  show "normalize_target_lowercase (normalize_target_lowercase t) = normalize_target_lowercase t"
    by (simp add: normalize_target_lowercase_def normalize_nick_def normalize_target_lower trim_to_lowercase)
next
  assume a: "list_all status_char p \<and> chan_char c \<and> trim (c # s) = c # s"
  have "ws_len (p @ c # s) = 0"
    using a by (cases p) (auto simp: ws_len_graphic chan_char_graphic)
  moreover have "ws_len_rev (rev (p @ c # s)) = 0"
    using a ws_len_rev_graphic_last [of "rev (c # s)" "rev p"]
    by (metis chan_char_graphic(1) last_snoc rev.simps(2) rev_append rev_is_Nil_conv list.distinct(1) ws_len_rev_trim)
  ultimately have "trim (p @ c # s) = p @ c # s" by (rule trim_id)
  then show n: "normalize_target (p @ c # s) = c # s"
    using a scan_status_prefix [of p c s 0 False]
    by (cases "p = []") (auto simp: normalize_target_def Let_def)
  show "normalize_target_lowercase (p @ c # s) = normalize_target_lowercase (c # s)"
    using n a by (simp add: normalize_target_lowercase_def normalize_target_id_chan)
qed

lemma normalize_target_statusmsg_witness:
  "normalize_target ''@+#Chan'' = ''#Chan'' \<and>
   normalize_target_lowercase ''@+#Chan'' = normalize_target_lowercase ''#Chan''"
  using normalize_target_statusmsg [of "[]" "''@+''" "CHR ''#''" "''Chan''"]
  by (simp add: trim_graphic graphic_def status_char_def chan_char_def)

end
