(* ===== verification/Networks.thy ===== *)
theory Networks
  imports Store Utils
begin

text \<open>
  The mapping of nicknames to networks (\<open>config/networks.rs\<close>).  Lists that the
  source collects from a \<open>HashMap\<close> or a \<open>HashSet\<close> come in the order of the model's
  association list.
\<close>

definition get_network_for_nick_internal :: "FishConfig \<Rightarrow> string \<Rightarrow> string option" where
  "get_network_for_nick_internal c nickname = hm_get (c_nick_networks c) nickname"

definition has_network_internal :: "FishConfig \<Rightarrow> string \<Rightarrow> bool" where
  "has_network_internal c nickname = hm_has (c_nick_networks c) nickname"

definition get_network_for_nick :: "string \<Rightarrow> store \<Rightarrow> string option" where
  "get_network_for_nick nickname = with_config (\<lambda>c. hm_get (c_nick_networks c) nickname)"

definition set_network_for_nick :: "string \<Rightarrow> string \<Rightarrow> store \<Rightarrow> (FishError, unit) result \<times> store" where
  "set_network_for_nick nickname network =
     with_config_mut (\<lambda>c. (Inr (), c\<lparr>c_nick_networks := hm_insert nickname network (c_nick_networks c)\<rparr>))"

definition remove_network_for_nick :: "string \<Rightarrow> store \<Rightarrow> (FishError, unit) result \<times> store" where
  "remove_network_for_nick nickname =
     with_config_mut (\<lambda>c. (Inr (), c\<lparr>c_nick_networks := hm_remove nickname (c_nick_networks c)\<rparr>))"

definition get_all_networks :: "store \<Rightarrow> string list" where
  "get_all_networks = with_config (\<lambda>c. remdups (map snd (c_nick_networks c)))"

definition get_nicknames_by_network :: "string \<Rightarrow> store \<Rightarrow> string list" where
  "get_nicknames_by_network network =
     with_config (\<lambda>c. map fst (filter (\<lambda>kv. snd kv = network) (c_nick_networks c)))"

definition get_all_network_mappings :: "store \<Rightarrow> (string, string) hmap" where
  "get_all_network_mappings = with_config c_nick_networks"

definition clear_all_network_mappings :: "store \<Rightarrow> (FishError, unit) result \<times> store" where
  "clear_all_network_mappings = with_config_mut (\<lambda>c. (Inr (), c\<lparr>c_nick_networks := []\<rparr>))"

definition has_network :: "string \<Rightarrow> store \<Rightarrow> bool" where
  "has_network nickname = with_config (\<lambda>c. hm_has (c_nick_networks c) nickname)"

definition count_network_mappings :: "store \<Rightarrow> nat" where
  "count_network_mappings = with_config (\<lambda>c. length (c_nick_networks c))"

definition count_unique_networks :: "store \<Rightarrow> nat" where
  "count_unique_networks = with_config (\<lambda>c. length (remdups (map snd (c_nick_networks c))))"

definition rename_network :: "string \<Rightarrow> string \<Rightarrow> store \<Rightarrow> (FishError, nat) result \<times> store" where
  "rename_network old_name new_name =
     with_config_mut (\<lambda>c.
       (Inr (length (filter (\<lambda>kv. snd kv = old_name) (c_nick_networks c))),
        c\<lparr>c_nick_networks :=
            map (\<lambda>kv. (fst kv, if snd kv = old_name then new_name else snd kv)) (c_nick_networks c)\<rparr>))"

definition delete_network :: "string \<Rightarrow> store \<Rightarrow> (FishError, nat) result \<times> store" where
  "delete_network network =
     with_config_mut (\<lambda>c.
       (let nicknames_to_remove = map fst (filter (\<lambda>kv. snd kv = network) (c_nick_networks c))
        in (Inr (length nicknames_to_remove),
            c\<lparr>c_nick_networks := fold hm_remove nicknames_to_remove (c_nick_networks c)\<rparr>)))"

definition merge_networks :: "string \<Rightarrow> string \<Rightarrow> store \<Rightarrow> (FishError, nat) result \<times> store" where
  "merge_networks source_network destination_network =
     with_config_mut (\<lambda>c.
       (let nicknames_to_update = map fst (filter (\<lambda>kv. snd kv = source_network) (c_nick_networks c))
        in (Inr (length nicknames_to_update),
            c\<lparr>c_nick_networks :=
                fold (\<lambda>n. hm_insert n destination_network) nicknames_to_update (c_nick_networks c)\<rparr>)))"

definition validate_network_name :: "string \<Rightarrow> (FishError, unit) result" where
  "validate_network_name name =
     (if CHR '':'' \<in> set name then Inl (FE_InvalidNetworkName name) else Inr ())"

section \<open>Facts\<close>

lemma set_network_persist:
  "set_network_for_nick n net st =
     (Inr (), persist ((mark_dirty (s_config st))\<lparr>c_nick_networks :=
        hm_insert n net (c_nick_networks (s_config st))\<rparr>) st)"
  unfolding set_network_for_nick_def
  by (rule with_config_mut_persist) (simp_all add: mark_dirty_def)

lemma fold_insert_get:
  "hm_get (fold (\<lambda>n. hm_insert n v) ns m) k = (if k \<in> set ns then Some v else hm_get m k)"
  by (induction ns arbitrary: m) auto

lemma fold_remove_get:
  "hm_get (fold hm_remove ns m) k = (if k \<in> set ns then None else hm_get m k)"
  by (induction ns arbitrary: m) auto

lemma map_of_in_set: "hm_wf m \<Longrightarrow> (k, v) \<in> set m \<longleftrightarrow> hm_get m k = Some v"
  by (simp add: map_of_eq_Some_iff)

lemma nicks_of_network:
  "hm_wf m \<Longrightarrow> k \<in> set (map fst (filter (\<lambda>kv. snd kv = net) m)) \<longleftrightarrow> hm_get m k = Some net"
  by (force simp: map_of_in_set [symmetric] image_iff)

lemma rename_as_map: "hm_get (map (\<lambda>kv. (fst kv, if snd kv = a then b else snd kv)) m) k =
    map_option (\<lambda>v. if v = a then b else v) (hm_get m k)"
  by (induction m) auto

text \<open>renaming a network and merging it into another have the same effect on
  every nickname (those of the old network move, the others stay) and report the
  same count; deleting it removes exactly those nicknames.\<close>

theorem network_moves:
  assumes "hm_wf (c_nick_networks (s_config st))"
  shows "fst (rename_network a b st) = fst (merge_networks a b st) \<and>
    (\<forall>n. get_network_for_nick n (snd (rename_network a b st)) =
           map_option (\<lambda>v. if v = a then b else v) (get_network_for_nick n st) \<and>
         get_network_for_nick n (snd (merge_networks a b st)) =
           get_network_for_nick n (snd (rename_network a b st)) \<and>
         get_network_for_nick n (snd (delete_network a st)) =
           (if get_network_for_nick n st = Some a then None else get_network_for_nick n st))"
proof -
  let ?c = "mark_dirty (s_config st)" and ?m = "c_nick_networks (s_config st)"
  let ?ns = "map fst (filter (\<lambda>kv. snd kv = a) ?m)"
  have ren: "rename_network a b st = (Inr (length ?ns),
      persist (?c\<lparr>c_nick_networks := map (\<lambda>kv. (fst kv, if snd kv = a then b else snd kv)) ?m\<rparr>) st)"
    unfolding rename_network_def by (rule with_config_mut_persist) (simp_all add: mark_dirty_def)
  have mer: "merge_networks a b st = (Inr (length ?ns),
      persist (?c\<lparr>c_nick_networks := fold (\<lambda>n. hm_insert n b) ?ns ?m\<rparr>) st)"
    unfolding merge_networks_def by (rule with_config_mut_persist) (simp_all add: mark_dirty_def)
  have del: "delete_network a st = (Inr (length ?ns),
      persist (?c\<lparr>c_nick_networks := fold hm_remove ?ns ?m\<rparr>) st)"
    unfolding delete_network_def by (rule with_config_mut_persist) (simp_all add: mark_dirty_def)
  have ns: "n \<in> set ?ns \<longleftrightarrow> hm_get ?m n = Some a" for n
    by (rule nicks_of_network [OF assms])
  have "hm_get (fold (\<lambda>n. hm_insert n b) ?ns ?m) n =
      map_option (\<lambda>v. if v = a then b else v) (hm_get ?m n)" for n
    unfolding fold_insert_get ns by (cases "hm_get ?m n") auto
  moreover have "hm_get (fold hm_remove ?ns ?m) n = (if hm_get ?m n = Some a then None else hm_get ?m n)" for n
    unfolding fold_remove_get ns by simp
  ultimately show ?thesis
    by (simp add: ren mer del get_network_for_nick_def with_config_def rename_as_map del: set_map)
qed

lemma network_moves_witness:
  "\<exists>st. get_network_for_nick ''bob'' (snd (rename_network ''a'' ''b'' st)) = Some ''b'' \<and>
        get_network_for_nick ''eve'' (snd (rename_network ''a'' ''b'' st)) = Some ''c''"
proof -
  define st where "st = \<lparr>s_config = (fish_config_new 0)\<lparr>c_nick_networks := [(''bob'', ''a''), (''eve'', ''c'')]\<rparr>,
    s_disk = None, s_disk_ok = True, s_network = None, s_clock = 0\<rparr>"
  have "hm_wf (c_nick_networks (s_config st))" by (simp add: st_def)
  then show ?thesis
    using network_moves [of st "''a''" "''b''"]
    by (intro exI [of _ st]) (simp add: st_def get_network_for_nick_def with_config_def)
qed

end
