(* ===== verification/X25519.thy ===== *)
theory X25519
  imports Utils
begin

text \<open>
  The X25519 key exchange (\<open>crypto/x25519.rs\<close>): validation of received keys,
  the derived shared secret, the \<open>X25519_INIT:\<close> format, and the age of a keypair.
\<close>

record X25519KeyPair =
  kp_private :: bytes
  kp_public :: bytes
  kp_creation_time :: int

text \<open>\<open>Utc::now() - creation_time > 7 days\<close>, in seconds.\<close>

definition needs_rotation :: "int \<Rightarrow> X25519KeyPair \<Rightarrow> bool" where
  "needs_rotation now kp = (now - kp_creation_time kp > 7 * 24 * 3600)"

text \<open>\<open>secret\<close> is the random secret the generator draws.\<close>

definition generate_keypair :: "ext_lib \<Rightarrow> bytes \<Rightarrow> int \<Rightarrow> X25519KeyPair" where
  "generate_keypair L secret now =
     \<lparr>kp_private = secret, kp_public = dh_pub L secret, kp_creation_time = now\<rparr>"

definition LOW_ORDER_POINTS :: "bytes list" where
  "LOW_ORDER_POINTS =
    [replicate 32 0,
     1 # replicate 31 0,
     [0xe0, 0xeb, 0x7a, 0x7c, 0x3b, 0x41, 0xb8, 0xae, 0x16, 0x56, 0xe3, 0xfa, 0xf1, 0x9f, 0xc4, 0x6a,
      0xda, 0x09, 0x8d, 0xeb, 0x9c, 0x32, 0xb1, 0xfd, 0x86, 0x62, 0x05, 0x16, 0x5f, 0x49, 0xb8, 0x00],
     [0x5f, 0x9c, 0x95, 0xbc, 0xa3, 0x50, 0x8c, 0x24, 0xb1, 0xd0, 0xb1, 0x55, 0x9c, 0x83, 0xef, 0x5b,
      0x04, 0x44, 0x5c, 0xc4, 0x58, 0x1c, 0x8e, 0x86, 0xd8, 0x22, 0x4e, 0xdd, 0xd0, 0x9f, 0x11, 0x57],
     0xec # replicate 30 0xff @ [0x7f],
     0xed # replicate 30 0xff @ [0x7f],
     0xee # replicate 30 0xff @ [0x7f],
     [0xcd, 0xeb, 0x7a, 0x7c, 0x3b, 0x41, 0xb8, 0xae, 0x16, 0x56, 0xe3, 0xfa, 0xf1, 0x9f, 0xc4, 0x6a,
      0xda, 0x09, 0x8d, 0xeb, 0x9c, 0x32, 0xb1, 0xfd, 0x86, 0x62, 0x05, 0x16, 0x5f, 0x49, 0xb8, 0x80]]"

definition validate_public_key :: "bytes \<Rightarrow> (FishError, unit) result" where
  "validate_public_key bs =
     (if list_all (\<lambda>b. b = 0) bs then Inl (FE_InvalidInput ''Public key is all zeros'')
      else if bs \<in> set LOW_ORDER_POINTS then
        Inl (FE_InvalidInput ''Public key is a low-order point and rejected for security'')
      else Inr ())"

definition compute_shared_secret :: "ext_lib \<Rightarrow> bytes \<Rightarrow> bytes \<Rightarrow> (FishError, bytes) result" where
  "compute_shared_secret L our_private their_public =
     (case validate_public_key their_public of
        Inl e \<Rightarrow> Inl e
      | Inr _ \<Rightarrow>
          (case hkdf L (as_bytes ''FiSH11-KDF'') (dh_mul L our_private their_public)
                  (as_bytes ''EncryptionKey'') 32 of
             None \<Rightarrow> Inl (FE_CryptoError ''HKDF expansion failed: invalid number of blocks, too large output'')
           | Some output \<Rightarrow> Inr output))"

definition X25519_PREFIX :: string where "X25519_PREFIX = ''X25519_INIT:''"

definition format_public_key :: "ext_lib \<Rightarrow> bytes \<Rightarrow> string" where
  "format_public_key L public_key = X25519_PREFIX @ base64_encode L public_key"

definition constant_time_compare :: "bytes \<Rightarrow> bytes \<Rightarrow> bool" where
  "constant_time_compare a b = (if length a \<noteq> length b then False else a = b)"

definition extract_public_key :: "ext_lib \<Rightarrow> string \<Rightarrow> (FishError, bytes) result" where
  "extract_public_key L formatted =
     (if length formatted < length X25519_PREFIX \<or>
         \<not> constant_time_compare (take (length X25519_PREFIX) (as_bytes formatted)) (as_bytes X25519_PREFIX)
      then Inl (FE_InvalidInput ''Formatted key does not have the correct prefix'')
      else
        (case base64_decode L (trim (drop (length X25519_PREFIX) formatted)) of
           Inl e \<Rightarrow> Inl (FE_InvalidInput (''Invalid base64 in public key: '' @ fish_display e))
         | Inr key_data \<Rightarrow>
             if length key_data \<noteq> 32 then
               Inl (FE_InvalidInput (''Invalid public key length: got '' @ show_nat (length key_data) @
                                     '', expected 32''))
             else (case validate_public_key key_data of Inl e \<Rightarrow> Inl e | Inr _ \<Rightarrow> Inr key_data)))"

definition is_valid_public_key_format :: "ext_lib \<Rightarrow> string \<Rightarrow> bool" where
  "is_valid_public_key_format L formatted =
     (case strip_prefix X25519_PREFIX formatted of
        None \<Rightarrow> False
      | Some encoded \<Rightarrow>
          (case base64_decode L encoded of
             Inl _ \<Rightarrow> False
           | Inr decoded \<Rightarrow>
               if length decoded \<noteq> 32 then False else is_ok (validate_public_key decoded)))"

section \<open>Facts\<close>

lemma as_bytes_take: "take n (as_bytes s) = as_bytes (take n s)"
  by (simp add: as_bytes_def take_map)

lemma extract_prefix:
  "extract_public_key L s = Inr k \<Longrightarrow> starts_with X25519_PREFIX s"
  by (auto simp: extract_public_key_def constant_time_compare_def as_bytes_take starts_with_def split: if_splits)

lemma extract_valid:
  "extract_public_key L s = Inr k \<Longrightarrow> length k = 32 \<and> is_ok (validate_public_key k)"
  by (auto simp: extract_public_key_def split: if_splits sum.splits)

lemma validated_not_low_order: "is_ok (validate_public_key k) \<Longrightarrow> k \<notin> set LOW_ORDER_POINTS"
  by (auto simp: validate_public_key_def split: if_splits)

lemma sample_keys_valid:
  "validate_public_key (replicate 32 9) = Inr ()" "validate_public_key (replicate 32 8) = Inr ()"
  by code_simp+

text \<open>a formatted public key reads back, surrounding whitespace included; whatever
  \<open>extract_public_key\<close> accepts is a 32-byte key outside the table of low-order points.\<close>

theorem public_key_format_roundtrip:
  assumes "lib_ok L" "length k = 32" "is_ok (validate_public_key k)"
  shows "extract_public_key L (format_public_key L k) = Inr k \<and>
    is_valid_public_key_format L (format_public_key L k) \<and>
    (\<forall>s k'. extract_public_key L s = Inr k' \<longrightarrow>
       length k' = 32 \<and> k' \<notin> set LOW_ORDER_POINTS \<and> starts_with X25519_PREFIX s)"
proof -
  have b: "b64_law L" using assms(1) by (simp add: lib_ok_def)
  have v: "validate_public_key k = Inr ()"
    using assms(3) by (cases "validate_public_key k") auto
  have "extract_public_key L (format_public_key L k) = Inr k"
    using b v assms(2)
    by (simp add: extract_public_key_def format_public_key_def constant_time_compare_def as_bytes_take
        base64_encode_def b64_roundtrip base64_decode_def)
  moreover have "is_valid_public_key_format L (format_public_key L k)"
    using b v assms(2) by (simp add: is_valid_public_key_format_def format_public_key_def)
  moreover have "\<forall>s k'. extract_public_key L s = Inr k' \<longrightarrow>
       length k' = 32 \<and> k' \<notin> set LOW_ORDER_POINTS \<and> starts_with X25519_PREFIX s"
    using extract_valid extract_prefix validated_not_low_order by blast
  ultimately show ?thesis by blast
qed

lemma public_key_format_roundtrip_witness:
  "extract_public_key ref_lib (format_public_key ref_lib (replicate 32 9)) = Inr (replicate 32 9)"
  using public_key_format_roundtrip [of ref_lib "replicate 32 9"]
  by (simp add: sample_keys_valid)

text \<open>the two sides of an exchange derive the same 32-byte key from each other's
  public keys, when both keys pass validation.\<close>

theorem shared_secret_agreement:
  assumes "lib_ok L" "length a = 32" "length b = 32"
    "is_ok (validate_public_key (dh_pub L a))" "is_ok (validate_public_key (dh_pub L b))"
  shows "\<exists>s. compute_shared_secret L a (dh_pub L b) = Inr s \<and>
    compute_shared_secret L b (dh_pub L a) = Inr s \<and> length s = 32"
proof -
  have comm: "dh_mul L b (dh_pub L a) = dh_mul L a (dh_pub L b)"
    using assms(1) by (simp add: lib_ok_def dh_law_def)
  have h: "hkdf_law L" using assms(1) by (simp add: lib_ok_def)
  obtain s where "hkdf L (as_bytes ''FiSH11-KDF'') (dh_mul L a (dh_pub L b)) (as_bytes ''EncryptionKey'') 32 = Some s"
      "length s = 32"
    using hkdf_out [OF h, of 32 "as_bytes ''FiSH11-KDF''" "dh_mul L a (dh_pub L b)" "as_bytes ''EncryptionKey''"]
    by auto
  moreover have "validate_public_key (dh_pub L a) = Inr ()" "validate_public_key (dh_pub L b) = Inr ()"
    using assms(4,5) by (cases "validate_public_key (dh_pub L a)"; cases "validate_public_key (dh_pub L b)"; auto)+
  ultimately show ?thesis using comm by (simp add: compute_shared_secret_def)
qed

lemma shared_secret_agreement_witness:
  "\<exists>s. compute_shared_secret ref_lib (replicate 32 9) (dh_pub ref_lib (replicate 32 8)) = Inr s \<and>
    compute_shared_secret ref_lib (replicate 32 8) (dh_pub ref_lib (replicate 32 9)) = Inr s \<and> length s = 32"
proof -
  have "dh_pub ref_lib = (\<lambda>a. a)" by (simp add: ref_lib_def)
  then show ?thesis
    using shared_secret_agreement [of ref_lib "replicate 32 9" "replicate 32 8"]
    by (simp add: sample_keys_valid)
qed

definition set_top_bit :: "bytes \<Rightarrow> bytes" where
  "set_top_bit bs = bs[31 := bs ! 31 + 0x80]"

text \<open>the table holds one encoding of each small-order point; the encodings with
  the unused top bit set, which X25519 reads as the same points (RFC 7748 masks the
  bit), pass validation.\<close>

theorem low_order_top_bit_accepted:
  "list_all (\<lambda>p. \<not> is_ok (validate_public_key p)) LOW_ORDER_POINTS \<and>
   list_all (\<lambda>p. is_ok (validate_public_key (set_top_bit p))) (take 7 LOW_ORDER_POINTS)"
  by code_simp

end
