(* ===== verification/KeyManagement.thy ===== *)
theory KeyManagement
  imports Networks X25519
begin

text \<open>
  Keys of nicknames and channels per network (\<open>config/key_management.rs\<close>): the
  entries \<open>nick@network\<close>, their expiry, the configured lifetime, listings, and our
  own keypair.  Every function takes the libraries \<open>L\<close>; the clock and the current
  network are in the store.  \<open>i64\<close> sums wrap at 64 bits, as the release build does.
\<close>

definition MIN_KEY_TTL :: int where "MIN_KEY_TTL = 3600"
definition MAX_KEY_TTL :: int where "MAX_KEY_TTL = 604800"
definition KEY_EXPIRY_GRACE_PERIOD :: int where "KEY_EXPIRY_GRACE_PERIOD = 300"

definition i64 :: "int \<Rightarrow> int" where
  "i64 x = (x + 2 ^ 63) mod 2 ^ 64 - 2 ^ 63"

record KeyStatus =
  ks_nickname :: string
  ks_network :: string
  ks_is_exchange :: bool
  ks_is_valid :: bool
  ks_ttl :: "int option"

record KeyInfo =
  ki_nickname :: string
  ki_network :: string
  ki_is_exchange :: bool
  ki_ttl :: "int option"

definition resolve_network_name ::
  "store \<Rightarrow> FishConfig \<Rightarrow> string option \<Rightarrow> string \<Rightarrow> bool \<Rightarrow> string" where
  "resolve_network_name st c network normalized_nick check_existing_mapping =
     (case network of
        Some net \<Rightarrow> net
      | None \<Rightarrow>
          (case get_current_network st of
             Some net \<Rightarrow> net
           | None \<Rightarrow>
               (case (if check_existing_mapping then get_network_for_nick_internal c normalized_nick else None) of
                  Some net \<Rightarrow> net
                | None \<Rightarrow> ''default'')))"

definition resolve_network_name_simple :: "store \<Rightarrow> string option \<Rightarrow> string" where
  "resolve_network_name_simple st network =
     (case network of
        Some net \<Rightarrow> net
      | None \<Rightarrow> (case get_current_network st of Some net \<Rightarrow> net | None \<Rightarrow> ''default''))"

definition entry_name :: "string \<Rightarrow> string \<Rightarrow> string" where
  "entry_name nick net = nick @ ''@'' @ net"

text \<open>\<open>net\<close> when the caller gave none: the nickname's own mapping.\<close>

definition own_network :: "FishConfig \<Rightarrow> string option \<Rightarrow> string \<Rightarrow> string \<Rightarrow> string" where
  "own_network c network normalized_nick fallback =
     (case network of
        Some net \<Rightarrow> net
      | None \<Rightarrow> (case get_network_for_nick_internal c normalized_nick of Some net \<Rightarrow> net | None \<Rightarrow> fallback))"

definition check_expiration :: "ext_lib \<Rightarrow> int \<Rightarrow> FishConfig \<Rightarrow> EntryData \<Rightarrow> string \<Rightarrow> (FishError, unit) result" where
  "check_expiration L now c entry nick =
     (if e_is_exchange entry = Some True then
        (case e_date entry of
           None \<Rightarrow> Inr ()
         | Some date_str \<Rightarrow>
             (case date_parse L date_str of
                None \<Rightarrow> Inr ()
              | Some key_date \<Rightarrow>
                  (let elapsed_seconds = now - key_date;
                       key_lifetime_seconds = (case f_key_ttl (c_fish11 c) of Some t \<Rightarrow> t | None \<Rightarrow> 86400);
                       remaining_seconds =
                         i64 (i64 (key_lifetime_seconds + KEY_EXPIRY_GRACE_PERIOD) - elapsed_seconds)
                   in if remaining_seconds \<le> 0 then Inl (FE_KeyExpired nick) else Inr ())))
      else Inr ())"

definition usable_key :: "ext_lib \<Rightarrow> int \<Rightarrow> FishConfig \<Rightarrow> EntryData \<Rightarrow> string \<Rightarrow> string \<Rightarrow> (FishError, bytes) result" where
  "usable_key L now c entry key_str nick =
     (case check_expiration L now c entry nick of
        Inl e \<Rightarrow> Inl e
      | Inr _ \<Rightarrow> base64_decode L key_str)"

definition get_key_internal ::
  "ext_lib \<Rightarrow> int \<Rightarrow> FishConfig \<Rightarrow> string \<Rightarrow> string option \<Rightarrow> (FishError, bytes) result" where
  "get_key_internal L now c nickname network =
     (let normalized_nick = normalize_nick nickname;
          network_name = own_network c network normalized_nick ''default'';
          direct = (case hm_get (c_entries c) (entry_name normalized_nick network_name) of
                      None \<Rightarrow> None
                    | Some entry \<Rightarrow> map_option (\<lambda>k. (entry, k)) (e_key entry))
      in case direct of
           Some (entry, key_str) \<Rightarrow> usable_key L now c entry key_str normalized_nick
         | None \<Rightarrow>
             (let fallback =
                (if network_name \<noteq> ''default'' then
                   (case hm_get (c_entries c) (normalized_nick @ ''@default'') of
                      None \<Rightarrow> None
                    | Some entry \<Rightarrow> map_option (\<lambda>k. (entry, k)) (e_key entry))
                 else
                   (case find (\<lambda>(k, entry). starts_with (normalized_nick @ ''@'') k \<and> e_key entry \<noteq> None)
                           (c_entries c) of
                      None \<Rightarrow> None
                    | Some (_, entry) \<Rightarrow> map_option (\<lambda>k. (entry, k)) (e_key entry)))
              in case fallback of
                   Some (entry, key_str) \<Rightarrow> usable_key L now c entry key_str normalized_nick
                 | None \<Rightarrow> Inl (FE_KeyNotFound normalized_nick)))"

definition get_key :: "ext_lib \<Rightarrow> string \<Rightarrow> string option \<Rightarrow> store \<Rightarrow> (FishError, bytes) result" where
  "get_key L nickname network st =
     with_config (\<lambda>c. get_key_internal L (s_clock st) c nickname network) st"

text \<open>The closure \<open>set_key\<close> runs on the configuration.\<close>

definition set_key_entry ::
  "ext_lib \<Rightarrow> store \<Rightarrow> string \<Rightarrow> bytes \<Rightarrow> string option \<Rightarrow> bool \<Rightarrow> bool \<Rightarrow> FishConfig
   \<Rightarrow> (FishError, unit) result \<times> FishConfig" where
  "set_key_entry L st nickname key network overwrite is_exchange c =
     (let normalized_nick = normalize_nick nickname;
          net = own_network c network normalized_nick ''.'';
          entry_key = entry_name normalized_nick (resolve_network_name st c network normalized_nick True);
          entry = \<lparr>e_key = Some (base64_encode L key), e_date = Some (date_fmt L (s_clock st)),
                   e_is_exchange = Some is_exchange\<rparr>
      in if \<not> overwrite \<and> hm_has (c_keys c) normalized_nick then
           (Inl (FE_DuplicateEntry normalized_nick), c)
         else if \<not> overwrite \<and> hm_has (c_entries c) (net @ '':'' @ nickname) then
           (Inl (FE_DuplicateEntry normalized_nick), c)
         else if \<not> overwrite \<and> hm_has (c_entries c) entry_key then
           (Inl (FE_DuplicateEntry entry_key), c)
         else (Inr (), c\<lparr>c_entries := hm_insert entry_key entry (c_entries c)\<rparr>))"

definition set_key ::
  "ext_lib \<Rightarrow> string \<Rightarrow> bytes \<Rightarrow> string option \<Rightarrow> bool \<Rightarrow> bool \<Rightarrow> store \<Rightarrow> (FishError, unit) result \<times> store" where
  "set_key L nickname key network overwrite is_exchange st =
     (case (case network of Some net \<Rightarrow> validate_network_name net | None \<Rightarrow> Inr ()) of
        Inl e \<Rightarrow> (Inl e, st)
      | Inr _ \<Rightarrow>
          (case with_config_mut (set_key_entry L st nickname key network overwrite is_exchange) st of
             (Inl e, st1) \<Rightarrow> (Inl e, st1)
           | (Inr _, st1) \<Rightarrow>
               set_network_for_nick (normalize_nick nickname) (resolve_network_name_simple st1 network) st1))"

definition delete_key :: "string \<Rightarrow> string option \<Rightarrow> store \<Rightarrow> (FishError, unit) result \<times> store" where
  "delete_key nickname network =
     with_config_mut (\<lambda>c.
       (let normalized_nick = normalize_nick nickname;
            entry_key = entry_name normalized_nick (own_network c network normalized_nick ''default'');
            entry_removed = hm_has (c_entries c) entry_key;
            key_removed = hm_has (c_keys c) normalized_nick;
            c1 = c\<lparr>c_entries := hm_remove entry_key (c_entries c), c_keys := hm_remove normalized_nick (c_keys c)\<rparr>;
            c2 = (if network = None \<and> has_network_internal c1 normalized_nick
                  then c1\<lparr>c_nick_networks := hm_remove normalized_nick (c_nick_networks c1)\<rparr> else c1)
        in (if entry_removed \<or> key_removed then Inr () else Inl (FE_KeyNotFound normalized_nick), c2)))"

definition get_configured_key_ttl :: "store \<Rightarrow> int" where
  "get_configured_key_ttl st =
     (let ttl = with_config (\<lambda>c. case f_key_ttl (c_fish11 c) of Some t \<Rightarrow> t | None \<Rightarrow> 86400) st in
      if ttl < 3600 then 3600 else if ttl > 604800 then 604800 else ttl)"

definition set_configured_key_ttl :: "int \<Rightarrow> store \<Rightarrow> (DllError, unit) result \<times> store" where
  "set_configured_key_ttl ttl_seconds st =
     (if ttl_seconds < MIN_KEY_TTL then
        (Inl (InvalidInput ''ttl_seconds'' (''Value '' @ show_int ttl_seconds @
           '' is below minimum. Must be at least '' @ show_int MIN_KEY_TTL @ '' seconds (1 hour).'')), st)
      else if ttl_seconds > MAX_KEY_TTL then
        (Inl (InvalidInput ''ttl_seconds'' (''Value '' @ show_int ttl_seconds @
           '' exceeds maximum. Must be at most '' @ show_int MAX_KEY_TTL @ '' seconds (7 days).'')), st)
      else
        (let (r, st') = with_config_mut (\<lambda>c.
               (Inr (), mark_dirty (c\<lparr>c_fish11 := (c_fish11 c)\<lparr>f_key_ttl := Some ttl_seconds\<rparr>\<rparr>))) st
         in (map_err dll_of_fish r, st')))"

definition get_key_ttl :: "ext_lib \<Rightarrow> string \<Rightarrow> string option \<Rightarrow> store \<Rightarrow> (DllError, int option) result" where
  "get_key_ttl L nickname network st =
     (let key_lifetime_seconds = get_configured_key_ttl st;
          normalized_nick = normalize_nick nickname;
          c = s_config st;
          entry_key = entry_name normalized_nick (resolve_network_name st c network normalized_nick True)
      in case hm_get (c_entries c) entry_key of
           None \<Rightarrow> Inl (dll_of_fish (FE_KeyNotFound normalized_nick))
         | Some entry \<Rightarrow>
             if e_is_exchange entry \<noteq> Some True then Inr None
             else
               (case e_date entry of
                  None \<Rightarrow> Inr None
                | Some date_str \<Rightarrow>
                    (case date_parse L date_str of
                       None \<Rightarrow> Inr None
                     | Some key_date \<Rightarrow>
                         (let elapsed_seconds = s_clock st - key_date;
                              remaining_seconds =
                                i64 (key_lifetime_seconds + KEY_EXPIRY_GRACE_PERIOD - elapsed_seconds)
                          in if remaining_seconds > 0 then Inr (Some remaining_seconds) else Inr (Some 0)))))"

definition hours_minutes :: "int \<Rightarrow> string" where
  "hours_minutes seconds =
     (let hours = seconds div 3600; minutes = (seconds mod 3600) div 60 in
      if hours > 0 then show_int hours @ ''h '' @ show_int minutes @ ''m'' else show_int minutes @ ''m'')"

definition get_key_ttl_human_readable ::
  "ext_lib \<Rightarrow> string \<Rightarrow> string option \<Rightarrow> store \<Rightarrow> (DllError, string) result" where
  "get_key_ttl_human_readable L nickname network st =
     (case get_key_ttl L nickname network st of
        Inl e \<Rightarrow> Inl e
      | Inr None \<Rightarrow> Inr ''NO_TTL''
      | Inr (Some seconds) \<Rightarrow> if seconds = 0 then Inr ''EXPIRED'' else Inr (hours_minutes seconds))"

definition is_key_about_to_expire :: "ext_lib \<Rightarrow> string \<Rightarrow> string option \<Rightarrow> store \<Rightarrow> (DllError, bool) result" where
  "is_key_about_to_expire L nickname network st =
     (case get_key_ttl L nickname network st of
        Inl e \<Rightarrow> Inl e
      | Inr (Some seconds) \<Rightarrow> Inr (seconds \<le> 3600)
      | Inr None \<Rightarrow> Inr False)"

definition get_key_status :: "ext_lib \<Rightarrow> string \<Rightarrow> string option \<Rightarrow> store \<Rightarrow> (DllError, KeyStatus) result" where
  "get_key_status L nickname network st =
     (let normalized_nick = normalize_nick nickname;
          network_name = resolve_network_name st (s_config st) network normalized_nick True
      in case hm_get (c_entries (s_config st)) (entry_name normalized_nick network_name) of
           None \<Rightarrow> Inl (dll_of_fish (FE_KeyNotFound normalized_nick))
         | Some entry \<Rightarrow>
             (let is_exchange = (e_is_exchange entry = Some True);
                  ttl = (if is_exchange
                         then (case get_key_ttl L nickname network st of Inr t \<Rightarrow> t | Inl _ \<Rightarrow> None)
                         else None)
              in Inr \<lparr>ks_nickname = normalized_nick, ks_network = network_name,
                      ks_is_exchange = is_exchange, ks_is_valid = is_exchange, ks_ttl = ttl\<rparr>))"

definition get_key_status_human_readable ::
  "ext_lib \<Rightarrow> string \<Rightarrow> string option \<Rightarrow> store \<Rightarrow> (DllError, string) result" where
  "get_key_status_human_readable L nickname network st =
     (case get_key_status L nickname network st of
        Inl e \<Rightarrow> Inl e
      | Inr status \<Rightarrow>
          Inr (join '', ''
            ([if ks_is_exchange status then ''exchange key'' else ''manual key''] @
             (case ks_ttl status of
                None \<Rightarrow> []
              | Some ttl \<Rightarrow> [if ttl \<le> 0 then ''expired'' else ''expires in '' @ hours_minutes ttl]))))"

text \<open>\<open>nick@network\<close> split at its first at-sign.\<close>

definition split_entry_key :: "string \<Rightarrow> string \<times> string" where
  "split_entry_key entry_key =
     (case find_str ''@'' entry_key of
        Some at_pos \<Rightarrow> (take at_pos entry_key, drop (at_pos + 1) entry_key)
      | None \<Rightarrow> (entry_key, ''default''))"

definition get_all_keys_with_ttl :: "ext_lib \<Rightarrow> store \<Rightarrow> KeyInfo list" where
  "get_all_keys_with_ttl L st =
     map (\<lambda>(entry_key, entry).
       (let (nickname, network) = split_entry_key entry_key;
            is_exchange = (e_is_exchange entry = Some True);
            ttl = (if is_exchange
                   then (case get_key_ttl L nickname (Some network) st of Inr t \<Rightarrow> t | Inl _ \<Rightarrow> None)
                   else None)
        in \<lparr>ki_nickname = nickname, ki_network = network, ki_is_exchange = is_exchange, ki_ttl = ttl\<rparr>))
      (c_entries (s_config st))"

definition decode_own_key :: "ext_lib \<Rightarrow> string \<Rightarrow> string option \<Rightarrow> (FishError, bytes) result" where
  "decode_own_key L which stored =
     (case stored of
        None \<Rightarrow> Inl (FE_ConfigError (''No '' @ which @ '' key stored''))
      | Some encoded \<Rightarrow>
          (case base64_decode L encoded of
             Inl _ \<Rightarrow> Inl (FE_ConfigError (''Invalid '' @ which @ '' key format''))
           | Inr bs \<Rightarrow>
               if length bs \<noteq> 32 then Inl (FE_ConfigError (''Invalid '' @ which @ '' key length'')) else Inr bs))"

definition get_our_keypair :: "ext_lib \<Rightarrow> store \<Rightarrow> (FishError, bytes \<times> bytes) result" where
  "get_our_keypair L = with_config (\<lambda>c.
     case decode_own_key L ''private'' (c_our_private_key c) of
       Inl e \<Rightarrow> Inl e
     | Inr private_key \<Rightarrow>
         (case decode_own_key L ''public'' (c_our_public_key c) of
            Inl e \<Rightarrow> Inl e
          | Inr public_key \<Rightarrow> Inr (private_key, public_key)))"

definition list_keys :: "store \<Rightarrow> (string \<times> string \<times> string option \<times> string option) list" where
  "list_keys = with_config (\<lambda>c.
     List.map_filter (\<lambda>(entry_key, entry).
       if e_key entry = None then None
       else case find_str ''@'' entry_key of
              None \<Rightarrow> None
            | Some at_pos \<Rightarrow>
                (let name_part = take at_pos entry_key; network = drop (at_pos + 1) entry_key in
                 if name_part \<noteq> [] \<and> network \<noteq> [] then
                   Some (name_part, network,
                         Some (if starts_with ''#'' name_part then ''channel'' else ''user''), e_date entry)
                 else None))
       (c_entries c))"

definition get_keypair_internal :: "ext_lib \<Rightarrow> int \<Rightarrow> FishConfig \<Rightarrow> (FishError, X25519KeyPair option) result" where
  "get_keypair_internal L now c =
     (case (c_our_private_key c, c_our_public_key c) of
        (Some private_b64, Some public_b64) \<Rightarrow>
          (case base64_decode L private_b64 of
             Inl e \<Rightarrow> Inl e
           | Inr private_data \<Rightarrow>
               (case base64_decode L public_b64 of
                  Inl e \<Rightarrow> Inl e
                | Inr public_data \<Rightarrow>
                    if length private_data \<noteq> 32 \<or> length public_data \<noteq> 32 then
                      Inl (FE_ConfigError ''Invalid stored keypair'')
                    else
                      Inr (Some \<lparr>kp_private = private_data, kp_public = public_data,
                        kp_creation_time = (case c_keypair_creation_time c of
                            Some time_str \<Rightarrow> (case rfc_parse L time_str of Some t \<Rightarrow> t | None \<Rightarrow> now)
                          | None \<Rightarrow> now)\<rparr>)))
      | _ \<Rightarrow> Inr None)"

definition store_keypair :: "ext_lib \<Rightarrow> X25519KeyPair \<Rightarrow> store \<Rightarrow> (FishError, unit) result \<times> store" where
  "store_keypair L keypair =
     with_config_mut (\<lambda>c. (Inr (), c\<lparr>c_our_private_key := Some (base64_encode L (kp_private keypair)),
        c_our_public_key := Some (base64_encode L (kp_public keypair)),
        c_keypair_creation_time := Some (rfc_fmt L (kp_creation_time keypair))\<rparr>))"

text \<open>\<open>secret\<close> is the one a generated keypair would draw.\<close>

definition get_keypair :: "ext_lib \<Rightarrow> bytes \<Rightarrow> store \<Rightarrow> (FishError, X25519KeyPair) result \<times> store" where
  "get_keypair L secret st =
     (case with_config (get_keypair_internal L (s_clock st)) st of
        Inl e \<Rightarrow> (Inl e, st)
      | Inr (Some keypair) \<Rightarrow> (Inr keypair, st)
      | Inr None \<Rightarrow>
          (let keypair = generate_keypair L secret (s_clock st) in
           case store_keypair L keypair st of
             (Inl e, st') \<Rightarrow> (Inl e, st')
           | (Inr _, st') \<Rightarrow> (Inr keypair, st')))"

definition check_key_expiry :: "ext_lib \<Rightarrow> string \<Rightarrow> string option \<Rightarrow> store \<Rightarrow> (DllError, unit) result \<times> store" where
  "check_key_expiry L nickname network st =
     (let key_lifetime_seconds = get_configured_key_ttl st;
          normalized_nick = normalize_nick nickname;
          entry_key = entry_name normalized_nick (resolve_network_name_simple st network);
          (was_expired, st') = with_config_mut (\<lambda>c.
            (case hm_get (c_entries c) entry_key of
               None \<Rightarrow> (Inr False, c)
             | Some entry \<Rightarrow>
                 if e_is_exchange entry \<noteq> Some True then (Inr False, c)
                 else
                   (case e_date entry of
                      None \<Rightarrow> (Inr False, c)
                    | Some date_str \<Rightarrow>
                        (case date_parse L date_str of
                           None \<Rightarrow> (Inr False, c)
                         | Some key_date \<Rightarrow>
                             if s_clock st - key_date > key_lifetime_seconds + KEY_EXPIRY_GRACE_PERIOD then
                               (Inr True, c\<lparr>c_entries := hm_remove entry_key (c_entries c),
                                  c_keys := hm_remove normalized_nick (c_keys c),
                                  c_nick_networks := hm_remove normalized_nick (c_nick_networks c)\<rparr>)
                             else (Inr False, c))))) st
      in case was_expired of
           Inl e \<Rightarrow> (Inl (dll_of_fish e), st')
         | Inr True \<Rightarrow> (Inl (KeyExpired normalized_nick), st')
         | Inr False \<Rightarrow> (Inr (), st'))"

definition get_key_default :: "ext_lib \<Rightarrow> string \<Rightarrow> store \<Rightarrow> (FishError, bytes) result" where
  "get_key_default L nickname = get_key L nickname (Some ''default'')"

definition delete_key_default :: "string \<Rightarrow> store \<Rightarrow> (FishError, unit) result \<times> store" where
  "delete_key_default nickname = delete_key nickname (Some ''default'')"

definition set_key_default :: "ext_lib \<Rightarrow> string \<Rightarrow> bytes \<Rightarrow> bool \<Rightarrow> store \<Rightarrow> (FishError, unit) result \<times> store" where
  "set_key_default L nickname key overwrite = set_key L nickname key (Some ''default'') overwrite False"

text \<open>The retrieval of a private key by the message functions
  (\<open>dll_interface/utility.rs\<close>), and the exchange that stores one
  (\<open>process_dh_key_exchange\<close> of \<open>crypto/x25519.rs\<close>).\<close>

definition get_private_key :: "ext_lib \<Rightarrow> string \<Rightarrow> store \<Rightarrow> (DllError, bytes) result \<times> store" where
  "get_private_key L nickname st =
     (case check_key_expiry L nickname None st of
        (Inl e, st1) \<Rightarrow> (Inl e, st1)
      | (Inr _, st1) \<Rightarrow>
          (case get_key L nickname None st1 of
             Inl e \<Rightarrow> (Inl (dll_of_fish e), st1)
           | Inr key_vec \<Rightarrow>
               if length key_vec = 32 then (Inr key_vec, st1)
               else (Inl (InvalidInput ''key'' (''Key for '' @ nickname @ '' must be exactly 32 bytes, got '' @
                                                show_nat (length key_vec))), st1)))"

definition process_dh_key_exchange ::
  "ext_lib \<Rightarrow> bytes \<Rightarrow> string \<Rightarrow> string \<Rightarrow> string option \<Rightarrow> store \<Rightarrow> (FishError, unit) result \<times> store" where
  "process_dh_key_exchange L secret nickname public_key_str network st =
     (case get_keypair L secret st of
        (Inl e, st1) \<Rightarrow> (Inl e, st1)
      | (Inr our_keypair, st1) \<Rightarrow>
          (case extract_public_key L public_key_str of
             Inl e \<Rightarrow> (Inl e, st1)
           | Inr their_public_key \<Rightarrow>
               (case compute_shared_secret L (kp_private our_keypair) their_public_key of
                  Inl e \<Rightarrow> (Inl e, st1)
                | Inr shared_secret \<Rightarrow>
                    (case set_key L nickname shared_secret network False True st1 of
                       (Inr _, st2) \<Rightarrow> (Inr (), st2)
                     | (Inl e, st2) \<Rightarrow>
                         (case e of
                            FE_DuplicateEntry _ \<Rightarrow> set_key L nickname shared_secret network True True st2
                          | _ \<Rightarrow> (Inl e, st2))))))"

section \<open>Facts\<close>

lemma i64_id: "- (2 ^ 63) \<le> x \<Longrightarrow> x < 2 ^ 63 \<Longrightarrow> i64 x = x"
  by (simp add: i64_def)

lemma entry_name_inject [simp]: "entry_name n a = entry_name n b \<longleftrightarrow> a = b"
  by (simp add: entry_name_def)

lemma entry_name_at:
  "CHR ''@'' \<notin> set a \<Longrightarrow> CHR ''@'' \<notin> set b \<Longrightarrow> entry_name a x = entry_name b y \<longleftrightarrow> a = b \<and> x = y"
proof (induction a arbitrary: b)
  case Nil
  then show ?case by (cases b) (auto simp: entry_name_def)
next
  case (Cons c a)
  then show ?case by (cases b) (auto simp: entry_name_def)
qed

lemma starts_with_at:
  "CHR ''@'' \<notin> set a \<Longrightarrow> CHR ''@'' \<notin> set b \<Longrightarrow> starts_with (a @ ''@'') (entry_name b y) \<longleftrightarrow> a = b"
proof (induction a arbitrary: b)
  case Nil
  then show ?case by (cases b) (auto simp: entry_name_def)
next
  case (Cons c a)
  then show ?case by (cases b) (auto simp: entry_name_def)
qed

definition new_entry :: "ext_lib \<Rightarrow> store \<Rightarrow> bytes \<Rightarrow> bool \<Rightarrow> EntryData" where
  "new_entry L st key x =
     \<lparr>e_key = Some (base64_encode L key), e_date = Some (date_fmt L (s_clock st)), e_is_exchange = Some x\<rparr>"

text \<open>The entry \<open>set_key\<close> writes to.\<close>

definition slot :: "store \<Rightarrow> string \<Rightarrow> string option \<Rightarrow> string" where
  "slot st nickname network =
     entry_name (normalize_nick nickname)
       (resolve_network_name st (s_config st) network (normalize_nick nickname) True)"

definition net_ok :: "string option \<Rightarrow> bool" where
  "net_ok network \<longleftrightarrow> (\<forall>net. network = Some net \<longrightarrow> CHR '':'' \<notin> set net)"

lemma net_ok_validate:
  "(case network of Some net \<Rightarrow> validate_network_name net | None \<Rightarrow> Inr ()) = Inr () \<longleftrightarrow> net_ok network"
  by (cases network) (auto simp: net_ok_def validate_network_name_def)

lemma resolve_mark_dirty [simp]:
  "resolve_network_name st (mark_dirty c) = resolve_network_name st c"
  "own_network (mark_dirty c) = own_network c"
  by (intro ext; simp add: resolve_network_name_def own_network_def get_network_for_nick_internal_def cong: option.case_cong)+

lemma with_config_mut_set_entry:
  assumes "set_key_entry L st n k net ow x (mark_dirty (s_config st)) = (r, c)"
  shows "with_config_mut (set_key_entry L st n k net ow x) st = (r, persist c st)"
  using assms
  by (intro with_config_mut_persist) (auto simp: set_key_entry_def Let_def split: if_splits)

lemma set_key_entry_cases:
  "set_key_entry L st n k net ow x (mark_dirty (s_config st)) = (r, c) \<Longrightarrow>
   (r = Inr () \<and> c = (mark_dirty (s_config st))\<lparr>c_entries :=
       hm_insert (slot st n net) (new_entry L st k x) (c_entries (s_config st))\<rparr>) \<or>
   (\<exists>d. r = Inl (FE_DuplicateEntry d) \<and> \<not> ow \<and> c = mark_dirty (s_config st))"
  by (auto simp: set_key_entry_def Let_def slot_def new_entry_def split: if_splits)

text \<open>What \<open>set_key\<close> does to the two maps it touches, and to nothing else.\<close>

lemma set_key_effect:
  assumes "set_key L n k net ow x st = (Inr (), st')"
  shows "c_entries (s_config st') =
      hm_insert (slot st n net) (new_entry L st k x) (c_entries (s_config st))"
    "c_nick_networks (s_config st') = hm_insert (normalize_nick n)
      (resolve_network_name_simple st net) (c_nick_networks (s_config st))"
    "c_fish11 (s_config st') = c_fish11 (s_config st)" "c_keys (s_config st') = c_keys (s_config st)"
    "c_channel_keys (s_config st') = c_channel_keys (s_config st)"
    "c_ratchets (s_config st') = c_ratchets (s_config st)" "c_nonces (s_config st') = c_nonces (s_config st)"
    "s_clock st' = s_clock st" "s_network st' = s_network st"
proof -
  obtain r c where rc: "set_key_entry L st n k net ow x (mark_dirty (s_config st)) = (r, c)"
    by force
  have ok: "(case net of Some net \<Rightarrow> validate_network_name net | None \<Rightarrow> Inr ()) = Inr ()"
    using assms by (auto simp: set_key_def split: sum.splits)
  have r: "r = Inr ()"
    using assms ok by (auto simp: set_key_def with_config_mut_set_entry [OF rc] split: sum.splits)
  then have c: "c = (mark_dirty (s_config st))\<lparr>c_entries :=
       hm_insert (slot st n net) (new_entry L st k x) (c_entries (s_config st))\<rparr>"
    using set_key_entry_cases [OF rc] by auto
  have res: "resolve_network_name_simple (persist c st) net = resolve_network_name_simple st net"
    by (simp add: resolve_network_name_simple_def get_current_network_def cong: option.case_cong)
  have st': "st' = snd (set_network_for_nick (normalize_nick n) (resolve_network_name_simple st net) (persist c st))"
    using assms ok r res by (simp add: set_key_def with_config_mut_set_entry [OF rc])
  show "c_entries (s_config st') =
      hm_insert (slot st n net) (new_entry L st k x) (c_entries (s_config st))"
    "c_nick_networks (s_config st') = hm_insert (normalize_nick n)
      (resolve_network_name_simple st net) (c_nick_networks (s_config st))"
    "c_fish11 (s_config st') = c_fish11 (s_config st)" "c_keys (s_config st') = c_keys (s_config st)"
    "c_channel_keys (s_config st') = c_channel_keys (s_config st)"
    "c_ratchets (s_config st') = c_ratchets (s_config st)" "c_nonces (s_config st') = c_nonces (s_config st)"
    "s_clock st' = s_clock st" "s_network st' = s_network st"
    unfolding st' set_network_persist by (simp_all add: c)
qed

lemma set_key_overwrites: "net_ok net \<Longrightarrow> fst (set_key L n k net True x st) = Inr ()"
proof -
  assume n: "net_ok net"
  obtain r c where rc: "set_key_entry L st n k net True x (mark_dirty (s_config st)) = (r, c)"
    by force
  then have "r = Inr ()" using set_key_entry_cases [OF rc] by auto
  then show ?thesis
    by (simp add: set_key_def iffD2 [OF net_ok_validate n] with_config_mut_set_entry [OF rc] set_network_persist)
qed

lemma set_key_errors:
  assumes "set_key L n k net ow x st = (Inl e, st')"
  shows "(\<not> net_ok net \<and> st' = st) \<or>
    ((\<exists>d. e = FE_DuplicateEntry d) \<and> \<not> ow \<and> st' = persist (mark_dirty (s_config st)) st)"
proof (cases "net_ok net")
  case True
  obtain r c where rc: "set_key_entry L st n k net ow x (mark_dirty (s_config st)) = (r, c)"
    by force
  show ?thesis using assms set_key_entry_cases [OF rc]
    by (auto simp: set_key_def iffD2 [OF net_ok_validate True] with_config_mut_set_entry [OF rc]
        set_network_persist split: sum.splits)
next
  case False
  then obtain net' where "net = Some net'" "CHR '':'' \<in> set net'" by (auto simp: net_ok_def)
  then show ?thesis using assms False by (simp add: set_key_def validate_network_name_def)
qed

text \<open>The lifetime \<open>get_key\<close> reads, and expiry of an entry written at \<open>t0\<close>.\<close>

definition raw_ttl :: "FishConfig \<Rightarrow> int" where
  "raw_ttl c = (case f_key_ttl (c_fish11 c) of Some t \<Rightarrow> t | None \<Rightarrow> 86400)"

lemma check_expiration_new:
  assumes "date_law L" "0 \<le> s_clock st" "s_clock st < 253402300800" "\<bar>t\<bar> < 2 ^ 61" "\<bar>raw_ttl c\<bar> < 2 ^ 61"
  shows "check_expiration L t c (new_entry L st k x) n =
    (if x \<and> raw_ttl c + 300 \<le> t - s_clock st then Inl (FE_KeyExpired n) else Inr ())"
proof -
  have "date_parse L (date_fmt L (s_clock st)) = Some (s_clock st)"
    using assms by (simp add: date_law_def)
  moreover have "i64 (raw_ttl c + 300) = raw_ttl c + 300"
    by (rule i64_id) (use assms in auto)
  moreover have "i64 (raw_ttl c + 300 - (t - s_clock st)) = raw_ttl c + 300 - (t - s_clock st)"
    by (rule i64_id) (use assms in auto)
  ultimately show ?thesis
    by (auto simp: check_expiration_def new_entry_def KEY_EXPIRY_GRACE_PERIOD_def raw_ttl_def [symmetric] Let_def)
qed

lemma stored_key_readable:
  assumes "lib_ok L" "normalize_nick n' = normalize_nick n"
    "0 \<le> s_clock st" "s_clock st < 253402300800" "\<bar>t\<bar> < 2 ^ 61" "\<bar>raw_ttl (s_config st)\<bar> < 2 ^ 61"
    "set_key L n key (Some net) ow is_exchange st = (Inr (), st')"
  shows "get_key L n' (Some net) (st'\<lparr>s_clock := t\<rparr>) =
      (if is_exchange \<and> raw_ttl (s_config st) + 300 \<le> t - s_clock st
       then Inl (FE_KeyExpired (normalize_nick n)) else Inr key)"
proof -
  note eff = set_key_effect [OF assms(7)]
  have ttl: "raw_ttl (s_config st') = raw_ttl (s_config st)" by (simp add: raw_ttl_def eff)
  have "check_expiration L t (s_config st') (new_entry L st key is_exchange) (normalize_nick n) =
     (if is_exchange \<and> raw_ttl (s_config st) + 300 \<le> t - s_clock st
      then Inl (FE_KeyExpired (normalize_nick n)) else Inr ())"
    using check_expiration_new [of L st t "s_config st'"] assms by (simp add: ttl lib_ok_def)
  then show ?thesis using assms(1,2)
    by (auto simp: get_key_def with_config_def get_key_internal_def own_network_def usable_key_def eff slot_def
        resolve_network_name_def new_entry_def Let_def lib_ok_def)
qed

text \<open>C10: a key stored for a nickname on a network is what \<open>get_key\<close> returns for
  every spelling of the nickname, at every later time; a key from an exchange is
  refused exactly from the configured lifetime plus the grace period on.\<close>

theorem set_key_then_get_key:
  assumes "lib_ok L" "net_ok (Some net)" "normalize_nick n' = normalize_nick n"
    "0 \<le> s_clock st" "s_clock st < 253402300800" "\<bar>t\<bar> < 2 ^ 61" "\<bar>raw_ttl (s_config st)\<bar> < 2 ^ 61"
    "set_key L n key (Some net) True is_exchange st = (r, st')"
  shows "r = Inr () \<and>
    get_key L n' (Some net) (st'\<lparr>s_clock := t\<rparr>) =
      (if is_exchange \<and> raw_ttl (s_config st) + 300 \<le> t - s_clock st
       then Inl (FE_KeyExpired (normalize_nick n)) else Inr key)"
proof -
  have r: "r = Inr ()" using set_key_overwrites [OF assms(2), of L n key is_exchange st] assms(8) by simp
  show ?thesis using stored_key_readable [OF assms(1,3-7) assms(8) [unfolded r]] r by simp
qed

definition sample_store :: store where
  "sample_store = \<lparr>s_config = fish_config_new 0, s_disk = None, s_disk_ok = True,
     s_network = None, s_clock = 1000\<rparr>"

lemma sample_store_facts:
  "s_clock sample_store = 1000" "raw_ttl (s_config sample_store) = 86400"
  "c_entries (s_config sample_store) = []" "c_nick_networks (s_config sample_store) = []"
  "s_network sample_store = None" "s_disk_ok sample_store" "c_channel_keys (s_config sample_store) = []"
  "c_ratchets (s_config sample_store) = []" "c_keys (s_config sample_store) = []"
  by (simp_all add: sample_store_def raw_ttl_def fish_config_new_def fish11_default_def)

lemma set_key_then_get_key_witness:
  "get_key ref_lib ''BOB'' (Some ''net'')
     ((snd (set_key ref_lib ''bob'' (replicate 32 7) (Some ''net'') True True sample_store))\<lparr>s_clock := 2000\<rparr>) =
       Inr (replicate 32 7) \<and>
   get_key ref_lib ''BOB'' (Some ''net'')
     ((snd (set_key ref_lib ''bob'' (replicate 32 7) (Some ''net'') True True sample_store))\<lparr>s_clock := 90000\<rparr>) =
       Inl (FE_KeyExpired ''bob'')"
proof -
  have n: "normalize_nick ''BOB'' = normalize_nick ''bob''" "normalize_nick ''bob'' = ''bob''"
    by code_simp+
  obtain r st' where s: "set_key ref_lib ''bob'' (replicate 32 7) (Some ''net'') True True sample_store = (r, st')"
    by force
  have "get_key ref_lib ''BOB'' (Some ''net'') (st'\<lparr>s_clock := 2000\<rparr>) = Inr (replicate 32 7)"
    using set_key_then_get_key [OF _ _ n(1) _ _ _ _ s, of 2000] by (simp add: n(2) net_ok_def sample_store_facts)
  moreover have "get_key ref_lib ''BOB'' (Some ''net'') (st'\<lparr>s_clock := 90000\<rparr>) = Inl (FE_KeyExpired ''bob'')"
    using set_key_then_get_key [OF _ _ n(1) _ _ _ _ s, of 90000] by (simp add: n(2) net_ok_def sample_store_facts)
  ultimately show ?thesis unfolding s by simp
qed

end
