(* ===== verification/KeyFacts.thy ===== *)
theory KeyFacts
  imports KeyManagement
begin

text \<open>
  The properties of \<open>key_management.rs\<close>: isolation of nicknames, refusal to
  overwrite, lifetimes and their two readings, deletion, the stability of our
  keypair, and the agreement of the two ends of a key exchange.
\<close>

section \<open>Isolation and overwriting\<close>

lemma find_update:
  "(\<And>v. \<not> P (k, v)) \<Longrightarrow> find P (AList.update k v m) = find P m"
  by (induction m) auto

lemma get_key_depends:
  assumes "\<And>net. hm_get (c_entries c') (entry_name (normalize_nick n) net) = hm_get (c_entries c) (entry_name (normalize_nick n) net)"
    "find (\<lambda>(k, entry). starts_with (normalize_nick n @ ''@'') k \<and> e_key entry \<noteq> None) (c_entries c') =
     find (\<lambda>(k, entry). starts_with (normalize_nick n @ ''@'') k \<and> e_key entry \<noteq> None) (c_entries c)"
    "hm_get (c_nick_networks c') (normalize_nick n) = hm_get (c_nick_networks c) (normalize_nick n)"
    "f_key_ttl (c_fish11 c') = f_key_ttl (c_fish11 c)"
  shows "get_key_internal L now c' n net = get_key_internal L now c n net"
proof -
  have own: "own_network c' net (normalize_nick n) d = own_network c net (normalize_nick n) d" for d
    by (simp add: own_network_def get_network_for_nick_internal_def assms(3) cong: option.case_cong)
  have use_eq: "usable_key L now c' = usable_key L now c"
    by (intro ext) (simp only: usable_key_def check_expiration_def assms(4))
  have def_eq: "normalize_nick n @ ''@default'' = entry_name (normalize_nick n) ''default''"
    by (simp add: entry_name_def)
  show ?thesis
    unfolding get_key_internal_def Let_def own use_eq def_eq assms(1,2) by (rule refl)
qed



text \<open>without \<open>overwrite\<close>, a nickname's existing entry is never replaced: the call
  fails with \<open>DuplicateEntry\<close> and every entry and mapping is as before.\<close>

theorem set_key_refuses_overwrite:
  assumes "net_ok net" "hm_has (c_entries (s_config st)) (slot st n net)"
    "set_key L n k net False x st = (r, st')"
  shows "(\<exists>d. r = Inl (FE_DuplicateEntry d)) \<and>
    c_entries (s_config st') = c_entries (s_config st) \<and>
    c_nick_networks (s_config st') = c_nick_networks (s_config st)"
proof -
  obtain r0 c where rc: "set_key_entry L st n k net False x (mark_dirty (s_config st)) = (r0, c)"
    by force
  have "\<exists>d. r0 = Inl (FE_DuplicateEntry d)"
    using rc assms(2) by (auto simp: set_key_entry_def slot_def Let_def split: if_splits)
  then obtain d where d: "r0 = Inl (FE_DuplicateEntry d)" by blast
  then have "c = mark_dirty (s_config st)" using set_key_entry_cases [OF rc] by auto
  then show ?thesis
    using assms(3) d
    by (auto simp: set_key_def iffD2 [OF net_ok_validate assms(1)] with_config_mut_set_entry [OF rc])
qed

lemma set_key_refuses_overwrite_witness:
  "\<exists>st r st'. set_key ref_lib ''bob'' (replicate 32 8) (Some ''net'') False False st = (r, st') \<and>
     (\<exists>d. r = Inl (FE_DuplicateEntry d))"
proof -
  define st where "st = snd (set_key ref_lib ''bob'' (replicate 32 7) (Some ''net'') True False sample_store)"
  obtain r st' where s: "set_key ref_lib ''bob'' (replicate 32 8) (Some ''net'') False False st = (r, st')"
    by force
  have ok: "net_ok (Some ''net'')" by (simp add: net_ok_def)
  have "set_key ref_lib ''bob'' (replicate 32 7) (Some ''net'') True False sample_store = (Inr (), st)"
    using set_key_overwrites [OF ok, of ref_lib "''bob''" "replicate 32 7" False sample_store]
    unfolding st_def by (metis prod.collapse)
  then have "hm_has (c_entries (s_config st)) (slot st ''bob'' (Some ''net''))"
    using set_key_effect(1) by (simp add: slot_def resolve_network_name_def)
  from set_key_refuses_overwrite [OF ok this s] s show ?thesis by blast
qed

section \<open>Lifetimes\<close>

text \<open>the lifetime in force is always between one hour and seven days; setting it
  succeeds exactly on that range and then takes effect.\<close>

theorem key_ttl_range:
  "3600 \<le> get_configured_key_ttl st \<and> get_configured_key_ttl st \<le> 604800 \<and>
   (is_ok (fst (set_configured_key_ttl t st)) \<longleftrightarrow> 3600 \<le> t \<and> t \<le> 604800) \<and>
   (is_ok (fst (set_configured_key_ttl t st)) \<longrightarrow>
      get_configured_key_ttl (snd (set_configured_key_ttl t st)) = t) \<and>
   (\<not> is_ok (fst (set_configured_key_ttl t st)) \<longrightarrow> snd (set_configured_key_ttl t st) = st)"
proof (cases "3600 \<le> t \<and> t \<le> 604800")
  case True
  have "with_config_mut (\<lambda>c. (Inr (), mark_dirty (c\<lparr>c_fish11 := (c_fish11 c)\<lparr>f_key_ttl := Some t\<rparr>\<rparr>))) st =
      (Inr (), persist (mark_dirty ((mark_dirty (s_config st))\<lparr>c_fish11 := (c_fish11 (s_config st))\<lparr>f_key_ttl := Some t\<rparr>\<rparr>)) st)"
    by (rule with_config_mut_persist) simp_all
  then show ?thesis using True
    by (auto simp: set_configured_key_ttl_def get_configured_key_ttl_def MIN_KEY_TTL_def MAX_KEY_TTL_def
        Let_def with_config_def)
next
  case False
  then show ?thesis
    by (auto simp: set_configured_key_ttl_def get_configured_key_ttl_def MIN_KEY_TTL_def MAX_KEY_TTL_def
        Let_def with_config_def)
qed

lemma key_ttl_range_witness:
  "get_configured_key_ttl (snd (set_configured_key_ttl 7200 sample_store)) = 7200 \<and>
   snd (set_configured_key_ttl 60 sample_store) = sample_store"
  using key_ttl_range [of sample_store 7200] key_ttl_range [of sample_store 60] by simp

lemma check_key_expiry_persist:
  fixes st network nickname
  defines "e \<equiv> entry_name (normalize_nick nickname) (resolve_network_name_simple st network)"
  assumes "hm_get (c_entries (s_config st)) e = Some entry" "e_is_exchange entry = Some True"
    "e_date entry = Some d" "date_parse L d = Some t0"
  shows "check_key_expiry L nickname network st =
    (if s_clock st - t0 > get_configured_key_ttl st + 300
     then (Inl (KeyExpired (normalize_nick nickname)),
           persist ((mark_dirty (s_config st))\<lparr>c_entries := hm_remove e (c_entries (s_config st)),
             c_keys := hm_remove (normalize_nick nickname) (c_keys (s_config st)),
             c_nick_networks := hm_remove (normalize_nick nickname) (c_nick_networks (s_config st))\<rparr>) st)
     else (Inr (), persist (mark_dirty (s_config st)) st))"
  using assms(2-5) unfolding check_key_expiry_def Let_def e_def [symmetric]
  by (cases "s_clock st - t0 > get_configured_key_ttl st + 300")
    (simp_all add: KEY_EXPIRY_GRACE_PERIOD_def with_config_mut_persist [of _ st "Inr True"]
      with_config_mut_persist [of _ st "Inr False"])

text \<open>the two readings of the lifetime disagree when the file holds one below an
  hour: between its end and that of the clamped lifetime, \<open>check_key_expiry\<close> keeps the
  key and \<open>get_key_ttl\<close> still shows time left, while \<open>get_key\<close> refuses it as expired.\<close>

theorem expiry_readings_disagree:
  fixes st n net
  defines "e \<equiv> entry_name (normalize_nick n) net"
  assumes "hm_get (c_entries (s_config st)) e = Some entry" "e_is_exchange entry = Some True"
    "e_date entry = Some d" "date_parse L d = Some t0" "e_key entry = Some k"
    "f_key_ttl (c_fish11 (s_config st)) = Some ttl" "0 \<le> ttl" "ttl < 3600"
    "ttl + 300 \<le> s_clock st - t0" "s_clock st - t0 < 3900"
  shows "get_key L n (Some net) st = Inl (FE_KeyExpired (normalize_nick n)) \<and>
    fst (check_key_expiry L n (Some net) st) = Inr () \<and>
    get_key_ttl L n (Some net) st = Inr (Some (3900 - (s_clock st - t0)))"
proof -
  have conf: "get_configured_key_ttl st = 3600"
    using assms by (simp add: get_configured_key_ttl_def with_config_def)
  have i: "i64 (ttl + 300) = ttl + 300" "i64 (ttl + 300 - (s_clock st - t0)) = ttl + 300 - (s_clock st - t0)"
    "i64 (3900 - (s_clock st - t0)) = 3900 - (s_clock st - t0)"
    by (rule i64_id; use assms in simp)+
  have "get_key L n (Some net) st = Inl (FE_KeyExpired (normalize_nick n))"
    using assms i
    by (simp add: get_key_def with_config_def get_key_internal_def own_network_def usable_key_def
        check_expiration_def KEY_EXPIRY_GRACE_PERIOD_def Let_def)
  moreover have "fst (check_key_expiry L n (Some net) st) = Inr ()"
    using check_key_expiry_persist [of st n "Some net" entry d L t0] assms conf
    by (simp add: resolve_network_name_simple_def)
  moreover have "get_key_ttl L n (Some net) st = Inr (Some (3900 - (s_clock st - t0)))"
    using assms conf i
    by (simp add: get_key_ttl_def resolve_network_name_def KEY_EXPIRY_GRACE_PERIOD_def Let_def)
  ultimately show ?thesis by blast
qed

lemma expiry_readings_disagree_witness:
  "\<exists>st. get_key ref_lib ''bob'' (Some ''net'') st = Inl (FE_KeyExpired ''bob'') \<and>
     get_key_ttl ref_lib ''bob'' (Some ''net'') st = Inr (Some 2900)"
proof -
  have n: "normalize_nick ''bob'' = ''bob''" by code_simp
  define c where "c = (s_config sample_store)\<lparr>c_entries :=
      [(''bob@net'', new_entry ref_lib (sample_store\<lparr>s_clock := 0\<rparr>) (replicate 32 7) True)],
      c_fish11 := fish11_default\<lparr>f_key_ttl := Some 60\<rparr>\<rparr>"
  define st where "st = sample_store\<lparr>s_config := c\<rparr>"
  have "date_parse ref_lib (date_fmt ref_lib 0) = Some 0"
    using ref_date_law unfolding date_law_def by simp
  then show ?thesis
    using expiry_readings_disagree [of st "''bob''" "''net''"
        "new_entry ref_lib (sample_store\<lparr>s_clock := 0\<rparr>) (replicate 32 7) True" "date_fmt ref_lib 0" ref_lib 0
        "base64_encode ref_lib (replicate 32 7)" 60]
    by (intro exI [of _ st])
      (simp add: n st_def c_def entry_name_def new_entry_def sample_store_facts)
qed

section \<open>Mappings and deletion\<close>

text \<open>the entry and the mapping of a nickname part ways when neither a network nor
  a current network is given and the nickname is mapped to a network already: the
  entry goes to that network, the mapping is set to \<open>default\<close>.\<close>

theorem set_key_mapping_desync:
  assumes "s_network st = None" "hm_get (c_nick_networks (s_config st)) (normalize_nick n) = Some net"
    "set_key L n k None True x st = (r, st')"
  shows "hm_get (c_entries (s_config st')) (entry_name (normalize_nick n) net) = Some (new_entry L st k x) \<and>
    get_network_for_nick (normalize_nick n) st' = Some ''default''"
proof -
  have "r = Inr ()"
    using set_key_overwrites [of None L n k x st] assms(3) by (simp add: net_ok_def)
  note eff = set_key_effect [OF assms(3) [unfolded this]]
  have "slot st n None = entry_name (normalize_nick n) net"
    using assms by (simp add: slot_def resolve_network_name_def get_current_network_def get_network_for_nick_internal_def)
  then show ?thesis
    using assms(1) by (simp add: eff get_network_for_nick_def with_config_def resolve_network_name_simple_def
        get_current_network_def)
qed

lemma set_key_mapping_desync_witness:
  "\<exists>st r st'. set_key ref_lib ''bob'' (replicate 32 7) None True False st = (r, st') \<and>
     get_network_for_nick ''bob'' st = Some ''undernet'' \<and> get_network_for_nick ''bob'' st' = Some ''default''"
proof -
  have n: "normalize_nick ''bob'' = ''bob''" by code_simp
  define st where "st = snd (set_network_for_nick ''bob'' ''undernet'' sample_store)"
  have st: "s_network st = None" "hm_get (c_nick_networks (s_config st)) ''bob'' = Some ''undernet''"
    unfolding st_def set_network_persist by (simp_all add: sample_store_facts)
  obtain r st' where s: "set_key ref_lib ''bob'' (replicate 32 7) None True False st = (r, st')" by force
  show ?thesis
    using set_key_mapping_desync [OF st(1) _ s] st(2) s
    by (auto simp: n get_network_for_nick_def with_config_def intro!: exI [of _ st])
qed

text \<open>deleting a key answers \<open>KeyNotFound\<close> exactly when there was neither an entry
  nor an old-style key, removes that entry and no other, and so fails when repeated.\<close>

theorem delete_key_effect:
  fixes st n net
  defines "e \<equiv> entry_name (normalize_nick n) (own_network (s_config st) net (normalize_nick n) ''default'')"
  assumes "delete_key n net st = (r, st')"
  shows "(is_ok r \<longleftrightarrow> hm_has (c_entries (s_config st)) e \<or> hm_has (c_keys (s_config st)) (normalize_nick n)) \<and>
    (\<forall>k. hm_get (c_entries (s_config st')) k = (if k = e then None else hm_get (c_entries (s_config st)) k)) \<and>
    (net \<noteq> None \<longrightarrow> fst (delete_key n net st') = Inl (FE_KeyNotFound (normalize_nick n)))"
proof -
  let ?c = "mark_dirty (s_config st)" and ?n = "normalize_nick n"
  define c1 where "c1 = ?c\<lparr>c_entries := hm_remove e (c_entries ?c), c_keys := hm_remove ?n (c_keys ?c)\<rparr>"
  define c2 where "c2 = (if net = None \<and> has_network_internal c1 ?n
                  then c1\<lparr>c_nick_networks := hm_remove ?n (c_nick_networks c1)\<rparr> else c1)"
  define r0 where "r0 = (if hm_has (c_entries ?c) e \<or> hm_has (c_keys ?c) ?n then Inr () else Inl (FE_KeyNotFound ?n))"
  have "delete_key n net st = (r0, persist c2 st)"
    unfolding delete_key_def
  proof (rule with_config_mut_persist)
    show "c_dirty c2" by (simp add: c2_def c1_def)
    show "(let normalized_nick = ?n;
            entry_key = entry_name normalized_nick (own_network ?c net normalized_nick ''default'');
            entry_removed = hm_has (c_entries ?c) entry_key;
            key_removed = hm_has (c_keys ?c) normalized_nick;
            c1 = ?c\<lparr>c_entries := hm_remove entry_key (c_entries ?c), c_keys := hm_remove normalized_nick (c_keys ?c)\<rparr>;
            c2 = (if net = None \<and> has_network_internal c1 normalized_nick
                  then c1\<lparr>c_nick_networks := hm_remove normalized_nick (c_nick_networks c1)\<rparr> else c1)
        in (if entry_removed \<or> key_removed then Inr () else Inl (FE_KeyNotFound normalized_nick), c2)) = (r0, c2)"
      unfolding Let_def resolve_mark_dirty(2) e_def [symmetric] c1_def [symmetric] c2_def [symmetric]
        r0_def [symmetric] by (rule refl)
  qed
  then have r: "r = r0" and st': "st' = persist c2 st" using assms by auto
  have ents: "c_entries (s_config st') = hm_remove e (c_entries (s_config st))"
    "c_keys (s_config st') = hm_remove ?n (c_keys (s_config st))"
    unfolding st' by (simp_all add: c2_def c1_def)
  have again: "fst (delete_key n (Some m) st') = Inl (FE_KeyNotFound ?n)" if "net = Some m" for m
  proof -
    have em: "e = entry_name ?n m" unfolding e_def using that by (simp add: own_network_def)
    show ?thesis
      unfolding delete_key_def
      by (subst with_config_mut_persist)
        (auto simp: Let_def own_network_def ents em [symmetric] mark_dirty_def)
  qed
  show ?thesis
    using again by (auto simp: r r0_def ents)
qed

lemma delete_key_effect_witness:
  "fst (delete_key ''bob'' (Some ''net'') (snd (delete_key ''bob'' (Some ''net'') sample_store))) =
     Inl (FE_KeyNotFound ''bob'')"
proof -
  have n: "normalize_nick ''bob'' = ''bob''" by code_simp
  obtain r st' where d: "delete_key ''bob'' (Some ''net'') sample_store = (r, st')" by force
  show ?thesis using delete_key_effect [OF d] by (simp add: d n)
qed

section \<open>Our keypair and the exchange\<close>

lemma store_keypair_persist:
  "store_keypair L kp st = (Inr (), persist ((mark_dirty (s_config st))\<lparr>
     c_our_private_key := Some (base64_encode L (kp_private kp)),
     c_our_public_key := Some (base64_encode L (kp_public kp)),
     c_keypair_creation_time := Some (rfc_fmt L (kp_creation_time kp))\<rparr>) st)"
  unfolding store_keypair_def by (rule with_config_mut_persist) simp_all

lemma get_keypair_same:
  assumes "get_keypair L secret st = (r, st')"
  shows "c_entries (s_config st') = c_entries (s_config st)" "c_keys (s_config st') = c_keys (s_config st)"
    "c_nick_networks (s_config st') = c_nick_networks (s_config st)"
    "c_fish11 (s_config st') = c_fish11 (s_config st)"
    "c_channel_keys (s_config st') = c_channel_keys (s_config st)"
    "c_ratchets (s_config st') = c_ratchets (s_config st)" "c_nonces (s_config st') = c_nonces (s_config st)"
    "s_clock st' = s_clock st" "s_network st' = s_network st"
  using assms by (auto simp: get_keypair_def store_keypair_persist Let_def split: sum.splits option.splits)

lemma get_keypair_then_internal:
  assumes "lib_ok L" "length secret = 32" "0 \<le> s_clock st" "s_clock st < 253402300800"
    "get_keypair L secret st = (Inr kp, st')"
  shows "get_keypair_internal L (s_clock st') (s_config st') = Inr (Some kp)"
proof (cases "get_keypair_internal L (s_clock st) (s_config st)")
  case (Inl e)
  then show ?thesis using assms(5) by (simp add: get_keypair_def with_config_def)
next
  case (Inr o')
  show ?thesis
  proof (cases o')
    case (Some kp0)
    then show ?thesis using assms(5) Inr by (auto simp: get_keypair_def with_config_def)
  next
    case None
    let ?kp = "generate_keypair L secret (s_clock st)"
    have len: "length (dh_pub L secret) = 32" using assms(1,2) by (simp add: lib_ok_def dh_law_def)
    have kp: "kp = ?kp" and st': "st' = persist ((mark_dirty (s_config st))\<lparr>
        c_our_private_key := Some (base64_encode L (kp_private ?kp)),
        c_our_public_key := Some (base64_encode L (kp_public ?kp)),
        c_keypair_creation_time := Some (rfc_fmt L (kp_creation_time ?kp))\<rparr>) st"
      using assms(5) Inr None by (auto simp: get_keypair_def with_config_def store_keypair_persist Let_def)
    have "rfc_parse L (rfc_fmt L (s_clock st)) = Some (s_clock st)"
      using assms(1,3,4) by (simp add: lib_ok_def date_law_def)
    then show ?thesis
      using assms(1,2) len unfolding st' kp
      by (simp add: get_keypair_internal_def generate_keypair_def lib_ok_def)
  qed
qed

lemma get_keypair_internal_lengths:
  "get_keypair_internal L now c = Inr (Some kp) \<Longrightarrow> length (kp_private kp) = 32 \<and> length (kp_public kp) = 32"
  by (auto simp: get_keypair_internal_def split: option.splits sum.splits if_splits)

text \<open>our keypair is stable: once \<open>get_keypair\<close> has answered, generating one if
  there was none, every later call gives the same pair and changes nothing.\<close>

theorem get_keypair_stable:
  assumes "lib_ok L" "length secret = 32" "0 \<le> s_clock st" "s_clock st < 253402300800"
    "get_keypair L secret st = (Inr kp, st')"
  shows "get_keypair L secret' st' = (Inr kp, st') \<and> length (kp_private kp) = 32 \<and> length (kp_public kp) = 32"
  using get_keypair_then_internal [OF assms] get_keypair_internal_lengths
  by (auto simp: get_keypair_def with_config_def)

lemma get_keypair_stable_witness:
  "\<exists>kp st'. get_keypair ref_lib (replicate 32 9) sample_store = (Inr kp, st') \<and>
     get_keypair ref_lib (replicate 32 8) st' = (Inr kp, st')"
proof -
  have none: "get_keypair_internal ref_lib 1000 (s_config sample_store) = Inr None"
    by (simp add: get_keypair_internal_def sample_store_def fish_config_new_def)
  obtain kp st' where g: "get_keypair ref_lib (replicate 32 9) sample_store = (Inr kp, st')"
    using none by (simp add: get_keypair_def with_config_def sample_store_facts store_keypair_persist Let_def)
  show ?thesis using get_keypair_stable [OF _ _ _ _ g, of "replicate 32 8"] g
    by (simp add: sample_store_facts)
qed

lemma process_dh_stores:
  assumes "get_keypair L secret st = (Inr kp, st1)" "extract_public_key L pk = Inr their"
    "compute_shared_secret L (kp_private kp) their = Inr s" "net_ok network"
    "process_dh_key_exchange L secret n pk network st = (r, st')"
  shows "r = Inr () \<and> (\<exists>st2 ow. set_key L n s network ow True st2 = (Inr (), st') \<and>
     s_clock st2 = s_clock st \<and> c_fish11 (s_config st2) = c_fish11 (s_config st))"
proof -
  obtain r1 st2 where k: "set_key L n s network False True st1 = (r1, st2)" by force
  have same: "s_clock st1 = s_clock st" "c_fish11 (s_config st1) = c_fish11 (s_config st)"
    using get_keypair_same [OF assms(1)] by simp_all
  show ?thesis
  proof (cases r1)
    case (Inr u)
    then show ?thesis using assms k same
      by (auto simp: process_dh_key_exchange_def intro!: exI [of _ st1] exI [of _ False])
  next
    case (Inl e)
    then obtain d where e: "e = FE_DuplicateEntry d" and st2: "st2 = persist (mark_dirty (s_config st1)) st1"
      using set_key_errors [of L n s network False True st1 e st2] k assms(4) by auto
    have ok: "fst (set_key L n s network True True st2) = Inr ()"
      by (rule set_key_overwrites [OF assms(4)])
    have "process_dh_key_exchange L secret n pk network st = set_key L n s network True True st2"
      using assms(1-3) k Inl e by (simp add: process_dh_key_exchange_def)
    then have "set_key L n s network True True st2 = (r, st')" using assms(5) by simp
    with ok show ?thesis
      by (intro conjI exI [of _ st2] exI [of _ True]) (auto simp: st2 same)
  qed
qed

text \<open>when two users process each other's formatted public keys, both calls
  succeed, replacing any older key, and each then reads the same 32-byte key for the
  other.\<close>

theorem key_exchange_agreement:
  assumes "lib_ok L"
    "get_keypair L sa stA = (Inr kpA, stA1)" "get_keypair L sb stB = (Inr kpB, stB1)"
    "kp_public kpA = dh_pub L (kp_private kpA)" "kp_public kpB = dh_pub L (kp_private kpB)"
    "length (kp_private kpA) = 32" "length (kp_private kpB) = 32"
    "is_ok (validate_public_key (kp_public kpA))" "is_ok (validate_public_key (kp_public kpB))"
    "net_ok (Some netA)" "net_ok (Some netB)"
    "0 \<le> s_clock stA" "s_clock stA < 253402300800" "0 \<le> s_clock stB" "s_clock stB < 253402300800"
    "0 \<le> raw_ttl (s_config stA)" "raw_ttl (s_config stA) < 2 ^ 61"
    "0 \<le> raw_ttl (s_config stB)" "raw_ttl (s_config stB) < 2 ^ 61"
    "process_dh_key_exchange L sa nB (format_public_key L (kp_public kpB)) (Some netA) stA = (rA, stA')"
    "process_dh_key_exchange L sb nA (format_public_key L (kp_public kpA)) (Some netB) stB = (rB, stB')"
  shows "rA = Inr () \<and> rB = Inr () \<and>
    (\<exists>s. length s = 32 \<and> get_key L nB (Some netA) stA' = Inr s \<and> get_key L nA (Some netB) stB' = Inr s)"
proof -
  have dh: "dh_mul L (kp_private kpB) (dh_pub L (kp_private kpA)) = dh_mul L (kp_private kpA) (dh_pub L (kp_private kpB))"
    using assms(1) by (simp add: lib_ok_def dh_law_def)
  have len: "length (kp_public kpA) = 32" "length (kp_public kpB) = 32"
    using assms(1,4-7) by (simp_all add: lib_ok_def dh_law_def)
  have valid: "validate_public_key (kp_public kpA) = Inr ()" "validate_public_key (kp_public kpB) = Inr ()"
    using assms(8,9) by (cases "validate_public_key (kp_public kpA)"; cases "validate_public_key (kp_public kpB)"; simp)+
  have h: "hkdf_law L" using assms(1) by (simp add: lib_ok_def)
  obtain s where s: "hkdf L (as_bytes ''FiSH11-KDF'') (dh_mul L (kp_private kpA) (kp_public kpB)) (as_bytes ''EncryptionKey'') 32 = Some s"
      "length s = 32"
    by (rule hkdf_out [OF h, of 32 "as_bytes ''FiSH11-KDF''" "dh_mul L (kp_private kpA) (kp_public kpB)" "as_bytes ''EncryptionKey''"]) auto
  have sec: "compute_shared_secret L (kp_private kpA) (kp_public kpB) = Inr s"
    "compute_shared_secret L (kp_private kpB) (kp_public kpA) = Inr s"
    using s valid dh by (simp_all add: compute_shared_secret_def assms(4,5))
  have fmt: "extract_public_key L (format_public_key L (kp_public kp)) = Inr (kp_public kp)"
    if "kp \<in> {kpA, kpB}" for kp
    using that valid len assms(1)
    by (auto simp: extract_public_key_def format_public_key_def constant_time_compare_def as_bytes_take
        base64_encode_def b64_roundtrip base64_decode_def lib_ok_def)
  from process_dh_stores [OF assms(2) fmt sec(1) assms(10,20)] obtain st2 ow where A:
    "rA = Inr ()" "set_key L nB s (Some netA) ow True st2 = (Inr (), stA')" "s_clock st2 = s_clock stA"
    "raw_ttl (s_config st2) = raw_ttl (s_config stA)" by (auto simp: raw_ttl_def)
  from process_dh_stores [OF assms(3) fmt sec(2) assms(11,21)] obtain st3 ow' where B:
    "rB = Inr ()" "set_key L nA s (Some netB) ow' True st3 = (Inr (), stB')" "s_clock st3 = s_clock stB"
    "raw_ttl (s_config st3) = raw_ttl (s_config stB)" by (auto simp: raw_ttl_def)
  have same: "stA'\<lparr>s_clock := s_clock stA\<rparr> = stA'" "stB'\<lparr>s_clock := s_clock stB\<rparr> = stB'"
    using set_key_effect(8) [OF A(2)] set_key_effect(8) [OF B(2)] A(3) B(3) by simp_all
  have "get_key L nB (Some netA) stA' = Inr s"
    using stored_key_readable [OF assms(1) refl _ _ _ _ A(2), of "s_clock stA"] A(3,4) assms(12,13,16,17) same
    by simp
  moreover have "get_key L nA (Some netB) stB' = Inr s"
    using stored_key_readable [OF assms(1) refl _ _ _ _ B(2), of "s_clock stB"] B(3,4) assms(14,15,18,19) same
    by simp
  ultimately show ?thesis using A(1) B(1) s(2) by blast
qed

lemma key_exchange_agreement_witness:
  "\<exists>s. get_key ref_lib ''bob'' (Some ''net'')
        (snd (process_dh_key_exchange ref_lib (replicate 32 9) ''bob''
                (format_public_key ref_lib (replicate 32 8)) (Some ''net'') sample_store)) = Inr s \<and>
       get_key ref_lib ''alice'' (Some ''net'')
        (snd (process_dh_key_exchange ref_lib (replicate 32 8) ''alice''
                (format_public_key ref_lib (replicate 32 9)) (Some ''net'') sample_store)) = Inr s"
proof -
  have none: "get_keypair_internal ref_lib 1000 (s_config sample_store) = Inr None"
    by (simp add: get_keypair_internal_def sample_store_def fish_config_new_def)
  have gen: "\<exists>st1. get_keypair ref_lib x sample_store = (Inr (generate_keypair ref_lib x 1000), st1)" for x
    using none by (simp add: get_keypair_def with_config_def sample_store_facts store_keypair_persist Let_def)
  obtain stA1 stB1 where kp: "get_keypair ref_lib (replicate 32 9) sample_store = (Inr (generate_keypair ref_lib (replicate 32 9) 1000), stA1)"
    "get_keypair ref_lib (replicate 32 8) sample_store = (Inr (generate_keypair ref_lib (replicate 32 8) 1000), stB1)"
    using gen by meson
  obtain rA stA' where A: "process_dh_key_exchange ref_lib (replicate 32 9) ''bob''
      (format_public_key ref_lib (replicate 32 8)) (Some ''net'') sample_store = (rA, stA')" by force
  obtain rB stB' where B: "process_dh_key_exchange ref_lib (replicate 32 8) ''alice''
      (format_public_key ref_lib (replicate 32 9)) (Some ''net'') sample_store = (rB, stB')" by force
  have "\<exists>s. length s = 32 \<and> get_key ref_lib ''bob'' (Some ''net'') stA' = Inr s \<and> get_key ref_lib ''alice'' (Some ''net'') stB' = Inr s"
    using key_exchange_agreement [OF _ kp, of "''net''" "''net''" "''bob''" rA stA' "''alice''" rB stB'] A B
    by (simp add: generate_keypair_def ref_simps sample_keys_valid net_ok_def sample_store_facts)
  then show ?thesis unfolding A B by auto
qed

end
