(* ===== verification/Chacha.thy ===== *)
theory Chacha
  imports Store Utils
begin

text \<open>
  Message encryption with XChaCha20-Poly1305 (\<open>crypto/chacha20.rs\<close>): \<open>nonce || ct\<close>
  in base64, the ratchet step, and the wrapping of a channel key.  The random
  nonce is an argument.  The recipient, which only feeds the audit log, is left
  out, and a library error is its fixed text.  \<open>decrypt_message\<close> counts a decryption
  in \<open>CONFIG\<close>: \<open>held\<close> says whether the calling thread already holds its lock, in which
  case the call never returns.
\<close>

definition NONCE_SIZE_BYTES :: nat where "NONCE_SIZE_BYTES = 24"

definition MAX_CIPHERTEXT_SIZE :: nat where
  "MAX_CIPHERTEXT_SIZE = MAX_MESSAGE_SIZE + 16 + 24"

definition aad_of :: "bytes option \<Rightarrow> bytes" where
  "aad_of ad = (case ad of Some a \<Rightarrow> a | None \<Rightarrow> [])"

definition encrypt_message ::
  "ext_lib \<Rightarrow> bytes \<Rightarrow> bytes \<Rightarrow> string \<Rightarrow> bytes option \<Rightarrow> store \<Rightarrow> (FishError, string) result \<times> store" where
  "encrypt_message L nonce key message ad st =
     (if message = [] then (Inl (FE_InvalidInput ''Empty message''), st)
      else if length message > MAX_MESSAGE_SIZE then
        (Inl (FE_InvalidInput (''Message exceeds maximum size of '' @ show_nat MAX_MESSAGE_SIZE @ '' bytes'')), st)
      else case xseal L key nonce (aad_of ad) (as_bytes message) of
             None \<Rightarrow> (Inl (FE_CryptoError ''Encryption failed: aead::Error''), st)
           | Some ciphertext \<Rightarrow>
               (Inr (base64_encode L (nonce @ ciphertext)), increment_encryption_counter st))"

definition decrypt_message ::
  "bool \<Rightarrow> ext_lib \<Rightarrow> bytes \<Rightarrow> string \<Rightarrow> bytes option \<Rightarrow> store
   \<Rightarrow> ((FishError, string) result \<times> store) option" where
  "decrypt_message held L key encrypted_data ad st =
     (case base64_decode L encrypted_data of
        Inl e \<Rightarrow> Some (Inl (FE_CryptoError (''Invalid base64 data: '' @ fish_display e)), st)
      | Inr data \<Rightarrow>
          if length data > MAX_CIPHERTEXT_SIZE then
            Some (Inl (FE_CryptoError (''Ciphertext too large: '' @ show_nat (length data) @ '' bytes'')), st)
          else if length data \<le> NONCE_SIZE_BYTES then
            Some (Inl (FE_CryptoError ''Encrypted data too short''), st)
          else
            (let nonce = take NONCE_SIZE_BYTES data;
                 ciphertext = drop NONCE_SIZE_BYTES data
             in case xopen L key nonce (aad_of ad) ciphertext of
                  None \<Rightarrow> Some (Inl (FE_CryptoError ''Decryption failed: aead::Error''), st)
                | Some plaintext \<Rightarrow>
                    if held then None
                    else
                      Some (case from_utf8 plaintext of
                              Some s \<Rightarrow> Inr s
                            | None \<Rightarrow> Inl (FE_CryptoError ''UTF-8 conversion failed: invalid utf-8 sequence''),
                            increment_decryption_counter st)))"

text \<open>The \<open>MessageCipher\<close> implementation: keys given as slices.\<close>

definition cipher_encrypt ::
  "ext_lib \<Rightarrow> bytes \<Rightarrow> bytes \<Rightarrow> string \<Rightarrow> bytes option \<Rightarrow> store \<Rightarrow> (FishError, string) result \<times> store" where
  "cipher_encrypt L nonce key message ad st =
     (if length key \<noteq> 32 then (Inl (FE_InvalidInput ''Key must be 32 bytes''), st)
      else encrypt_message L nonce key message ad st)"

definition cipher_decrypt ::
  "bool \<Rightarrow> ext_lib \<Rightarrow> bytes \<Rightarrow> string \<Rightarrow> bytes option \<Rightarrow> store
   \<Rightarrow> ((FishError, string) result \<times> store) option" where
  "cipher_decrypt held L key encrypted_data ad st =
     (if length key \<noteq> 32 then Some (Inl (FE_InvalidInput ''Key must be 32 bytes''), st)
      else decrypt_message held L key encrypted_data ad st)"

definition advance_ratchet_key ::
  "ext_lib \<Rightarrow> bytes \<Rightarrow> bytes \<Rightarrow> string \<Rightarrow> (FishError, bytes) result" where
  "advance_ratchet_key L key nonce channel_name =
     (let info = ''FCEP-1-RATCHET'' @ to_lowercase channel_name in
      case hkdf L nonce key (as_bytes info) 32 of
        None \<Rightarrow> Inl (FE_CryptoError ''HKDF expansion for ratchet failed: invalid number of blocks, too large output'')
      | Some next_key \<Rightarrow> Inr next_key)"

definition wrap_key :: "ext_lib \<Rightarrow> bytes \<Rightarrow> bytes \<Rightarrow> bytes \<Rightarrow> (FishError, string) result" where
  "wrap_key L nonce channel_key shared_key =
     (case xseal L shared_key nonce [] channel_key of
        None \<Rightarrow> Inl (FE_CryptoError ''Key wrapping failed: aead::Error'')
      | Some ciphertext \<Rightarrow> Inr (b64_enc L (nonce @ ciphertext)))"

definition unwrap_key :: "ext_lib \<Rightarrow> string \<Rightarrow> bytes \<Rightarrow> (FishError, bytes) result" where
  "unwrap_key L wrapped_key_b64 shared_key =
     (case b64_dec L wrapped_key_b64 of
        Inl e \<Rightarrow> Inl (FE_CryptoError (''Invalid base64 in wrapped key: '' @ e))
      | Inr wrapped_bytes \<Rightarrow>
          if length wrapped_bytes < 72 then
            Inl (FE_CryptoError (''Wrapped key too short: expected at least 72 bytes, got '' @
                                 show_nat (length wrapped_bytes)))
          else
            (case xopen L shared_key (take NONCE_SIZE_BYTES wrapped_bytes) []
                    (drop NONCE_SIZE_BYTES wrapped_bytes) of
               None \<Rightarrow> Inl (FE_CryptoError
                        ''Key unwrapping failed (invalid key or corrupted data): aead::Error'')
             | Some plaintext \<Rightarrow>
                 if length plaintext = 32 then Inr plaintext
                 else Inl (FE_CryptoError (''Unwrapped key has invalid length: expected 32 bytes, got '' @
                                           show_nat (length plaintext)))))"

section \<open>Facts\<close>

lemma aead_law_ok: "lib_ok L \<Longrightarrow> aead_law L" "lib_ok L \<Longrightarrow> b64_law L" "lib_ok L \<Longrightarrow> hkdf_law L"
  "lib_ok L \<Longrightarrow> dh_law L" "lib_ok L \<Longrightarrow> date_law L"
  by (simp_all add: lib_ok_def)

lemma encrypt_message_Inr:
  "encrypt_message L n k m ad st = (Inr c, st') \<Longrightarrow> m \<noteq> [] \<and> length m \<le> MAX_MESSAGE_SIZE \<and>
     st' = increment_encryption_counter st \<and>
     (\<exists>ct. xseal L k n (aad_of ad) (as_bytes m) = Some ct \<and> c = base64_encode L (n @ ct))"
  by (auto simp: encrypt_message_def not_less split: if_splits option.splits)

lemma encrypt_message_same: "same_but_metrics st (snd (encrypt_message L n k m ad st))"
  by (auto simp: encrypt_message_def counters_same split: option.splits)

lemma decrypt_message_same: "decrypt_message h L k d ad st = Some (r, st') \<Longrightarrow> same_but_metrics st st'"
  by (auto simp: decrypt_message_def counters_same Let_def split: sum.splits if_splits option.splits)

lemma decrypt_message_returns: "\<exists>r st'. decrypt_message False L k d ad st = Some (r, st')"
  by (auto simp: decrypt_message_def Let_def split: sum.splits if_splits option.splits)

lemma encrypt_then_decrypt:
  assumes "lib_ok L" "length k = 32" "length n = 24" "m \<noteq> []" "length m \<le> 4096" "utf8_valid (as_bytes m)"
  shows "\<exists>c. encrypt_message L n k m ad st = (Inr c, increment_encryption_counter st) \<and>
    length c = 4 * ((length m + 42) div 3) \<and> base64_decode L c = Inr (n @ drop 24 (projr (base64_decode L c))) \<and>
    (\<forall>st1. decrypt_message False L k c ad st1 = Some (Inr m, increment_decryption_counter st1))"
proof -
  obtain ct where ct: "xseal L k n (aad_of ad) (as_bytes m) = Some ct" "length ct = length m + 16"
      "xopen L k n (aad_of ad) ct = Some (as_bytes m)"
    using aead_seal [OF aead_law_ok(1) [OF assms(1)] assms(2,3), of "aad_of ad" "as_bytes m"] by auto
  have b: "b64_law L" using assms(1) by (rule aead_law_ok)
  have "length (base64_encode L (n @ ct)) = 4 * ((length m + 42) div 3)"
    using b64_length [OF b, of "n @ ct"] ct(2) assms(3) by (simp add: base64_encode_def add.commute)
  then show ?thesis using assms ct b
    by (auto simp: encrypt_message_def decrypt_message_def MAX_MESSAGE_SIZE_def MAX_CIPHERTEXT_SIZE_def
        NONCE_SIZE_BYTES_def from_utf8_def)
qed

text \<open>C14: encryption succeeds exactly on messages of 1 to 4096 bytes, and decryption
  with the same key and associated data gives the message back.\<close>

theorem encrypt_decrypt_roundtrip:
  assumes "lib_ok L" "length k = 32" "length n = 24" "utf8_valid (as_bytes m)"
  shows "(is_ok (fst (encrypt_message L n k m ad st)) \<longleftrightarrow> m \<noteq> [] \<and> length m \<le> 4096) \<and>
    (\<forall>c st1. fst (encrypt_message L n k m ad st) = Inr c \<longrightarrow>
       length c = 4 * ((length m + 42) div 3) \<and>
       decrypt_message False L k c ad st1 = Some (Inr m, increment_decryption_counter st1))"
proof (cases "m \<noteq> [] \<and> length m \<le> 4096")
  case True
  then show ?thesis
    using encrypt_then_decrypt [OF assms(1-3) _ _ assms(4), of ad st] by auto
next
  case False
  then show ?thesis
    by (auto simp: encrypt_message_def MAX_MESSAGE_SIZE_def)
qed

lemma encrypt_decrypt_roundtrip_witness:
  "\<forall>st. \<exists>c. fst (encrypt_message ref_lib (replicate 24 5) (replicate 32 7) ''hello'' None st) = Inr c \<and>
    decrypt_message False ref_lib (replicate 32 7) c None st = Some (Inr ''hello'', increment_decryption_counter st)"
proof
  fix st
  have "utf8_valid (as_bytes ''hello'')" by (rule utf8_valid_ascii) code_simp
  then have "is_ok (fst (encrypt_message ref_lib (replicate 24 5) (replicate 32 7) ''hello'' None st))"
    "\<And>c. fst (encrypt_message ref_lib (replicate 24 5) (replicate 32 7) ''hello'' None st) = Inr c \<Longrightarrow>
      decrypt_message False ref_lib (replicate 32 7) c None st = Some (Inr ''hello'', increment_decryption_counter st)"
    using encrypt_decrypt_roundtrip [of ref_lib "replicate 32 7" "replicate 24 5" "''hello''" None st] by auto
  then show "\<exists>c. fst (encrypt_message ref_lib (replicate 24 5) (replicate 32 7) ''hello'' None st) = Inr c \<and>
      decrypt_message False ref_lib (replicate 32 7) c None st = Some (Inr ''hello'', increment_decryption_counter st)"
    by (cases "fst (encrypt_message ref_lib (replicate 24 5) (replicate 32 7) ''hello'' None st)") auto
qed

text \<open>decryption under the \<open>CONFIG\<close> lock blocks for ever exactly when the message
  authenticates; every other message is answered with an error and no change.\<close>

theorem decrypt_under_lock:
  assumes "base64_decode L d = Inr data" "24 < length data" "length data \<le> 4136"
  shows "(decrypt_message True L k d ad st = None \<longleftrightarrow>
            (\<exists>m. xopen L k (take 24 data) (aad_of ad) (drop 24 data) = Some m)) \<and>
    (decrypt_message True L k d ad st \<noteq> None \<longrightarrow>
       (\<exists>e. decrypt_message True L k d ad st = Some (Inl e, st)))"
  using assms
  by (auto simp: decrypt_message_def MAX_CIPHERTEXT_SIZE_def MAX_MESSAGE_SIZE_def NONCE_SIZE_BYTES_def
      split: option.splits)

lemma decrypt_under_lock_witness:
  "\<forall>st. decrypt_message True ref_lib (replicate 32 7) (base64_encode ref_lib (replicate 24 5 @ [65] @ replicate 8 7 @ replicate 7 5 @ [0])) None st = None"
  using decrypt_under_lock [of ref_lib
      "base64_encode ref_lib (replicate 24 5 @ [65] @ replicate 8 7 @ replicate 7 5 @ [0])"
      "replicate 24 5 @ [65] @ replicate 8 7 @ replicate 7 5 @ [0]" "replicate 32 7" None]
  by (simp add: ref_simps ref_tag_def aad_of_def)

text \<open>a channel key wrapped for a member is recovered by that member, and nothing
  but a 32-byte key ever comes out of \<open>unwrap_key\<close>.\<close>

theorem wrap_unwrap_key:
  assumes "lib_ok L" "length shared = 32" "length n = 24" "length key = 32"
  shows "(\<exists>w. wrap_key L n key shared = Inr w \<and> unwrap_key L w shared = Inr key) \<and>
    (\<forall>w k. unwrap_key L w s' = Inr k \<longrightarrow> length k = 32)"
proof -
  obtain ct where ct: "xseal L shared n [] key = Some ct" "length ct = length key + 16"
      "xopen L shared n [] ct = Some key"
    using aead_seal [OF aead_law_ok(1) [OF assms(1)] assms(2,3), of "[]" key] by auto
  then have "wrap_key L n key shared = Inr (b64_enc L (n @ ct)) \<and>
      unwrap_key L (b64_enc L (n @ ct)) shared = Inr key"
    using assms aead_law_ok(2) [OF assms(1)]
    by (simp add: wrap_key_def unwrap_key_def b64_roundtrip NONCE_SIZE_BYTES_def)
  then show ?thesis
    by (auto simp: unwrap_key_def split: sum.splits if_splits option.splits)
qed

lemma wrap_unwrap_key_witness:
  "\<exists>w. wrap_key ref_lib (replicate 24 1) (replicate 32 2) (replicate 32 3) = Inr w \<and>
    unwrap_key ref_lib w (replicate 32 3) = Inr (replicate 32 2)"
  using wrap_unwrap_key [of ref_lib "replicate 32 3" "replicate 24 1" "replicate 32 2" "[]"] by simp

lemma advance_ratchet_key_ok:
  assumes "hkdf_law L"
  obtains k' where "advance_ratchet_key L k n ch = Inr k'" "length k' = 32"
  by (rule hkdf_out [OF assms, of 32 n k "as_bytes (''FCEP-1-RATCHET'' @ to_lowercase ch)"])
    (auto simp: advance_ratchet_key_def)

lemma advance_ratchet_key_case [simp]:
  "advance_ratchet_key L k n (to_lowercase ch) = advance_ratchet_key L k n ch"
  by (simp add: advance_ratchet_key_def)

end
