(* ===== verification/ChannelKeys.thy ===== *)
theory ChannelKeys
  imports KeyFacts Chacha
begin

text \<open>
  Channel keys: the fixed symmetric keys of \<open>config/channel_keys.rs\<close>, the manual
  keys stored encrypted under a key derived from our private key
  (\<open>config/manual_channel_keys.rs\<close>), and the choice between the two
  (\<open>config/channel_key_utils.rs\<close>).  Reading a manual key decrypts it, which counts a
  decryption, so the getters return the store as well.
\<close>

definition is_chan_prefixed :: "string \<Rightarrow> bool" where
  "is_chan_prefixed s = (starts_with ''#'' s \<or> starts_with ''&'' s)"

text \<open>\<open>char::is_control\<close>: the C0 range, DEL, and the C1 range in its UTF-8 form.\<close>

fun has_control :: "string \<Rightarrow> bool" where
  "has_control [] = False"
| "has_control (c # s) =
     ((of_char c :: nat) < 32 \<or> (of_char c :: nat) = 127 \<or>
      ((of_char c :: nat) = 194 \<and>
       (case s of [] \<Rightarrow> False | d # _ \<Rightarrow> 128 \<le> (of_char d :: nat) \<and> (of_char d :: nat) \<le> 159)) \<or>
      has_control s)"

definition bad_chan_char :: "string \<Rightarrow> bool" where
  "bad_chan_char s = (has_control s \<or> CHR '' '' \<in> set s \<or> CHR '','' \<in> set s)"

section \<open>Fixed channel keys\<close>

definition set_channel_key :: "string \<Rightarrow> bytes \<Rightarrow> store \<Rightarrow> (FishError, unit) result \<times> store" where
  "set_channel_key channel_name key st =
     (let normalized = to_lowercase channel_name in
      if \<not> is_chan_prefixed normalized then
        (Inl (FE_InvalidInput ''channel_name must start with # or &''), st)
      else if length normalized < 2 \<or> length normalized > 50 then
        (Inl (FE_InvalidInput (''channel_name length must be 2-50 characters, got '' @
                               show_nat (length normalized))), st)
      else if bad_chan_char normalized then
        (Inl (FE_InvalidInput
          ''channel_name contains invalid characters (control chars, spaces, commas, or BEL)''), st)
      else with_config_mut (\<lambda>c. (Inr (), c\<lparr>c_channel_keys := hm_insert normalized key (c_channel_keys c)\<rparr>)) st)"

definition get_channel_key :: "string \<Rightarrow> store \<Rightarrow> (FishError, bytes) result" where
  "get_channel_key channel_name st =
     (let normalized = to_lowercase channel_name in
      if \<not> is_chan_prefixed normalized then Inl (FE_InvalidInput ''channel_name must start with # or &'')
      else with_config (\<lambda>c.
        case hm_get (c_channel_keys c) normalized of
          None \<Rightarrow> Inl (FE_KeyNotFound (''No key found for channel: '' @ normalized))
        | Some key_bytes \<Rightarrow>
            if length key_bytes = 32 then Inr key_bytes
            else Inl (FE_ConfigError (''Invalid key length for channel '' @ normalized @
                        '': expected 32 bytes, got '' @ show_nat (length key_bytes)))) st)"

section \<open>Manual channel keys\<close>

definition safe_channel_name :: "string \<Rightarrow> string" where
  "safe_channel_name s = concat (map (\<lambda>c. if c = CHR ''#'' then ''hash_'' else [c]) s)"

definition manual_entry_key :: "string \<Rightarrow> string" where
  "manual_entry_key normalized_channel = ''channel_key_'' @ safe_channel_name normalized_channel"

definition derive_storage :: "ext_lib \<Rightarrow> bytes \<Rightarrow> (FishError, bytes) result" where
  "derive_storage L private_bytes =
     (case hkdf L (replicate 32 0) private_bytes (as_bytes ''FiSH11-ChannelKeyStorage'') 32 of
        None \<Rightarrow> Inl (FE_CryptoError ''HKDF expansion failed: invalid number of blocks, too large output'')
      | Some output \<Rightarrow> Inr output)"

definition derive_master_storage_key :: "ext_lib \<Rightarrow> bytes \<Rightarrow> store \<Rightarrow> (FishError, bytes) result \<times> store" where
  "derive_master_storage_key L secret st =
     (case get_keypair L secret st of
        (Inl e, st') \<Rightarrow> (Inl e, st')
      | (Inr keypair, st') \<Rightarrow> (derive_storage L (kp_private keypair), st'))"

definition derive_master_storage_key_internal :: "ext_lib \<Rightarrow> int \<Rightarrow> FishConfig \<Rightarrow> (FishError, bytes) result" where
  "derive_master_storage_key_internal L now c =
     (case get_keypair_internal L now c of
        Inl e \<Rightarrow> Inl e
      | Inr (Some keypair) \<Rightarrow> derive_storage L (kp_private keypair)
      | Inr None \<Rightarrow> Inl (FE_ConfigError ''No keypair available for deriving master storage key''))"

definition storage_ad :: "string \<Rightarrow> bytes" where
  "storage_ad channel_name = as_bytes (''channel_key_'' @ channel_name)"

definition encrypt_channel_key_for_storage ::
  "ext_lib \<Rightarrow> bytes \<Rightarrow> bytes \<Rightarrow> bytes \<Rightarrow> string \<Rightarrow> store \<Rightarrow> (FishError, string) result \<times> store" where
  "encrypt_channel_key_for_storage L nonce secret key channel_name st =
     (case derive_master_storage_key L secret st of
        (Inl e, st') \<Rightarrow> (Inl e, st')
      | (Inr master_key, st') \<Rightarrow>
          encrypt_message L nonce master_key (base64_encode L key) (Some (storage_ad channel_name)) st')"

text \<open>Decryption with no lock held always answers (\<open>decrypt_message_returns\<close>).\<close>

definition decrypt_unlocked ::
  "ext_lib \<Rightarrow> bytes \<Rightarrow> string \<Rightarrow> bytes option \<Rightarrow> store \<Rightarrow> (FishError, string) result \<times> store" where
  "decrypt_unlocked L key data ad st =
     (case decrypt_message False L key data ad st of Some x \<Rightarrow> x | None \<Rightarrow> (Inl (FE_CryptoError []), st))"

definition decrypt_channel_key_from_storage ::
  "ext_lib \<Rightarrow> string \<Rightarrow> string \<Rightarrow> bytes \<Rightarrow> store \<Rightarrow> (FishError, bytes) result \<times> store" where
  "decrypt_channel_key_from_storage L encrypted_key_b64 channel_name master_key st =
     (case decrypt_unlocked L master_key encrypted_key_b64 (Some (storage_ad channel_name)) st of
        (Inl e, st') \<Rightarrow> (Inl e, st')
      | (Inr decrypted_key_b64, st') \<Rightarrow>
          (case base64_decode L decrypted_key_b64 of
             Inl e \<Rightarrow> (Inl (FE_ConfigError (''Failed to decode base64 key: '' @ fish_display e)), st')
           | Inr key_bytes \<Rightarrow>
               if length key_bytes \<noteq> 32 then
                 (Inl (FE_ConfigError (''Decoded key has incorrect length: expected 32, got '' @
                                       show_nat (length key_bytes))), st')
               else (Inr key_bytes, st')))"

definition set_manual_channel_key ::
  "ext_lib \<Rightarrow> bytes \<Rightarrow> bytes \<Rightarrow> string \<Rightarrow> bytes \<Rightarrow> bool \<Rightarrow> store \<Rightarrow> (DllError, unit) result \<times> store" where
  "set_manual_channel_key L nonce secret channel_name key overwrite st =
     (let normalized_channel = to_lowercase channel_name in
      if \<not> is_chan_prefixed normalized_channel then
        (Inl (InvalidInput ''channel_name'' ''channel_name must start with # or &''), st)
      else if length normalized_channel < 2 \<or> length normalized_channel > 50 then
        (Inl (InvalidInput ''channel_name'' (''channel_name length must be 2-50 characters, got '' @
                                             show_nat (length normalized_channel))), st)
      else if bad_chan_char normalized_channel then
        (Inl (InvalidInput ''channel_name''
          ''channel_name contains invalid characters (control chars, spaces, commas, or BEL)''), st)
      else
        (case encrypt_channel_key_for_storage L nonce secret key normalized_channel st of
           (Inl e, st1) \<Rightarrow> (Inl (dll_of_fish e), st1)
         | (Inr encrypted_key_b64, st1) \<Rightarrow>
             (let entry_key = manual_entry_key normalized_channel;
                  (r, st2) = with_config_mut (\<lambda>c.
                    if \<not> overwrite \<and> hm_has (c_entries c) entry_key then
                      (Inl (FE_DuplicateEntry entry_key), c)
                    else
                      (Inr (), c\<lparr>c_entries := hm_insert entry_key
                         \<lparr>e_key = Some encrypted_key_b64, e_date = Some (date_fmt L (s_clock st1)),
                          e_is_exchange = Some False\<rparr> (c_entries c)\<rparr>)) st1
              in (map_err dll_of_fish r, st2))))"

definition get_manual_channel_key :: "ext_lib \<Rightarrow> string \<Rightarrow> store \<Rightarrow> (DllError, bytes) result \<times> store" where
  "get_manual_channel_key L channel_name st =
     (let normalized_channel = to_lowercase channel_name in
      if \<not> is_chan_prefixed normalized_channel then
        (Inl (InvalidInput ''channel_name'' ''channel_name must start with # or &''), st)
      else
        (case with_config (\<lambda>c.
                case hm_get (c_entries c) (manual_entry_key normalized_channel) of
                  None \<Rightarrow> Inl (FE_KeyNotFound (''No manual key found for channel: '' @ normalized_channel))
                | Some entry \<Rightarrow>
                    (case e_key entry of
                       None \<Rightarrow> Inl (FE_ConfigError (''No key data found for channel: '' @ normalized_channel))
                     | Some encrypted_key_b64 \<Rightarrow>
                         (case derive_master_storage_key_internal L (s_clock st) c of
                            Inl e \<Rightarrow> Inl e
                          | Inr master_key \<Rightarrow> Inr (encrypted_key_b64, master_key)))) st of
           Inl e \<Rightarrow> (Inl (dll_of_fish e), st)
         | Inr (encrypted_key_b64, master_key) \<Rightarrow>
             (let (r, st') = decrypt_channel_key_from_storage L encrypted_key_b64 normalized_channel master_key st
              in (map_err dll_of_fish r, st'))))"

definition list_manual_channel_keys :: "store \<Rightarrow> (string \<times> string option) list" where
  "list_manual_channel_keys = with_config (\<lambda>c.
     List.map_filter (\<lambda>(entry_key, entry).
       map_option (\<lambda>channel_name. (channel_name, e_date entry)) (strip_prefix ''channel_key_'' entry_key))
     (c_entries c))"

definition remove_manual_channel_key :: "string \<Rightarrow> store \<Rightarrow> (FishError, unit) result \<times> store" where
  "remove_manual_channel_key channel_name =
     with_config_mut (\<lambda>c. (Inr (), c\<lparr>c_entries :=
       hm_remove (manual_entry_key (to_lowercase channel_name)) (c_entries c)\<rparr>))"

section \<open>Either kind\<close>

datatype ChannelKeyType = Manual | RatchetBased

definition get_channel_key_with_fallback :: "ext_lib \<Rightarrow> string \<Rightarrow> store \<Rightarrow> (DllError, bytes) result \<times> store" where
  "get_channel_key_with_fallback L channel_name st =
     (case get_manual_channel_key L channel_name st of
        (Inr key, st') \<Rightarrow> (Inr key, st')
      | (Inl _, st') \<Rightarrow> (map_err dll_of_fish (get_channel_key channel_name st'), st'))"

definition has_channel_key :: "ext_lib \<Rightarrow> string \<Rightarrow> store \<Rightarrow> bool \<times> store" where
  "has_channel_key L channel_name st =
     (let (r, st') = get_manual_channel_key L channel_name st
      in (is_ok r \<or> is_ok (get_channel_key channel_name st'), st'))"

definition get_channel_key_type :: "ext_lib \<Rightarrow> string \<Rightarrow> store \<Rightarrow> (DllError, ChannelKeyType) result \<times> store" where
  "get_channel_key_type L channel_name st =
     (let (r, st') = get_manual_channel_key L channel_name st
      in (if is_ok r then Inr Manual
          else if is_ok (get_channel_key channel_name st') then Inr RatchetBased
          else Inl (KeyNotFound channel_name), st'))"

section \<open>Facts\<close>

lemma decrypt_unlocked_same: "decrypt_unlocked L k d ad st = (r, st') \<Longrightarrow> same_but_metrics st st'"
  using decrypt_message_returns [of L k d ad st] decrypt_message_same
  by (auto simp: decrypt_unlocked_def)

lemma get_manual_same: "get_manual_channel_key L ch st = (r, st') \<Longrightarrow> same_but_metrics st st'"
  by (auto simp: get_manual_channel_key_def decrypt_channel_key_from_storage_def Let_def with_config_def
      split: if_splits sum.splits option.splits prod.splits dest: decrypt_unlocked_same)

lemma get_channel_key_cong:
  "same_but_metrics st st' \<Longrightarrow> get_channel_key ch st' = get_channel_key ch st"
  by (simp add: get_channel_key_def with_config_def same_but_metrics_fields Let_def)

definition chan_name_ok :: "string \<Rightarrow> bool" where
  "chan_name_ok ch \<longleftrightarrow> is_chan_prefixed (to_lowercase ch) \<and> 2 \<le> length ch \<and> length ch \<le> 50 \<and>
     \<not> bad_chan_char (to_lowercase ch)"

lemma set_channel_key_ok:
  "chan_name_ok ch \<Longrightarrow> set_channel_key ch k st =
     (Inr (), persist ((mark_dirty (s_config st))\<lparr>c_channel_keys :=
        hm_insert (to_lowercase ch) k (c_channel_keys (s_config st))\<rparr>) st)"
  by (simp add: set_channel_key_def chan_name_ok_def not_less Let_def
      with_config_mut_persist [of _ st "Inr ()" "(mark_dirty (s_config st))\<lparr>c_channel_keys :=
        hm_insert (to_lowercase ch) k (c_channel_keys (s_config st))\<rparr>"])

lemma set_channel_key_bad: "\<not> chan_name_ok ch \<Longrightarrow> \<exists>m. set_channel_key ch k st = (Inl (FE_InvalidInput m), st)"
  by (auto simp: set_channel_key_def chan_name_ok_def not_less Let_def)

text \<open>a channel key is accepted exactly for names of 2 to 50 bytes that start with
  # or & and hold no control character, space or comma; it is then found under every
  letter case, and the keys of other channels are untouched; a refusal changes nothing.\<close>

theorem channel_key_set_get:
  assumes "set_channel_key ch k st = (r, st')" "length k = 32"
  shows "(is_ok r \<longleftrightarrow> chan_name_ok ch) \<and> (\<not> is_ok r \<longrightarrow> st' = st) \<and>
    (is_ok r \<longrightarrow> (\<forall>ch2. get_channel_key ch2 st' =
       (if to_lowercase ch2 = to_lowercase ch then Inr k else get_channel_key ch2 st)))"
proof (cases "chan_name_ok ch")
  case True
  then have "r = Inr ()" "st' = persist ((mark_dirty (s_config st))\<lparr>c_channel_keys :=
        hm_insert (to_lowercase ch) k (c_channel_keys (s_config st))\<rparr>) st"
    using set_channel_key_ok [OF True, of k st] assms(1) by auto
  then show ?thesis using True assms(2)
    by (auto simp: get_channel_key_def with_config_def chan_name_ok_def Let_def)
next
  case False
  then show ?thesis using set_channel_key_bad [OF False, of k st] assms(1) by auto
qed

lemma channel_key_set_get_witness:
  "get_channel_key ''#FISH'' (snd (set_channel_key ''#fish'' (replicate 32 7) sample_store)) = Inr (replicate 32 7) \<and>
   \<not> is_ok (fst (set_channel_key ''#fi sh'' (replicate 32 7) sample_store))"
proof -
  obtain r st' where s: "set_channel_key ''#fish'' (replicate 32 7) sample_store = (r, st')" by force
  obtain r2 st2 where s2: "set_channel_key ''#fi sh'' (replicate 32 7) sample_store = (r2, st2)" by force
  have ok: "chan_name_ok ''#fish''" "\<not> chan_name_ok ''#fi sh''" "to_lowercase ''#FISH'' = to_lowercase ''#fish''"
    by code_simp+
  show ?thesis
    using channel_key_set_get [OF s] channel_key_set_get [OF s2] ok by (simp add: s s2)
qed

lemma b64_text_valid: "b64_law L \<Longrightarrow> utf8_valid (as_bytes (b64_enc L bs))"
proof (rule utf8_valid_ascii)
  assume "b64_law L"
  then have "list_all graphic (b64_enc L bs)" by (rule b64_graphic)
  moreover have "byte_of c < 0x80" if "graphic c" for c
    using that by (simp add: graphic_def byte_of_def Let_def word_less_nat_alt unat_of_nat)
  ultimately show "list_all (\<lambda>b. b < 0x80) (as_bytes (b64_enc L bs))"
    by (auto simp: as_bytes_def list_all_iff)
qed

lemma decrypt_unlocked_Some:
  "decrypt_message False L k c ad st = Some x \<Longrightarrow> decrypt_unlocked L k c ad st = x"
  by (simp add: decrypt_unlocked_def)

lemma get_keypair_internal_cong:
  "c_our_private_key c = c_our_private_key c' \<Longrightarrow> c_our_public_key c = c_our_public_key c' \<Longrightarrow>
   c_keypair_creation_time c = c_keypair_creation_time c' \<Longrightarrow>
   get_keypair_internal L now c = get_keypair_internal L now c'"
  by (simp only: get_keypair_internal_def)

lemma derive_storage_ok:
  assumes "hkdf_law L" obtains mk where "derive_storage L p = Inr mk" "length mk = 32"
  by (rule hkdf_out [OF assms, of 32 "replicate 32 0" p "as_bytes ''FiSH11-ChannelKeyStorage''"])
    (auto simp: derive_storage_def)

text \<open>The stored form of a key decrypts under the key it was encrypted under.\<close>

lemma storage_roundtrip:
  assumes "lib_ok L" "length key = 32" "length nonce = 24" "length mk = 32"
    "encrypt_message L nonce mk (base64_encode L key) (Some (storage_ad n)) st = (Inr e, st1)"
  shows "fst (decrypt_channel_key_from_storage L e n mk s) = Inr key"
proof -
  have b: "b64_law L" using assms(1) by (rule aead_law_ok)
  have "decrypt_message False L mk e (Some (storage_ad n)) s =
      Some (Inr (base64_encode L key), increment_decryption_counter s)"
    using encrypt_decrypt_roundtrip [OF assms(1,4,3), of "base64_encode L key" "Some (storage_ad n)" st]
      b64_text_valid [OF b, of key] assms(5) by (simp add: base64_encode_def)
  then show ?thesis
    using b assms(2) by (simp add: decrypt_channel_key_from_storage_def decrypt_unlocked_def)
qed

lemma set_manual_success:
  assumes "set_manual_channel_key L nonce secret ch key ow st = (Inr (), st')"
  obtains e st1 where "is_chan_prefixed (to_lowercase ch)"
    "encrypt_channel_key_for_storage L nonce secret key (to_lowercase ch) st = (Inr e, st1)"
    "st' = persist ((mark_dirty (s_config st1))\<lparr>c_entries := hm_insert (manual_entry_key (to_lowercase ch))
       \<lparr>e_key = Some e, e_date = Some (date_fmt L (s_clock st1)), e_is_exchange = Some False\<rparr>
       (c_entries (s_config st1))\<rparr>) st1"
    "ow \<or> \<not> hm_has (c_entries (s_config st1)) (manual_entry_key (to_lowercase ch))"
proof -
  let ?n = "to_lowercase ch"
  obtain r st1 where enc: "encrypt_channel_key_for_storage L nonce secret key ?n st = (r, st1)" by force
  obtain e where e: "r = Inr e"
    using assms enc by (cases r) (auto simp: set_manual_channel_key_def Let_def split: if_splits)
  let ?ent = "\<lparr>e_key = Some e, e_date = Some (date_fmt L (s_clock st1)), e_is_exchange = Some False\<rparr>"
  let ?f = "\<lambda>c. if \<not> ow \<and> hm_has (c_entries c) (manual_entry_key ?n)
      then (Inl (FE_DuplicateEntry (manual_entry_key ?n)), c)
      else (Inr (), c\<lparr>c_entries := hm_insert (manual_entry_key ?n) ?ent (c_entries c)\<rparr>)"
  obtain r2 c where f: "?f (mark_dirty (s_config st1)) = (r2, c)" by force
  have w: "with_config_mut ?f st1 = (r2, persist c st1)"
    by (rule with_config_mut_persist [of ?f, OF f]) (use f in \<open>auto split: if_splits\<close>)
  have "is_chan_prefixed ?n" and "(r2, persist c st1) = (Inr (), st')"
    using assms enc e w
    by (auto simp: set_manual_channel_key_def Let_def split: if_splits prod.splits)
  moreover from this f have "c = (mark_dirty (s_config st1))\<lparr>c_entries := hm_insert (manual_entry_key ?n) ?ent
      (c_entries (s_config st1))\<rparr>" "ow \<or> \<not> hm_has (c_entries (s_config st1)) (manual_entry_key ?n)"
    by (auto split: if_splits)
  ultimately show ?thesis using that enc e by auto
qed

text \<open>a manual channel key survives its encrypted storage: after a successful
  \<open>set_manual_channel_key\<close>, every spelling of the channel reads the same key back, and
  manual keys take precedence over fixed ones.\<close>

theorem manual_key_roundtrip:
  assumes "lib_ok L" "length key = 32" "length nonce = 24" "length secret = 32"
    "0 \<le> s_clock st" "s_clock st < 253402300800" "to_lowercase ch2 = to_lowercase ch"
    "set_manual_channel_key L nonce secret ch key ow st = (Inr (), st')"
  shows "fst (get_manual_channel_key L ch2 st') = Inr key \<and>
    fst (get_channel_key_with_fallback L ch2 st') = Inr key \<and>
    fst (get_channel_key_type L ch2 st') = Inr Manual"
proof -
  let ?n = "to_lowercase ch"
  obtain e st1 where p: "is_chan_prefixed ?n"
    and enc: "encrypt_channel_key_for_storage L nonce secret key ?n st = (Inr e, st1)"
    and st': "st' = persist ((mark_dirty (s_config st1))\<lparr>c_entries := hm_insert (manual_entry_key ?n)
       \<lparr>e_key = Some e, e_date = Some (date_fmt L (s_clock st1)), e_is_exchange = Some False\<rparr>
       (c_entries (s_config st1))\<rparr>) st1"
    using set_manual_success [OF assms(8)] by blast
  obtain kp st0 where kp: "get_keypair L secret st = (Inr kp, st0)"
    using enc by (auto simp: encrypt_channel_key_for_storage_def derive_master_storage_key_def split: sum.splits prod.splits)
  obtain mk where mk: "derive_storage L (kp_private kp) = Inr mk" "length mk = 32"
    using derive_storage_ok [OF aead_law_ok(3) [OF assms(1)]] by blast
  have em: "encrypt_message L nonce mk (base64_encode L key) (Some (storage_ad ?n)) st0 = (Inr e, st1)"
    using enc kp mk by (simp add: encrypt_channel_key_for_storage_def derive_master_storage_key_def)
  have same: "same_but_metrics st0 st1" using encrypt_message_same [of st0 L] em by (metis snd_conv)
  have "get_keypair_internal L (s_clock st0) (s_config st0) = Inr (Some kp)"
    using get_keypair_then_internal [OF assms(1,4-6) kp] .
  moreover have "get_keypair_internal L (s_clock st') (s_config st') = get_keypair_internal L (s_clock st0) (s_config st0)"
    using same_but_metrics_fields [OF same] unfolding st'
    by (simp) (rule get_keypair_internal_cong; simp)
  ultimately have master: "derive_master_storage_key_internal L (s_clock st') (s_config st') = Inr mk"
    using mk by (simp add: derive_master_storage_key_internal_def)
  have "hm_get (c_entries (s_config st')) (manual_entry_key ?n) =
      Some \<lparr>e_key = Some e, e_date = Some (date_fmt L (s_clock st1)), e_is_exchange = Some False\<rparr>"
    unfolding st' by simp
  then have "fst (get_manual_channel_key L ch2 st') = Inr key"
    using p master storage_roundtrip [OF assms(1-3) mk(2) em, of st'] assms(7)
    by (cases "decrypt_channel_key_from_storage L e ?n mk st'")
      (simp add: get_manual_channel_key_def with_config_def)
  then show ?thesis
    by (auto simp: get_channel_key_with_fallback_def get_channel_key_type_def Let_def
        split: prod.splits sum.splits)
qed

lemma sample_manual_set:
  assumes "is_chan_prefixed (to_lowercase ch)" "\<not> bad_chan_char (to_lowercase ch)" "2 \<le> length ch" "length ch \<le> 50"
  shows "\<exists>st'. set_manual_channel_key ref_lib (replicate 24 5) (replicate 32 9) ch (replicate 32 7) True sample_store = (Inr (), st')"
proof -
  let ?n = "to_lowercase ch" and ?t = "base64_encode ref_lib (replicate 32 7)"
  obtain r st' where s: "set_manual_channel_key ref_lib (replicate 24 5) (replicate 32 9) ch (replicate 32 7) True sample_store = (r, st')"
    by force
  have none: "get_keypair_internal ref_lib 1000 (s_config sample_store) = Inr None"
    by (simp add: get_keypair_internal_def sample_store_def fish_config_new_def)
  obtain kp st0 where kp: "get_keypair ref_lib (replicate 32 9) sample_store = (Inr kp, st0)"
    using none by (simp add: get_keypair_def with_config_def sample_store_facts store_keypair_persist Let_def)
  obtain mk where mk: "derive_storage ref_lib (kp_private kp) = Inr mk" "length mk = 32"
    using derive_storage_ok [OF ref_hkdf_law] by blast
  obtain e st1 where "encrypt_message ref_lib (replicate 24 5) mk ?t (Some (storage_ad ?n)) st0 = (Inr e, st1)"
    using b64_length [OF ref_b64_law, of "replicate 32 7"]
      encrypt_then_decrypt [of ref_lib mk "replicate 24 5" ?t "Some (storage_ad ?n)" st0] mk
      b64_text_valid [OF ref_b64_law, of "replicate 32 7"]
    by (fastforce simp: base64_encode_def)
  then have "encrypt_channel_key_for_storage ref_lib (replicate 24 5) (replicate 32 9) (replicate 32 7) ?n sample_store = (Inr e, st1)"
    using kp mk by (simp add: encrypt_channel_key_for_storage_def derive_master_storage_key_def)
  then have "r = Inr ()"
    using s assms by (auto simp: set_manual_channel_key_def Let_def with_config_mut_def split: prod.splits)
  then show ?thesis using s by auto
qed

lemma manual_key_roundtrip_witness:
  "\<exists>st'. set_manual_channel_key ref_lib (replicate 24 5) (replicate 32 9) ''#Fish'' (replicate 32 7) True sample_store = (Inr (), st') \<and>
     fst (get_manual_channel_key ref_lib ''#fish'' st') = Inr (replicate 32 7)"
proof -
  have n: "is_chan_prefixed (to_lowercase ''#Fish'')" "\<not> bad_chan_char (to_lowercase ''#Fish'')"
    "to_lowercase ''#fish'' = to_lowercase ''#Fish''"
    by code_simp+
  obtain st' where s: "set_manual_channel_key ref_lib (replicate 24 5) (replicate 32 9) ''#Fish'' (replicate 32 7) True sample_store = (Inr (), st')"
    using sample_manual_set [OF n(1,2)] by auto
  show ?thesis
    using manual_key_roundtrip [OF ref_lib_ok _ _ _ _ _ n(3) s] s by (simp add: sample_store_facts)
qed

lemma encrypt_storage_entries:
  "encrypt_channel_key_for_storage L nonce secret key n st = (r, st') \<Longrightarrow>
   c_entries (s_config st') = c_entries (s_config st)"
  using encrypt_message_same same_but_metrics_fields(1) get_keypair_same(1)
  unfolding encrypt_channel_key_for_storage_def derive_master_storage_key_def
  by (auto split: prod.splits sum.splits) (metis snd_conv)+

text \<open>two different channels can share one manual entry, since replacing each # by
  \<open>hash_\<close> is not injective: once \<open>##s\<close> has a manual key, \<open>#hash_s\<close> is refused one as a
  duplicate (and with \<open>overwrite\<close> takes the place of the other's).\<close>

theorem manual_entry_collision:
  assumes "to_lowercase s = s" "set_manual_channel_key L n1 secret (''##'' @ s) k1 ow st = (Inr (), st1)"
  shows "''##'' @ s \<noteq> ''#hash_'' @ s \<and>
    \<not> is_ok (fst (set_manual_channel_key L n2 secret (''#hash_'' @ s) k2 False st1))"
proof -
  have same: "manual_entry_key (''#hash_'' @ s) = manual_entry_key (''##'' @ s)"
    by (simp add: manual_entry_key_def safe_channel_name_def)
  have low: "to_lowercase (''##'' @ s) = ''##'' @ s" "to_lowercase (''#hash_'' @ s) = ''#hash_'' @ s"
    using assms(1) by (simp_all add: to_lowercase_def lower_char_def)
  have has: "hm_has (c_entries (s_config st1)) (manual_entry_key (''##'' @ s))"
    by (rule set_manual_success [OF assms(2)]) (simp add: low [simplified])
  obtain r st2 where r: "set_manual_channel_key L n2 secret (''#hash_'' @ s) k2 False st1 = (r, st2)" by force
  have "r \<noteq> Inr ()"
  proof
    assume "r = Inr ()"
    from set_manual_success [OF r [unfolded this]] obtain e st3 where
      "encrypt_channel_key_for_storage L n2 secret k2 (''#hash_'' @ s) st1 = (Inr e, st3)"
      "\<not> hm_has (c_entries (s_config st3)) (manual_entry_key (''#hash_'' @ s))"
      by (metis low(2))
    then show False using has same encrypt_storage_entries by metis
  qed
  then show ?thesis using r by (cases r) auto
qed

lemma manual_entry_collision_witness:
  "\<exists>st1. set_manual_channel_key ref_lib (replicate 24 5) (replicate 32 9) ''##a'' (replicate 32 7) True sample_store = (Inr (), st1) \<and>
     \<not> is_ok (fst (set_manual_channel_key ref_lib (replicate 24 6) (replicate 32 9) ''#hash_a'' (replicate 32 8) False st1))"
proof -
  have n: "is_chan_prefixed (to_lowercase ''##a'')" "\<not> bad_chan_char (to_lowercase ''##a'')" "to_lowercase ''a'' = ''a''"
    by code_simp+
  obtain st1 where "set_manual_channel_key ref_lib (replicate 24 5) (replicate 32 9) ''##a'' (replicate 32 7) True sample_store = (Inr (), st1)"
    using sample_manual_set [OF n(1,2)] by auto
  then show ?thesis using manual_entry_collision [OF n(3), of ref_lib "replicate 24 5" "replicate 32 9"] by auto
qed

end
