(* ===== verification/Buffers.thy ===== *)
theory Buffers
  imports Errors
begin

text \<open>
  The mIRC result buffer (\<open>fish_11_dll/src/buffer_utils.rs\<close>) and the answer an
  error writes into it (\<open>unified_error.rs\<close>).  The caller's memory is the list of
  the bytes at \<open>data\<close>, \<open>None\<close> for a null pointer; a \<open>CString\<close> is its bytes without
  the terminating NUL.  Writing past the list would be undefined behaviour in the
  source; its safety contract is the hypothesis \<open>buffer_size \<le> length buf\<close>.
\<close>

definition MIRC_DLL_RESULT_PAYLOAD_CAP :: nat where
  "MIRC_DLL_RESULT_PAYLOAD_CAP = 900"

definition MIRC_HALT :: int where "MIRC_HALT = 0"
definition MIRC_COMMAND :: int where "MIRC_COMMAND = 2"
definition MIRC_IDENTIFIER :: int where "MIRC_IDENTIFIER = 3"

definition cstring_new :: "string \<Rightarrow> bytes option" where
  "cstring_new s = (if 0 \<in> set (as_bytes s) then None else Some (as_bytes s))"

definition read_cstr :: "bytes \<Rightarrow> bytes" where
  "read_cstr buf = takeWhile (\<lambda>b. b \<noteq> 0) buf"

definition write_cstring_to_buffer ::
  "bytes option \<Rightarrow> nat \<Rightarrow> bytes \<Rightarrow> (string, unit) result \<times> bytes option" where
  "write_cstring_to_buffer data buffer_size message =
     (case data of
        None \<Rightarrow> (Inl ''null data pointer'', None)
      | Some buf \<Rightarrow>
          if buffer_size = 0 then (Inl ''zero buffer size'', Some buf)
          else
            (let bs = message @ [0];
                 copy_len = min (length bs) buffer_size;
                 safe_len = min copy_len MIRC_DLL_RESULT_PAYLOAD_CAP;
                 cleared = replicate safe_len 0 @ drop safe_len buf;
                 copied = take safe_len bs @ drop safe_len cleared;
                 terminated = (if safe_len > 0 then copied[safe_len - 1 := 0] else copied)
             in (Inr (), Some terminated)))"

definition parse_buffer_input :: "bytes option \<Rightarrow> (string, string) result" where
  "parse_buffer_input data =
     (case data of
        None \<Rightarrow> Inl ''null data pointer''
      | Some buf \<Rightarrow>
          (case from_utf8 (read_cstr buf) of
             None \<Rightarrow> Inl ''invalid UTF-8 input''
           | Some c_str \<Rightarrow>
               (let trimmed = trim c_str in
                if trimmed = [] then Inl ''empty input'' else Inr trimmed)))"

definition write_result :: "nat \<Rightarrow> bytes option \<Rightarrow> string \<Rightarrow> int \<times> bytes option" where
  "write_result buffer_size data res =
     (let cstring = (case cstring_new res of Some s \<Rightarrow> s | None \<Rightarrow> []) in
      (MIRC_IDENTIFIER, snd (write_cstring_to_buffer data buffer_size cstring)))"

definition write_error_message :: "nat \<Rightarrow> bytes option \<Rightarrow> string \<Rightarrow> int \<times> bytes option" where
  "write_error_message buffer_size data message =
     (let cstring = (case cstring_new (''Error: '' @ message) of
                       Some s \<Rightarrow> s | None \<Rightarrow> as_bytes ''Error occurred'') in
      (MIRC_IDENTIFIER, snd (write_cstring_to_buffer data buffer_size cstring)))"

definition write_string_to_buffer ::
  "bytes option \<Rightarrow> nat \<Rightarrow> string \<Rightarrow> (BufferError, unit) result \<times> bytes option" where
  "write_string_to_buffer data buffer_size message =
     (case cstring_new message of
        None \<Rightarrow> (Inl BE_EncodingError, data)
      | Some c \<Rightarrow> (let (r, d) = write_cstring_to_buffer data buffer_size c in
                  (map_err (\<lambda>_. BE_InvalidBufferSize) r, d)))"

definition create_error_message :: "string \<Rightarrow> string \<Rightarrow> bytes" where
  "create_error_message message fallback =
     (case cstring_new message of Some s \<Rightarrow> s | None \<Rightarrow> as_bytes fallback)"

datatype EchoStyle = Echo_Normal | Echo_Timestamp | Echo_Error

fun create_echo_command :: "string \<Rightarrow> EchoStyle \<Rightarrow> string" where
  "create_echo_command message Echo_Normal = message"
| "create_echo_command message Echo_Timestamp = message"
| "create_echo_command message Echo_Error = ''Error: '' @ message"

definition write_echo_command_to_buffer ::
  "bytes option \<Rightarrow> nat \<Rightarrow> string \<Rightarrow> EchoStyle \<Rightarrow> (BufferError, unit) result \<times> bytes option" where
  "write_echo_command_to_buffer data buffer_size message style =
     write_string_to_buffer data buffer_size (create_echo_command message style)"

definition write_error_to_buffer :: "bytes option \<Rightarrow> nat \<Rightarrow> string \<Rightarrow> string option \<Rightarrow> bytes option" where
  "write_error_to_buffer data buffer_size error_msg trace_id =
     (let formatted_msg = (case trace_id of
            Some i \<Rightarrow> ''Error ['' @ i @ '']: '' @ error_msg
          | None \<Rightarrow> ''Error: '' @ error_msg);
          error_cstring = create_error_message formatted_msg ''Internal error occurred''
      in case write_cstring_to_buffer data buffer_size error_cstring of
           (Inl _, d) \<Rightarrow> snd (write_cstring_to_buffer d buffer_size (as_bytes ''Error''))
         | (Inr _, d) \<Rightarrow> d)"

text \<open>\<open>buf_size\<close> is what \<open>get_buffer_size()\<close> reports.\<close>

definition to_mirc_response :: "nat \<Rightarrow> DllError \<Rightarrow> bytes option \<Rightarrow> int \<times> bytes option" where
  "to_mirc_response buf_size err data =
     (if is_null_pointer err then (MIRC_HALT, data)
      else if data = None then (MIRC_HALT, data)
      else
        case expired_nick err of
          Some nickname \<Rightarrow>
            (MIRC_COMMAND,
             (case cstring_new (''KEY_EXPIRED '' @ nickname) of
                Some c \<Rightarrow> snd (write_cstring_to_buffer data buf_size c)
              | None \<Rightarrow> data))
        | None \<Rightarrow>
            (let written = (case cstring_new (dll_display err) of
                   Some c \<Rightarrow> snd (write_cstring_to_buffer data buf_size c)
                 | None \<Rightarrow> snd (write_cstring_to_buffer data buf_size
                               (as_bytes ''Error: message contains null byte'')))
             in (if halts_mirc err then MIRC_HALT else MIRC_COMMAND, written)))"

section \<open>Facts\<close>

lemma length_write_cstring:
  "buffer_size \<le> length buf \<Longrightarrow>
   snd (write_cstring_to_buffer (Some buf) buffer_size m) = Some buf' \<Longrightarrow> length buf' = length buf"
  by (auto simp: write_cstring_to_buffer_def Let_def MIRC_DLL_RESULT_PAYLOAD_CAP_def split: if_splits)

lemma takeWhile_nul:
  "0 \<notin> set xs \<Longrightarrow> takeWhile (\<lambda>b. b \<noteq> (0 :: u8)) (xs @ 0 # ys) = xs"
  by (subst takeWhile_append2) auto

lemma take_snoc_update:
  assumes "0 < n" "n \<le> Suc (length m)"
  shows "(take n (m @ [z]) @ r)[n - 1 := z] = take (n - 1) m @ z # r"
proof -
  obtain k where k: "n = Suc k" using assms by (cases n) auto
  then have "k \<le> length m" using assms by simp
  then show ?thesis
    unfolding k by (cases "k = length m")
      (auto simp: take_Suc_conv_app_nth list_update_append)
qed

lemma write_cstring_shape:
  assumes "0 < buffer_size" "buffer_size \<le> length buf"
  shows "write_cstring_to_buffer (Some buf) buffer_size m =
    (Inr (), Some (take (min (min (length m + 1) buffer_size) 900 - 1) m @ 0 #
                   drop (min (min (length m + 1) buffer_size) 900) buf))"
proof -
  define n where "n = min (min (length m + 1) buffer_size) 900"
  have n: "0 < n" "n \<le> Suc (length m)" using assms by (auto simp: n_def)
  have "drop n (replicate n 0 @ drop n buf) = drop n buf" by simp
  then show ?thesis
    using assms n take_snoc_update [OF n, of 0 "drop n buf"]
    by (simp add: write_cstring_to_buffer_def Let_def MIRC_DLL_RESULT_PAYLOAD_CAP_def
        n_def [symmetric, simplified])
qed

text \<open>a result written to the caller's buffer is NUL-terminated within
  \<open>min buffer_size 900\<close> bytes, reads back as the message cut to what fits, and
  leaves every byte after the written span and the buffer's length untouched.\<close>

theorem write_cstring_bounds:
  assumes "0 < buffer_size" "buffer_size \<le> length buf" "0 \<notin> set m"
  shows "\<exists>buf'. write_cstring_to_buffer (Some buf) buffer_size m = (Inr (), Some buf') \<and>
    length buf' = length buf \<and>
    read_cstr buf' = take (min buffer_size 900 - 1) m \<and>
    length (read_cstr buf') < min buffer_size 900 \<and>
    drop (min buffer_size 900) buf' = drop (min buffer_size 900) buf"
proof -
  define n where "n = min (min (length m + 1) buffer_size) 900"
  define b where "b = take (n - 1) m @ 0 # drop n buf"
  have n: "0 < n" "n \<le> Suc (length m)" "n \<le> length buf" "n \<le> min buffer_size 900"
    using assms by (auto simp: n_def)
  have w: "write_cstring_to_buffer (Some buf) buffer_size m = (Inr (), Some b)"
    using write_cstring_shape [OF assms(1,2), of m] by (simp add: b_def n_def)
  have cut: "take (n - 1) m = take (min buffer_size 900 - 1) m"
  proof (cases "n - 1 = min buffer_size 900 - 1")
    case False
    then have "length m \<le> n - 1" "length m \<le> min buffer_size 900 - 1" by (auto simp: n_def)
    then show ?thesis by simp
  qed simp
  have len: "length b = length buf"
    using n by (simp add: b_def)
  have rd: "read_cstr b = take (n - 1) m"
    unfolding read_cstr_def b_def
    by (rule takeWhile_nul) (use assms(3) in \<open>auto dest: in_set_takeD\<close>)
  have pre: "length (take (n - 1) m @ [0]) = n"
    using n by simp
  have "drop (min buffer_size 900) b = drop (min buffer_size 900 - n) (drop n b)"
    using n by simp
  also have "drop n b = drop n buf"
    unfolding b_def using pre by (metis append_Cons append_Nil append_assoc append_eq_conv_conj)
  finally have tail: "drop (min buffer_size 900) b = drop (min buffer_size 900) buf"
    using n by simp
  show ?thesis
    using w len rd cut tail n by auto
qed

lemma write_cstring_bounds_witness:
  "\<exists>buf'. write_cstring_to_buffer (Some [7, 7, 7, 9]) 3 [65, 66, 67] = (Inr (), Some buf') \<and>
    length buf' = 4 \<and> read_cstr buf' = [65, 66] \<and> drop 3 buf' = [9]"
  using write_cstring_bounds [of 3 "[7, 7, 7, 9]" "[65, 66, 67]"] by auto

end
