(* ===== verification/Handlers.thy ===== *)
theory Handlers
  imports ChannelKeys Buffers
begin

text \<open>
  The exported functions of \<open>dll_interface/\<close> and \<open>channel_encryption/\<close> that work on
  keys and messages.  Each takes the text its caller passed, as the macro
  \<open>dll_function_identifier!\<close> hands it over after \<open>parse_buffer_input\<close>, and gives a
  \<open>DllResult<String>\<close> with the store; \<open>dll_identifier\<close> models the macro itself.  Random
  nonces and keys are arguments.  \<open>None\<close> is a call that never returns because it
  waits for the \<open>CONFIG\<close> lock its own thread holds.
\<close>

text \<open>The macro: the input pointer is \<open>parms\<close> unless it is null or empty and \<open>outbuf\<close>
  is not; the body's text or error goes to \<open>outbuf\<close>.\<close>

definition c_non_empty :: "bytes option \<Rightarrow> bool" where
  "c_non_empty p = (case p of None \<Rightarrow> False | Some b \<Rightarrow> read_cstr b \<noteq> [])"

definition dll_identifier ::
  "nat \<Rightarrow> (string \<Rightarrow> 's \<Rightarrow> (DllError, string) result \<times> 's) \<Rightarrow> bytes option \<Rightarrow> bytes option \<Rightarrow> 's
   \<Rightarrow> (int \<times> bytes option) \<times> 's" where
  "dll_identifier buf_size body parms outbuf st =
     (let input_ptr = (if c_non_empty parms then parms else if c_non_empty outbuf then outbuf else parms);
          (r, st') = (case parse_buffer_input input_ptr of
                        Inl e \<Rightarrow> (Inl (dll_of_str e), st)
                      | Inr input \<Rightarrow> body input st)
      in case r of
           Inl e \<Rightarrow> (to_mirc_response buf_size e outbuf, st')
         | Inr text \<Rightarrow>
             (case cstring_new text of
                None \<Rightarrow> (to_mirc_response buf_size (NulByte ''nul byte found in provided data'') outbuf, st')
              | Some c \<Rightarrow> ((MIRC_IDENTIFIER, snd (write_cstring_to_buffer outbuf buf_size c)), st')))"

section \<open>Encryption and decryption of messages\<close>

definition FiSH11_EncryptMsg ::
  "ext_lib \<Rightarrow> bytes \<Rightarrow> string \<Rightarrow> store \<Rightarrow> (DllError, string) result \<times> store" where
  "FiSH11_EncryptMsg L nonce input st =
     (case parse_input input of
        Inl e \<Rightarrow> (Inl e, st)
      | Inr parsed \<Rightarrow>
          (let target = pi_target parsed; message = pi_message parsed;
               private = (\<lambda>st0.
                 (case normalize_private_target target of
                    Inl e \<Rightarrow> (Inl e, st0)
                  | Inr nickname \<Rightarrow>
                      (case get_private_key L nickname st0 of
                         (Inl e, st1) \<Rightarrow> (Inl e, st1)
                       | (Inr key, st1) \<Rightarrow>
                           (case encrypt_message L nonce key message None st1 of
                              (Inl e, st2) \<Rightarrow>
                                (Inl (EncryptionFailed (''encrypting for '' @ nickname) (fish_display e)), st2)
                            | (Inr encrypted_base64, st2) \<Rightarrow>
                                (Inr (''+FiSH '' @ encrypted_base64), increment_encryption_counter st2)))))
           in if is_chan_prefixed target then
                (case get_channel_key_with_fallback L target st of
                   (Inr key, st1) \<Rightarrow>
                     (case encrypt_message L nonce key message (Some (as_bytes target)) st1 of
                        (Inl e, st2) \<Rightarrow>
                          (Inl (EncryptionFailed (''encrypting for channel '' @ target) (fish_display e)), st2)
                      | (Inr encrypted_b64, st2) \<Rightarrow>
                          (Inr (''+FiSH '' @ encrypted_b64), increment_encryption_counter st2))
                 | (Inl _, st1) \<Rightarrow> private st1)
              else private st))"

text \<open>The loop over the previous keys, newest first.\<close>

fun try_previous_keys ::
  "ext_lib \<Rightarrow> string \<Rightarrow> bytes \<Rightarrow> bytes list \<Rightarrow> store \<Rightarrow> string option option" where
  "try_previous_keys L encrypted ad [] st = Some None"
| "try_previous_keys L encrypted ad (old_key # ks) st =
     (case decrypt_message True L old_key encrypted (Some ad) st of
        None \<Rightarrow> None
      | Some (Inr plaintext, _) \<Rightarrow> Some (Some plaintext)
      | Some (Inl _, _) \<Rightarrow> try_previous_keys L encrypted ad ks st)"

text \<open>The closure run under the lock of \<open>with_ratchet_state_mut\<close>.\<close>

definition ratchet_action ::
  "ext_lib \<Rightarrow> string \<Rightarrow> string \<Rightarrow> bytes \<Rightarrow> store \<Rightarrow> RatchetState
   \<Rightarrow> ((DllError, string option) result \<times> RatchetState) option" where
  "ratchet_action L target encrypted nonce st state =
     (case decrypt_message True L (current_key state) encrypted (Some (as_bytes target)) st of
        None \<Rightarrow> None
      | Some (Inr plaintext, _) \<Rightarrow>
          (case advance_ratchet_key L (current_key state) nonce target of
             Inl e \<Rightarrow> Some (Inl (dll_of_fish e), state)
           | Inr next_key \<Rightarrow> Some (Inr (Some plaintext), ratchet_advance next_key state))
      | Some (Inl _, _) \<Rightarrow>
          map_option (\<lambda>r. (Inr r, state))
            (try_previous_keys L encrypted (as_bytes target) (rev (previous_keys state)) st))"

definition decrypt_with_ratchet ::
  "ext_lib \<Rightarrow> string \<Rightarrow> string \<Rightarrow> store \<Rightarrow> ((DllError, string) result \<times> store) option" where
  "decrypt_with_ratchet L target encrypted st =
     (case base64_decode L encrypted of
        Inl e \<Rightarrow> Some (Inl (dll_of_fish e), st)
      | Inr encrypted_bytes \<Rightarrow>
          if length encrypted_bytes < 24 then
            Some (Inl (DecryptionFailed ''payload validation'' ''Encrypted payload too short to contain a nonce''), st)
          else
            (let nonce = take 24 encrypted_bytes in
             if check_nonce target nonce st then Some (Inl (ReplayAttackDetected target), st)
             else
               (case with_ratchet_state_mut target (ratchet_action L target encrypted nonce st) st of
                  None \<Rightarrow> None
                | Some (Inl e, st1) \<Rightarrow> Some (Inl e, st1)
                | Some (Inr (Some plaintext), st1) \<Rightarrow>
                    (case add_nonce target nonce st1 of
                       (Inl e, st2) \<Rightarrow> Some (Inl (dll_of_fish e), st2)
                     | (Inr _, st2) \<Rightarrow> Some (Inr plaintext, increment_decryption_counter st2))
                | Some (Inr None, st1) \<Rightarrow>
                    Some (Inl (DecryptionFailed (''decrypting for channel '' @ target)
                                ''Invalid key or corrupted data (ratchet exhausted)''), st1))))"

definition FiSH11_DecryptMsg ::
  "ext_lib \<Rightarrow> string \<Rightarrow> store \<Rightarrow> ((DllError, string) result \<times> store) option" where
  "FiSH11_DecryptMsg L input st =
     (case parse_input input of
        Inl e \<Rightarrow> Some (Inl e, st)
      | Inr parsed \<Rightarrow>
          (let target = pi_target parsed;
               trimmed = trim (pi_message parsed);
               encrypted = (case strip_prefix ''+FiSH '' trimmed of Some s \<Rightarrow> s | None \<Rightarrow> trimmed)
           in if is_chan_prefixed target then
                (let (has, st1) = has_channel_key L target st in
                 if has then
                   (case get_channel_key_with_fallback L target st1 of
                      (Inl e, st2) \<Rightarrow> Some (Inl e, st2)
                    | (Inr key, st2) \<Rightarrow>
                        (case decrypt_unlocked L key encrypted (Some (as_bytes target)) st2 of
                           (Inl e, st3) \<Rightarrow>
                             Some (Inl (DecryptionFailed
                               (''decrypting for channel '' @ target @ '' with manual key'') (fish_display e)), st3)
                         | (Inr decrypted, st3) \<Rightarrow> Some (Inr decrypted, st3)))
                 else decrypt_with_ratchet L target encrypted st1)
              else
                (case normalize_private_target target of
                   Inl e \<Rightarrow> Some (Inl e, st)
                 | Inr nickname \<Rightarrow>
                     (case get_private_key L nickname st of
                        (Inl e, st1) \<Rightarrow> Some (Inl e, st1)
                      | (Inr key, st1) \<Rightarrow>
                          (case decrypt_unlocked L key encrypted None st1 of
                             (Inl e, st2) \<Rightarrow>
                               Some (Inl (DecryptionFailed (''decrypting for '' @ nickname) (fish_display e)), st2)
                           | (Inr decrypted, st2) \<Rightarrow> Some (Inr decrypted, increment_decryption_counter st2))))))"

section \<open>Distribution of channel keys\<close>

text \<open>The loop over the members; \<open>nonces i\<close> is the \<open>i\<close>-th nonce drawn.\<close>

fun wrap_for_members ::
  "ext_lib \<Rightarrow> (nat \<Rightarrow> bytes) \<Rightarrow> bytes \<Rightarrow> string \<Rightarrow> string \<Rightarrow> store \<Rightarrow> string list \<Rightarrow> string list \<Rightarrow> string list
   \<Rightarrow> (DllError, string list \<times> string list) result" where
  "wrap_for_members L nonces channel_key channel_name self_nick st [] commands failed = Inr (commands, failed)"
| "wrap_for_members L nonces channel_key channel_name self_nick st (m # ms) commands failed =
     (if m = self_nick then wrap_for_members L nonces channel_key channel_name self_nick st ms commands failed
      else
        (case get_key L m None st of
           Inl _ \<Rightarrow> wrap_for_members L nonces channel_key channel_name self_nick st ms commands (failed @ [m])
         | Inr shared_key \<Rightarrow>
             if length shared_key \<noteq> 32 then Inl (ConfigErr (''Invalid key length for member '' @ m))
             else
               (case wrap_key L (nonces (length commands)) channel_key shared_key of
                  Inl e \<Rightarrow> Inl (dll_of_fish e)
                | Inr wrapped_key \<Rightarrow>
                    wrap_for_members L nonces channel_key channel_name self_nick st ms
                      (commands @ [''/notice '' @ m @ '' :+FiSH-CEP-KEY '' @ channel_name @ '' '' @
                                   self_nick @ '' '' @ wrapped_key]) failed)))"

definition FiSH11_InitChannelKey ::
  "ext_lib \<Rightarrow> bytes \<Rightarrow> (nat \<Rightarrow> bytes) \<Rightarrow> string \<Rightarrow> store \<Rightarrow> (DllError, string) result \<times> store" where
  "FiSH11_InitChannelKey L channel_key nonces input st =
     (case split_whitespace input of
        channel_name # m0 # ms \<Rightarrow>
          (let self_nick = with_config (\<lambda>c. f_nickname (c_fish11 c)) st in
           if self_nick = [] then
             (Inl (ConfigErr ''Nickname not set in configuration. Please set your nickname in the FiSH11 configuration.''), st)
           else
             (case set_channel_key channel_name channel_key st of
                (Inl e, st1) \<Rightarrow> (Inl (dll_of_fish e), st1)
              | (Inr _, st1) \<Rightarrow>
                  (case init_ratchet_state channel_name channel_key st1 of
                     (Inl e, st2) \<Rightarrow> (Inl (dll_of_fish e), st2)
                   | (Inr _, st2) \<Rightarrow>
                       (case wrap_for_members L nonces channel_key channel_name self_nick st2 (m0 # ms) [] [] of
                          Inl e \<Rightarrow> (Inl e, st2)
                        | Inr (commands, failed_members) \<Rightarrow>
                            if failed_members \<noteq> [] then
                              (Inl (ConfigErr (''Missing pre-shared keys for: '' @ join '', '' failed_members @
                                 ''. Please establish keys with these users first using /fish11_X25519_INIT'')), st2)
                            else if commands = [] then
                              (Inl (InvalidInput ''members''
                                 ''No valid recipients (all members either lack pre-shared keys or are yourself)''), st2)
                            else
                              (Inr (join '' | '' (commands @
                                 [''[KEY] Channel key for '' @ channel_name @ '' generated and distributed to '' @
                                  show_nat (length commands) @ '' member(s)''])), st2)))))
      | _ \<Rightarrow> (Inl (InvalidInput ''input'' ''Usage: <#channel> <nick1> [nick2] ...''), st))"

definition FiSH11_ProcessChannelKey ::
  "ext_lib \<Rightarrow> string \<Rightarrow> store \<Rightarrow> (DllError, string) result \<times> store" where
  "FiSH11_ProcessChannelKey L input st =
     (case splitn_char 4 (CHR '' '') input of
        [channel_name, coordinator_nick, actual_sender, b64_wrapped_key] \<Rightarrow>
          if coordinator_nick \<noteq> actual_sender then
            (Inl (InvalidInput ''sender''
              (''SECURITY: +FiSH-CEP-KEY sender mismatch - claims to be '' @ quoted coordinator_nick @
               '' but actually from '' @ quoted actual_sender @ '' (REJECTED)'')), st)
          else
            (case get_key L coordinator_nick None st of
               Inl e \<Rightarrow> (Inl (dll_of_fish e), st)
             | Inr shared_key \<Rightarrow>
                 if length shared_key \<noteq> 32 then
                   (Inl (ConfigErr (''Invalid key length for coordinator '' @ coordinator_nick)), st)
                 else
                   (let wrapped_key_only = (if starts_with ''+FiSH '' b64_wrapped_key
                                            then drop 6 b64_wrapped_key else b64_wrapped_key)
                    in case unwrap_key L wrapped_key_only shared_key of
                         Inl e \<Rightarrow> (Inl (dll_of_fish e), st)
                       | Inr channel_key \<Rightarrow>
                           (case set_channel_key channel_name channel_key st of
                              (Inl e, st1) \<Rightarrow> (Inl (dll_of_fish e), st1)
                            | (Inr _, st1) \<Rightarrow>
                                (case init_ratchet_state channel_name channel_key st1 of
                                   (Inl e, st2) \<Rightarrow> (Inl (dll_of_fish e), st2)
                                 | (Inr _, st2) \<Rightarrow>
                                     (Inr (''Channel key for '' @ channel_name @
                                           '' successfully received from '' @ coordinator_nick), st2)))))
      | _ \<Rightarrow> (Inl (InvalidInput ''input''
              ''Usage: <#channel> <coordinator_nick> <actual_sender_nick> <base64_wrapped_key>''), st))"

section \<open>Keys set, shown and removed by the user\<close>

definition FiSH11_SetKey :: "ext_lib \<Rightarrow> string \<Rightarrow> store \<Rightarrow> (DllError, string) result \<times> store" where
  "FiSH11_SetKey L input st =
     (case splitn_char 3 (CHR '' '') input of
        [network, target_raw, key_part] \<Rightarrow>
          (let base64_key = trim key_part;
               nickname = normalize_nick (normalize_target target_raw)
           in if network = [] then (Inl (MissingParameter ''network''), st)
              else if nickname = [] then (Inl (MissingParameter ''nickname''), st)
              else if base64_key = [] then (Inl (MissingParameter ''base64_key''), st)
              else
                (case b64_dec L base64_key of
                   Inl e \<Rightarrow> (Inl (Base64DecodeFailed ''decoding nickname key'' e), st)
                 | Inr key_bytes \<Rightarrow>
                     if length key_bytes \<noteq> 32 then (Inl (InvalidKeySize 32 (length key_bytes)), st)
                     else
                       (case set_key L nickname key_bytes (Some network) True False st of
                          (Inl e, st1) \<Rightarrow> (Inl (dll_of_fish e), st1)
                        | (Inr _, st1) \<Rightarrow> (Inr ''1'', st1))))
      | _ \<Rightarrow> (Inl (InvalidInput ''input''
              ''expected format: <network> <target> <base64_key> (target = nickname or channel)''), st))"

definition FiSH11_SetKeyFromPlaintext :: "ext_lib \<Rightarrow> string \<Rightarrow> store \<Rightarrow> (DllError, string) result \<times> store" where
  "FiSH11_SetKeyFromPlaintext L input st =
     (let parts = splitn_char 3 (CHR '' '') input;
          parsed = (case parts of
              [a, b, c] \<Rightarrow> Some (Some a, b, c)
            | [a, b] \<Rightarrow> Some (None, a, b)
            | _ \<Rightarrow> None)
      in case parsed of
           None \<Rightarrow> (Inl (InvalidInput ''input'' ''expected format: [<network>] <target> <plaintext_key>''), st)
         | Some (network, target_raw, plaintext_key) \<Rightarrow>
             (let nickname = normalize_nick (normalize_target target_raw) in
              if nickname = [] then (Inl (MissingParameter ''nickname''), st)
              else if plaintext_key = [] then (Inl (MissingParameter ''plaintext_key''), st)
              else if length plaintext_key < 8 then
                (Inl (InvalidInput ''plaintext_key'' ''plaintext key must be at least 8 characters''), st)
              else
                (let salt = (case network of Some n \<Rightarrow> n | None \<Rightarrow> ''default'') @ '':'' @ nickname in
                 case hkdf L (as_bytes salt) (as_bytes plaintext_key) [] 32 of
                   None \<Rightarrow> (Inl KeyDerivationFailed, st)
                 | Some derived_key \<Rightarrow>
                     (case set_key L nickname derived_key network True False st of
                        (Inl e, st1) \<Rightarrow> (Inl (dll_of_fish e), st1)
                      | (Inr _, st1) \<Rightarrow> (Inr ''1'', st1)))))"

definition FiSH11_SetManualChannelKey ::
  "ext_lib \<Rightarrow> bytes \<Rightarrow> bytes \<Rightarrow> string \<Rightarrow> store \<Rightarrow> (DllError, string) result \<times> store" where
  "FiSH11_SetManualChannelKey L nonce secret input st =
     (case splitn_char 2 (CHR '' '') input of
        [channel_name, key_b64] \<Rightarrow>
          if \<not> is_chan_prefixed channel_name then
            (Inl (InvalidInput ''channel'' ''Channel name must start with # or &''), st)
          else
            (case base64_decode L key_b64 of
               Inl e \<Rightarrow> (Inl (InvalidInput ''key'' (''Invalid base64 format: '' @ fish_display e)), st)
             | Inr key_bytes \<Rightarrow>
                 if length key_bytes \<noteq> 32 then
                   (Inl (InvalidInput ''key'' (''Key must be 32 bytes, got '' @
                      show_nat (length key_bytes) @ '' bytes'')), st)
                 else
                   (case set_manual_channel_key L nonce secret channel_name key_bytes True st of
                      (Inl e, st1) \<Rightarrow> (Inl e, st1)
                    | (Inr _, st1) \<Rightarrow> (Inr (''Manual channel key set for '' @ channel_name), st1)))
      | _ \<Rightarrow> (Inl (InvalidInput ''input'' ''Usage: <#channel> <base64_encoded_key>. Key must be a cryptographically strong 32-byte key, not a password.''), st))"

definition FiSH11_SetManualChannelKeyFromPassword ::
  "ext_lib \<Rightarrow> bytes \<Rightarrow> bytes \<Rightarrow> string \<Rightarrow> store \<Rightarrow> (DllError, string) result \<times> store" where
  "FiSH11_SetManualChannelKeyFromPassword L nonce secret input st =
     (case splitn_char 2 (CHR '' '') input of
        [channel_name, key_material] \<Rightarrow>
          if \<not> is_chan_prefixed channel_name then
            (Inl (InvalidInput ''channel'' ''Channel name must start with # or &''), st)
          else
            (case derive_key_from_password L key_material of
               Inl e \<Rightarrow> (Inl e, st)
             | Inr derived_key \<Rightarrow>
                 (case set_manual_channel_key L nonce secret channel_name derived_key True st of
                    (Inl e, st1) \<Rightarrow> (Inl e, st1)
                  | (Inr _, st1) \<Rightarrow> (Inr (''Manual channel key set for '' @ channel_name), st1)))
      | _ \<Rightarrow> (Inl (InvalidInput ''input'' ''Usage: <#channel> <key_of_any_length>''), st))"

definition FiSH11_HasManualChannelKey :: "ext_lib \<Rightarrow> string \<Rightarrow> store \<Rightarrow> (DllError, string) result \<times> store" where
  "FiSH11_HasManualChannelKey L channel_name st =
     (if \<not> is_chan_prefixed channel_name then
        (Inl (InvalidInput ''channel'' ''Channel name must start with # or &''), st)
      else (let (r, st') = get_manual_channel_key L channel_name st
            in (Inr (if is_ok r then ''1'' else ''0''), st')))"

definition FiSH11_FileGetKey :: "ext_lib \<Rightarrow> string \<Rightarrow> store \<Rightarrow> (DllError, string) result \<times> store" where
  "FiSH11_FileGetKey L input st =
     (let target = normalize_nick (normalize_target (trim input)) in
      if target = [] then (Inl (MissingParameter ''target''), st)
      else if is_chan_prefixed target then
        (case get_channel_key_with_fallback L target st of
           (Inl e, st1) \<Rightarrow> (Inl e, st1)
         | (Inr key, st1) \<Rightarrow> (Inr (base64_encode L key), st1))
      else
        (case get_key_default L target st of
           Inl e \<Rightarrow> (Inl (dll_of_fish e), st)
         | Inr key \<Rightarrow> (Inr (base64_encode L key), st)))"

definition FiSH11_FileDelKey :: "string \<Rightarrow> store \<Rightarrow> (DllError, string) result \<times> store" where
  "FiSH11_FileDelKey input st =
     (let (network, nickname_raw) = (case splitn_char 2 (CHR '' '') (trim input) of
             [a, b] \<Rightarrow> (a, b)
           | a # _ \<Rightarrow> (''default'', a)
           | [] \<Rightarrow> (''default'', []));
          nickname = normalize_nick (normalize_target nickname_raw)
      in if nickname = [] then (Inl (MissingParameter ''nickname''), st)
         else
           (case delete_key nickname (Some network) st of
              (Inl e, st1) \<Rightarrow> (Inl (dll_of_fish e), st1)
            | (Inr _, st1) \<Rightarrow> (Inr (''Key deleted for '' @ nickname), st1)))"

text \<open>A space before every fourth character but the first.\<close>

fun group_of_4 :: "nat \<Rightarrow> string \<Rightarrow> string" where
  "group_of_4 i [] = []"
| "group_of_4 i (c # s) =
     (if i > 0 \<and> i mod 4 = 0 then [CHR '' '', c] else [c]) @ group_of_4 (Suc i) s"

definition FiSH11_GetKeyFingerprint :: "ext_lib \<Rightarrow> string \<Rightarrow> store \<Rightarrow> (DllError, string) result \<times> store" where
  "FiSH11_GetKeyFingerprint L input st =
     (let nickname = normalize_nick (trim input) in
      if nickname = [] then (Inl (MissingParameter ''nickname''), st)
      else
        (case get_key_default L nickname st of
           Inl e \<Rightarrow> (Inl (dll_of_fish e), st)
         | Inr key \<Rightarrow>
             (Inr (''Key fingerprint for '' @ nickname @ '': '' @
                   group_of_4 0 (b64_enc L (take 16 (sha256 L key)))), st)))"

definition looks_like_token :: "string \<Rightarrow> bool" where
  "looks_like_token s =
     (starts_with X25519_PREFIX s \<or>
      (length s = 44 \<and> list_all (\<lambda>c. is_ascii_alpha c \<or> is_ascii_digit c \<or> c = CHR ''+'' \<or> c = CHR ''/'' \<or> c = CHR ''='') s))"

definition FiSH11_ProcessPublicKey ::
  "ext_lib \<Rightarrow> bytes \<Rightarrow> string \<Rightarrow> store \<Rightarrow> (DllError, string) result \<times> store" where
  "FiSH11_ProcessPublicKey L secret input0 st =
     (let parts = split_whitespace (trim input0) in
      if length parts < 2 then
        (Inl (InvalidInput ''input''
          ''expected format: <nickname> <received_key> or <received_key> <nickname>''), st)
      else
        (let (nickname_raw, key_raw) =
               (if looks_like_token (hd parts) then (parts ! 1, hd parts)
                else if looks_like_token (last parts) then (hd parts, last parts)
                else (hd parts, join '' '' (tl parts)));
             nickname = normalize_nick nickname_raw;
             received = trim key_raw
         in if nickname = [] then (Inl (MissingParameter ''nickname''), st)
            else if received = [] then (Inl (MissingParameter ''received_key''), st)
            else
              (case extract_public_key L received of
                 Inl e \<Rightarrow> (Inl (KeyInvalid (''invalid public key format: '' @ fish_display e)), st)
               | Inr their_public_key \<Rightarrow>
                   (case validate_public_key their_public_key of
                      Inl e \<Rightarrow> (Inl (KeyInvalid (''public key rejected: '' @ fish_display e)), st)
                    | Inr _ \<Rightarrow>
                        (case get_keypair L secret st of
                           (Inl _, st1) \<Rightarrow>
                             (Inl (KeyNotFound ''local keypair (generate one first with FiSH11_ExchangeKey)''), st1)
                         | (Inr keypair, st1) \<Rightarrow>
                             (case compute_shared_secret L (kp_private keypair) their_public_key of
                                Inl e \<Rightarrow> (Inl (KeyExchangeFailed
                                           (''failed to compute shared secret: '' @ fish_display e)), st1)
                              | Inr shared_secret \<Rightarrow>
                                  (let (store_result, st2) =
                                     (case set_key L nickname shared_secret None False True st1 of
                                        (Inr _, s) \<Rightarrow> (Inr (), s)
                                      | (Inl e, s) \<Rightarrow>
                                          (case e of
                                             FE_DuplicateEntry _ \<Rightarrow> set_key L nickname shared_secret None True True s
                                           | _ \<Rightarrow> (Inl e, s)))
                                   in case store_result of
                                        Inr _ \<Rightarrow> (Inr ''1'', st2)
                                      | Inl e \<Rightarrow>
                                          (case e of
                                             FE_DuplicateEntry nick \<Rightarrow>
                                               (Inl (KeyInvalid (''key for '' @ nick @
                                                  '' already exists and couldn'' @ [CHR 0x27] @ ''t be updated'')), st2)
                                           | _ \<Rightarrow> (Inl (ConfigMalformed (''error storing key: '' @ fish_display e)), st2)))))))))"

definition FiSH11_GetRatchetState :: "string \<Rightarrow> store \<Rightarrow> (DllError, string) result" where
  "FiSH11_GetRatchetState input st =
     (case split_whitespace input of
        [] \<Rightarrow> Inl (InvalidInput ''channel'' ''Channel name is required'')
      | channel # _ \<Rightarrow>
          (let channel_name = to_lowercase channel;
               ratchet_info = (case hm_get (c_ratchets (s_config st)) channel_name of
                   Some state \<Rightarrow> ''Ratchet state for '' @ quoted channel_name @ '': epoch='' @
                     show_nat (epoch state) @ '', key_length='' @ show_nat (length (current_key state))
                 | None \<Rightarrow> ''No ratchet state found for channel '' @ quoted channel_name);
               nonce_cache_info = (case hm_get (c_nonces (s_config st)) channel_name of
                   Some cache \<Rightarrow> ''Nonce cache: '' @ show_nat (length (recent_nonces cache)) @ '' entries''
                 | None \<Rightarrow> ''No nonce cache found'')
           in Inr (ratchet_info @ '' | '' @ nonce_cache_info)))"

end
