(* ===== verification/HandlerFacts.thy ===== *)
theory HandlerFacts
  imports Handlers
begin

text \<open>
  Properties of the exported functions: end-to-end encryption on a channel, the
  distribution of channel keys, and the reach of the ratchet and of the replay
  check.
\<close>

section \<open>Parsing of the arguments\<close>

lemma splitn_2: "splitn_char 2 c s = (case split_once [c] s of None \<Rightarrow> [s] | Some (a, b) \<Rightarrow> [a, b])"
  by (simp add: numeral_2_eq_2 split: option.split)

lemma splitn_4: "splitn_char 4 c s =
  (case split_once [c] s of None \<Rightarrow> [s] | Some (a, b) \<Rightarrow> a #
    (case split_once [c] b of None \<Rightarrow> [b] | Some (a', b') \<Rightarrow> a' #
      (case split_once [c] b' of None \<Rightarrow> [b'] | Some (a2, b2) \<Rightarrow> [a2, b2])))"
  by (simp add: numeral_eq_Suc split: option.split)

lemma parse_input_parts:
  "CHR '' '' \<notin> set t \<Longrightarrow> normalize_target t = t \<Longrightarrow> t \<noteq> [] \<Longrightarrow> m \<noteq> [] \<Longrightarrow>
   parse_input (t @ CHR '' '' # m) = Inr \<lparr>pi_target = t, pi_message = m\<rparr>"
  by (simp add: parse_input_def splitn_2 split_once_char)

lemma trim_fish: "b64_law L \<Longrightarrow> trim (''+FiSH '' @ base64_encode L bs) = ''+FiSH '' @ base64_encode L bs \<or> bs = []"
proof (cases "base64_encode L bs" rule: rev_cases)
  case Nil
  assume b: "b64_law L"
  then have "bs = []" using Nil b64_length [OF b, of bs] by (cases bs) (auto simp: base64_encode_def)
  then show ?thesis by simp
next
  case (snoc t c)
  assume b: "b64_law L"
  then have "graphic c" using b64_graphic [OF b, of bs] snoc by (simp add: base64_encode_def)
  then have "ws_len_rev (rev (''+FiSH '' @ base64_encode L bs)) = 0"
    by (simp add: snoc ws_len_rev_graphic)
  moreover have "ws_len (''+FiSH '' @ base64_encode L bs) = 0"
    by (simp add: graphic_not_ws graphic_def)
  ultimately have "trim (''+FiSH '' @ base64_encode L bs) = ''+FiSH '' @ base64_encode L bs"
    by (intro trim_id)
  then show ?thesis by blast
qed

section \<open>Which key a channel uses\<close>

definition no_manual :: "store \<Rightarrow> string \<Rightarrow> bool" where
  "no_manual st ch \<longleftrightarrow> hm_get (c_entries (s_config st)) (manual_entry_key (to_lowercase ch)) = None"

lemma no_manual_get: "no_manual st ch \<Longrightarrow> \<exists>e. get_manual_channel_key L ch st = (Inl e, st)"
  by (auto simp: no_manual_def get_manual_channel_key_def with_config_def Let_def)

lemma channel_key_used:
  "no_manual st ch \<Longrightarrow> get_channel_key_with_fallback L ch st = (map_err dll_of_fish (get_channel_key ch st), st)"
  using no_manual_get [of st ch L] by (auto simp: get_channel_key_with_fallback_def)

lemma has_channel_key_used: "no_manual st ch \<Longrightarrow> has_channel_key L ch st = (is_ok (get_channel_key ch st), st)"
  using no_manual_get [of st ch L] by (auto simp: has_channel_key_def)

lemma channel_message_core:
  assumes "lib_ok L" "length nonce = 24" "utf8_valid (as_bytes m)" "m \<noteq> []" "length m \<le> 4096"
    "CHR '' '' \<notin> set ch" "normalize_target ch = ch" "is_chan_prefixed ch"
    "get_channel_key ch stA = Inr key" "no_manual stA ch"
    "get_channel_key ch stB = Inr key" "no_manual stB ch"
  shows "\<exists>c stA' stB'. FiSH11_EncryptMsg L nonce (ch @ CHR '' '' # m) stA = (Inr (''+FiSH '' @ c), stA') \<and>
    FiSH11_DecryptMsg L (ch @ CHR '' '' # ''+FiSH '' @ c) stB = Some (Inr m, stB')"
proof -
  have ne: "ch \<noteq> []" using assms(8) by (auto simp: is_chan_prefixed_def starts_with_def)
  have k: "length key = 32"
    using assms(9) by (auto simp: get_channel_key_def with_config_def Let_def split: if_splits option.splits)
  obtain c where c: "encrypt_message L nonce key m (Some (as_bytes ch)) stA = (Inr c, increment_encryption_counter stA)"
    "\<And>st1. decrypt_message False L key c (Some (as_bytes ch)) st1 = Some (Inr m, increment_decryption_counter st1)"
    using encrypt_then_decrypt [OF assms(1) k assms(2,4,5,3), of "Some (as_bytes ch)" stA] by auto
  obtain ct where ct: "c = base64_encode L (nonce @ ct)"
    using encrypt_message_Inr [OF c(1)] by blast
  have "nonce @ ct \<noteq> []" using assms(2) by auto
  then have t: "trim (''+FiSH '' @ c) = ''+FiSH '' @ c"
    using trim_fish [OF aead_law_ok(2) [OF assms(1)], of "nonce @ ct"] unfolding ct by blast
  have s: "strip_prefix ''+FiSH '' (''+FiSH '' @ c) = Some c" by (rule strip_prefix_append)
  have "FiSH11_EncryptMsg L nonce (ch @ CHR '' '' # m) stA = (Inr (''+FiSH '' @ c),
      increment_encryption_counter (increment_encryption_counter stA))"
    using assms c(1) by (simp add: FiSH11_EncryptMsg_def parse_input_parts [OF assms(6,7) ne assms(4)]
        channel_key_used Let_def)
  moreover have "FiSH11_DecryptMsg L (ch @ CHR '' '' # ''+FiSH '' @ c) stB = Some (Inr m, increment_decryption_counter stB)"
    using assms c(2) parse_input_parts [OF assms(6,7) ne, of "''+FiSH '' @ c"] t s
    by (simp add: FiSH11_DecryptMsg_def channel_key_used has_channel_key_used decrypt_unlocked_Some Let_def)
  ultimately show ?thesis by blast
qed

text \<open>C3: a channel message encrypted by one member is read by every other member that
  has the same channel key, for any text of 1 to 4096 bytes.\<close>

theorem channel_message_end_to_end:
  assumes "lib_ok L" "length nonce = 24" "utf8_valid (as_bytes m)" "m \<noteq> []" "length m \<le> 4096"
    "CHR '' '' \<notin> set ch" "normalize_target ch = ch" "is_chan_prefixed ch"
    "get_channel_key ch stA = Inr key" "no_manual stA ch"
    "get_channel_key ch stB = Inr key" "no_manual stB ch"
  shows "\<exists>c stA' stB'. FiSH11_EncryptMsg L nonce (ch @ CHR '' '' # m) stA = (Inr (''+FiSH '' @ c), stA') \<and>
    FiSH11_DecryptMsg L (ch @ CHR '' '' # ''+FiSH '' @ c) stB = Some (Inr m, stB')"
  using assms by (rule channel_message_core)

definition chan_store :: store where
  "chan_store = snd (set_channel_key ''#fish'' (replicate 32 7) sample_store)"

lemma chan_store_facts:
  "get_channel_key ''#fish'' chan_store = Inr (replicate 32 7)" "no_manual chan_store ''#fish''"
  "c_ratchets (s_config chan_store) = []"
proof -
  have ok: "chan_name_ok ''#fish''" "is_chan_prefixed (to_lowercase ''#fish'')" by code_simp+
  have st: "chan_store = persist ((mark_dirty (s_config sample_store))\<lparr>c_channel_keys :=
        hm_insert (to_lowercase ''#fish'') (replicate 32 7) (c_channel_keys (s_config sample_store))\<rparr>) sample_store"
    by (simp add: chan_store_def set_channel_key_ok [OF ok(1)])
  show "get_channel_key ''#fish'' chan_store = Inr (replicate 32 7)"
    using ok(2) by (simp add: st get_channel_key_def with_config_def Let_def)
  show "no_manual chan_store ''#fish''" "c_ratchets (s_config chan_store) = []"
    by (simp_all add: st no_manual_def sample_store_facts)
qed

lemma fish_target: "CHR '' '' \<notin> set ''#fish''" "normalize_target ''#fish'' = ''#fish''" "is_chan_prefixed ''#fish''"
  "utf8_valid (as_bytes ''hello'')"
proof -
  show "CHR '' '' \<notin> set ''#fish''" "is_chan_prefixed ''#fish''" by code_simp+
  show "normalize_target ''#fish'' = ''#fish''" by code_simp
  show "utf8_valid (as_bytes ''hello'')" by (rule utf8_valid_ascii) code_simp
qed

lemma channel_message_end_to_end_witness:
  "\<exists>c stA' stB'. FiSH11_EncryptMsg ref_lib (replicate 24 5) ''#fish hello'' chan_store = (Inr (''+FiSH '' @ c), stA') \<and>
    FiSH11_DecryptMsg ref_lib (''#fish +FiSH '' @ c) chan_store = Some (Inr ''hello'', stB')"
  using channel_message_end_to_end [of ref_lib "replicate 24 5" "''hello''" "''#fish''" chan_store "replicate 32 7" chan_store]
  by (simp add: chan_store_facts fish_target)

lemma sample_channel_message:
  "\<exists>c stB'. FiSH11_DecryptMsg ref_lib (''#fish +FiSH '' @ c) chan_store = Some (Inr ''hello'', stB')"
  using channel_message_core [of ref_lib "replicate 24 5" "''hello''" "''#fish''" chan_store "replicate 32 7" chan_store]
  by (auto simp: chan_store_facts fish_target)

section \<open>Replay and the ratchet\<close>

lemma get_manual_cong:
  assumes "same_but_metrics st st'"
  shows "fst (get_manual_channel_key L ch st') = fst (get_manual_channel_key L ch st)"
proof -
  have cfg: "c_entries (s_config st') = c_entries (s_config st)" "s_clock st' = s_clock st"
    and kp: "derive_master_storage_key_internal L now (s_config st') = derive_master_storage_key_internal L now (s_config st)" for now
    using same_but_metrics_fields [OF assms] get_keypair_internal_cong [of "s_config st'" "s_config st" L now]
    by (simp_all add: derive_master_storage_key_internal_def)
  have dec: "fst (decrypt_channel_key_from_storage L e n k st') = fst (decrypt_channel_key_from_storage L e n k st)" for e n k
    by (auto simp: decrypt_channel_key_from_storage_def decrypt_unlocked_def decrypt_message_def Let_def
        split: sum.splits option.splits)
  show ?thesis
    using dec by (auto simp: get_manual_channel_key_def with_config_def cfg kp Let_def split: sum.splits option.splits prod.splits)
      (metis fst_conv)+
qed

lemma fallback_cong:
  assumes "same_but_metrics st st'"
  shows "fst (get_channel_key_with_fallback L ch st') = fst (get_channel_key_with_fallback L ch st)"
    "fst (has_channel_key L ch st') = fst (has_channel_key L ch st)"
proof -
  obtain r s r' s' where g: "get_manual_channel_key L ch st = (r, s)" "get_manual_channel_key L ch st' = (r', s')"
    by force
  have r: "r' = r" using get_manual_cong [OF assms, of L ch] g by simp
  have "same_but_metrics st s" "same_but_metrics st s'"
    using get_manual_same [OF g(1)] get_manual_same [OF g(2)] same_but_metrics_trans [OF assms] by blast+
  then have "get_channel_key ch s = get_channel_key ch s'"
    using get_channel_key_cong by metis
  then show "fst (get_channel_key_with_fallback L ch st') = fst (get_channel_key_with_fallback L ch st)"
    "fst (has_channel_key L ch st') = fst (has_channel_key L ch st)"
    by (auto simp: get_channel_key_with_fallback_def has_channel_key_def g r split: sum.splits)
qed

lemma fallback_same:
  "get_channel_key_with_fallback L ch st = (r, st') \<Longrightarrow> same_but_metrics st st'"
  "has_channel_key L ch st = (b, st') \<Longrightarrow> same_but_metrics st st'"
  by (auto simp: get_channel_key_with_fallback_def has_channel_key_def split: sum.splits prod.splits
      dest: get_manual_same)

lemma decrypt_unlocked_any: "fst (decrypt_unlocked L k d ad st') = fst (decrypt_unlocked L k d ad st)"
  by (auto simp: decrypt_unlocked_def decrypt_message_def Let_def split: sum.splits option.splits)

definition message_of :: "string \<Rightarrow> string" where
  "message_of m = (case strip_prefix ''+FiSH '' (trim m) of Some s \<Rightarrow> s | None \<Rightarrow> trim m)"

text \<open>The answer of \<open>DecryptMsg\<close> on a channel that has a key.\<close>

definition fixed_answer :: "ext_lib \<Rightarrow> string \<Rightarrow> string \<Rightarrow> store \<Rightarrow> (DllError, string) result" where
  "fixed_answer L target msg st =
     (case fst (get_channel_key_with_fallback L target st) of
        Inl e \<Rightarrow> Inl e
      | Inr key \<Rightarrow>
          map_err (\<lambda>e. DecryptionFailed (''decrypting for channel '' @ target @ '' with manual key'') (fish_display e))
            (fst (decrypt_unlocked L key (message_of msg) (Some (as_bytes target)) st)))"

lemma decrypt_fixed:
  assumes "parse_input input = Inr p" "is_chan_prefixed (pi_target p)" "fst (has_channel_key L (pi_target p) st)"
  shows "\<exists>st'. FiSH11_DecryptMsg L input st = Some (fixed_answer L (pi_target p) (pi_message p) st, st') \<and>
    same_but_metrics st st'"
proof -
  obtain st1 where h: "has_channel_key L (pi_target p) st = (True, st1)"
    using assms(3) by (cases "has_channel_key L (pi_target p) st") auto
  obtain r st2 where g: "get_channel_key_with_fallback L (pi_target p) st1 = (r, st2)" by force
  have s1: "same_but_metrics st st1" and s12: "same_but_metrics st1 st2"
    using fallback_same(2) [OF h] fallback_same(1) [OF g] by blast+
  then have s2: "same_but_metrics st st2" using same_but_metrics_trans by blast
  have r: "r = fst (get_channel_key_with_fallback L (pi_target p) st)"
    using fallback_cong(1) [OF s1, of L "pi_target p"] g by simp
  show ?thesis
  proof (cases r)
    case (Inl e)
    then show ?thesis using assms h g s2 r [symmetric]
      by (simp add: FiSH11_DecryptMsg_def fixed_answer_def message_of_def Let_def)
  next
    case (Inr key)
    obtain d st3 where d: "decrypt_unlocked L key (message_of (pi_message p)) (Some (as_bytes (pi_target p))) st2 = (d, st3)"
      by force
    have "fst (decrypt_unlocked L key (message_of (pi_message p)) (Some (as_bytes (pi_target p))) st) = d"
      using decrypt_unlocked_any d by (metis fst_conv)
    moreover have "same_but_metrics st st3"
      using decrypt_unlocked_same [OF d] s2 same_but_metrics_trans by blast
    ultimately show ?thesis using assms h g r [symmetric] Inr d
      by (cases d) (auto simp: FiSH11_DecryptMsg_def fixed_answer_def message_of_def [symmetric] Let_def)
  qed
qed

text \<open>C30: on a channel that has a key, decryption keeps no memory of what it decrypted:
  a message that was accepted once is accepted again, any number of times, with the
  same text.  The nonce cache and the ratchet are neither read nor written.\<close>

theorem channel_replay_accepted:
  assumes "parse_input input = Inr p" "is_chan_prefixed (pi_target p)"
    "fst (has_channel_key L (pi_target p) st)" "FiSH11_DecryptMsg L input st = Some (Inr m, st1)"
  shows "\<exists>st2. FiSH11_DecryptMsg L input st1 = Some (Inr m, st2) \<and>
    c_nonces (s_config st2) = c_nonces (s_config st) \<and> c_ratchets (s_config st2) = c_ratchets (s_config st)"
proof -
  obtain st' where d: "FiSH11_DecryptMsg L input st = Some (fixed_answer L (pi_target p) (pi_message p) st, st')"
    "same_but_metrics st st'"
    using decrypt_fixed [OF assms(1-3)] by blast
  then have s: "st' = st1" "fixed_answer L (pi_target p) (pi_message p) st = Inr m" using assms(4) by auto
  have same: "same_but_metrics st st1" using d s by simp
  have has1: "fst (has_channel_key L (pi_target p) st1)"
    using fallback_cong(2) [OF same] assms(3) by simp
  have "fixed_answer L (pi_target p) (pi_message p) st1 = fixed_answer L (pi_target p) (pi_message p) st"
    unfolding fixed_answer_def fallback_cong(1) [OF same]
    by (simp add: decrypt_unlocked_any [of L _ _ _ st1 st] split: sum.splits)
  then obtain st2 where "FiSH11_DecryptMsg L input st1 = Some (Inr m, st2)" "same_but_metrics st1 st2"
    using decrypt_fixed [OF assms(1,2) has1] s(2) by auto
  then show ?thesis using same_but_metrics_fields(5,6) [OF same] same_but_metrics_fields(5,6) by metis
qed

lemma channel_replay_accepted_witness:
  "\<exists>c st1 st2. FiSH11_DecryptMsg ref_lib (''#fish +FiSH '' @ c) chan_store = Some (Inr ''hello'', st1) \<and>
     FiSH11_DecryptMsg ref_lib (''#fish +FiSH '' @ c) st1 = Some (Inr ''hello'', st2)"
proof -
  obtain c st1 where c: "FiSH11_DecryptMsg ref_lib (''#fish +FiSH '' @ c) chan_store = Some (Inr ''hello'', st1)"
    using sample_channel_message by blast
  have p: "parse_input (''#fish +FiSH '' @ c) = Inr \<lparr>pi_target = ''#fish'', pi_message = ''+FiSH '' @ c\<rparr>"
    using parse_input_parts [OF fish_target(1,2), of "''+FiSH '' @ c"] by simp
  have "fst (has_channel_key ref_lib ''#fish'' chan_store)"
    by (simp add: has_channel_key_used chan_store_facts)
  then show ?thesis
    using channel_replay_accepted [OF p _ _ c] fish_target(3) c by auto
qed

text \<open>where only a ratchet is known, a message whose nonce is cached is refused as a
  replay and nothing changes; one that authenticates under the current key makes the
  call block for ever on the \<open>CONFIG\<close> lock, as its counter is bumped under that lock.\<close>

theorem ratchet_branch:
  assumes "base64_decode L e = Inr data" "24 < length data" "length data \<le> 4136"
  shows "(check_nonce ch (take 24 data) st \<longrightarrow>
            decrypt_with_ratchet L ch e st = Some (Inl (ReplayAttackDetected ch), st)) \<and>
    (\<not> check_nonce ch (take 24 data) st \<longrightarrow>
       hm_get (c_ratchets (s_config st)) (to_lowercase ch) = Some rs \<longrightarrow>
       xopen L (current_key rs) (take 24 data) (as_bytes ch) (drop 24 data) = Some m \<longrightarrow>
       decrypt_with_ratchet L ch e st = None)"
proof (intro conjI impI)
  assume "check_nonce ch (take 24 data) st"
  then show "decrypt_with_ratchet L ch e st = Some (Inl (ReplayAttackDetected ch), st)"
    using assms by (simp add: decrypt_with_ratchet_def)
next
  assume n: "\<not> check_nonce ch (take 24 data) st"
    and r: "hm_get (c_ratchets (s_config st)) (to_lowercase ch) = Some rs"
    and x: "xopen L (current_key rs) (take 24 data) (as_bytes ch) (drop 24 data) = Some m"
  have "decrypt_message True L (current_key rs) e (Some (as_bytes ch)) st = None"
    using assms x by (simp add: decrypt_message_def MAX_CIPHERTEXT_SIZE_def MAX_MESSAGE_SIZE_def
        NONCE_SIZE_BYTES_def aad_of_def)
  then show "decrypt_with_ratchet L ch e st = None"
    using assms n r by (simp add: decrypt_with_ratchet_def with_ratchet_state_mut_def ratchet_action_def)
qed

lemma ratchet_branch_witness:
  "\<exists>st. decrypt_with_ratchet ref_lib ''#fish'' (base64_encode ref_lib (replicate 24 5 @ [65] @ replicate 8 7 @ replicate 7 5 @ [sum_list (as_bytes ''#fish'')])) st = None"
proof -
  define d :: bytes where "d = replicate 24 5 @ [65] @ replicate 8 7 @ replicate 7 5 @ [sum_list (as_bytes ''#fish'')]"
  define st where "st = snd (init_ratchet_state ''#fish'' (replicate 32 7) sample_store)"
  have low: "to_lowercase ''#fish'' = ''#fish''" by code_simp
  have st: "st = persist ((mark_dirty (s_config sample_store))\<lparr>c_ratchets := [(''#fish'', ratchet_new (replicate 32 7))]\<rparr>) sample_store"
    unfolding st_def init_ratchet_state_def Let_def
    by (subst with_config_mut_persist [of _ sample_store "Inr ()"])
      (auto simp: low sample_store_facts)
  have "\<not> check_nonce ''#fish'' (take 24 d) st"
    by (simp add: check_nonce_def with_config_def st sample_store_def fish_config_new_def)
  moreover have "hm_get (c_ratchets (s_config st)) (to_lowercase ''#fish'') = Some (ratchet_new (replicate 32 7))"
    by (simp add: st low)
  moreover have "xopen ref_lib (current_key (ratchet_new (replicate 32 7))) (take 24 d) (as_bytes ''#fish'') (drop 24 d) = Some [65]"
    by (simp add: d_def ref_simps ref_tag_def ratchet_new_def)
  ultimately show ?thesis
    using ratchet_branch [of ref_lib "base64_encode ref_lib d" d "''#fish''" st "ratchet_new (replicate 32 7)" "[65]"]
    by (intro exI [of _ st]) (simp add: d_def)
qed

end
