(* ===== verification/Settings.thy ===== *)
theory Settings
  imports Store
begin

text \<open>
  The user's settings (\<open>config/settings.rs\<close>).  The clock of \<open>update_startup_time\<close> is an
  argument.  Reading the settings never fails: the only error of \<open>with_config\<close> is a
  poisoned lock.
\<close>

definition get_fish11_config :: "store \<Rightarrow> Fish11Section" where
  "get_fish11_config = with_config c_fish11"

definition update_fish11_config :: "Fish11Section \<Rightarrow> store \<Rightarrow> (FishError, unit) result \<times> store" where
  "update_fish11_config section = with_config_mut (\<lambda>c. (Inr (), c\<lparr>c_fish11 := section\<rparr>))"

definition should_encrypt_message :: "bool \<Rightarrow> bool \<Rightarrow> store \<Rightarrow> bool" where
  "should_encrypt_message is_notice is_action = with_config (\<lambda>c.
     if is_notice \<and> \<not> f_encrypt_notice (c_fish11 c) then False
     else if is_action \<and> \<not> f_encrypt_action (c_fish11 c) then False
     else True)"

definition should_process_outgoing :: "store \<Rightarrow> bool" where
  "should_process_outgoing = with_config (\<lambda>c. f_process_outgoing (c_fish11 c))"

definition should_process_incoming :: "store \<Rightarrow> bool" where
  "should_process_incoming = with_config (\<lambda>c. f_process_incoming (c_fish11 c))"

definition get_plain_prefix :: "store \<Rightarrow> string" where
  "get_plain_prefix = with_config (\<lambda>c. f_plain_prefix (c_fish11 c))"

definition get_encryption_mark :: "store \<Rightarrow> u8 \<times> string" where
  "get_encryption_mark = with_config (\<lambda>c. (f_mark_position (c_fish11 c), f_mark_encrypted (c_fish11 c)))"

definition get_encryption_prefix :: "store \<Rightarrow> string" where
  "get_encryption_prefix = with_config (\<lambda>c.
     if f_fish_prefix (c_fish11 c) then ''+FiSH '' else f_encryption_prefix (c_fish11 c))"

definition is_fish10_legacy_disabled :: "store \<Rightarrow> bool" where
  "is_fish10_legacy_disabled = with_config (\<lambda>c. f_no_fish10_legacy (c_fish11 c))"

definition get_startup_time :: "store \<Rightarrow> (FishError, nat) result" where
  "get_startup_time = with_config (\<lambda>c. ok_or (FE_ConfigError ''No startup timestamp found'') (c_startup_date c))"

definition update_startup_time :: "nat \<Rightarrow> store \<Rightarrow> (FishError, unit) result \<times> store" where
  "update_startup_time now = with_config_mut (\<lambda>c. (Inr (), c\<lparr>c_startup_date := Some now\<rparr>))"

lemma encryption_prefix_same: "same_but_metrics a b \<Longrightarrow> get_encryption_prefix b = get_encryption_prefix a"
  by (simp add: get_encryption_prefix_def with_config_def same_but_metrics_fields)

end
