(* ===== verification/Blowfish.thy ===== *)
theory Blowfish
  imports ExtLib Errors
begin

text \<open>
  \<open>crypto/blowfish.rs\<close>: the base64 of FiSH 10 on 32-bit words and the ECB and CBC
  modes over the Blowfish block cipher, which is the parameter \<open>bf_enc\<close> /
  \<open>bf_dec\<close>; the crate accepts keys of 4 to 56 bytes.
\<close>

unbundle bit_operations_syntax

section \<open>The base64 of FiSH 10\<close>

definition FISH10_B64_ABC :: string where
  "FISH10_B64_ABC = ''./0123456789abcdefghijklmnopqrstuvwxyzABCDEFGHIJKLMNOPQRSTUVWXYZ''"

text \<open>\<open>iter().position\<close>.\<close>

fun position :: "char \<Rightarrow> string \<Rightarrow> nat option" where
  "position c [] = None"
| "position c (x # xs) = (if x = c then Some 0 else map_option Suc (position c xs))"

definition be32 :: "u8 \<Rightarrow> u8 \<Rightarrow> u8 \<Rightarrow> u8 \<Rightarrow> u32" where
  "be32 a b c d = push_bit 24 (ucast a) OR push_bit 16 (ucast b) OR push_bit 8 (ucast c) OR ucast d"

definition to_be_bytes :: "u32 \<Rightarrow> bytes" where
  "to_be_bytes w = [ucast (drop_bit 24 w), ucast (drop_bit 16 w), ucast (drop_bit 8 w), ucast w]"

text \<open>The loop that pushes \<open>n\<close> characters, the low six bits first.\<close>

fun push_six :: "nat \<Rightarrow> u32 \<Rightarrow> string" where
  "push_six 0 w = []"
| "push_six (Suc n) w = FISH10_B64_ABC ! unat (w AND 0x3F) # push_six n (drop_bit 6 w)"

fun encode_blocks :: "bytes \<Rightarrow> string" where
  "encode_blocks (a # b # c # d # e # f # g # h # rest) =
     push_six 6 (be32 e f g h) @ push_six 6 (be32 a b c d) @ encode_blocks rest"
| "encode_blocks _ = []"

definition fish10_b64_encode :: "bytes \<Rightarrow> (DllError, string) result" where
  "fish10_b64_encode data =
     (if length data mod 8 \<noteq> 0 then
        Inl (LegacyError ''FiSH 10 Encoding''
          (''Data length must be multiple of 8 (got '' @ show_nat (length data) @ '')''))
      else Inr (encode_blocks data))"

text \<open>Six characters into a word: the \<open>j\<close>-th is shifted by \<open>6 * j\<close> bits, the bits
  beyond 32 are lost.\<close>

fun read_six :: "nat \<Rightarrow> string \<Rightarrow> u32 \<Rightarrow> u32 option" where
  "read_six j [] w = Some w"
| "read_six j (c # s) w =
     (case position c FISH10_B64_ABC of
        None \<Rightarrow> None
      | Some val \<Rightarrow> read_six (Suc j) s (w OR push_bit (j * 6) (of_nat val)))"

definition bad_b64 :: DllError where
  "bad_b64 = LegacyError ''FiSH 10 Decoding'' ''Invalid character in base64''"

function decode_blocks :: "string \<Rightarrow> (DllError, bytes) result" where
  "decode_blocks s =
     (if s = [] then Inr []
      else case read_six 0 (take 6 s) 0 of
             None \<Rightarrow> Inl bad_b64
           | Some right \<Rightarrow>
               (case read_six 0 (take 6 (drop 6 s)) 0 of
                  None \<Rightarrow> Inl bad_b64
                | Some left \<Rightarrow>
                    (case decode_blocks (drop 12 s) of
                       Inl e \<Rightarrow> Inl e
                     | Inr rest \<Rightarrow> Inr (to_be_bytes left @ to_be_bytes right @ rest))))"
  by pat_completeness auto
termination by (relation "measure length") auto

declare decode_blocks.simps [simp del]

definition fish10_b64_decode :: "string \<Rightarrow> (DllError, bytes) result" where
  "fish10_b64_decode s =
     (if length s mod 12 \<noteq> 0 then
        Inl (LegacyError ''FiSH 10 Decoding''
          (''Invalid base64 length: '' @ show_nat (length s) @ '' (must be multiple of 12)''))
      else decode_blocks s)"

section \<open>The two modes\<close>

definition bf_key_ok :: "bytes \<Rightarrow> bool" where
  "bf_key_ok key = (4 \<le> length key \<and> length key \<le> 56)"

definition bf_init_error :: DllError where
  "bf_init_error = LegacyError ''Blowfish init'' ''Invalid key: Invalid Length''"

definition pad8 :: "bytes \<Rightarrow> bytes" where
  "pad8 bs = bs @ replicate ((8 - length bs mod 8) mod 8) 0"

definition strip_nuls :: "bytes \<Rightarrow> bytes" where
  "strip_nuls bs = rev (dropWhile (\<lambda>x. x = 0) (rev bs))"

text \<open>\<open>chunks_exact(8)\<close>, one block at a time.\<close>

fun ecb :: "(u32 \<times> u32 \<Rightarrow> u32 \<times> u32) \<Rightarrow> bytes \<Rightarrow> bytes" where
  "ecb f (a # b # c # d # e # g # h # i # rest) =
     (let (l, r) = f (be32 a b c d, be32 e g h i) in to_be_bytes l @ to_be_bytes r @ ecb f rest)"
| "ecb f _ = []"

definition bf_encrypt_message :: "ext_lib \<Rightarrow> bytes \<Rightarrow> string \<Rightarrow> (DllError, string) result" where
  "bf_encrypt_message L key plaintext =
     (if \<not> bf_key_ok key then Inl bf_init_error
      else fish10_b64_encode (ecb (bf_enc L key) (pad8 (as_bytes plaintext))))"

definition utf8_or_lossy :: "bytes \<Rightarrow> string" where
  "utf8_or_lossy bs = (case from_utf8 bs of Some s \<Rightarrow> s | None \<Rightarrow> from_utf8_lossy bs)"

definition bf_decrypt_message :: "ext_lib \<Rightarrow> bytes \<Rightarrow> string \<Rightarrow> (DllError, string) result" where
  "bf_decrypt_message L key ciphertext_b64 =
     (if \<not> bf_key_ok key then Inl bf_init_error
      else
        (case fish10_b64_decode ciphertext_b64 of
           Inl e \<Rightarrow> Inl e
         | Inr ciphertext \<Rightarrow> Inr (utf8_or_lossy (strip_nuls (ecb (bf_dec L key) ciphertext)))))"

definition cbc_iv :: "bytes \<Rightarrow> u32 \<times> u32" where
  "cbc_iv key =
     (let k = (if length key \<ge> 8 then take 8 key else key @ replicate (8 - length key) 0)
      in (be32 (k ! 0) (k ! 1) (k ! 2) (k ! 3), be32 (k ! 4) (k ! 5) (k ! 6) (k ! 7)))"

definition xor_block :: "u32 \<times> u32 \<Rightarrow> u32 \<times> u32 \<Rightarrow> u32 \<times> u32" where
  "xor_block p q = (fst p XOR fst q, snd p XOR snd q)"

fun cbc_enc :: "(u32 \<times> u32 \<Rightarrow> u32 \<times> u32) \<Rightarrow> u32 \<times> u32 \<Rightarrow> bytes \<Rightarrow> bytes" where
  "cbc_enc f prev (a # b # c # d # e # g # h # i # rest) =
     (let out = f (xor_block (be32 a b c d, be32 e g h i) prev)
      in to_be_bytes (fst out) @ to_be_bytes (snd out) @ cbc_enc f out rest)"
| "cbc_enc f prev _ = []"

fun cbc_dec :: "(u32 \<times> u32 \<Rightarrow> u32 \<times> u32) \<Rightarrow> u32 \<times> u32 \<Rightarrow> bytes \<Rightarrow> bytes" where
  "cbc_dec f prev (a # b # c # d # e # g # h # i # rest) =
     (let original = (be32 a b c d, be32 e g h i);
          out = xor_block (f original) prev
      in to_be_bytes (fst out) @ to_be_bytes (snd out) @ cbc_dec f original rest)"
| "cbc_dec f prev _ = []"

definition bf_encrypt_message_cbc :: "ext_lib \<Rightarrow> bytes \<Rightarrow> string \<Rightarrow> (DllError, string) result" where
  "bf_encrypt_message_cbc L key plaintext =
     (if \<not> bf_key_ok key then Inl bf_init_error
      else fish10_b64_encode (cbc_enc (bf_enc L key) (cbc_iv key) (pad8 (as_bytes plaintext))))"

definition bf_decrypt_message_cbc :: "ext_lib \<Rightarrow> bytes \<Rightarrow> string \<Rightarrow> (DllError, string) result" where
  "bf_decrypt_message_cbc L key ciphertext_b64 =
     (case fish10_b64_decode ciphertext_b64 of
        Inl e \<Rightarrow> Inl e
      | Inr ciphertext \<Rightarrow>
          if \<not> bf_key_ok key then Inl bf_init_error
          else Inr (utf8_or_lossy (strip_nuls (cbc_dec (bf_dec L key) (cbc_iv key) ciphertext))))"

section \<open>Facts\<close>

lemma be32_bytes [simp]:
  "ucast (drop_bit 24 (be32 a b c d)) = a" "ucast (drop_bit 16 (be32 a b c d)) = b"
  "ucast (drop_bit 8 (be32 a b c d)) = c" "ucast (be32 a b c d) = d"
  by (rule bit_word_eqI, auto simp: be32_def bit_simps dest: bit_imp_le_length)+

lemma to_be_bytes_be32 [simp]: "to_be_bytes (be32 a b c d) = [a, b, c, d]"
  by (simp add: to_be_bytes_def)

lemma be32_to_bytes [simp]: "be32 (ucast (drop_bit 24 w)) (ucast (drop_bit 16 w)) (ucast (drop_bit 8 w)) (ucast w) = (w :: u32)"
proof (rule bit_word_eqI)
  fix n assume "n < LENGTH(32)"
  then consider "n < 8" | "8 \<le> n" "n < 16" | "16 \<le> n" "n < 24" | "24 \<le> n" "n < 32" by fastforce
  then show "bit (be32 (ucast (drop_bit 24 w)) (ucast (drop_bit 16 w)) (ucast (drop_bit 8 w)) (ucast w)) n = bit w n"
    by cases (auto simp: be32_def bit_simps)
qed

lemma position_abc: "i < 64 \<Longrightarrow> position (FISH10_B64_ABC ! i) FISH10_B64_ABC = Some i"
proof -
  have "list_all (\<lambda>i. position (FISH10_B64_ABC ! i) FISH10_B64_ABC = Some i) [0..<64]"
    by code_simp
  then show "i < 64 \<Longrightarrow> ?thesis" by (auto simp: list_all_iff)
qed

text \<open>The digit read at position \<open>j\<close> contributes the bits \<open>6 * j\<close> to \<open>6 * j + 5\<close>.\<close>

lemma read_six_push:
  "read_six j (push_six n w) acc = Some (acc OR push_bit (6 * j) (take_bit (6 * n) w))"
proof (induction n arbitrary: j w acc)
  case 0
  then show ?case by simp
next
  case (Suc n)
  have lt: "unat (w AND 0x3F) < 64"
    using word_and_le1 [of w "0x3F"] by (simp add: word_le_nat_alt)
  have m: "w AND 0x3F = take_bit 6 w" by (simp add: take_bit_eq_mask mask_eq_exp_minus_1)
  have "push_bit (j * 6) (w AND 0x3F) OR push_bit (6 * Suc j) (take_bit (6 * n) (drop_bit 6 w)) =
      push_bit (6 * j) (take_bit (6 * Suc n) w)"
    unfolding m
  proof (rule bit_word_eqI)
    fix i assume "i < LENGTH(32)"
    show "bit (push_bit (j * 6) (take_bit 6 w) OR push_bit (6 * Suc j) (take_bit (6 * n) (drop_bit 6 w))) i =
        bit (push_bit (6 * j) (take_bit (6 * Suc n) w)) i"
    proof (cases "i < 6 * Suc j")
      case True
      then show ?thesis by (auto simp: bit_simps mult.commute)
    next
      case False
      then have e: "6 + (i - 6 * Suc j) = i - 6 * j" "\<not> i - 6 * j < 6" by simp_all
      then show ?thesis using False by (auto simp: bit_simps mult.commute)
    qed
  qed
  then show ?case using Suc [of "Suc j" "drop_bit 6 w"] lt
    by (simp add: position_abc or.assoc)
qed

lemma length_push_six [simp]: "length (push_six n w) = n"
  by (induction n arbitrary: w) auto

lemma read_push [simp]: "read_six 0 (push_six 6 w) 0 = Some w"
  by (simp add: read_six_push take_bit_word_eq_self)

lemma decode_encode_blocks: "length bs mod 8 = 0 \<Longrightarrow> decode_blocks (encode_blocks bs) = Inr bs"
proof (induction bs rule: encode_blocks.induct)
  case (1 a b c d e f g h rest)
  have "push_six 6 (be32 e f g h) \<noteq> []" by (metis length_push_six list.size(3) zero_neq_numeral)
  then show ?case using 1 by (subst decode_blocks.simps) simp
qed (simp_all add: decode_blocks.simps)

lemma length_encode_blocks: "length bs mod 8 = 0 \<Longrightarrow> length (encode_blocks bs) = 12 * (length bs div 8)"
  by (induction bs rule: encode_blocks.induct) (simp_all add: div_add_self1 [of 8])

lemma fish10_b64_roundtrip:
  "length bs mod 8 = 0 \<Longrightarrow> \<exists>s. fish10_b64_encode bs = Inr s \<and> length s = 12 * (length bs div 8) \<and> fish10_b64_decode s = Inr bs"
  by (simp add: fish10_b64_encode_def fish10_b64_decode_def decode_encode_blocks length_encode_blocks)

lemma ecb_length: "length bs mod 8 = 0 \<Longrightarrow> length (ecb f bs) = length bs"
  by (induction f bs rule: ecb.induct) (simp_all add: to_be_bytes_def split: prod.split)

lemma ecb_inverse: "(\<And>b. g (f b) = b) \<Longrightarrow> length bs mod 8 = 0 \<Longrightarrow> ecb g (ecb f bs) = bs"
proof (induction f bs rule: ecb.induct)
  case (1 f a b c d e g' h i rest)
  then show ?case by (simp add: to_be_bytes_def split: prod.split) (metis be32_bytes prod.sel)
qed simp_all

lemma ecb_append: "length xs mod 8 = 0 \<Longrightarrow> ecb f (xs @ ys) = ecb f xs @ ecb f ys"
  by (induction f xs rule: ecb.induct) (simp_all split: prod.split)

lemma encode_append: "length xs mod 8 = 0 \<Longrightarrow> encode_blocks (xs @ ys) = encode_blocks xs @ encode_blocks ys"
  by (induction xs rule: encode_blocks.induct) simp_all

lemma cbc_length: "length bs mod 8 = 0 \<Longrightarrow> length (cbc_enc f iv bs) = length bs"
  by (induction f iv bs rule: cbc_enc.induct) (simp_all add: to_be_bytes_def Let_def)

lemma cbc_inverse: "(\<And>b. g (f b) = b) \<Longrightarrow> length bs mod 8 = 0 \<Longrightarrow> cbc_dec g iv (cbc_enc f iv bs) = bs"
proof (induction f iv bs rule: cbc_enc.induct)
  case (1 f prev a b c d e g' h i rest)
  let ?out = "f (xor_block (be32 a b c d, be32 e g' h i) prev)"
  have "xor_block (g ?out) prev = (be32 a b c d, be32 e g' h i)"
    using 1(2) [of "xor_block (be32 a b c d, be32 e g' h i) prev"] by (simp add: xor_block_def xor.assoc)
  then show ?case using 1 by (simp add: to_be_bytes_def Let_def)
qed simp_all

lemma pad8_length: "length (pad8 bs) mod 8 = 0" "length (pad8 bs) div 8 = (length bs + 7) div 8"
proof -
  have n: "n + (8 - n mod 8) mod 8 = 8 * ((n + 7) div 8)" for n :: nat
  proof -
    obtain q r where n: "n = 8 * q + r" "r < 8" by (metis mod_less_divisor mult_div_mod_eq zero_less_numeral)
    have "(8 * q + r + 7) div 8 = q + (r + 7) div 8" by simp
    moreover have "(r + 7) div 8 = (if r = 0 then 0 else 1)" using n(2) by auto
    ultimately show ?thesis using n by (cases "r = 0") simp_all
  qed
  have "length (pad8 bs) = 8 * ((length bs + 7) div 8)"
    unfolding pad8_def using n [of "length bs"] by simp
  then show "length (pad8 bs) mod 8 = 0" "length (pad8 bs) div 8 = (length bs + 7) div 8" by simp_all
qed

lemma strip_pad8: "bs = [] \<or> last bs \<noteq> 0 \<Longrightarrow> strip_nuls (pad8 bs) = bs"
proof -
  assume bs: "bs = [] \<or> last bs \<noteq> 0"
  have "dropWhile (\<lambda>x. x = 0) (replicate n 0 @ rev bs) = rev bs" for n
    using bs by (induction n) (auto simp: dropWhile_eq_self_iff hd_rev)
  then show ?thesis by (simp add: strip_nuls_def pad8_def)
qed

lemma bf_roundtrip:
  assumes "bf_law L" "bf_key_ok key" "utf8_valid (as_bytes m)" "m = [] \<or> last (as_bytes m) \<noteq> 0"
  shows "(\<exists>c. bf_encrypt_message L key m = Inr c \<and> length c = 12 * ((length m + 7) div 8) \<and>
      bf_decrypt_message L key c = Inr m) \<and>
    (\<exists>c. bf_encrypt_message_cbc L key m = Inr c \<and> length c = 12 * ((length m + 7) div 8) \<and>
      bf_decrypt_message_cbc L key c = Inr m)"
proof
  let ?p = "pad8 (as_bytes m)"
  have law: "bf_dec L key (bf_enc L key b) = b" for b using assms(1) unfolding bf_law_def by blast
  have s: "utf8_or_lossy (strip_nuls ?p) = m"
    using assms(3,4) strip_pad8 [of "as_bytes m"] by (auto simp: utf8_or_lossy_def from_utf8_def)
  obtain c where "fish10_b64_encode (ecb (bf_enc L key) ?p) = Inr c"
      "length c = 12 * ((length m + 7) div 8)" "fish10_b64_decode c = Inr (ecb (bf_enc L key) ?p)"
    using fish10_b64_roundtrip [of "ecb (bf_enc L key) ?p"] by (auto simp: ecb_length pad8_length)
  then show "\<exists>c. bf_encrypt_message L key m = Inr c \<and> length c = 12 * ((length m + 7) div 8) \<and>
      bf_decrypt_message L key c = Inr m"
    using assms(2) s by (simp add: bf_encrypt_message_def bf_decrypt_message_def ecb_inverse law pad8_length)
  obtain c where "fish10_b64_encode (cbc_enc (bf_enc L key) (cbc_iv key) ?p) = Inr c"
      "length c = 12 * ((length m + 7) div 8)" "fish10_b64_decode c = Inr (cbc_enc (bf_enc L key) (cbc_iv key) ?p)"
    using fish10_b64_roundtrip [of "cbc_enc (bf_enc L key) (cbc_iv key) ?p"] by (auto simp: cbc_length pad8_length)
  then show "\<exists>c. bf_encrypt_message_cbc L key m = Inr c \<and> length c = 12 * ((length m + 7) div 8) \<and>
      bf_decrypt_message_cbc L key c = Inr m"
    using assms(2) s by (simp add: bf_encrypt_message_cbc_def bf_decrypt_message_cbc_def cbc_inverse law pad8_length)
qed

text \<open>a legacy message of any length is recovered by both modes, unless it ends in a
  NUL byte, and its text takes twelve characters per started block of eight bytes.\<close>

theorem legacy_message_roundtrip:
  assumes "bf_law L" "bf_key_ok key" "utf8_valid (as_bytes m)" "m = [] \<or> last (as_bytes m) \<noteq> 0"
  shows "(\<exists>c. bf_encrypt_message L key m = Inr c \<and> length c = 12 * ((length m + 7) div 8) \<and>
      bf_decrypt_message L key c = Inr m) \<and>
    (\<exists>c. bf_encrypt_message_cbc L key m = Inr c \<and> length c = 12 * ((length m + 7) div 8) \<and>
      bf_decrypt_message_cbc L key c = Inr m)"
  using bf_roundtrip [OF assms] .

lemma legacy_message_roundtrip_witness:
  "\<exists>c. bf_encrypt_message_cbc ref_lib (replicate 16 7) ''Hello FiSH CBC!'' = Inr c \<and> length c = 24 \<and>
     bf_decrypt_message_cbc ref_lib (replicate 16 7) c = Inr ''Hello FiSH CBC!''"
proof -
  have "utf8_valid (as_bytes ''Hello FiSH CBC!'')" by (rule utf8_valid_ascii) code_simp
  moreover have "last (as_bytes ''Hello FiSH CBC!'') \<noteq> 0" by code_simp
  ultimately show ?thesis
    using legacy_message_roundtrip [of ref_lib "replicate 16 7" "''Hello FiSH CBC!''"] by (simp add: bf_key_ok_def)
qed

end
