(* ===== verification/Legacy.thy ===== *)
theory Legacy
  imports ChannelKeys Blowfish
begin

text \<open>
  The FiSH 10 layer of \<open>legacy/\<close>: detection of its messages, the \<open>blowfish.ini\<close>
  file, the key store \<open>LEGACY_CONFIG\<close>, encryption with either mode and the
  exported \<open>FiSH10_*\<close> functions.  The file is the list of its lines, \<open>None\<close> when it
  does not exist; \<open>lg_file_ok\<close> says whether it can be read and written.
\<close>

record legacy =
  lg_ini_path :: "string option"
  lg_keys :: "(string, bytes) hmap"
  lg_dh :: "(string, nat) hmap"
  lg_file :: "string list option"
  lg_file_ok :: bool

definition is_legacy_target :: "string \<Rightarrow> legacy \<Rightarrow> bool" where
  "is_legacy_target target lg = hm_has (lg_keys lg) target"

definition get_legacy_key :: "string \<Rightarrow> legacy \<Rightarrow> bytes option" where
  "get_legacy_key target lg = hm_get (lg_keys lg) target"

section \<open>Detection of messages\<close>

definition FISH10_PREFIX :: string where "FISH10_PREFIX = ''+OK ''"
definition MCPS_PREFIX :: string where "MCPS_PREFIX = ''mcps ''"

definition is_fish10_message :: "string \<Rightarrow> bool" where
  "is_fish10_message message =
     (let trimmed = trim message in starts_with FISH10_PREFIX trimmed \<or> starts_with MCPS_PREFIX trimmed)"

definition extract_fish10_payload :: "string \<Rightarrow> (DllError, string) result" where
  "extract_fish10_payload message =
     (let trimmed = trim message;
          prefix = (if starts_with FISH10_PREFIX trimmed then Some FISH10_PREFIX
                    else if starts_with MCPS_PREFIX trimmed then Some MCPS_PREFIX else None)
      in case prefix of
           None \<Rightarrow> Inl (LegacyError ''Message detection''
                     (''Message does not start with a known legacy prefix ('' @ quoted FISH10_PREFIX @ '' or '' @
                      quoted MCPS_PREFIX @ '')''))
         | Some p \<Rightarrow>
             (let payload = trim (drop (length p) trimmed) in
              if payload = [] then
                Inl (LegacyError ''Message parsing'' (''Empty payload after removing prefix '' @ quoted p))
              else Inr payload))"

definition is_dh1080_message :: "string \<Rightarrow> bool" where
  "is_dh1080_message message = starts_with ''DH1080_'' (trim message)"

definition parse_dh1080_message_type :: "string \<Rightarrow> string option" where
  "parse_dh1080_message_type message =
     (let trimmed = trim message in
      if starts_with ''DH1080_'' trimmed then
        (case splitn_char 2 (CHR '' '') trimmed of
           command_part # _ \<Rightarrow> if length command_part > 7 then Some (drop 7 command_part) else None
         | [] \<Rightarrow> None)
      else None)"

definition extract_dh1080_public_key :: "string \<Rightarrow> string option" where
  "extract_dh1080_public_key message =
     (let trimmed = trim message in
      if starts_with ''DH1080_'' trimmed then
        (case splitn_char 2 (CHR '' '') trimmed of
           _ # rest # _ \<Rightarrow> Some (trim rest)
         | _ \<Rightarrow> None)
      else None)"

section \<open>blowfish.ini\<close>

definition eq_ignore_ascii_case :: "string \<Rightarrow> string \<Rightarrow> bool" where
  "eq_ignore_ascii_case a b = (to_lowercase a = to_lowercase b)"

definition parse_ini_line :: "string \<Rightarrow> (string \<times> string) option" where
  "parse_ini_line line =
     (case splitn_char 2 (CHR ''='') line of
        [a, b] \<Rightarrow>
          (let target = trim a; key_hex = trim b in
           if target \<noteq> [] \<and> key_hex \<noteq> [] then Some (target, key_hex) else None)
      | _ \<Rightarrow> None)"

definition is_valid_hex_string :: "string \<Rightarrow> bool" where
  "is_valid_hex_string s = (length s mod 2 = 0 \<and> list_all hex_digit s)"

definition decode_key_value :: "ext_lib \<Rightarrow> string \<Rightarrow> (DllError, bytes) result" where
  "decode_key_value L value0 =
     (let value = trim value0 in
      case strip_prefix ''+OK '' value of
        Some plaintext \<Rightarrow> Inr (as_bytes plaintext)
      | None \<Rightarrow>
          (case strip_prefix ''mcps '' value of
             Some plaintext \<Rightarrow> Inr (as_bytes plaintext)
           | None \<Rightarrow>
               if list_all hex_digit value \<and> length value mod 2 = 0 then
                 map_err (\<lambda>e. LegacyError ''Decoding hex key'' (''Invalid hex: '' @ e)) (hex_dec L value)
               else Inr (as_bytes value)))"

definition is_section :: "string \<Rightarrow> bool" where
  "is_section line = (starts_with ''['' line \<and> ends_with '']'' line)"

definition section_name :: "string \<Rightarrow> string" where
  "section_name line = butlast (tl line)"

definition is_comment :: "string \<Rightarrow> bool" where
  "is_comment line = (line = [] \<or> starts_with '';'' line \<or> (starts_with ''#'' line \<and> \<not> contains ''='' line))"

text \<open>Which target a line sets: its section for \<open>key=\<close>, its own name otherwise.\<close>

definition line_target :: "string option \<Rightarrow> string \<Rightarrow> string option" where
  "line_target current_section key_name =
     (if eq_ignore_ascii_case key_name ''key'' then current_section else Some key_name)"

fun load_lines ::
  "ext_lib \<Rightarrow> string option \<Rightarrow> (string, bytes) hmap \<Rightarrow> string list \<Rightarrow> (DllError, (string, bytes) hmap) result" where
  "load_lines L sec keys [] = Inr keys"
| "load_lines L sec keys (raw # ls) =
     (let line = trim raw in
      if is_comment line then load_lines L sec keys ls
      else if is_section line then load_lines L (Some (section_name line)) keys ls
      else
        (case parse_ini_line line of
           None \<Rightarrow> load_lines L sec keys ls
         | Some (key_name, key_value) \<Rightarrow>
             (case line_target sec key_name of
                None \<Rightarrow> load_lines L sec keys ls
              | Some target \<Rightarrow>
                  (case decode_key_value L key_value of
                     Inl e \<Rightarrow> Inl e
                   | Inr key_bytes \<Rightarrow>
                       if 4 \<le> length key_bytes \<and> length key_bytes \<le> 56 then
                         load_lines L sec (hm_insert (normalize_target_lowercase target) key_bytes keys) ls
                       else load_lines L sec keys ls))))"

definition load_keys_from_blowfish_ini :: "ext_lib \<Rightarrow> legacy \<Rightarrow> (DllError, (string, bytes) hmap) result" where
  "load_keys_from_blowfish_ini L lg =
     (case lg_file lg of
        None \<Rightarrow> Inl (LegacyError ''Reading blowfish.ini'' ''Failed to open file: not found'')
      | Some ls \<Rightarrow>
          if lg_file_ok lg then load_lines L None [] ls
          else Inl (LegacyError ''Reading blowfish.ini'' ''Failed to open file: io error''))"

text \<open>\<open>path\<close> is what \<open>get_blowfish_ini_path\<close> gives.\<close>

definition load_legacy_config :: "ext_lib \<Rightarrow> (DllError, string) result \<Rightarrow> legacy \<Rightarrow> (DllError, unit) result \<times> legacy" where
  "load_legacy_config L path lg =
     (case path of
        Inl e \<Rightarrow> (Inl e, lg)
      | Inr p \<Rightarrow>
          (let lg1 = lg\<lparr>lg_ini_path := Some p\<rparr> in
           if lg_file lg1 = None then (Inr (), lg1)
           else
             (case load_keys_from_blowfish_ini L lg1 of
                Inl e \<Rightarrow> (Inl e, lg1)
              | Inr keys \<Rightarrow> (Inr (), lg1\<lparr>lg_keys := fold (\<lambda>(t, k). hm_insert t k) keys (lg_keys lg1)\<rparr>))))"

fun update_lines ::
  "ext_lib \<Rightarrow> string \<Rightarrow> bytes option \<Rightarrow> string option \<Rightarrow> string list \<Rightarrow> string list \<times> bool" where
  "update_lines L target key sec [] = ([], False)"
| "update_lines L target key sec (line # ls) =
     (let trimmed = trim line in
      if is_section trimmed then
        (let (out, found) = update_lines L target key (Some (section_name trimmed)) ls in (line # out, found))
      else
        (case parse_ini_line trimmed of
           Some (key_name, v) \<Rightarrow>
             (case line_target sec key_name of
                Some t \<Rightarrow>
                  if to_lowercase t = to_lowercase target then
                    (let (out, _) = update_lines L target key sec ls in
                     ((case key of
                         None \<Rightarrow> []
                       | Some k \<Rightarrow>
                           [(if eq_ignore_ascii_case key_name ''key'' then ''key'' else target) @ ''='' @ hex_enc L k])
                      @ out, True))
                  else (let (out, found) = update_lines L target key sec ls in (line # out, found))
              | None \<Rightarrow> (let (out, found) = update_lines L target key sec ls in (line # out, found)))
         | None \<Rightarrow> (let (out, found) = update_lines L target key sec ls in (line # out, found))))"

definition update_blowfish_ini_key ::
  "ext_lib \<Rightarrow> string \<Rightarrow> bytes option \<Rightarrow> legacy \<Rightarrow> (DllError, unit) result \<times> legacy" where
  "update_blowfish_ini_key L target key lg =
     (if \<not> lg_file_ok lg then
        (Inl (LegacyError ''Updating blowfish.ini'' ''Failed to create file: io error''), lg)
      else
        (let (lines, found) = update_lines L target key None (case lg_file lg of Some ls \<Rightarrow> ls | None \<Rightarrow> []);
             added = (case key of
                        Some k \<Rightarrow> if found then [] else [target @ ''='' @ hex_enc L k]
                      | None \<Rightarrow> [])
         in (Inr (), lg\<lparr>lg_file := Some (lines @ added)\<rparr>)))"

definition save_key_to_blowfish_ini :: "ext_lib \<Rightarrow> string \<Rightarrow> bytes \<Rightarrow> legacy \<Rightarrow> (DllError, unit) result \<times> legacy" where
  "save_key_to_blowfish_ini L target key = update_blowfish_ini_key L target (Some key)"

definition remove_key_from_blowfish_ini :: "ext_lib \<Rightarrow> string \<Rightarrow> legacy \<Rightarrow> (DllError, unit) result \<times> legacy" where
  "remove_key_from_blowfish_ini L target = update_blowfish_ini_key L target None"

text \<open>The value of \<open>encrypt_topic\<close> in the section of a channel; a missing or
  unreadable file means false.\<close>

fun topic_setting_lines :: "string \<Rightarrow> bool \<Rightarrow> string list \<Rightarrow> bool" where
  "topic_setting_lines sec_name in_section [] = False"
| "topic_setting_lines sec_name in_section (raw # ls) =
     (let line = trim raw in
      if line = [] \<or> starts_with '';'' line \<or> starts_with ''#'' line then topic_setting_lines sec_name in_section ls
      else if is_section line then topic_setting_lines sec_name (section_name line = sec_name) ls
      else if in_section \<and> starts_with ''encrypt_topic='' line then
        (let value = trim (case split_char (CHR ''='') line of _ # v # _ \<Rightarrow> v | _ \<Rightarrow> [])
         in value = ''1'' \<or> eq_ignore_ascii_case value ''true'')
      else topic_setting_lines sec_name in_section ls)"

definition get_encrypt_topic_setting :: "string \<Rightarrow> string \<Rightarrow> legacy \<Rightarrow> bool" where
  "get_encrypt_topic_setting network channel lg =
     (case lg_file lg of
        Some ls \<Rightarrow> lg_file_ok lg \<and> topic_setting_lines (network @ '':'' @ channel) False ls
      | None \<Rightarrow> False)"

section \<open>Keys\<close>

definition set_legacy_key :: "ext_lib \<Rightarrow> string \<Rightarrow> string \<Rightarrow> legacy \<Rightarrow> (DllError, unit) result \<times> legacy" where
  "set_legacy_key L target key_input lg =
     (case (if is_valid_hex_string key_input
            then map_err (\<lambda>e. LegacyError (''Setting key for '' @ quoted target) (''Invalid hex key: '' @ e))
                   (hex_dec L key_input)
            else Inr (text_to_legacy_key L key_input)) of
        Inl e \<Rightarrow> (Inl e, lg)
      | Inr key_bytes \<Rightarrow>
          if length key_bytes < 4 \<or> length key_bytes > 56 then
            (Inl (LegacyError (''Setting key for '' @ quoted target)
                    (''Invalid key length: '' @ show_nat (length key_bytes) @ '' bytes (must be 4-56)'')), lg)
          else
            (let lg1 = lg\<lparr>lg_keys := hm_insert target key_bytes (lg_keys lg)\<rparr> in
             (Inr (), if lg_ini_path lg1 = None then lg1
                      else snd (save_key_to_blowfish_ini L target key_bytes lg1))))"

text \<open>\<open>in_fish11\<close>: whether the FiSH 11 store holds a key for the target.\<close>

definition remove_legacy_key :: "ext_lib \<Rightarrow> bool \<Rightarrow> string \<Rightarrow> legacy \<Rightarrow> (DllError, unit) result \<times> legacy" where
  "remove_legacy_key L in_fish11 target lg =
     (let removed_from_memory = hm_has (lg_keys lg) target;
          lg1 = lg\<lparr>lg_keys := hm_remove target (lg_keys lg)\<rparr>;
          lg2 = (if lg_ini_path lg1 = None then lg1 else snd (remove_key_from_blowfish_ini L target lg1))
      in if removed_from_memory \<or> in_fish11 then (Inr (), lg2)
         else (Inl (LegacyError (''Removing key for '' @ quoted target) ''Key not found in legacy store''), lg2))"

definition list_legacy_keys :: "legacy \<Rightarrow> string list" where
  "list_legacy_keys lg = map fst (lg_keys lg)"

definition store_legacy_key :: "string \<Rightarrow> bytes \<Rightarrow> legacy \<Rightarrow> legacy" where
  "store_legacy_key target key lg = lg\<lparr>lg_keys := hm_insert target key (lg_keys lg)\<rparr>"

section \<open>Encryption\<close>

datatype FishEncryptionMode = Ecb | Cbc

definition legacy_encrypt_with_mode ::
  "ext_lib \<Rightarrow> string \<Rightarrow> string \<Rightarrow> FishEncryptionMode \<Rightarrow> legacy \<Rightarrow> (DllError, string) result" where
  "legacy_encrypt_with_mode L target message mode lg =
     (case get_legacy_key target lg of
        None \<Rightarrow> Inl (LegacyError (''Encrypting for '' @ quoted target) ''No legacy key found for this target'')
      | Some key \<Rightarrow>
          (case mode of
             Ecb \<Rightarrow> (case bf_encrypt_message L key message of Inl e \<Rightarrow> Inl e | Inr c \<Rightarrow> Inr (''+OK '' @ c))
           | Cbc \<Rightarrow> (case bf_encrypt_message_cbc L key message of Inl e \<Rightarrow> Inl e | Inr c \<Rightarrow> Inr (''mcps '' @ c))))"

definition legacy_encrypt :: "ext_lib \<Rightarrow> string \<Rightarrow> string \<Rightarrow> legacy \<Rightarrow> (DllError, string) result" where
  "legacy_encrypt L target message = legacy_encrypt_with_mode L target message Ecb"

definition detect_mode :: "string \<Rightarrow> string \<times> FishEncryptionMode" where
  "detect_mode trimmed =
     (case strip_prefix ''+OK '' trimmed of
        Some stripped \<Rightarrow> (stripped, Ecb)
      | None \<Rightarrow>
          (case strip_prefix ''mcps '' trimmed of
             Some stripped \<Rightarrow> (stripped, Cbc)
           | None \<Rightarrow> (trimmed, Ecb)))"

definition legacy_decrypt_as :: "ext_lib \<Rightarrow> string \<Rightarrow> string \<Rightarrow> string \<Rightarrow> legacy \<Rightarrow> (DllError, string) result" where
  "legacy_decrypt_as L what target encrypted_message lg =
     (let (ciphertext, mode) = detect_mode (trim encrypted_message) in
      case get_legacy_key target lg of
        None \<Rightarrow> Inl (LegacyError (what @ quoted target) ''No legacy key found for this target'')
      | Some key \<Rightarrow>
          (case mode of
             Ecb \<Rightarrow> bf_decrypt_message L key ciphertext
           | Cbc \<Rightarrow> bf_decrypt_message_cbc L key ciphertext))"

definition legacy_decrypt :: "ext_lib \<Rightarrow> string \<Rightarrow> string \<Rightarrow> legacy \<Rightarrow> (DllError, string) result" where
  "legacy_decrypt L = legacy_decrypt_as L ''Decrypting for ''"

definition legacy_decrypt_topic :: "ext_lib \<Rightarrow> string \<Rightarrow> string \<Rightarrow> legacy \<Rightarrow> (DllError, string) result" where
  "legacy_decrypt_topic L = legacy_decrypt_as L ''Decrypting topic for ''"

definition is_legacy_message :: "string \<Rightarrow> bool" where
  "is_legacy_message message =
     (let trimmed = trim message in starts_with ''+OK '' trimmed \<or> starts_with ''mcps '' trimmed)"

definition legacy_encrypt_topic :: "ext_lib \<Rightarrow> string \<Rightarrow> string \<Rightarrow> legacy \<Rightarrow> (DllError, string) result" where
  "legacy_encrypt_topic L target topic = legacy_encrypt_with_mode L target topic Ecb"

definition legacy_encrypt_topic_cbc :: "ext_lib \<Rightarrow> string \<Rightarrow> string \<Rightarrow> legacy \<Rightarrow> (DllError, string) result" where
  "legacy_encrypt_topic_cbc L target topic = legacy_encrypt_with_mode L target topic Cbc"

end
