(* ===== verification/Dh1080.thy ===== *)
theory Dh1080
  imports Legacy
begin

text \<open>
  \<open>crypto/dh1080.rs\<close> and the engine of \<open>legacy/fish10_engine.rs\<close>.  Private keys
  are arguments.  A call that takes \<open>LEGACY_CONFIG\<close> again while its own thread holds
  the write guard never returns: \<open>None\<close>.
\<close>

section \<open>Key exchange\<close>

definition DH1080_PRIME :: nat where
  "DH1080_PRIME = 0xFBE1022E23D213E8ACFA9AE8B9DFADA3EA6B7AC7A7B7E95AB5EB2DF858921FEADE95E6AC7BE7DE6ADBAB8A783E7AF7A7FA6A2B7BEB1E72EAE2B72F9FA2BFB2A2EFBEFAC868BADB3E828FA8BADFADA3E4CC1BE7E8AFE85E9698A783EB68FA07A77AB6AD7BEB618ACF9CA2897EB28A6189EFA07AB99A8A7FA9AE299EFA7BA66DEAFEFBEFBF0B7D8B"

definition DH1080_GENERATOR :: nat where
  "DH1080_GENERATOR = 2"

definition dh1080_base64_encode :: "ext_lib \<Rightarrow> bytes \<Rightarrow> string" where
  "dh1080_base64_encode L data = filter (\<lambda>c. c \<noteq> CHR ''='') (b64_enc L data) @ ''A''"

definition dh1080_base64_decode :: "ext_lib \<Rightarrow> string \<Rightarrow> (DllError, bytes) result" where
  "dh1080_base64_decode L b64 =
     (if b64 = [] then Inl (LegacyError ''DH1080 Decoding'' ''Empty input'')
      else
        (let s = (if ends_with ''A'' b64 then butlast b64 else b64);
             padded = s @ replicate ((4 - length s mod 4) mod 4) (CHR ''='')
         in map_err (\<lambda>e. LegacyError ''DH1080 Decoding'' (''Invalid base64: '' @ e)) (b64_dec L padded)))"

record DH1080KeyPair =
  dh_private :: nat
  dh_public :: string

text \<open>At least 135 bytes, zeros in front.\<close>

definition pad135 :: "bytes \<Rightarrow> bytes" where
  "pad135 bs = replicate (135 - length bs) 0 @ bs"

definition generate_dh1080_keypair :: "ext_lib \<Rightarrow> nat \<Rightarrow> DH1080KeyPair" where
  "generate_dh1080_keypair L priv_key =
     \<lparr>dh_private = priv_key,
      dh_public = dh1080_base64_encode L (pad135 (bn_to L (modpow L DH1080_GENERATOR priv_key DH1080_PRIME)))\<rparr>"

definition fish_b64_encode_hash :: "ext_lib \<Rightarrow> bytes \<Rightarrow> string" where
  "fish_b64_encode_hash L data = filter (\<lambda>c. c \<noteq> CHR ''='') (b64_enc L data)"

definition compute_dh1080_shared_secret :: "ext_lib \<Rightarrow> nat \<Rightarrow> string \<Rightarrow> (DllError, string) result" where
  "compute_dh1080_shared_secret L private_key other_public_key =
     (case dh1080_base64_decode L other_public_key of
        Inl e \<Rightarrow> Inl e
      | Inr other_pub_bytes \<Rightarrow>
          (let other_pub_bn = bn_of L other_pub_bytes in
           if other_pub_bn < 2 \<or> other_pub_bn \<ge> DH1080_PRIME - 1 then
             Inl (LegacyError ''DH1080 Security'' ''Invalid public key: must be in range [2, p-2]'')
           else Inr (fish_b64_encode_hash L
                  (sha256 L (pad135 (bn_to L (modpow L other_pub_bn private_key DH1080_PRIME)))))))"

definition FiSH10_DH1080_GenerateKeyPair :: "ext_lib \<Rightarrow> nat \<Rightarrow> string \<Rightarrow> legacy \<Rightarrow> (DllError, string) result \<times> legacy" where
  "FiSH10_DH1080_GenerateKeyPair L priv_key input lg =
     (let target = normalize_target_lowercase input;
          keypair = generate_dh1080_keypair L priv_key
      in (Inr (dh_public keypair), lg\<lparr>lg_dh := hm_insert target (dh_private keypair) (lg_dh lg)\<rparr>))"

definition FiSH10_DH1080_ComputeSecret :: "ext_lib \<Rightarrow> string \<Rightarrow> legacy \<Rightarrow> (DllError, string) result \<times> legacy" where
  "FiSH10_DH1080_ComputeSecret L input lg =
     (case splitn_char 2 (CHR '' '') input of
        [a, b] \<Rightarrow>
          (let target = normalize_target_lowercase a; other_public_key = trim b in
           case hm_get (lg_dh lg) target of
             None \<Rightarrow> (Inl (LegacyError (''DH1080 secret computation for '' @ quoted target)
                              ''No private key found for this target''), lg)
           | Some private_key \<Rightarrow>
               (case compute_dh1080_shared_secret L private_key other_public_key of
                  Inl e \<Rightarrow> (Inl e, lg)
                | Inr shared_secret \<Rightarrow>
                    (Inr shared_secret,
                     lg\<lparr>lg_keys := hm_insert target (as_bytes shared_secret) (lg_keys lg)\<rparr>)))
      | _ \<Rightarrow> (Inl (InvalidInput ''input'' ''expected format: <target> <other_public_key>''), lg))"

definition FiSH10_DH1080_SetKey :: "ext_lib \<Rightarrow> string \<Rightarrow> legacy \<Rightarrow> (DllError, string) result \<times> legacy" where
  "FiSH10_DH1080_SetKey L input lg =
     (case splitn_char 2 (CHR '' '') input of
        [a, b] \<Rightarrow>
          (let target = normalize_target_lowercase a; private_key_hex = trim b in
           case hex_dec L private_key_hex of
             Inl e \<Rightarrow> (Inl (LegacyError ''DH1080 key decoding'' (''Invalid hex key: '' @ e)), lg)
           | Inr bs \<Rightarrow>
               (Inr (''DH1080 key set for '' @ target), lg\<lparr>lg_dh := hm_insert target (bn_of L bs) (lg_dh lg)\<rparr>))
      | _ \<Rightarrow> (Inl (InvalidInput ''input'' ''expected format: <target> <private_key_hex>''), lg))"

section \<open>Exported functions on legacy keys\<close>

definition FiSH10_EncryptMsg :: "ext_lib \<Rightarrow> string \<Rightarrow> legacy \<Rightarrow> (DllError, string) result" where
  "FiSH10_EncryptMsg L input lg =
     (case parse_input input of
        Inl e \<Rightarrow> Inl e
      | Inr parsed \<Rightarrow>
          (let target = to_lowercase (pi_target parsed); plaintext_message = trim (pi_message parsed) in
           case get_legacy_key target lg of
             None \<Rightarrow> Inl (LegacyError (''Target '' @ quoted target @ '' not configured for legacy mode'')
                            ''No legacy key found for this target'')
           | Some key \<Rightarrow>
               (case bf_encrypt_message L key plaintext_message of
                  Inl e \<Rightarrow> Inl (LegacyError (''Blowfish encryption failed for '' @ quoted target) (dll_display e))
                | Inr encrypted \<Rightarrow> Inr (''+OK '' @ encrypted))))"

definition FiSH10_DecryptMsg :: "ext_lib \<Rightarrow> string \<Rightarrow> legacy \<Rightarrow> (DllError, string) result" where
  "FiSH10_DecryptMsg L input lg =
     (case parse_input input of
        Inl e \<Rightarrow> Inl e
      | Inr parsed \<Rightarrow>
          (let target = to_lowercase (pi_target parsed);
               trimmed = trim (pi_message parsed);
               encrypted_message = (case strip_prefix ''+OK '' trimmed of Some s \<Rightarrow> s | None \<Rightarrow> trimmed)
           in case get_legacy_key target lg of
                None \<Rightarrow> Inl (LegacyError (''Target '' @ quoted target @ '' not configured for legacy mode'')
                               ''No legacy key found for this target'')
              | Some key \<Rightarrow>
                  map_err (\<lambda>e. LegacyError (''Blowfish decryption failed for '' @ quoted target) (dll_display e))
                    (bf_decrypt_message L key encrypted_message)))"

definition FiSH10_SetKey :: "ext_lib \<Rightarrow> string \<Rightarrow> legacy \<Rightarrow> (DllError, string) result \<times> legacy" where
  "FiSH10_SetKey L input lg =
     (case parse_input input of
        Inl e \<Rightarrow> (Inl e, lg)
      | Inr parsed \<Rightarrow>
          (let target = to_lowercase (pi_target parsed) in
           case set_legacy_key L target (trim (pi_message parsed)) lg of
             (Inl e, lg1) \<Rightarrow> (Inl e, lg1)
           | (Inr _, lg1) \<Rightarrow> (Inr (''Legacy key set for '' @ target), lg1)))"

definition FiSH10_DelKey :: "ext_lib \<Rightarrow> (string \<Rightarrow> bool) \<Rightarrow> string \<Rightarrow> legacy \<Rightarrow> (DllError, string) result \<times> legacy" where
  "FiSH10_DelKey L in_fish11 input lg =
     (let target = normalize_target_lowercase input in
      case remove_legacy_key L (in_fish11 target) target lg of
        (Inl e, lg1) \<Rightarrow> (Inl e, lg1)
      | (Inr _, lg1) \<Rightarrow> (Inr (''legacy key deleted for '' @ target), lg1))"

definition FiSH10_HasKey :: "string \<Rightarrow> legacy \<Rightarrow> (DllError, string) result" where
  "FiSH10_HasKey input lg =
     (let target = normalize_target_lowercase input in
      if target = [] then Inl (MissingParameter ''target'')
      else Inr (if is_legacy_target target lg then ''1'' else ''0''))"

definition FiSH10_GetKeyInfo :: "string \<Rightarrow> legacy \<Rightarrow> (DllError, string) result" where
  "FiSH10_GetKeyInfo input lg =
     (let target = normalize_target_lowercase input in
      if target = [] then Inl (MissingParameter ''target'')
      else (case get_legacy_key target lg of
              Some key \<Rightarrow> Inr (''Legacy Blowfish key: '' @ show_nat (length key) @ '' bytes'')
            | None \<Rightarrow> Inl (KeyNotFound target)))"

definition FiSH10_GetKey :: "ext_lib \<Rightarrow> string \<Rightarrow> legacy \<Rightarrow> (DllError, string) result" where
  "FiSH10_GetKey L input lg =
     (let target = normalize_target_lowercase input in
      if target = [] then Inl (MissingParameter ''target'')
      else (case get_legacy_key target lg of
              Some key \<Rightarrow> Inr (hex_enc L key)
            | None \<Rightarrow> Inl (KeyNotFound target)))"

section \<open>The legacy engine\<close>

definition process_outgoing_fish10_topic :: "ext_lib \<Rightarrow> string \<Rightarrow> string \<Rightarrow> legacy \<Rightarrow> string option" where
  "process_outgoing_fish10_topic L target topic lg =
     (if \<not> is_legacy_target target lg then None
      else (case legacy_encrypt_topic L target topic lg of
              Inr encrypted \<Rightarrow> Some (''TOPIC '' @ target @ '' '' @ encrypted)
            | Inl _ \<Rightarrow> None))"

definition process_outgoing_fish10_message :: "ext_lib \<Rightarrow> string \<Rightarrow> legacy \<Rightarrow> string option" where
  "process_outgoing_fish10_message L line lg =
     (case splitn_char 3 (CHR '' '') line of
        [command, target, message] \<Rightarrow>
          if command \<noteq> ''PRIVMSG'' \<and> command \<noteq> ''NOTICE'' \<and> command \<noteq> ''TOPIC'' then None
          else if command = ''TOPIC'' then process_outgoing_fish10_topic L target message lg
          else if \<not> is_legacy_target target lg then None
          else (case legacy_encrypt L target message lg of
                  Inr encrypted \<Rightarrow> Some (command @ '' '' @ target @ '' '' @ encrypted)
                | Inl _ \<Rightarrow> None)
      | _ \<Rightarrow> None)"

text \<open>The payload after \<open>+OK\<close> or \<open>mcps\<close>.\<close>

definition stripped_payload :: "string \<Rightarrow> string option" where
  "stripped_payload s =
     (let payload = trim s in
      case strip_prefix ''+OK '' payload of
        Some stripped \<Rightarrow> (if stripped = [] then None else Some stripped)
      | None \<Rightarrow>
          (case strip_prefix ''mcps '' payload of
             Some stripped \<Rightarrow> (if stripped = [] then None else Some stripped)
           | None \<Rightarrow> None))"

definition handle_fish10_topic_message :: "ext_lib \<Rightarrow> string \<Rightarrow> legacy \<Rightarrow> string option" where
  "handle_fish10_topic_message L line lg =
     (case splitn_char 3 (CHR '' '') line of
        [command, target, topic_payload] \<Rightarrow>
          if command \<noteq> ''TOPIC'' then None
          else if \<not> is_legacy_message topic_payload then None
          else (case stripped_payload topic_payload of
                  None \<Rightarrow> None
                | Some payload \<Rightarrow>
                    (case legacy_decrypt_topic L target payload lg of
                       Inr decrypted \<Rightarrow> Some (command @ '' '' @ target @ '' '' @ decrypted)
                     | Inl _ \<Rightarrow> None))
      | _ \<Rightarrow> None)"

definition handle_fish10_encrypted_message :: "ext_lib \<Rightarrow> string \<Rightarrow> legacy \<Rightarrow> string option" where
  "handle_fish10_encrypted_message L line lg =
     (case splitn_char 3 (CHR '' '') line of
        [command, target, encrypted_payload] \<Rightarrow>
          (case stripped_payload encrypted_payload of
             None \<Rightarrow> None
           | Some payload \<Rightarrow>
               (case legacy_decrypt L target payload lg of
                  Inr decrypted \<Rightarrow> Some (command @ '' '' @ target @ '' '' @ decrypted)
                | Inl _ \<Rightarrow> None))
      | _ \<Rightarrow> None)"

text \<open>First eight bytes of the hash of the secret, as the engine stores it.\<close>

definition engine_blowfish_key :: "ext_lib \<Rightarrow> string \<Rightarrow> bytes" where
  "engine_blowfish_key L secret = take 8 (sha256 L (as_bytes secret))"

text \<open>The \<open>INIT\<close> arm stores the key while it holds the write guard; the \<open>FINISH\<close> arm
  holds read guards, under which a second read is granted.\<close>

definition handle_dh1080_message :: "ext_lib \<Rightarrow> nat \<Rightarrow> string \<Rightarrow> legacy \<Rightarrow> (string option \<times> legacy) option" where
  "handle_dh1080_message L priv_key line lg =
     (case splitn_char 3 (CHR '' '') line of
        [command, target, dh1080_message] \<Rightarrow>
          (case (parse_dh1080_message_type dh1080_message, extract_dh1080_public_key dh1080_message) of
             (Some message_type, Some public_key) \<Rightarrow>
               if message_type = ''INIT'' then
                 (let keypair = generate_dh1080_keypair L priv_key;
                      lg1 = lg\<lparr>lg_dh := hm_insert target (dh_private keypair) (lg_dh lg)\<rparr>
                  in case compute_dh1080_shared_secret L (dh_private keypair) public_key of
                       Inr secret \<Rightarrow> None
                     | Inl _ \<Rightarrow> Some (None, lg1))
               else if message_type = ''FINISH'' then
                 (case hm_get (lg_dh lg) target of
                    None \<Rightarrow> Some (None, lg)
                  | Some private_key \<Rightarrow>
                      (case compute_dh1080_shared_secret L private_key public_key of
                         Inr secret \<Rightarrow>
                           Some (Some line,
                                 snd (set_legacy_key L target (hex_enc L (engine_blowfish_key L secret)) lg))
                       | Inl _ \<Rightarrow> Some (None, lg)))
               else Some (None, lg)
           | _ \<Rightarrow> Some (None, lg))
      | _ \<Rightarrow> Some (None, lg))"

definition process_incoming_fish10_message :: "ext_lib \<Rightarrow> nat \<Rightarrow> string \<Rightarrow> legacy \<Rightarrow> (string option \<times> legacy) option" where
  "process_incoming_fish10_message L priv_key line lg =
     (if is_legacy_message line then Some (handle_fish10_encrypted_message L line lg, lg)
      else if is_dh1080_message line then handle_dh1080_message L priv_key line lg
      else Some (handle_fish10_topic_message L line lg, lg))"

end
