(* ===== verification/Engine.thy ===== *)
theory Engine
  imports Settings Dh1080 Handlers
begin

text \<open>
  The DLL as an engine of the injector (\<open>engine_registration.rs\<close>): \<open>on_outgoing\<close>
  encrypts an IRC line, \<open>on_incoming\<close> decrypts one.  The key store and the legacy
  store are the state; the network the injector names for the socket and the random
  nonce are arguments.  The outer \<open>option\<close> is \<open>None\<close> when the call blocks on the
  \<open>CONFIG\<close> lock its own thread holds; the inner one is the returned line, \<open>None\<close> a null pointer.
\<close>

section \<open>Encryption of an outgoing line\<close>

text \<open>\<open>trim_end_matches\<close> on carriage returns and line feeds.\<close>

definition trim_crlf :: "string \<Rightarrow> string" where
  "trim_crlf s = rev (dropWhile (\<lambda>c. c = CHR 0x0D \<or> c = CHR 0x0A) (rev s))"

definition find_target :: "string \<Rightarrow> (string \<times> bool) option" where
  "find_target cmd_part =
     (case find_str '' PRIVMSG '' cmd_part of
        Some pos \<Rightarrow> Some (drop (pos + 9) cmd_part, False)
      | None \<Rightarrow>
     if starts_with ''PRIVMSG '' cmd_part then Some (drop 8 cmd_part, False)
     else (case find_str '' NOTICE '' cmd_part of
        Some pos \<Rightarrow> Some (drop (pos + 8) cmd_part, False)
      | None \<Rightarrow>
     if starts_with ''NOTICE '' cmd_part then Some (drop 7 cmd_part, False)
     else (case find_str '' TOPIC '' cmd_part of
        Some pos \<Rightarrow> Some (drop (pos + 7) cmd_part, True)
      | None \<Rightarrow>
     if starts_with ''TOPIC '' cmd_part then Some (drop 6 cmd_part, True)
     else None)))"

text \<open>The closure of the ratchet branch runs under the \<open>CONFIG\<close> lock: an encryption
  that succeeds counts in \<open>CONFIG\<close> and never returns.\<close>

definition encrypt_ratchet_action ::
  "ext_lib \<Rightarrow> bytes \<Rightarrow> string \<Rightarrow> string \<Rightarrow> store \<Rightarrow> RatchetState \<Rightarrow> ((DllError, string) result \<times> RatchetState) option" where
  "encrypt_ratchet_action L nonce target message st state =
     (case encrypt_message L nonce (current_key state) message (Some (as_bytes target)) st of
        (Inl e, _) \<Rightarrow> Some (Inl (dll_of_fish e), state)
      | (Inr _, _) \<Rightarrow> None)"

definition legacy_payload :: "ext_lib \<Rightarrow> string \<Rightarrow> string \<Rightarrow> legacy \<Rightarrow> (string \<times> bool) option" where
  "legacy_payload L target message lg =
     (case get_legacy_key (to_lowercase target) lg of
        None \<Rightarrow> None
      | Some legacy_key \<Rightarrow>
          (case bf_encrypt_message L legacy_key message of Inl _ \<Rightarrow> None | Inr enc \<Rightarrow> Some (enc, True)))"

definition encrypt_topic_payload ::
  "ext_lib \<Rightarrow> bytes \<Rightarrow> string \<Rightarrow> string \<Rightarrow> store \<Rightarrow> legacy \<Rightarrow> (string \<times> bool) option \<times> store" where
  "encrypt_topic_payload L nonce target message st lg =
     (case get_channel_key_with_fallback L target st of
        (Inr key, st1) \<Rightarrow>
          if length key \<noteq> 32 then (None, st1)
          else
            (case encrypt_message L nonce key message (Some (as_bytes target)) st1 of
               (Inl _, st2) \<Rightarrow> (None, st2)
             | (Inr enc, st2) \<Rightarrow> (Some (enc, False), st2))
      | (Inl _, st1) \<Rightarrow> (legacy_payload L target message lg, st1))"

definition encrypt_channel_payload ::
  "ext_lib \<Rightarrow> bytes \<Rightarrow> string \<Rightarrow> string \<Rightarrow> store \<Rightarrow> legacy \<Rightarrow> ((string \<times> bool) option \<times> store) option" where
  "encrypt_channel_payload L nonce target message st lg =
     (case has_channel_key L target st of
        (True, st1) \<Rightarrow>
          (case get_channel_key_with_fallback L target st1 of
             (Inl _, st2) \<Rightarrow> Some (None, st2)
           | (Inr key, st2) \<Rightarrow>
               (case encrypt_message L nonce key message (Some (as_bytes target)) st2 of
                  (Inl _, st3) \<Rightarrow> Some (None, st3)
                | (Inr enc, st3) \<Rightarrow> Some (Some (enc, False), st3)))
      | (False, st1) \<Rightarrow>
          if get_legacy_key (to_lowercase target) lg \<noteq> None then Some (legacy_payload L target message lg, st1)
          else
            (case with_ratchet_state_mut target (encrypt_ratchet_action L nonce target message st1) st1 of
               None \<Rightarrow> None
             | Some (Inl _, st2) \<Rightarrow> Some (None, st2)
             | Some (Inr enc, st2) \<Rightarrow> Some (Some (enc, False), st2)))"

definition encrypt_private_payload ::
  "ext_lib \<Rightarrow> bytes \<Rightarrow> string \<Rightarrow> string \<Rightarrow> string option \<Rightarrow> store \<Rightarrow> legacy \<Rightarrow> (string \<times> bool) option \<times> store" where
  "encrypt_private_payload L nonce target message network st lg =
     (case get_key L target network st of
        Inr key \<Rightarrow>
          if length key \<noteq> 32 then (None, st)
          else
            (case encrypt_message L nonce key message None st of
               (Inl _, st1) \<Rightarrow> (None, st1)
             | (Inr enc, st1) \<Rightarrow> (Some (enc, False), st1))
      | Inl _ \<Rightarrow> (legacy_payload L target message lg, st))"

definition outgoing_line :: "string \<Rightarrow> string \<Rightarrow> bool \<Rightarrow> string \<times> bool \<Rightarrow> string" where
  "outgoing_line encryption_prefix cmd_part is_topic p =
     (let (encrypted, used_legacy) = p in
      if is_topic then
        (if used_legacy then cmd_part @ '' :+OK'' @ encrypted @ CRLF
         else cmd_part @ '' :+FCEP_TOPIC+ '' @ encrypted @ CRLF)
      else cmd_part @ '' :'' @ (if used_legacy then ''+OK'' else encryption_prefix) @ '' '' @ encrypted @ CRLF)"

definition attempt_encryption ::
  "ext_lib \<Rightarrow> bytes \<Rightarrow> string option \<Rightarrow> string \<Rightarrow> legacy \<Rightarrow> store \<Rightarrow> (string option \<times> store) option" where
  "attempt_encryption L nonce network line lg st =
     (if \<not> contains '' PRIVMSG '' line \<and> \<not> contains '' NOTICE '' line \<and> \<not> contains '' TOPIC '' line then Some (None, st)
      else case split_once '' :'' (trim_crlf line) of
        None \<Rightarrow> Some (None, st)
      | Some (cmd_part, message) \<Rightarrow>
          (let encryption_prefix = get_encryption_prefix st in
           if is_fish10_message message \<or> starts_with encryption_prefix message then Some (None, st)
           else case find_target cmd_part of
             None \<Rightarrow> Some (None, st)
           | Some (target_part, is_topic) \<Rightarrow>
               (let target = normalize_target (trim target_part) in
                case (if is_topic then Some (encrypt_topic_payload L nonce target message st lg)
                      else if is_chan_prefixed target then encrypt_channel_payload L nonce target message st lg
                      else Some (encrypt_private_payload L nonce target message network st lg)) of
                  None \<Rightarrow> None
                | Some (None, st1) \<Rightarrow> Some (None, st1)
                | Some (Some p, st1) \<Rightarrow> Some (Some (outgoing_line encryption_prefix cmd_part is_topic p), st1))))"

section \<open>Decryption of an incoming line\<close>

definition nick_of :: "string \<Rightarrow> string" where
  "nick_of word =
     (let raw = dropWhile (\<lambda>c. c = CHR '':'') word in
      case find_str ''!'' raw of Some pos \<Rightarrow> take pos raw | None \<Rightarrow> raw)"

definition key_id :: "string \<Rightarrow> string \<Rightarrow> string" where
  "key_id target_raw sender =
     (let target = normalize_target target_raw in
      if is_chan_prefixed target then to_lowercase target else to_lowercase sender)"

text \<open>A channel key, or else a key under the same name.\<close>

definition channel_or_private_key :: "ext_lib \<Rightarrow> string \<Rightarrow> string option \<Rightarrow> store \<Rightarrow> bytes option \<times> store" where
  "channel_or_private_key L key_identifier network st =
     (case get_channel_key_with_fallback L key_identifier st of
        (Inr k, st1) \<Rightarrow> (Some k, st1)
      | (Inl _, st1) \<Rightarrow>
          (case get_key L key_identifier network st1 of Inr k \<Rightarrow> (Some k, st1) | Inl _ \<Rightarrow> (None, st1)))"

definition decrypt_with ::
  "ext_lib \<Rightarrow> bytes option \<times> store \<Rightarrow> string \<Rightarrow> bytes option \<Rightarrow> string option \<times> store" where
  "decrypt_with L ks payload ad =
     (case ks of
        (None, st) \<Rightarrow> (None, st)
      | (Some key, st) \<Rightarrow>
          if length key \<noteq> 32 then (None, st)
          else (case decrypt_unlocked L key payload ad st of
                  (Inl _, st1) \<Rightarrow> (None, st1)
                | (Inr text, st1) \<Rightarrow> (Some text, st1)))"

text \<open>An encrypted topic; \<open>Inl\<close> is the returned line, \<open>Inr\<close> that the code goes on.\<close>

definition topic_answer ::
  "ext_lib \<Rightarrow> string option \<Rightarrow> string \<Rightarrow> nat \<Rightarrow> string \<Rightarrow> legacy \<Rightarrow> store \<Rightarrow> (string option + unit) \<times> store" where
  "topic_answer L network line msg_index channel_name lg st =
     (let message_part = drop (msg_index + 2) line;
          key_identifier = to_lowercase (normalize_target channel_name);
          reply = map_option (\<lambda>text. take msg_index line @ '' :'' @ text @ CRLF)
      in if starts_with ''+FCEP_TOPIC+'' message_part then
           (let (r, st1) = decrypt_with L (channel_or_private_key L key_identifier network st)
                             (trim (drop 12 message_part)) (Some (as_bytes key_identifier))
            in (Inl (reply r), st1))
         else case extract_fish10_payload message_part of
           Inl _ \<Rightarrow> (Inl None, st)
         | Inr payload \<Rightarrow>
             (case get_legacy_key key_identifier lg of
                None \<Rightarrow> (Inr (), st)
              | Some key \<Rightarrow>
                  (case bf_decrypt_message L key payload of
                     Inl _ \<Rightarrow> (Inl None, st)
                   | Inr text \<Rightarrow> (Inl (reply (Some text)), st))))"

definition encrypted_topic :: "string \<Rightarrow> bool" where
  "encrypted_topic message_part = (starts_with ''+FCEP_TOPIC+'' message_part \<or> is_fish10_message message_part)"

definition topic_332 ::
  "ext_lib \<Rightarrow> string option \<Rightarrow> string \<Rightarrow> legacy \<Rightarrow> store \<Rightarrow> (string option + unit) \<times> store" where
  "topic_332 L network line lg st =
     (if \<not> contains '' 332 '' line then (Inr (), st)
      else case find_str '' :'' line of
        None \<Rightarrow> (Inl None, st)
      | Some msg_index \<Rightarrow>
          if \<not> encrypted_topic (drop (msg_index + 2) line) then (Inr (), st)
          else
            (let parts = split_whitespace line in
             if length parts < 5 then (Inl None, st)
             else topic_answer L network line msg_index (parts ! 3) lg st))"

definition topic_notice ::
  "ext_lib \<Rightarrow> string option \<Rightarrow> string \<Rightarrow> legacy \<Rightarrow> store \<Rightarrow> (string option + unit) \<times> store" where
  "topic_notice L network line lg st =
     (if \<not> (starts_with '':'' line \<and> contains '' TOPIC '' line) then (Inr (), st)
      else case find_str '' :'' line of
        None \<Rightarrow> (Inl None, st)
      | Some msg_index \<Rightarrow>
          if \<not> encrypted_topic (drop (msg_index + 2) line) then (Inr (), st)
          else
            (case find_str '' TOPIC '' line of
               None \<Rightarrow> (Inr (), st)
             | Some topic_pos \<Rightarrow>
                 (case split_whitespace (drop (topic_pos + 7) line) of
                    [] \<Rightarrow> (Inl None, st)
                  | channel_name # _ \<Rightarrow> topic_answer L network line msg_index channel_name lg st)))"

definition legacy_answer :: "ext_lib \<Rightarrow> string \<Rightarrow> nat \<Rightarrow> legacy \<Rightarrow> string option" where
  "legacy_answer L line msg_index lg =
     (let parts = split_whitespace line in
      if length parts < 4 then None
      else
        (let key_identifier = key_id (parts ! 2) (nick_of (parts ! 0)) in
         case get_legacy_key key_identifier lg of
           None \<Rightarrow> None
         | Some key \<Rightarrow>
             (case extract_fish10_payload (drop (msg_index + 2) line) of
                Inl _ \<Rightarrow> None
              | Inr payload \<Rightarrow>
                  (case bf_decrypt_message L key payload of
                     Inl _ \<Rightarrow> None
                   | Inr text \<Rightarrow> Some (take msg_index line @ '' :'' @ text @ CRLF)))))"

definition fish11_answer :: "ext_lib \<Rightarrow> string option \<Rightarrow> string \<Rightarrow> string \<Rightarrow> store \<Rightarrow> string option \<times> store" where
  "fish11_answer L network encryption_prefix line st =
     (let parts = split_whitespace line in
      if length parts < 4 then (None, st)
      else
        (case find_str (CHR '':'' # encryption_prefix) line of
           None \<Rightarrow> (None, st)
         | Some pos \<Rightarrow>
             (let encrypted_data = trim (drop (pos + length (CHR '':'' # encryption_prefix)) line);
                  key_identifier = key_id (parts ! 2) (nick_of (parts ! 0));
                  is_channel = is_chan_prefixed key_identifier;
                  key = (if is_channel then channel_or_private_key L key_identifier network st
                         else (case get_key L key_identifier network st of Inr k \<Rightarrow> Some k | Inl _ \<Rightarrow> None, st));
                  (r, st1) = decrypt_with L key encrypted_data
                               (if is_channel then Some (as_bytes key_identifier) else None)
              in case r of
                   None \<Rightarrow> (None, st1)
                 | Some decrypted \<Rightarrow>
                     (case find_str ('' :'' @ encryption_prefix) line of
                        None \<Rightarrow> (None, st1)
                      | Some start \<Rightarrow> (Some (take start line @ '' :'' @ decrypted @ CRLF), st1)))))"

definition attempt_decryption ::
  "ext_lib \<Rightarrow> string option \<Rightarrow> string \<Rightarrow> legacy \<Rightarrow> store \<Rightarrow> string option \<times> store" where
  "attempt_decryption L network line lg st =
     (case topic_332 L network line lg st of
        (Inl r, st1) \<Rightarrow> (r, st1)
      | (Inr _, st1) \<Rightarrow>
     (case topic_notice L network line lg st1 of
        (Inl r, st2) \<Rightarrow> (r, st2)
      | (Inr _, st2) \<Rightarrow>
     if contains ''DH1080_INIT'' line \<or> contains ''DH1080_FINISH'' line then (None, st2)
     else
       (let encryption_prefix = get_encryption_prefix st2 in
        case find_str '' :'' line of
          None \<Rightarrow> (None, st2)
        | Some msg_index \<Rightarrow>
            (let message_part = drop (msg_index + 2) line;
                 is_legacy = is_fish10_message message_part;
                 is_fish11 = starts_with encryption_prefix message_part
             in if \<not> is_legacy \<and> \<not> is_fish11 then (None, st2)
                else if is_legacy then (legacy_answer L line msg_index lg, st2)
                else if contains ''X25519_INIT:'' line \<or> contains ''X25519_FINISH'' line then (None, st2)
                else fish11_answer L network encryption_prefix line st2))))"

section \<open>The callbacks\<close>

text \<open>\<open>line\<close> is the C string before its NUL; \<open>net\<close> what \<open>get_network_name_from_inject\<close>
  gives for the socket.\<close>

definition enter_network :: "string option \<Rightarrow> store \<Rightarrow> store" where
  "enter_network net st = (case net of Some n \<Rightarrow> set_current_network n st | None \<Rightarrow> st)"

definition c_result :: "string option \<Rightarrow> string option" where
  "c_result r = (case r of Some s \<Rightarrow> map_option str_of (cstring_new s) | None \<Rightarrow> None)"

definition on_outgoing ::
  "ext_lib \<Rightarrow> bytes \<Rightarrow> string option \<Rightarrow> bytes option \<Rightarrow> legacy \<Rightarrow> store \<Rightarrow> (string option \<times> store) option" where
  "on_outgoing L nonce net line lg st =
     (case line of
        None \<Rightarrow> Some (None, st)
      | Some b \<Rightarrow>
          (case from_utf8 b of
             None \<Rightarrow> Some (None, st)
           | Some s \<Rightarrow>
               if s = [] then Some (None, st)
               else map_option (\<lambda>(r, st1). (c_result r, st1))
                      (attempt_encryption L nonce net s lg (enter_network net st))))"

definition on_incoming ::
  "ext_lib \<Rightarrow> string option \<Rightarrow> bytes option \<Rightarrow> legacy \<Rightarrow> store \<Rightarrow> string option \<times> store" where
  "on_incoming L net line lg st =
     (case line of
        None \<Rightarrow> (None, st)
      | Some b \<Rightarrow>
          (case from_utf8 b of
             None \<Rightarrow> (None, st)
           | Some s \<Rightarrow>
               if s = [] then (None, st)
               else (let (r, st1) = attempt_decryption L net s lg (enter_network net st) in (c_result r, st1))))"

end
