(* ===== verification/DllReach.thy ===== *)
theory DllReach
  imports HandlerFacts Engine
begin

text \<open>
  The DLL as a state machine: one step is one call of an exported function or of a
  configuration operation, or the passing of time.  The reachable stores keep every
  map well formed and give every ratcheted channel a fixed key, so the ratchet
  branch of \<open>DecryptMsg\<close> never finds a ratchet.
\<close>

section \<open>What a call leaves alone\<close>

lemma with_config_mut_config:
  "s_config (snd (with_config_mut f st)) = snd (f (mark_dirty (s_config st))) \<or>
   s_config (snd (with_config_mut f st)) = mark_clean (snd (f (mark_dirty (s_config st))))"
  by (cases "f (mark_dirty (s_config st))"; cases "fst (f (mark_dirty (s_config st)))"; cases "s_disk_ok st")
    (auto simp: with_config_mut_def save_if_modified_def drop_guard_def save_config_def Let_def)

text \<open>Channel keys and ratchets are the same.\<close>

definition same_chan :: "store \<Rightarrow> store \<Rightarrow> bool" where
  "same_chan a b \<longleftrightarrow> c_channel_keys (s_config b) = c_channel_keys (s_config a) \<and>
     c_ratchets (s_config b) = c_ratchets (s_config a)"

lemma same_chan_refl [simp]: "same_chan a a"
  by (simp add: same_chan_def)

lemma same_chan_trans: "same_chan a b \<Longrightarrow> same_chan b c \<Longrightarrow> same_chan a c"
  by (simp add: same_chan_def)

lemma same_chan_metrics: "same_but_metrics a b \<Longrightarrow> same_chan a b"
  by (simp add: same_chan_def same_but_metrics_fields)

lemma same_chan_mut:
  assumes "\<And>c. c_channel_keys (snd (f c)) = c_channel_keys c \<and> c_ratchets (snd (f c)) = c_ratchets c"
    "with_config_mut f st = (r, st')"
  shows "same_chan st st'"
  using with_config_mut_config [of f st] assms by (auto simp: same_chan_def)

lemma same_chan_counters:
  "same_chan st (increment_encryption_counter st)" "same_chan st (increment_decryption_counter st)"
  by (simp_all add: same_chan_metrics counters_same)

lemma set_key_same_chan: "set_key L n k net ow x st = (r, st') \<Longrightarrow> same_chan st st'"
proof (cases r)
  case (Inl e)
  assume a: "set_key L n k net ow x st = (r, st')"
  then show ?thesis using set_key_errors [of L n k net ow x st e st'] Inl
    by (auto simp: same_chan_def)
next
  case (Inr u)
  assume a: "set_key L n k net ow x st = (r, st')"
  then show ?thesis using set_key_effect [of L n k net ow x st st'] Inr by (simp add: same_chan_def)
qed

lemma delete_key_same_chan: "delete_key n net st = (r, st') \<Longrightarrow> same_chan st st'"
  unfolding delete_key_def by (erule same_chan_mut [rotated]) (auto simp: Let_def)

lemma get_keypair_same_chan: "get_keypair L secret st = (r, st') \<Longrightarrow> same_chan st st'"
  by (simp add: same_chan_def get_keypair_same)

lemma check_key_expiry_same_chan: "check_key_expiry L n net st = (r, st') \<Longrightarrow> same_chan st st'"
  unfolding check_key_expiry_def Let_def
  by (auto split: prod.splits sum.splits bool.splits elim!: same_chan_mut [rotated] split: option.splits)

lemma get_private_key_same_chan: "get_private_key L n st = (r, st') \<Longrightarrow> same_chan st st'"
  by (auto simp: get_private_key_def split: prod.splits sum.splits if_splits dest: check_key_expiry_same_chan)

lemma encrypt_message_same_chan: "encrypt_message L n k m ad st = (r, st') \<Longrightarrow> same_chan st st'"
  using encrypt_message_same [of st L n k m ad] by (auto intro: same_chan_metrics)

lemma decrypt_unlocked_same_chan: "decrypt_unlocked L k d ad st = (r, st') \<Longrightarrow> same_chan st st'"
  by (auto intro: same_chan_metrics dest: decrypt_unlocked_same)

lemma fallback_same_chan:
  "get_channel_key_with_fallback L ch st = (r, st') \<Longrightarrow> same_chan st st'"
  "has_channel_key L ch st = (b, st') \<Longrightarrow> same_chan st st'"
  "get_manual_channel_key L ch st = (r', st') \<Longrightarrow> same_chan st st'"
  by (auto intro: same_chan_metrics dest: fallback_same get_manual_same)

lemma set_manual_same_chan: "set_manual_channel_key L n s ch k ow st = (r, st') \<Longrightarrow> same_chan st st'"
proof -
  assume a: "set_manual_channel_key L n s ch k ow st = (r, st')"
  obtain r0 st1 where enc: "encrypt_channel_key_for_storage L n s k (to_lowercase ch) st = (r0, st1)" by force
  have s1: "same_chan st st1"
    using enc by (auto simp: encrypt_channel_key_for_storage_def derive_master_storage_key_def
        split: prod.splits sum.splits
        dest: get_keypair_same_chan encrypt_message_same_chan intro: same_chan_trans)
  show ?thesis
    using a s1 unfolding set_manual_channel_key_def Let_def enc
    by (auto split: if_splits sum.splits prod.splits intro: same_chan_trans elim!: same_chan_mut [rotated])
qed

lemmas same_chan_intros =
  set_key_same_chan delete_key_same_chan get_keypair_same_chan get_private_key_same_chan
  encrypt_message_same_chan decrypt_unlocked_same_chan fallback_same_chan set_manual_same_chan

lemma EncryptMsg_same_chan: "FiSH11_EncryptMsg L nonce input st = (r, st') \<Longrightarrow> same_chan st st'"
proof -
  assume a: "FiSH11_EncryptMsg L nonce input st = (r, st')"
  have "same_chan st (snd (FiSH11_EncryptMsg L nonce input st))"
  proof (cases "parse_input input")
    case (Inr p)
    let ?private = "\<lambda>st0.
                 (case normalize_private_target (pi_target p) of
                    Inl e \<Rightarrow> (Inl e, st0)
                  | Inr nickname \<Rightarrow>
                      (case get_private_key L nickname st0 of
                         (Inl e, st1) \<Rightarrow> (Inl e, st1)
                       | (Inr key, st1) \<Rightarrow>
                           (case encrypt_message L nonce key (pi_message p) None st1 of
                              (Inl e, st2) \<Rightarrow>
                                (Inl (EncryptionFailed (''encrypting for '' @ nickname) (fish_display e)), st2)
                            | (Inr encrypted_base64, st2) \<Rightarrow>
                                (Inr (''+FiSH '' @ encrypted_base64), increment_encryption_counter st2))))"
    have priv: "same_chan st0 (snd (?private st0))" for st0
      by (auto split: sum.splits prod.splits
          dest!: get_private_key_same_chan encrypt_message_same_chan
          intro: same_chan_trans [OF same_chan_trans same_chan_counters(1)] same_chan_trans)
    show ?thesis
    proof (cases "is_chan_prefixed (pi_target p)")
      case False
      then show ?thesis using Inr priv [of st] by (simp add: FiSH11_EncryptMsg_def Let_def)
    next
      case True
      obtain rk st1 where g: "get_channel_key_with_fallback L (pi_target p) st = (rk, st1)" by force
      have s1: "same_chan st st1" using fallback_same_chan(1) [OF g] .
      show ?thesis
      proof (cases rk)
        case (Inl e)
        then show ?thesis using Inr True g same_chan_trans [OF s1 priv [of st1]]
          by (simp add: FiSH11_EncryptMsg_def Let_def)
      next
        case (Inr key)
        obtain re st2 where e: "encrypt_message L nonce key (pi_message p) (Some (as_bytes (pi_target p))) st1 = (re, st2)"
          by force
        have s2: "same_chan st st2" using same_chan_trans [OF s1 encrypt_message_same_chan [OF e]] .
        then show ?thesis
          using \<open>parse_input input = Inr p\<close> True g Inr e same_chan_trans [OF s2 same_chan_counters(1)]
          by (cases re) (simp_all add: FiSH11_EncryptMsg_def Let_def)
      qed
    qed
  qed (simp add: FiSH11_EncryptMsg_def)
  then show ?thesis using a by simp
qed

text \<open>The remaining exported functions that store no channel key.\<close>

lemma SetKey_same_chan: "FiSH11_SetKey L input st = (r, st') \<Longrightarrow> same_chan st st'"
  unfolding FiSH11_SetKey_def
  by (auto simp: Let_def split: list.splits if_splits sum.splits prod.splits dest: set_key_same_chan)

lemma SetKeyFromPlaintext_same_chan: "FiSH11_SetKeyFromPlaintext L input st = (r, st') \<Longrightarrow> same_chan st st'"
  unfolding FiSH11_SetKeyFromPlaintext_def Let_def
  by (cases "case splitn_char 3 CHR '' '' input of [a, b, c] \<Rightarrow> Some (Some a, b, c) | [a, b] \<Rightarrow> Some (None, a, b) | _ \<Rightarrow> None")
    (auto split: if_splits sum.splits prod.splits option.splits dest: set_key_same_chan)

lemma SetManual_same_chan:
  "FiSH11_SetManualChannelKey L n s input st = (r, st') \<Longrightarrow> same_chan st st'"
  "FiSH11_SetManualChannelKeyFromPassword L n s input st = (r, st') \<Longrightarrow> same_chan st st'"
  unfolding FiSH11_SetManualChannelKey_def FiSH11_SetManualChannelKeyFromPassword_def
  by (auto split: list.splits if_splits sum.splits prod.splits dest: set_manual_same_chan)

lemma HasManual_same_chan: "FiSH11_HasManualChannelKey L input st = (r, st') \<Longrightarrow> same_chan st st'"
  by (auto simp: FiSH11_HasManualChannelKey_def Let_def split: if_splits prod.splits dest: fallback_same_chan(3))

lemma FileGetKey_same_chan: "FiSH11_FileGetKey L input st = (r, st') \<Longrightarrow> same_chan st st'"
  by (auto simp: FiSH11_FileGetKey_def Let_def split: if_splits prod.splits sum.splits dest: fallback_same_chan(1))

lemma FileDelKey_same_chan: "FiSH11_FileDelKey input st = (r, st') \<Longrightarrow> same_chan st st'"
  by (auto simp: FiSH11_FileDelKey_def Let_def split: if_splits prod.splits sum.splits list.splits
      dest: delete_key_same_chan)

lemma store_shared_same_chan:
  "same_chan st (snd (case set_key L n k None False True st of
       (Inr _, s) \<Rightarrow> (Inr (), s)
     | (Inl e, s) \<Rightarrow> (case e of
           FE_DuplicateEntry _ \<Rightarrow> set_key L n k None True True s
         | _ \<Rightarrow> (Inl e, s))))"
proof -
  obtain r s where a: "set_key L n k None False True st = (r, s)" by force
  obtain r' s' where b: "set_key L n k None True True s = (r', s')" by force
  have s1: "same_chan st s" using set_key_same_chan [OF a] .
  have s2: "same_chan st s'" using same_chan_trans [OF s1 set_key_same_chan [OF b]] .
  show ?thesis using s1 s2 by (cases r) (simp_all add: a b split: FishError.split)
qed

text \<open>Rules that walk the branches of a handler one by one.\<close>

lemma store_shared_eq:
  assumes "(case set_key L n k None False True st of
       (Inr _, s) \<Rightarrow> (Inr (), s)
     | (Inl e, s) \<Rightarrow> (case e of
           FE_DuplicateEntry _ \<Rightarrow> set_key L n k None True True s
         | _ \<Rightarrow> (Inl e, s))) = (q, s')"
  shows "same_chan st s'"
  using store_shared_same_chan [of st L n k] unfolding assms by simp

lemma branch_if: "same_chan st (snd a) \<Longrightarrow> same_chan st (snd b) \<Longrightarrow> same_chan st (snd (if c then a else b))"
  by simp

lemma branch_sum:
  "(\<And>e. r = Inl e \<Longrightarrow> same_chan st (snd (f e))) \<Longrightarrow> (\<And>x. r = Inr x \<Longrightarrow> same_chan st (snd (g x))) \<Longrightarrow>
    same_chan st (snd (case r of Inl e \<Rightarrow> f e | Inr x \<Rightarrow> g x))"
  by (cases r) simp_all

lemma branch_prod: "(\<And>a s. p = (a, s) \<Longrightarrow> same_chan st (snd (h a s))) \<Longrightarrow>
    same_chan st (snd (case p of (a, s) \<Rightarrow> h a s))"
  by (cases p) simp

lemma branch_let: "(\<And>x. x = v \<Longrightarrow> same_chan st (snd (f x))) \<Longrightarrow> same_chan st (snd (Let v f))"
  by simp

lemma branch_let_prod: "(\<And>a s. v = (a, s) \<Longrightarrow> same_chan st (snd (h a s))) \<Longrightarrow>
    same_chan st (snd (let (a, s) = v in h a s))"
  by (cases v) simp

lemma branch_FE: "(\<And>n. same_chan st (snd (f n))) \<Longrightarrow> same_chan st (snd g) \<Longrightarrow>
    same_chan st (snd (case e of FE_DuplicateEntry n \<Rightarrow> f n | _ \<Rightarrow> g))"
  by (cases e) simp_all

lemmas branches = branch_let_prod branch_if branch_sum branch_prod branch_let branch_FE

lemma ProcessPublicKey_same_chan: "FiSH11_ProcessPublicKey L secret input st = (r, st') \<Longrightarrow> same_chan st st'"
proof -
  assume a: "FiSH11_ProcessPublicKey L secret input st = (r, st')"
  have "same_chan st (snd (FiSH11_ProcessPublicKey L secret input st))"
    unfolding FiSH11_ProcessPublicKey_def
    by (intro branches; (simp only: snd_conv same_chan_refl)?;
        (erule get_keypair_same_chan)?)
      (drule get_keypair_same_chan, drule store_shared_eq, erule (1) same_chan_trans)+
  then show ?thesis using a by simp
qed

lemma config_ops_same_chan:
  "remove_manual_channel_key ch st = (r, st') \<Longrightarrow> same_chan st st'"
  "set_network_for_nick n net st = (r, st') \<Longrightarrow> same_chan st st'"
  "remove_network_for_nick n st = (r, st') \<Longrightarrow> same_chan st st'"
  "rename_network a b st = (rn, st') \<Longrightarrow> same_chan st st'"
  "merge_networks a b st = (rn, st') \<Longrightarrow> same_chan st st'"
  "delete_network a st = (rn, st') \<Longrightarrow> same_chan st st'"
  "set_configured_key_ttl t st = (rd, st') \<Longrightarrow> same_chan st st'"
  unfolding remove_manual_channel_key_def set_network_for_nick_def remove_network_for_nick_def
    rename_network_def merge_networks_def delete_network_def set_configured_key_ttl_def
  by (auto simp: Let_def split: if_splits prod.splits elim!: same_chan_mut [rotated])

section \<open>Steps and reachable stores\<close>

inductive dll_step :: "ext_lib \<Rightarrow> store \<Rightarrow> store \<Rightarrow> bool" for L where
  encrypt: "FiSH11_EncryptMsg L nonce input st = (r, st') \<Longrightarrow> dll_step L st st'"
| decrypt: "FiSH11_DecryptMsg L input st = Some (r, st') \<Longrightarrow> dll_step L st st'"
| init_channel: "length key = 32 \<Longrightarrow> FiSH11_InitChannelKey L key nonces input st = (r, st') \<Longrightarrow> dll_step L st st'"
| process_channel: "FiSH11_ProcessChannelKey L input st = (r, st') \<Longrightarrow> dll_step L st st'"
| set_key: "FiSH11_SetKey L input st = (r, st') \<Longrightarrow> dll_step L st st'"
| set_key_plain: "FiSH11_SetKeyFromPlaintext L input st = (r, st') \<Longrightarrow> dll_step L st st'"
| set_manual: "FiSH11_SetManualChannelKey L nonce secret input st = (r, st') \<Longrightarrow> dll_step L st st'"
| set_manual_pw: "FiSH11_SetManualChannelKeyFromPassword L nonce secret input st = (r, st') \<Longrightarrow> dll_step L st st'"
| has_manual: "FiSH11_HasManualChannelKey L input st = (r, st') \<Longrightarrow> dll_step L st st'"
| file_get: "FiSH11_FileGetKey L input st = (r, st') \<Longrightarrow> dll_step L st st'"
| file_del: "FiSH11_FileDelKey input st = (r, st') \<Longrightarrow> dll_step L st st'"
| process_public: "FiSH11_ProcessPublicKey L secret input st = (r, st') \<Longrightarrow> dll_step L st st'"
| remove_manual: "remove_manual_channel_key ch st = (rf, st') \<Longrightarrow> dll_step L st st'"
| remove_ratchet: "remove_ratchet_channel_key ch st = (rf, st') \<Longrightarrow> dll_step L st st'"
| map_nick: "set_network_for_nick n net st = (rf, st') \<Longrightarrow> dll_step L st st'"
| unmap_nick: "remove_network_for_nick n st = (rf, st') \<Longrightarrow> dll_step L st st'"
| rename: "rename_network a b st = (rn, st') \<Longrightarrow> dll_step L st st'"
| merge: "merge_networks a b st = (rn, st') \<Longrightarrow> dll_step L st st'"
| delete_net: "delete_network a st = (rn, st') \<Longrightarrow> dll_step L st st'"
| set_ttl: "set_configured_key_ttl t st = (ru, st') \<Longrightarrow> dll_step L st st'"
| settings: "update_fish11_config section st = (ru', st') \<Longrightarrow> dll_step L st st'"
| startup: "update_startup_time now st = (ru', st') \<Longrightarrow> dll_step L st st'"
| outgoing: "on_outgoing L nonce net line lg st = Some (ro, st') \<Longrightarrow> dll_step L st st'"
| incoming: "on_incoming L net line lg st = (ro, st') \<Longrightarrow> dll_step L st st'"
| tick: "dll_step L st (st\<lparr>s_clock := t\<rparr>)"
| join_network: "dll_step L st (set_current_network net st)"

text \<open>A process starts with no channel key and no ratchet: neither is in the file.\<close>

definition fresh_start :: "store \<Rightarrow> bool" where
  "fresh_start st \<longleftrightarrow> c_channel_keys (s_config st) = [] \<and> c_ratchets (s_config st) = []"

inductive dll_reach :: "ext_lib \<Rightarrow> store \<Rightarrow> bool" for L where
  start: "fresh_start st \<Longrightarrow> dll_reach L st"
| step: "dll_reach L st \<Longrightarrow> dll_step L st st' \<Longrightarrow> dll_reach L st'"

definition ratchets_keyed :: "store \<Rightarrow> bool" where
  "ratchets_keyed st \<longleftrightarrow>
     (\<forall>ch k. hm_get (c_channel_keys (s_config st)) ch = Some k \<longrightarrow>
        length k = 32 \<and> is_chan_prefixed ch \<and> to_lowercase ch = ch) \<and>
     (\<forall>ch. hm_has (c_ratchets (s_config st)) ch \<longrightarrow> hm_has (c_channel_keys (s_config st)) ch)"

lemma ratchets_keyed_same: "ratchets_keyed st \<Longrightarrow> same_chan st st' \<Longrightarrow> ratchets_keyed st'"
  by (simp add: ratchets_keyed_def same_chan_def)

lemma init_ratchet_effect:
  assumes "init_ratchet_state ch k st = (r, st')"
  shows "r = Inr ()" "c_channel_keys (s_config st') = c_channel_keys (s_config st)"
    "\<forall>c. hm_get (c_ratchets (s_config st')) c =
       (if c = to_lowercase ch \<and> hm_get (c_ratchets (s_config st)) c = None
        then Some (ratchet_new k) else hm_get (c_ratchets (s_config st)) c)"
proof -
  let ?c = "case hm_get (c_ratchets (s_config st)) (to_lowercase ch) of
      Some _ \<Rightarrow> mark_dirty (s_config st)
    | None \<Rightarrow> (mark_dirty (s_config st))\<lparr>c_ratchets := hm_insert (to_lowercase ch) (ratchet_new k) (c_ratchets (s_config st))\<rparr>"
  have "init_ratchet_state ch k st = (Inr (), persist ?c st)"
    unfolding init_ratchet_state_def Let_def
    by (rule with_config_mut_persist) (auto split: option.splits)
  then show "r = Inr ()" "c_channel_keys (s_config st') = c_channel_keys (s_config st)"
    "\<forall>c. hm_get (c_ratchets (s_config st')) c =
       (if c = to_lowercase ch \<and> hm_get (c_ratchets (s_config st)) c = None
        then Some (ratchet_new k) else hm_get (c_ratchets (s_config st)) c)"
    using assms by (auto split: option.splits)
qed

lemma set_channel_keyed:
  assumes "ratchets_keyed st" "length k = 32" "set_channel_key ch k st = (r, st')"
  shows "ratchets_keyed st'"
proof (cases "chan_name_ok ch")
  case True
  then show ?thesis
    using assms set_channel_key_ok [OF True, of k st]
    by (auto simp: ratchets_keyed_def chan_name_ok_def split: if_splits)
next
  case False
  then show ?thesis using assms set_channel_key_bad [OF False, of k st] by auto
qed

lemma install_keyed:
  assumes "ratchets_keyed st" "length k = 32" "set_channel_key ch k st = (Inr (), st1)"
    "init_ratchet_state ch k st1 = (r, st2)"
  shows "ratchets_keyed st2"
proof -
  have ok: "chan_name_ok ch"
    using set_channel_key_bad [of ch k st] assms(3) by (cases "chan_name_ok ch") auto
  have k1: "ratchets_keyed st1" using set_channel_keyed [OF assms(1-3)] .
  have "hm_has (c_channel_keys (s_config st1)) (to_lowercase ch)"
    using set_channel_key_ok [OF ok, of k st] assms(3) by auto
  then show ?thesis
    using k1 init_ratchet_effect [OF assms(4)] by (auto simp: ratchets_keyed_def hm_has_def split: if_splits)
qed

lemma unwrap_length: "unwrap_key L w s = Inr k \<Longrightarrow> length k = 32"
  by (auto simp: unwrap_key_def split: sum.splits if_splits option.splits)

lemma InitChannelKey_keyed:
  assumes "ratchets_keyed st" "length key = 32" "FiSH11_InitChannelKey L key nonces input st = (r, st')"
  shows "ratchets_keyed st'"
  using assms unfolding FiSH11_InitChannelKey_def Let_def
  by (auto split: list.splits if_splits prod.splits sum.splits dest: set_channel_keyed install_keyed)

lemma ProcessChannelKey_keyed:
  assumes "ratchets_keyed st" "FiSH11_ProcessChannelKey L input st = (r, st')"
  shows "ratchets_keyed st'"
  using assms unfolding FiSH11_ProcessChannelKey_def Let_def
  by (auto split: list.splits if_splits prod.splits sum.splits
      dest: unwrap_length set_channel_keyed install_keyed)

lemma keyed_has_key:
  assumes "ratchets_keyed st" "hm_has (c_ratchets (s_config st)) (to_lowercase ch)"
  shows "fst (has_channel_key L ch st)"
proof -
  obtain k where k: "hm_get (c_channel_keys (s_config st)) (to_lowercase ch) = Some k" "length k = 32"
      "is_chan_prefixed (to_lowercase ch)"
    using assms by (auto simp: ratchets_keyed_def hm_has_def)
  have g: "get_channel_key ch st = Inr k"
    using k by (simp add: get_channel_key_def with_config_def Let_def)
  obtain r st1 where m: "get_manual_channel_key L ch st = (r, st1)" by force
  have "get_channel_key ch st1 = Inr k"
    using g get_channel_key_cong [OF get_manual_same [OF m]] by simp
  then show ?thesis by (simp add: has_channel_key_def m)
qed

lemma ratchet_missing:
  fixes act :: "RatchetState \<Rightarrow> ((DllError, 'r) result \<times> RatchetState) option"
  assumes "hm_get (c_ratchets (s_config st)) (to_lowercase ch) = None"
  shows "\<exists>e st2. with_ratchet_state_mut ch act st = Some (Inl e, st2) \<and> same_chan st st2"
proof -
  let ?e = "FE_ConfigError (''Ratchet state not found for channel '' @ to_lowercase ch)"
  obtain st2 where m: "with_config_mut (\<lambda>c. (Inl ?e :: (FishError, 'r) result, c)) st = (Inl ?e, st2)"
    using with_config_mut_persist [of "\<lambda>c. (Inl ?e :: (FishError, 'r) result, c)" st "Inl ?e" "mark_dirty (s_config st)"]
    by auto
  then have "same_chan st st2" by (rule same_chan_mut [rotated]) simp
  then show ?thesis using assms m by (simp add: with_ratchet_state_mut_def Let_def)
qed

lemma DecryptMsg_unkeyed:
  assumes "ratchets_keyed st" "parse_input input = Inr p" "is_chan_prefixed (pi_target p)"
    "\<not> fst (has_channel_key L (pi_target p) st)"
  shows "\<exists>e st'. FiSH11_DecryptMsg L input st = Some (Inl e, st') \<and> same_chan st st'"
proof -
  obtain st1 where h: "has_channel_key L (pi_target p) st = (False, st1)"
    using assms(4) by (cases "has_channel_key L (pi_target p) st") auto
  have s1: "same_chan st st1" using fallback_same_chan(2) [OF h] .
  have none: "hm_get (c_ratchets (s_config st1)) (to_lowercase (pi_target p)) = None"
    using keyed_has_key [OF assms(1), of "pi_target p" L] assms(4) s1
    by (cases "hm_get (c_ratchets (s_config st)) (to_lowercase (pi_target p))")
      (auto simp: same_chan_def hm_has_def)
  have "\<exists>e st2. decrypt_with_ratchet L (pi_target p) enc st1 = Some (Inl e, st2) \<and> same_chan st1 st2" for enc
  proof (cases "base64_decode L enc")
    case (Inr d)
    then show ?thesis
      using ratchet_missing [OF none, of "ratchet_action L (pi_target p) enc (take 24 d) st1"]
      by (auto simp: decrypt_with_ratchet_def Let_def)
  qed (simp add: decrypt_with_ratchet_def)
  then show ?thesis using assms(2,3) h s1
    by (simp add: FiSH11_DecryptMsg_def Let_def) (meson same_chan_trans)
qed

lemma fallback_none:
  assumes "\<not> fst (has_channel_key L ch st)"
  shows "\<exists>e s. get_channel_key_with_fallback L ch st = (Inl e, s)"
  using assms by (auto simp: has_channel_key_def get_channel_key_with_fallback_def is_ok_def
      split: sum.splits prod.splits if_splits)

lemma DecryptMsg_returns:
  assumes "ratchets_keyed st"
  shows "\<exists>r st'. FiSH11_DecryptMsg L input st = Some (r, st') \<and> same_chan st st'"
proof (cases "parse_input input")
  case (Inl e)
  then show ?thesis by (simp add: FiSH11_DecryptMsg_def)
next
  case (Inr p)
  show ?thesis
  proof (cases "is_chan_prefixed (pi_target p)")
    case False
    then show ?thesis
      using Inr same_chan_trans same_chan_counters(2)
      by (auto simp: FiSH11_DecryptMsg_def Let_def split: sum.split prod.split
          dest!: get_private_key_same_chan decrypt_unlocked_same_chan)
  next
    case True
    then show ?thesis
      using decrypt_fixed [OF Inr True] DecryptMsg_unkeyed [OF assms Inr True] same_chan_metrics by blast
  qed
qed

lemma remove_ratchet_keyed:
  assumes "ratchets_keyed st" "remove_ratchet_channel_key ch st = (r, st')"
  shows "ratchets_keyed st'"
  using assms with_config_mut_config
    [of "\<lambda>c. (Inr (), c\<lparr>c_ratchets := hm_remove (to_lowercase ch) (c_ratchets c)\<rparr>)" st]
  by (auto simp: ratchets_keyed_def hm_has_def remove_ratchet_channel_key_def split: if_splits)

section \<open>The engine's callbacks\<close>

lemma unkeyed_no_ratchet:
  assumes "ratchets_keyed st" "has_channel_key L ch st = (False, st1)"
  shows "hm_get (c_ratchets (s_config st1)) (to_lowercase ch) = None"
  using keyed_has_key [OF assms(1), of ch L] assms(2) fallback_same_chan(2) [OF assms(2)]
  by (cases "hm_get (c_ratchets (s_config st)) (to_lowercase ch)") (auto simp: same_chan_def hm_has_def)

lemma channel_payload_returns:
  assumes "ratchets_keyed st"
  shows "\<exists>p st'. encrypt_channel_payload L nonce t m st lg = Some (p, st') \<and> same_chan st st'"
proof -
  obtain b st1 where h: "has_channel_key L t st = (b, st1)" by force
  have s1: "same_chan st st1" using fallback_same_chan(2) [OF h] .
  show ?thesis
  proof (cases b)
    case True
    then show ?thesis using h s1
      by (auto simp: encrypt_channel_payload_def split: prod.splits sum.splits
          dest!: fallback_same_chan(1) encrypt_message_same_chan intro: same_chan_trans)
  next
    case False
    then show ?thesis
      using h s1 ratchet_missing [OF unkeyed_no_ratchet [OF assms, of L t st1], of "encrypt_ratchet_action L nonce t m st1"]
      by (auto simp: encrypt_channel_payload_def split: prod.splits intro: same_chan_trans)
  qed
qed

lemma other_payloads_same:
  "encrypt_topic_payload L nonce t m st lg = (p, st') \<Longrightarrow> same_chan st st'"
  "encrypt_private_payload L nonce t m net st lg = (p, st') \<Longrightarrow> same_chan st st'"
  by (auto simp: encrypt_topic_payload_def encrypt_private_payload_def split: prod.splits sum.splits if_splits
      dest!: fallback_same_chan(1) encrypt_message_same_chan intro: same_chan_trans)

lemma attempt_encryption_returns:
  assumes "ratchets_keyed st"
  shows "\<exists>r st'. attempt_encryption L nonce net line lg st = Some (r, st') \<and> same_chan st st'"
proof -
  have all: "\<exists>p st'. (if b then Some (encrypt_topic_payload L nonce t m st lg)
      else if is_chan_prefixed t then encrypt_channel_payload L nonce t m st lg
      else Some (encrypt_private_payload L nonce t m net st lg)) = Some (p, st') \<and> same_chan st st'" for b t m
    using channel_payload_returns [OF assms, of L nonce t m lg] other_payloads_same
    by (cases "encrypt_topic_payload L nonce t m st lg"; cases "encrypt_private_payload L nonce t m net st lg") auto
  show ?thesis
    unfolding attempt_encryption_def Let_def
    using all by (auto split: option.split prod.split) (metis option.distinct(1) option.inject prod.inject)+
qed

lemma enter_network_same: "same_chan st (enter_network net st)"
  by (simp add: enter_network_def set_current_network_def same_chan_def split: option.split)

lemma on_outgoing_returns:
  assumes "ratchets_keyed st"
  shows "\<exists>r st'. on_outgoing L nonce net line lg st = Some (r, st') \<and> same_chan st st'"
proof -
  have k: "ratchets_keyed (enter_network net st)" using ratchets_keyed_same [OF assms enter_network_same] .
  show ?thesis
    using attempt_encryption_returns [OF k] same_chan_trans [OF enter_network_same]
    by (auto simp: on_outgoing_def split: option.split) (metis (mono_tags, lifting) case_prod_conv)
qed

lemma decrypt_with_same: "decrypt_with L ks d ad = (r, st') \<Longrightarrow> same_chan (snd ks) st'"
  by (auto simp: decrypt_with_def split: option.splits if_splits prod.splits sum.splits dest!: decrypt_unlocked_same_chan)

lemma channel_or_private_same: "same_chan st (snd (channel_or_private_key L i net st))"
  by (auto simp: channel_or_private_key_def split: prod.split sum.split dest!: fallback_same_chan(1))

lemma decrypt_channel_same:
  "decrypt_with L (channel_or_private_key L i net st) d ad = (r, st') \<Longrightarrow> same_chan st st'"
  using channel_or_private_same decrypt_with_same same_chan_trans by blast

lemma topic_answer_same: "same_chan st (snd (topic_answer L net line i ch lg st))"
proof (cases "starts_with ''+FCEP_TOPIC+'' (drop (i + 2) line)")
  case True
  then show ?thesis by (auto simp: topic_answer_def Let_def split: prod.split dest!: decrypt_channel_same)
next
  case False
  then show ?thesis by (simp add: topic_answer_def Let_def split: sum.split option.split)
qed

lemma topics_same:
  "same_chan st (snd (topic_332 L net line lg st))" "same_chan st (snd (topic_notice L net line lg st))"
  by (simp_all add: topic_332_def topic_notice_def Let_def topic_answer_same split: option.split list.split)

lemma fish11_answer_same: "same_chan st (snd (fish11_answer L net p line st))"
  by (auto simp: fish11_answer_def Let_def split: option.split prod.split dest!: decrypt_channel_same)
    (auto dest!: decrypt_with_same)

lemma attempt_decryption_same: "attempt_decryption L net line lg st = (r, st') \<Longrightarrow> same_chan st st'"
proof -
  assume a: "attempt_decryption L net line lg st = (r, st')"
  obtain x st1 where t1: "topic_332 L net line lg st = (x, st1)" by force
  obtain y st2 where t2: "topic_notice L net line lg st1 = (y, st2)" by force
  have s: "same_chan st st1" "same_chan st1 st2"
    using topics_same(1) [of st L net line lg] topics_same(2) [of st1 L net line lg] t1 t2 by simp_all
  have "st' = st1 \<or> st' = st2 \<or> st' = snd (fish11_answer L net (get_encryption_prefix st2) line st2)"
    using a by (auto simp: attempt_decryption_def t1 t2 Let_def split: sum.splits if_splits option.splits)
  then show ?thesis using s fish11_answer_same same_chan_trans by metis
qed

lemma on_incoming_same: "on_incoming L net line lg st = (r, st') \<Longrightarrow> same_chan st st'"
  using enter_network_same attempt_decryption_same same_chan_trans
  by (auto simp: on_incoming_def Let_def split: option.splits if_splits prod.splits) metis

lemma settings_same: "update_fish11_config s st = (r, st') \<Longrightarrow> same_chan st st'"
  "update_startup_time now st = (r, st') \<Longrightarrow> same_chan st st'"
  unfolding update_fish11_config_def update_startup_time_def by (erule same_chan_mut [rotated], simp)+

inductive_cases dll_stepE: "dll_step L st st'"

lemma dll_step_keyed: "dll_step L st st' \<Longrightarrow> ratchets_keyed st \<Longrightarrow> ratchets_keyed st'"
proof (induction rule: dll_step.induct)
  case (decrypt input st r st')
  then show ?case using DecryptMsg_returns [of st L input] ratchets_keyed_same by auto
next
  case (outgoing nonce net line lg st ro st')
  then show ?case using on_outgoing_returns [of st L nonce net line lg] ratchets_keyed_same by auto
qed (auto intro: on_incoming_same settings_same ratchets_keyed_same InitChannelKey_keyed ProcessChannelKey_keyed remove_ratchet_keyed
      EncryptMsg_same_chan SetKey_same_chan SetKeyFromPlaintext_same_chan SetManual_same_chan
      HasManual_same_chan FileGetKey_same_chan FileDelKey_same_chan ProcessPublicKey_same_chan
      config_ops_same_chan simp: same_chan_def set_current_network_def)

lemma dll_reach_keyed: "dll_reach L st \<Longrightarrow> ratchets_keyed st"
proof (induction rule: dll_reach.induct)
  case (start st)
  then show ?case by (simp add: fresh_start_def ratchets_keyed_def hm_has_def)
next
  case (step st st')
  then show ?case using dll_step_keyed by blast
qed



lemma fixed_private_key:
  assumes "hm_get (c_entries (s_config st)) (entry_name (normalize_nick n) ''default'') =
      Some \<lparr>e_key = Some (base64_encode L key), e_date = d, e_is_exchange = Some False\<rparr>"
    "s_network st = None" "hm_get (c_nick_networks (s_config st)) (normalize_nick n) = None"
    "b64_law L" "length key = 32"
  shows "get_private_key L n st = (Inr key, persist (mark_dirty (s_config st)) st)"
proof -
  have "check_key_expiry L n None st = (Inr (), persist (mark_dirty (s_config st)) st)"
    unfolding check_key_expiry_def Let_def
    by (subst with_config_mut_persist [of _ _ "Inr False" "mark_dirty (s_config st)"])
      (auto simp: assms(1,2) resolve_network_name_simple_def get_current_network_def)
  moreover have "get_key L n None (persist (mark_dirty (s_config st)) st) = Inr key"
    using assms by (simp add: get_key_def with_config_def get_key_internal_def own_network_def
        get_network_for_nick_internal_def usable_key_def check_expiration_def Let_def)
  ultimately show ?thesis using assms(5) by (simp add: get_private_key_def)
qed

text \<open>a key that the user stored under a channel's name works in one direction only.
  Without a channel key, \<open>EncryptMsg\<close> falls through to that key and sends, while
  \<open>DecryptMsg\<close> never looks at it and fails on every message, in every reachable store.\<close>

theorem channel_private_key_one_way:
  assumes "dll_reach L st" "parse_input input = Inr p" "is_chan_prefixed (pi_target p)"
    "\<not> fst (has_channel_key L (pi_target p) st)"
    "hm_get (c_entries (s_config st)) (entry_name (normalize_nick (pi_target p)) ''default'') =
      Some \<lparr>e_key = Some (base64_encode L key), e_date = d, e_is_exchange = Some False\<rparr>"
    "s_network st = None" "hm_get (c_nick_networks (s_config st)) (normalize_nick (pi_target p)) = None"
    "lib_ok L" "length key = 32" "length nonce = 24" "length (pi_message p) \<le> 4096"
    "utf8_valid (as_bytes (pi_message p))" "pi_message p \<noteq> []" "normalize_nick (pi_target p) \<noteq> []"
  shows "(\<exists>c. fst (FiSH11_EncryptMsg L nonce input st) = Inr (''+FiSH '' @ c)) \<and>
    (\<exists>e st'. FiSH11_DecryptMsg L input st = Some (Inl e, st'))"
proof
  show "\<exists>e st'. FiSH11_DecryptMsg L input st = Some (Inl e, st')"
    using DecryptMsg_unkeyed [OF dll_reach_keyed [OF assms(1)] assms(2-4)] by blast
  obtain e s where g: "get_channel_key_with_fallback L (pi_target p) st = (Inl e, s)"
    using fallback_none [OF assms(4)] by blast
  have same: "same_but_metrics st s" using fallback_same(1) [OF g] .
  have "get_private_key L (normalize_nick (pi_target p)) s = (Inr key, persist (mark_dirty (s_config s)) s)"
    using assms same_but_metrics_fields [OF same] by (intro fixed_private_key) (auto simp: lib_ok_def)
  moreover obtain c where "encrypt_message L nonce key (pi_message p) None (persist (mark_dirty (s_config s)) s) =
      (Inr c, increment_encryption_counter (persist (mark_dirty (s_config s)) s))"
    using encrypt_then_decrypt [OF assms(8-10,13,11,12), of None] by blast
  ultimately show "\<exists>c. fst (FiSH11_EncryptMsg L nonce input st) = Inr (''+FiSH '' @ c)"
    using assms(2,3,14) g by (simp add: FiSH11_EncryptMsg_def normalize_private_target_def Let_def)
qed

lemma channel_private_key_one_way_witness:
  "\<exists>st c e st'. fst (FiSH11_EncryptMsg ref_lib (replicate 24 5) ''#fish hello'' st) = Inr (''+FiSH '' @ c) \<and>
     FiSH11_DecryptMsg ref_lib ''#fish hello'' st = Some (Inl e, st')"
proof -
  define st where "st = sample_store\<lparr>s_config := (s_config sample_store)\<lparr>c_entries :=
     [(''#fish@default'', \<lparr>e_key = Some (base64_encode ref_lib (replicate 32 7)), e_date = None, e_is_exchange = Some False\<rparr>)]\<rparr>\<rparr>"
  have n: "normalize_nick ''#fish'' = ''#fish''" "entry_name ''#fish'' ''default'' = ''#fish@default''"
    "to_lowercase ''#fish'' = ''#fish''" "manual_entry_key ''#fish'' \<noteq> ''#fish@default''" by code_simp+
  have p: "parse_input ''#fish hello'' = Inr \<lparr>pi_target = ''#fish'', pi_message = ''hello''\<rparr>"
    using parse_input_parts [OF fish_target(1,2), of "''hello''"] by simp
  have r: "dll_reach ref_lib st"
    by (rule dll_reach.start) (simp add: fresh_start_def st_def sample_store_facts)
  have "no_manual st ''#fish''" using n by (simp add: no_manual_def st_def)
  then have "\<not> fst (has_channel_key ref_lib ''#fish'' st)"
    by (simp add: has_channel_key_used get_channel_key_def with_config_def st_def sample_store_facts Let_def)
  then show ?thesis
    using channel_private_key_one_way [OF r p, of "replicate 32 7" None "replicate 24 5"] n fish_target(3,4)
    by (auto simp: st_def sample_store_facts intro!: exI [of _ st])
qed

end
