(* ===== verification/Distribution.thy ===== *)
theory Distribution
  imports DllReach
begin

text \<open>
  The life of a channel key: created by \<open>FiSH11_InitChannelKey\<close>, wrapped for every
  member, carried by a notice and installed by \<open>FiSH11_ProcessChannelKey\<close>.
\<close>

section \<open>Wrapping for the members\<close>

definition key_notice :: "string \<Rightarrow> string \<Rightarrow> string \<Rightarrow> string \<Rightarrow> string" where
  "key_notice m ch self w = ''/notice '' @ m @ '' :+FiSH-CEP-KEY '' @ ch @ '' '' @ self @ '' '' @ w"

definition notice_for :: "ext_lib \<Rightarrow> (nat \<Rightarrow> bytes) \<Rightarrow> bytes \<Rightarrow> string \<Rightarrow> string \<Rightarrow> store \<Rightarrow> string list \<Rightarrow> string \<Rightarrow> bool" where
  "notice_for L nonces key ch self st cmds m =
     (\<exists>k w i. get_key L m None st = Inr k \<and> length k = 32 \<and> wrap_key L (nonces i) key k = Inr w \<and>
        key_notice m ch self w \<in> set cmds)"

lemma notice_for_mono: "notice_for L nonces key ch self st cmds m \<Longrightarrow> set cmds \<subseteq> set cmds' \<Longrightarrow>
    notice_for L nonces key ch self st cmds' m"
  by (auto simp: notice_for_def)

lemma wrap_for_members_spec:
  "wrap_for_members L nonces key ch self st ms cmds0 failed0 = Inr (cmds, failed) \<Longrightarrow>
   set cmds0 \<subseteq> set cmds \<and> set failed0 \<subseteq> set failed \<and>
   (\<forall>m \<in> set ms. m \<noteq> self \<longrightarrow> m \<in> set failed \<or> notice_for L nonces key ch self st cmds m)"
proof (induction ms arbitrary: cmds0 failed0)
  case (Cons m ms)
  show ?case
  proof (cases "m = self")
    case True
    then show ?thesis using Cons by auto
  next
    case False
    show ?thesis
    proof (cases "get_key L m None st")
      case (Inl e)
      then have "wrap_for_members L nonces key ch self st ms cmds0 (failed0 @ [m]) = Inr (cmds, failed)"
        using Cons.prems False by simp
      from Cons.IH [OF this] show ?thesis by auto
    next
      case (Inr k)
      then have len: "length k = 32" using Cons.prems False by (simp split: if_splits)
      then obtain w where w: "wrap_key L (nonces (length cmds0)) key k = Inr w"
        using Cons.prems False Inr by (auto split: sum.splits)
      have "wrap_for_members L nonces key ch self st ms (cmds0 @ [key_notice m ch self w]) failed0 = Inr (cmds, failed)"
        using Cons.prems False Inr len w by (simp add: key_notice_def)
      from Cons.IH [OF this] have sub: "set (cmds0 @ [key_notice m ch self w]) \<subseteq> set cmds" "set failed0 \<subseteq> set failed"
        and all: "\<forall>m \<in> set ms. m \<noteq> self \<longrightarrow> m \<in> set failed \<or> notice_for L nonces key ch self st cmds m"
        by auto
      have "notice_for L nonces key ch self st cmds m"
        unfolding notice_for_def using Inr len w sub(1) by auto
      then show ?thesis using sub all by auto
    qed
  qed
qed simp

section \<open>Installing a key\<close>

lemma set_channel_key_reads:
  assumes "set_channel_key ch k st = (Inr (), st')" "length k = 32"
  shows "get_channel_key ch st' = Inr k"
proof -
  have ok: "chan_name_ok ch" using set_channel_key_bad [of ch k st] assms(1) by (cases "chan_name_ok ch") auto
  then have "is_chan_prefixed (to_lowercase ch)" by (simp add: chan_name_ok_def)
  then show ?thesis
    using set_channel_key_ok [OF ok, of k st] assms by (auto simp: get_channel_key_def with_config_def Let_def)
qed

lemma set_channel_key_rest:
  assumes "set_channel_key ch k st = (r, st')"
  shows "c_ratchets (s_config st') = c_ratchets (s_config st)" "c_entries (s_config st') = c_entries (s_config st)"
    "c_nick_networks (s_config st') = c_nick_networks (s_config st)" "c_fish11 (s_config st') = c_fish11 (s_config st)"
    "s_clock st' = s_clock st" "s_network st' = s_network st"
  using set_channel_key_bad [of ch k st] set_channel_key_ok [of ch k st] assms
  by (cases "chan_name_ok ch"; auto)+

lemma init_ratchet_rest:
  assumes "init_ratchet_state ch k st = (r, st')"
  shows "get_channel_key c st' = get_channel_key c st" "c_entries (s_config st') = c_entries (s_config st)"
    "c_nick_networks (s_config st') = c_nick_networks (s_config st)" "c_fish11 (s_config st') = c_fish11 (s_config st)"
    "s_clock st' = s_clock st" "s_network st' = s_network st"
proof -
  let ?c = "case hm_get (c_ratchets (s_config st)) (to_lowercase ch) of
      Some _ \<Rightarrow> mark_dirty (s_config st)
    | None \<Rightarrow> (mark_dirty (s_config st))\<lparr>c_ratchets := hm_insert (to_lowercase ch) (ratchet_new k) (c_ratchets (s_config st))\<rparr>"
  have "init_ratchet_state ch k st = (Inr (), persist ?c st)"
    unfolding init_ratchet_state_def Let_def
    by (rule with_config_mut_persist) (auto split: option.splits)
  then have "st' = persist ?c st" using assms by simp
  then show "get_channel_key c st' = get_channel_key c st" "c_entries (s_config st') = c_entries (s_config st)"
    "c_nick_networks (s_config st') = c_nick_networks (s_config st)" "c_fish11 (s_config st') = c_fish11 (s_config st)"
    "s_clock st' = s_clock st" "s_network st' = s_network st"
    by (auto simp: get_channel_key_def with_config_def Let_def split: option.splits)
qed

lemma get_key_frame:
  assumes "c_entries (s_config st') = c_entries (s_config st)"
    "c_nick_networks (s_config st') = c_nick_networks (s_config st)" "c_fish11 (s_config st') = c_fish11 (s_config st)"
    "s_clock st' = s_clock st"
  shows "get_key L n net st' = get_key L n net st"
  unfolding get_key_def with_config_def assms(4)
  by (rule get_key_depends) (simp_all add: assms)

lemma wrapped_no_space: "b64_law L \<Longrightarrow> wrap_key L n k s = Inr w \<Longrightarrow> CHR '' '' \<notin> set w"
  using b64_graphic [of L] by (fastforce simp: wrap_key_def list_all_iff graphic_def split: option.splits)

lemma no_space_no_prefix: "CHR '' '' \<notin> set w \<Longrightarrow> \<not> starts_with ''+FiSH '' w"
proof
  assume w: "CHR '' '' \<notin> set w" and "starts_with ''+FiSH '' w"
  then obtain t where "w = ''+FiSH '' @ t" by (auto simp: starts_with_iff)
  then show False using w by simp
qed

lemma wrap_unwrap:
  assumes "lib_ok L" "length s = 32" "length n = 24" "length key = 32" "wrap_key L n key s = Inr w"
  shows "unwrap_key L w s = Inr key"
proof -
  obtain ct where "xseal L s n [] key = Some ct" "length ct = length key + 16" "xopen L s n [] ct = Some key"
    using aead_seal [OF aead_law_ok(1) [OF assms(1)] assms(2,3), of "[]" key] by auto
  then show ?thesis
    using assms aead_law_ok(2) [OF assms(1)]
    by (auto simp: wrap_key_def unwrap_key_def b64_roundtrip NONCE_SIZE_BYTES_def)
qed

lemma process_channel_installs:
  assumes "lib_ok L" "CHR '' '' \<notin> set ch" "CHR '' '' \<notin> set co" "CHR '' '' \<notin> set w" "get_key L co None st = Inr s"
    "length s = 32" "unwrap_key L w s = Inr key" "chan_name_ok ch"
  shows "\<exists>msg st'. FiSH11_ProcessChannelKey L (ch @ '' '' @ co @ '' '' @ co @ '' '' @ w) st = (Inr msg, st') \<and>
    get_channel_key ch st' = Inr key"
proof -
  have parts: "splitn_char 4 (CHR '' '') (ch @ '' '' @ co @ '' '' @ co @ '' '' @ w) = [ch, co, co, w]"
    using assms(2-4) by (simp add: splitn_4 split_once_char)
  obtain st1 where s1: "set_channel_key ch key st = (Inr (), st1)"
    using set_channel_key_ok [OF assms(8), of key st] by blast
  obtain r st2 where s2: "init_ratchet_state ch key st1 = (r, st2)" by force
  have "get_channel_key ch st2 = Inr key"
    using set_channel_key_reads [OF s1 unwrap_length [OF assms(7)]] init_ratchet_rest(1) [OF s2] by simp
  then show ?thesis
    using assms(5-7) s1 s2 init_ratchet_effect(1) [OF s2] parts
    by (simp add: FiSH11_ProcessChannelKey_def no_space_no_prefix [OF assms(4)])
qed

section \<open>The coordinator\<close>

text \<open>The answer once the key is installed.\<close>

definition init_answer ::
  "ext_lib \<Rightarrow> (nat \<Rightarrow> bytes) \<Rightarrow> bytes \<Rightarrow> string \<Rightarrow> string \<Rightarrow> string list \<Rightarrow> store \<Rightarrow> (DllError, string) result" where
  "init_answer L nonces key ch self ms st =
     (case wrap_for_members L nonces key ch self st ms [] [] of
        Inl e \<Rightarrow> Inl e
      | Inr (commands, failed_members) \<Rightarrow>
          if failed_members \<noteq> [] then
            Inl (ConfigErr (''Missing pre-shared keys for: '' @ join '', '' failed_members @
               ''. Please establish keys with these users first using /fish11_X25519_INIT''))
          else if commands = [] then
            Inl (InvalidInput ''members''
               ''No valid recipients (all members either lack pre-shared keys or are yourself)'')
          else Inr (join '' | '' (commands @
               [''[KEY] Channel key for '' @ ch @ '' generated and distributed to '' @
                show_nat (length commands) @ '' member(s)''])))"

lemma init_channel_run:
  assumes "split_whitespace input = ch # m0 # ms" "f_nickname (c_fish11 (s_config st)) \<noteq> []" "chan_name_ok ch"
  shows "\<exists>st1 st2. set_channel_key ch key st = (Inr (), st1) \<and> init_ratchet_state ch key st1 = (Inr (), st2) \<and>
    FiSH11_InitChannelKey L key nonces input st =
      (init_answer L nonces key ch (f_nickname (c_fish11 (s_config st))) (m0 # ms) st2, st2)"
proof -
  obtain st1 where s1: "set_channel_key ch key st = (Inr (), st1)"
    using set_channel_key_ok [OF assms(3), of key st] by blast
  obtain q st2 where s2: "init_ratchet_state ch key st1 = (q, st2)" by force
  have q: "q = Inr ()" using init_ratchet_effect(1) [OF s2] .
  have "FiSH11_InitChannelKey L key nonces input st =
      (init_answer L nonces key ch (f_nickname (c_fish11 (s_config st))) (m0 # ms) st2, st2)"
    using assms(2)
    by (auto simp: FiSH11_InitChannelKey_def assms(1) with_config_def s1 s2 q init_answer_def Let_def
        simp del: wrap_for_members.simps append.simps split: sum.split prod.split)
  then show ?thesis using s1 s2 q by blast
qed

lemma init_channel_named:
  assumes "split_whitespace input = ch # m0 # ms" "FiSH11_InitChannelKey L key nonces input st = (Inr out, st')"
  shows "chan_name_ok ch" "f_nickname (c_fish11 (s_config st)) \<noteq> []"
proof -
  show n: "f_nickname (c_fish11 (s_config st)) \<noteq> []"
    using assms by (auto simp: FiSH11_InitChannelKey_def with_config_def Let_def)
  show "chan_name_ok ch"
  proof (rule ccontr)
    assume "\<not> chan_name_ok ch"
    then obtain m where "set_channel_key ch key st = (Inl (FE_InvalidInput m), st)"
      using set_channel_key_bad by blast
    then show False using assms n by (simp add: FiSH11_InitChannelKey_def with_config_def)
  qed
qed

section \<open>Properties\<close>

text \<open>C5: a successful \<open>FiSH11_InitChannelKey\<close> installs the new key for the coordinator
  and puts into its answer, for every listed member but the coordinator, a notice whose
  wrapped key the member installs: \<open>FiSH11_ProcessChannelKey\<close> on it succeeds on every
  store that shares the pairwise key, and the member then has the same channel key.\<close>

theorem channel_key_distribution:
  assumes "lib_ok L" "length key = 32" "\<And>i. length (nonces i) = 24"
    "split_whitespace input = ch # m0 # ms" "FiSH11_InitChannelKey L key nonces input stA = (Inr out, stA')"
    "self = f_nickname (c_fish11 (s_config stA))" "m \<in> set (m0 # ms)" "m \<noteq> self"
    "CHR '' '' \<notin> set ch" "CHR '' '' \<notin> set self"
  shows "get_channel_key ch stA' = Inr key \<and>
    (\<exists>cmds summary w k. out = join '' | '' (cmds @ [summary]) \<and> key_notice m ch self w \<in> set cmds \<and>
       get_key L m None stA = Inr k \<and>
       (\<forall>stB. get_key L self None stB = Inr k \<longrightarrow>
          (\<exists>msg stB'. FiSH11_ProcessChannelKey L (ch @ '' '' @ self @ '' '' @ self @ '' '' @ w) stB = (Inr msg, stB') \<and>
             get_channel_key ch stB' = Inr key)))"
proof
  note named = init_channel_named [OF assms(4,5)]
  obtain st1 where s: "set_channel_key ch key stA = (Inr (), st1)" "init_ratchet_state ch key st1 = (Inr (), stA')"
    and ans: "init_answer L nonces key ch self (m0 # ms) stA' = Inr out"
    using init_channel_run [OF assms(4) named(2,1), of key L nonces] assms(5,6) by auto
  show "get_channel_key ch stA' = Inr key"
    using set_channel_key_reads [OF s(1) assms(2)] init_ratchet_rest(1) [OF s(2)] by simp
  obtain cmds failed where wr: "wrap_for_members L nonces key ch self stA' (m0 # ms) [] [] = Inr (cmds, failed)"
    using ans by (cases "wrap_for_members L nonces key ch self stA' (m0 # ms) [] []") (auto simp: init_answer_def)
  have out: "failed = []" "\<exists>summary. out = join '' | '' (cmds @ [summary])"
    using ans unfolding init_answer_def wr by (auto split: if_splits)
  have "notice_for L nonces key ch self stA' cmds m"
    using wrap_for_members_spec [OF wr] assms(7,8) out(1) by auto
  then obtain k w i where k: "get_key L m None stA' = Inr k" "length k = 32" "wrap_key L (nonces i) key k = Inr w"
      "key_notice m ch self w \<in> set cmds"
    unfolding notice_for_def by blast
  have kA: "get_key L m None stA = Inr k"
    using k(1) get_key_frame [of stA' stA L m None] set_channel_key_rest [OF s(1)] init_ratchet_rest [OF s(2)] by simp
  have "\<exists>msg stB'. FiSH11_ProcessChannelKey L (ch @ '' '' @ self @ '' '' @ self @ '' '' @ w) stB = (Inr msg, stB') \<and>
      get_channel_key ch stB' = Inr key" if "get_key L self None stB = Inr k" for stB
    using process_channel_installs [OF assms(1,9,10) wrapped_no_space [OF aead_law_ok(2) [OF assms(1)] k(3)] that k(2)
        wrap_unwrap [OF assms(1) k(2) assms(3,2) k(3)] named(1)] .
  then show "\<exists>cmds summary w k. out = join '' | '' (cmds @ [summary]) \<and> key_notice m ch self w \<in> set cmds \<and>
       get_key L m None stA = Inr k \<and>
       (\<forall>stB. get_key L self None stB = Inr k \<longrightarrow>
          (\<exists>msg stB'. FiSH11_ProcessChannelKey L (ch @ '' '' @ self @ '' '' @ self @ '' '' @ w) stB = (Inr msg, stB') \<and>
             get_channel_key ch stB' = Inr key))"
    using out(2) k(4) kA by blast
qed

text \<open>A coordinator \<open>alice\<close> who shares a key with \<open>bob\<close>, and the other way round.\<close>

definition peer_store :: "string \<Rightarrow> string \<Rightarrow> store" where
  "peer_store self peer = sample_store\<lparr>s_config := (s_config sample_store)\<lparr>
     c_fish11 := (c_fish11 (s_config sample_store))\<lparr>f_nickname := self\<rparr>,
     c_entries := [(entry_name peer ''default'',
       \<lparr>e_key = Some (base64_encode ref_lib (replicate 32 7)), e_date = None, e_is_exchange = Some False\<rparr>)]\<rparr>\<rparr>"

lemma peer_key:
  "normalize_nick peer = peer \<Longrightarrow> get_key ref_lib peer None (peer_store self peer) = Inr (replicate 32 7)"
  by (simp add: peer_store_def get_key_def with_config_def get_key_internal_def own_network_def sample_store_facts
      get_network_for_nick_internal_def usable_key_def check_expiration_def Let_def)

lemma sample_init:
  "\<exists>out st'. FiSH11_InitChannelKey ref_lib (replicate 32 9) (\<lambda>i. replicate 24 5) ''#fish bob'' (peer_store ''alice'' ''bob'') = (Inr out, st')"
proof -
  have sp: "split_whitespace ''#fish bob'' = ''#fish'' # ''bob'' # []" "chan_name_ok ''#fish''" "normalize_nick ''bob'' = ''bob''"
    by code_simp+
  have nick: "f_nickname (c_fish11 (s_config (peer_store ''alice'' ''bob''))) = ''alice''"
    by (simp add: peer_store_def)
  obtain st1 st2 where s: "set_channel_key ''#fish'' (replicate 32 9) (peer_store ''alice'' ''bob'') = (Inr (), st1)"
      "init_ratchet_state ''#fish'' (replicate 32 9) st1 = (Inr (), st2)"
      "FiSH11_InitChannelKey ref_lib (replicate 32 9) (\<lambda>i. replicate 24 5) ''#fish bob'' (peer_store ''alice'' ''bob'') =
        (init_answer ref_lib (\<lambda>i. replicate 24 5) (replicate 32 9) ''#fish'' ''alice'' [''bob''] st2, st2)"
    using init_channel_run [OF sp(1) _ sp(2), of "peer_store ''alice'' ''bob''" "replicate 32 9" ref_lib "\<lambda>i. replicate 24 5"] nick
    by auto
  have k: "get_key ref_lib ''bob'' None st2 = Inr (replicate 32 7)"
    using peer_key [OF sp(3), of "''alice''"] get_key_frame [of st2 "peer_store ''alice'' ''bob''" ref_lib "''bob''" None]
      set_channel_key_rest [OF s(1)] init_ratchet_rest [OF s(2)] by simp
  obtain w where "wrap_key ref_lib (replicate 24 5) (replicate 32 9) (replicate 32 7) = Inr w"
    by (auto simp: wrap_key_def ref_simps)
  then show ?thesis using s(3) k by (simp add: init_answer_def)
qed

lemma channel_key_distribution_witness:
  "\<exists>w stA' stB'. FiSH11_ProcessChannelKey ref_lib (''#fish alice alice '' @ w) (peer_store ''bob'' ''alice'') = stB' \<and>
     get_channel_key ''#fish'' (snd stB') = Inr (replicate 32 9) \<and> get_channel_key ''#fish'' stA' = Inr (replicate 32 9)"
proof -
  have sp: "split_whitespace ''#fish bob'' = ''#fish'' # ''bob'' # []" "normalize_nick ''bob'' = ''bob''"
    "normalize_nick ''alice'' = ''alice''" by code_simp+
  have nick: "''alice'' = f_nickname (c_fish11 (s_config (peer_store ''alice'' ''bob'')))"
    by (simp add: peer_store_def)
  obtain out st' where "FiSH11_InitChannelKey ref_lib (replicate 32 9) (\<lambda>i. replicate 24 5) ''#fish bob'' (peer_store ''alice'' ''bob'') = (Inr out, st')"
    using sample_init by blast
  from channel_key_distribution [OF _ _ _ sp(1) this nick, of "''bob''"] peer_key [OF sp(2), of "''alice''"] peer_key [OF sp(3), of "''bob''"]
  show ?thesis by (auto simp: fish_target) (metis snd_conv)
qed

text \<open>\<open>FiSH11_ProcessChannelKey\<close> refuses a key whose claimed coordinator is not the
  actual sender, and one that does not authenticate under the key shared with the
  coordinator, and then changes nothing.\<close>

theorem channel_key_sender_checked:
  assumes "splitn_char 4 (CHR '' '') input = [ch, co, sender, w]"
    "co \<noteq> sender \<or> (\<exists>s. get_key L co None st = Inr s \<and>
       \<not> is_ok (unwrap_key L (if starts_with ''+FiSH '' w then drop 6 w else w) s))"
  shows "\<exists>e. FiSH11_ProcessChannelKey L input st = (Inl e, st)"
proof (cases "co = sender")
  case False
  then show ?thesis using assms(1) by (simp add: FiSH11_ProcessChannelKey_def)
next
  case True
  then obtain s where s: "get_key L co None st = Inr s"
      "\<not> is_ok (unwrap_key L (if starts_with ''+FiSH '' w then drop 6 w else w) s)"
    using assms(2) by blast
  then obtain e where "unwrap_key L (if starts_with ''+FiSH '' w then drop 6 w else w) s = Inl e"
    unfolding is_ok_def by (auto split: sum.splits)
  then show ?thesis using True s(1) assms(1) by (simp add: FiSH11_ProcessChannelKey_def Let_def)
qed

lemma channel_key_sender_checked_witness:
  "\<exists>e. FiSH11_ProcessChannelKey ref_lib ''#fish alice eve AAAA'' (peer_store ''bob'' ''alice'') = (Inl e, peer_store ''bob'' ''alice'')"
proof -
  have "splitn_char 4 (CHR '' '') ''#fish alice eve AAAA'' = [''#fish'', ''alice'', ''eve'', ''AAAA'']"
    by code_simp
  then show ?thesis by (rule channel_key_sender_checked) simp
qed

text \<open>the new channel key replaces the old one before any member is looked at: when
  \<open>FiSH11_InitChannelKey\<close> then fails, for a member without a key for instance, the call
  answers an error and the coordinator alone has the new key; a ratchet that existed
  keeps its old state either way.\<close>

theorem init_failure_keeps_new_key:
  assumes "split_whitespace input = ch # m0 # ms" "f_nickname (c_fish11 (s_config st)) \<noteq> []" "chan_name_ok ch"
    "length key = 32" "FiSH11_InitChannelKey L key nonces input st = (r, st')"
  shows "get_channel_key ch st' = Inr key \<and>
    (\<forall>rs. hm_get (c_ratchets (s_config st)) (to_lowercase ch) = Some rs \<longrightarrow>
       hm_get (c_ratchets (s_config st')) (to_lowercase ch) = Some rs) \<and>
    ((\<exists>m \<in> set (m0 # ms). m \<noteq> f_nickname (c_fish11 (s_config st)) \<and> \<not> is_ok (get_key L m None st)) \<longrightarrow> \<not> is_ok r)"
proof (intro conjI allI impI)
  let ?self = "f_nickname (c_fish11 (s_config st))"
  obtain st1 where s: "set_channel_key ch key st = (Inr (), st1)" "init_ratchet_state ch key st1 = (Inr (), st')"
    and ans: "r = init_answer L nonces key ch ?self (m0 # ms) st'"
    using init_channel_run [OF assms(1-3), of key L nonces] assms(5) by auto
  show "get_channel_key ch st' = Inr key"
    using set_channel_key_reads [OF s(1) assms(4)] init_ratchet_rest(1) [OF s(2)] by simp
  show "hm_get (c_ratchets (s_config st')) (to_lowercase ch) = Some rs"
    if "hm_get (c_ratchets (s_config st)) (to_lowercase ch) = Some rs" for rs
    using that set_channel_key_rest(1) [OF s(1)] init_ratchet_effect(3) [OF s(2)] by simp
  assume "\<exists>m \<in> set (m0 # ms). m \<noteq> ?self \<and> \<not> is_ok (get_key L m None st)"
  then obtain m where m: "m \<in> set (m0 # ms)" "m \<noteq> ?self" "\<not> is_ok (get_key L m None st)" by blast
  have k: "get_key L m None st' = get_key L m None st"
    using get_key_frame [of st' st L m None] set_channel_key_rest [OF s(1)] init_ratchet_rest [OF s(2)] by simp
  show "\<not> is_ok r"
  proof (cases "wrap_for_members L nonces key ch ?self st' (m0 # ms) [] []")
    case (Inr p)
    obtain cmds failed where p: "p = (cmds, failed)" by force
    have "m \<in> set failed \<or> notice_for L nonces key ch ?self st' cmds m"
      using wrap_for_members_spec [OF Inr [unfolded p]] m(1,2) by blast
    then have "m \<in> set failed" using m(3) k by (auto simp: notice_for_def)
    then show ?thesis unfolding ans init_answer_def Inr p by auto
  qed (simp add: ans init_answer_def)
qed

lemma init_failure_keeps_new_key_witness:
  "\<exists>e st'. FiSH11_InitChannelKey ref_lib (replicate 32 9) (\<lambda>i. replicate 24 5) ''#fish bob'' (peer_store ''alice'' ''carol'') = (Inl e, st') \<and>
     get_channel_key ''#fish'' st' = Inr (replicate 32 9)"
proof -
  have sp: "split_whitespace ''#fish bob'' = ''#fish'' # ''bob'' # []" "normalize_nick ''bob'' = ''bob''" "chan_name_ok ''#fish''"
    "entry_name ''bob'' ''default'' = ''bob@default''" "entry_name ''carol'' ''default'' = ''carol@default''"
    "\<not> starts_with ''bob@'' ''carol@default''" by code_simp+
  have nick: "f_nickname (c_fish11 (s_config (peer_store ''alice'' ''carol''))) = ''alice''"
    by (simp add: peer_store_def)
  have none: "\<not> is_ok (get_key ref_lib ''bob'' None (peer_store ''alice'' ''carol''))"
    using sp(6) by (simp add: peer_store_def get_key_def with_config_def get_key_internal_def own_network_def sample_store_facts
        get_network_for_nick_internal_def sp Let_def)
  obtain r st' where i: "FiSH11_InitChannelKey ref_lib (replicate 32 9) (\<lambda>i. replicate 24 5) ''#fish bob'' (peer_store ''alice'' ''carol'') = (r, st')"
    by force
  show ?thesis
    using init_failure_keeps_new_key [OF sp(1) _ sp(3) _ i] nick none i by (cases r) auto
qed

end
