(* ===== verification/LegacyFacts.thy ===== *)
theory LegacyFacts
  imports Dh1080
begin

text \<open>
  Properties of the FiSH 10 layer: key agreement of DH1080, messages through the
  exported functions, persistence of keys in \<open>blowfish.ini\<close>, and the reach of the
  legacy engine.
\<close>

section \<open>DH1080\<close>

lemma b64_pad_fill:
  assumes "n + b64_pad m = 4 * k"
  shows "(4 - n mod 4) mod 4 = b64_pad m"
proof -
  have "b64_pad m < 3" by (simp add: b64_pad_def)
  then consider "b64_pad m = 0" | "b64_pad m = 1" | "b64_pad m = 2" by linarith
  then show ?thesis
  proof cases
    case 1
    then show ?thesis using assms by simp
  next
    case 2
    then have "n mod 4 = 3" using assms by presburger
    then show ?thesis using 2 by simp
  next
    case 3
    then have "n mod 4 = 2" using assms by presburger
    then show ?thesis using 3 by simp
  qed
qed

lemma dh1080_base64_roundtrip:
  assumes "b64_law L"
  shows "dh1080_base64_decode L (dh1080_base64_encode L bs) = Inr bs"
proof -
  obtain t where t: "b64_enc L bs = t @ replicate (b64_pad (length bs)) (CHR ''='')" "list_all b64_char t"
    using b64_form [OF assms] .
  have "filter (\<lambda>c. c \<noteq> CHR ''='') t = t"
    using t(2) by (intro filter_True) (auto simp: list_all_iff dest: b64_char_noteq)
  then have e: "dh1080_base64_encode L bs = t @ ''A''" by (simp add: dh1080_base64_encode_def t(1))
  have "length t + b64_pad (length bs) = 4 * ((length bs + 2) div 3)"
    using b64_length [OF assms, of bs] t(1) by simp
  then have "(4 - length t mod 4) mod 4 = b64_pad (length bs)" by (rule b64_pad_fill)
  then show ?thesis
    using b64_roundtrip [OF assms, of bs] t(1)
    by (simp add: dh1080_base64_decode_def e ends_with_def)
qed

lemma prime_pos: "0 < DH1080_PRIME"
  by (simp add: DH1080_PRIME_def)

lemma compute_secret:
  assumes "lib_ok L" "pub = DH1080_GENERATOR ^ b mod DH1080_PRIME" "2 \<le> pub" "pub < DH1080_PRIME - 1"
  shows "compute_dh1080_shared_secret L a (dh_public (generate_dh1080_keypair L b)) =
    Inr (fish_b64_encode_hash L (sha256 L (pad135 (bn_to L (DH1080_GENERATOR ^ (a * b) mod DH1080_PRIME)))))"
proof -
  have laws: "b64_law L" "bn_law L" "modpow_law L" using assms(1) by (simp_all add: lib_ok_def)
  have bn: "bn_of L (pad135 (bn_to L n)) = n" for n using laws(2) by (simp add: bn_law_def pad135_def)
  have mp: "modpow L x e DH1080_PRIME = x ^ e mod DH1080_PRIME" for x e
    using laws(3) prime_pos by (simp add: modpow_law_def)
  have "(DH1080_GENERATOR ^ b mod DH1080_PRIME) ^ a mod DH1080_PRIME = DH1080_GENERATOR ^ (a * b) mod DH1080_PRIME"
    by (simp add: power_mod power_mult [symmetric] mult.commute)
  then show ?thesis using assms(2-4)
    by (simp add: compute_dh1080_shared_secret_def generate_dh1080_keypair_def
        dh1080_base64_roundtrip [OF laws(1)] bn mp Let_def)
qed

lemma hash_text_length:
  assumes "b64_law L" "length h = 32"
  shows "length (fish_b64_encode_hash L h) = 43"
proof -
  obtain t where t: "b64_enc L h = t @ replicate (b64_pad (length h)) (CHR ''='')" "list_all b64_char t"
    using b64_form [OF assms(1)] .
  have "filter (\<lambda>c. c \<noteq> CHR ''='') t = t"
    using t(2) by (intro filter_True) (auto simp: list_all_iff dest: b64_char_noteq)
  then show ?thesis
    using b64_length [OF assms(1), of h] t(1) assms(2) by (simp add: fish_b64_encode_hash_def b64_pad_def)
qed

definition in_range :: "nat \<Rightarrow> bool" where
  "in_range priv \<longleftrightarrow> 2 \<le> DH1080_GENERATOR ^ priv mod DH1080_PRIME \<and>
     DH1080_GENERATOR ^ priv mod DH1080_PRIME < DH1080_PRIME - 1"

lemma dh1080_public_graphic:
  assumes "b64_law L"
  shows "list_all graphic (dh_public (generate_dh1080_keypair L b))"
  using b64_graphic [OF assms]
  by (auto simp: generate_dh1080_keypair_def dh1080_base64_encode_def list_all_iff) (simp add: graphic_def)

text \<open>after both sides generated a pair and computed the secret from the other's
  public key, each stores the same 43-byte Blowfish key for the other.\<close>

theorem dh1080_agreement:
  assumes "lib_ok L" "in_range a" "in_range b"
    "CHR '' '' \<notin> set nB" "normalize_target_lowercase nB = nB" "CHR '' '' \<notin> set nA" "normalize_target_lowercase nA = nA"
    "FiSH10_DH1080_GenerateKeyPair L a nB lgA = (Inr pubA, lgA1)"
    "FiSH10_DH1080_GenerateKeyPair L b nA lgB = (Inr pubB, lgB1)"
  shows "\<exists>s lgA2 lgB2. FiSH10_DH1080_ComputeSecret L (nB @ '' '' @ pubB) lgA1 = (Inr s, lgA2) \<and>
    FiSH10_DH1080_ComputeSecret L (nA @ '' '' @ pubA) lgB1 = (Inr s, lgB2) \<and>
    get_legacy_key nB lgA2 = Some (as_bytes s) \<and> get_legacy_key nA lgB2 = Some (as_bytes s) \<and>
    length s = 43"
proof -
  have laws: "b64_law L" "hkdf_law L" using assms(1) by (simp_all add: lib_ok_def)
  define s where "s = fish_b64_encode_hash L (sha256 L (pad135 (bn_to L (DH1080_GENERATOR ^ (a * b) mod DH1080_PRIME))))"
  have pub: "pubA = dh_public (generate_dh1080_keypair L a)" "pubB = dh_public (generate_dh1080_keypair L b)"
    and lg: "hm_get (lg_dh lgA1) nB = Some a" "hm_get (lg_dh lgB1) nA = Some b"
    using assms(5,7-9) by (auto simp: FiSH10_DH1080_GenerateKeyPair_def generate_dh1080_keypair_def Let_def)
  have "compute_dh1080_shared_secret L a pubB = Inr s" "compute_dh1080_shared_secret L b pubA = Inr s"
    using compute_secret [OF assms(1) refl, of b a] compute_secret [OF assms(1) refl, of a b] assms(2,3)
    by (simp_all add: pub s_def in_range_def mult.commute)
  moreover have "trim pubA = pubA" "trim pubB = pubB"
    using dh1080_public_graphic [OF laws(1)] by (simp_all add: pub trim_graphic)
  moreover have "length s = 43"
    using hash_text_length [OF laws(1)] laws(2) by (simp add: s_def hkdf_law_def)
  moreover have "splitn_char 2 (CHR '' '') (n @ CHR '' '' # x) = [n, x]" if "CHR '' '' \<notin> set n" for n x
    using that by (simp add: splitn_char.simps numeral_2_eq_2 split_once_char)
  ultimately show ?thesis
    using assms(4-7) lg by (simp add: FiSH10_DH1080_ComputeSecret_def get_legacy_key_def)
qed

definition no_legacy :: legacy where
  "no_legacy = \<lparr>lg_ini_path = None, lg_keys = [], lg_dh = [], lg_file = None, lg_file_ok = True\<rparr>"

lemma in_range_small: "in_range 2" "in_range 3"
  by (simp_all add: in_range_def DH1080_GENERATOR_def DH1080_PRIME_def)

lemma nicks_plain: "normalize_target_lowercase ''bob'' = ''bob''" "normalize_target_lowercase ''alice'' = ''alice''"
  by code_simp+

lemma nicks_space: "CHR '' '' \<notin> set ''bob''" "CHR '' '' \<notin> set ''alice''"
  by simp_all

lemma generated:
  "FiSH10_DH1080_GenerateKeyPair L a n lg =
     (Inr (dh_public (generate_dh1080_keypair L a)),
      lg\<lparr>lg_dh := hm_insert (normalize_target_lowercase n) a (lg_dh lg)\<rparr>)"
  by (simp add: FiSH10_DH1080_GenerateKeyPair_def generate_dh1080_keypair_def)

lemma dh1080_agreement_witness:
  "\<exists>pubA lgA1 pubB lgB1 s lgA2 lgB2.
     FiSH10_DH1080_GenerateKeyPair ref_lib 2 ''bob'' no_legacy = (Inr pubA, lgA1) \<and>
     FiSH10_DH1080_GenerateKeyPair ref_lib 3 ''alice'' no_legacy = (Inr pubB, lgB1) \<and>
     FiSH10_DH1080_ComputeSecret ref_lib (''bob'' @ '' '' @ pubB) lgA1 = (Inr s, lgA2) \<and>
     FiSH10_DH1080_ComputeSecret ref_lib (''alice'' @ '' '' @ pubA) lgB1 = (Inr s, lgB2) \<and>
     get_legacy_key ''bob'' lgA2 = get_legacy_key ''alice'' lgB2"
proof -
  have "CHR '' '' \<notin> set ''bob''" "CHR '' '' \<notin> set ''alice''" by simp_all
  from dh1080_agreement [OF ref_lib_ok in_range_small this(1) nicks_plain(1) this(2) nicks_plain(2) generated generated,
      of no_legacy no_legacy]
  show ?thesis unfolding generated by auto
qed

section \<open>Keys in blowfish.ini\<close>

text \<open>The targets the lines of a file set, as \<open>load_lines\<close> reads them.\<close>

fun line_targets :: "string option \<Rightarrow> string list \<Rightarrow> string list" where
  "line_targets sec [] = []"
| "line_targets sec (raw # ls) =
     (let line = trim raw in
      if is_comment line then line_targets sec ls
      else if is_section line then line_targets (Some (section_name line)) ls
      else case parse_ini_line line of
             None \<Rightarrow> line_targets sec ls
           | Some (key_name, _) \<Rightarrow>
               (case line_target sec key_name of
                  None \<Rightarrow> line_targets sec ls
                | Some t \<Rightarrow> t # line_targets sec ls))"

definition ini_name :: "string \<Rightarrow> bool" where
  "ini_name t \<longleftrightarrow> t \<noteq> [] \<and> trim t = t \<and> normalize_target_lowercase t = t \<and> CHR ''='' \<notin> set t \<and>
     hd t \<noteq> CHR '';'' \<and> hd t \<noteq> CHR ''['' \<and> \<not> eq_ignore_ascii_case t ''key''"

lemma hex_digit_facts:
  "hex_digit c \<Longrightarrow> graphic c" "hex_digit c \<Longrightarrow> c \<noteq> CHR ''+''" "hex_digit c \<Longrightarrow> c \<noteq> CHR ''m''"
  "hex_digit c \<Longrightarrow> c \<noteq> CHR '']''"
  by (auto simp: hex_digit_def graphic_def is_ascii_digit_def Let_def)

lemma hex_text:
  assumes "hex_law L"
  shows "hex_dec L (hex_enc L k) = Inr k" "length (hex_enc L k) = 2 * length k" "list_all hex_digit (hex_enc L k)"
  using assms unfolding hex_law_def by blast+

lemma hex_trim: "hex_law L \<Longrightarrow> trim (hex_enc L k) = hex_enc L k"
  using hex_text(3) [of L k] by (intro trim_graphic) (auto simp: list_all_iff hex_digit_facts)

lemma decode_key_hex: "hex_law L \<Longrightarrow> decode_key_value L (hex_enc L k) = Inr k"
proof -
  assume h: "hex_law L"
  have "strip_prefix (x # p) (hex_enc L k) = None" if "x = CHR ''+'' \<or> x = CHR ''m''" for x p
    using that hex_text(3) [OF h, of k] hex_digit_facts(2,3)
    by (cases "hex_enc L k") (auto simp: strip_prefix_def)
  then show ?thesis
    using hex_text [OF h, of k] by (simp add: decode_key_value_def hex_trim [OF h])
qed

lemma decode_key_total: "hex_law L \<Longrightarrow> \<exists>bs. decode_key_value L v = Inr bs"
  unfolding decode_key_value_def hex_law_def Let_def
  by (auto split: option.splits) (metis even_iff_mod_2_eq_zero)

lemma parse_key_line:
  assumes "hex_law L" "CHR ''='' \<notin> set t" "trim t = t" "t \<noteq> []" "k \<noteq> []"
  shows "parse_ini_line (t @ CHR ''='' # hex_enc L k) = Some (t, hex_enc L k)"
proof -
  have "hex_enc L k \<noteq> []" using hex_text(2) [OF assms(1), of k] assms(5) by auto
  then show ?thesis using assms
    by (simp add: parse_ini_line_def splitn_char.simps numeral_2_eq_2 split_once_char hex_trim)
qed

lemma ws_len_app_graphic: "ws_len t = 0 \<Longrightarrow> graphic c \<Longrightarrow> ws_len (t @ c # x) = 0"
  by (cases t rule: ws_len.cases; cases x)
    (auto simp: graphic_not_ws ws_len_graphic ws3_def graphic_def Let_def split: if_splits)

lemma trim_key_line:
  assumes "hex_law L" "trim t = t" "t \<noteq> []" "k \<noteq> []"
  shows "trim (t @ CHR ''='' # hex_enc L k) = t @ CHR ''='' # hex_enc L k"
proof (rule trim_id)
  have "hex_enc L k \<noteq> []" using hex_text(2) [OF assms(1), of k] assms(4) by auto
  then show "ws_len_rev (rev (t @ CHR ''='' # hex_enc L k)) = 0"
    using hex_text(3) [OF assms(1), of k]
    by (cases "hex_enc L k" rule: rev_cases) (auto simp: ws_len_rev_graphic hex_digit_facts)
  have "ws_len t = 0" using assms(2) by (metis ws_len_trim)
  then show "ws_len (t @ CHR ''='' # hex_enc L k) = 0"
    by (rule ws_len_app_graphic) (simp add: graphic_def)
qed

lemma ws_len_rev_snoc: "graphic c \<Longrightarrow> ws_len_rev (xs @ [c]) \<le> length xs"
  by (cases xs rule: ws_len_rev.cases) (auto simp: graphic_not_ws)

lemma trim_rev_keeps: "graphic c \<Longrightarrow> \<exists>q. trim_rev (xs @ [c]) = q @ [c]"
proof (induction xs rule: length_induct)
  case (1 xs)
  let ?w = "ws_len_rev (xs @ [c])"
  show ?case
  proof (cases "?w = 0")
    case True
    then show ?thesis by (simp add: trim_rev_id)
  next
    case False
    have le: "?w \<le> length xs" using 1(2) by (rule ws_len_rev_snoc)
    then have "trim_rev (xs @ [c]) = trim_rev (drop ?w xs @ [c])"
      using False by (subst trim_rev.simps) simp
    moreover have "length (drop ?w xs) < length xs" using False le by (cases xs) auto
    ultimately show ?thesis using 1 by metis
  qed
qed

lemma trim_graphic_Cons:
  assumes "graphic c"
  obtains s' where "trim (c # s) = c # s'"
proof -
  have "trim_start (c # s) = c # s" using assms by (simp add: trim_start_id ws_len_graphic)
  moreover obtain q where "trim_rev (rev s @ [c]) = q @ [c]" using trim_rev_keeps [OF assms] by blast
  ultimately show thesis using that by (simp add: trim_def trim_end_def)
qed

lemma load_key_line:
  assumes "hex_law L" "ini_name t" "4 \<le> length k" "length k \<le> 56"
  shows "load_lines L sec keys ((t @ CHR ''='' # hex_enc L k) # ls) = load_lines L sec (hm_insert t k keys) ls"
proof -
  have t: "t \<noteq> []" "trim t = t" "CHR ''='' \<notin> set t" "normalize_target_lowercase t = t"
    "\<not> eq_ignore_ascii_case t ''key''" "hd t \<noteq> CHR '';''" "hd t \<noteq> CHR ''[''"
    using assms(2) by (auto simp: ini_name_def)
  have k: "k \<noteq> []" using assms(3) by auto
  have "\<not> is_comment (t @ CHR ''='' # hex_enc L k)" "\<not> is_section (t @ CHR ''='' # hex_enc L k)"
    using t(1,6,7) by (cases t; simp add: is_comment_def is_section_def contains_char)+
  then show ?thesis using assms(3,4)
    by (simp add: trim_key_line [OF assms(1) t(2,1) k] parse_key_line [OF assms(1) t(3,2,1) k]
        line_target_def t(4,5) decode_key_hex [OF assms(1)])
qed

lemma load_section_key_line:
  assumes "hex_law L" "4 \<le> length k" "length k \<le> 56"
  shows "load_lines L (Some s) keys ((''key'' @ CHR ''='' # hex_enc L k) # ls) =
    load_lines L (Some s) (hm_insert (normalize_target_lowercase s) k keys) ls"
proof -
  let ?l = "''key'' @ CHR ''='' # hex_enc L k"
  have k: "k \<noteq> []" "trim ''key'' = ''key''" using assms(2) by (auto simp: trim_graphic graphic_def)
  have "\<not> is_comment ?l" "\<not> is_section ?l" "line_target (Some s) ''key'' = Some s"
    by (simp_all add: is_comment_def is_section_def line_target_def eq_ignore_ascii_case_def)
  moreover have "trim ?l = ?l" "parse_ini_line ?l = Some (''key'', hex_enc L k)"
    using trim_key_line [OF assms(1) k(2) _ k(1)] parse_key_line [OF assms(1) _ k(2) _ k(1)] by simp_all
  ultimately show ?thesis using assms(2,3) by (simp add: decode_key_hex [OF assms(1)] del: append_Cons)
qed

lemma normalize_lower [simp]: "normalize_target_lowercase (to_lowercase x) = normalize_target_lowercase x"
  by (simp add: normalize_target_lowercase_def normalize_nick_def normalize_target_lower trim_to_lowercase)

lemma ini_name_lower: "ini_name t \<Longrightarrow> to_lowercase t = t"
  by (metis ini_name_def normalize_target_lowercase_def to_lowercase_normalize_nick)

text \<open>A line that is not about \<open>t\<close> leaves the key of \<open>t\<close> alone.\<close>

lemma load_other_line:
  assumes "hex_law L" "\<not> is_section (trim raw)" "\<forall>x\<in>set (line_targets sec (raw # ls)). normalize_target_lowercase x = t \<longrightarrow> to_lowercase x = t"
    "\<And>n v x. parse_ini_line (trim raw) = Some (n, v) \<Longrightarrow> line_target sec n = Some x \<Longrightarrow> to_lowercase x \<noteq> t"
  obtains keys' where "load_lines L sec keys (raw # out) = load_lines L sec keys' out" "hm_get keys' t = hm_get keys t"
proof (cases "is_comment (trim raw)")
  case True
  then show thesis using that by simp
next
  case False
  show thesis
  proof (cases "parse_ini_line (trim raw)")
    case None
    then show thesis using that False assms(2) by simp
  next
    case (Some nv)
    obtain n v where nv: "parse_ini_line (trim raw) = Some (n, v)" using Some by (cases nv) simp
    obtain bs where bs: "decode_key_value L v = Inr bs" using decode_key_total [OF assms(1)] by blast
    show thesis
    proof (cases "line_target sec n")
      case None
      then show thesis using that False assms(2) nv by simp
    next
      case (Some x)
      then have "normalize_target_lowercase x \<noteq> t"
        using assms(2,3) assms(4) [OF nv Some] False nv by auto
      then show thesis
        using that [of "if 4 \<le> length bs \<and> length bs \<le> 56 then hm_insert (normalize_target_lowercase x) bs keys else keys"]
          False assms(2) nv bs Some by auto
    qed
  qed
qed

lemma line_targets_tail: "\<not> is_section (trim raw) \<Longrightarrow> set (line_targets sec ls) \<subseteq> set (line_targets sec (raw # ls))"
  by (auto simp: Let_def split: option.splits)

lemma load_updated:
  assumes "hex_law L" "ini_name t" "4 \<le> length k" "length k \<le> 56"
    "\<forall>x\<in>set (line_targets sec ls). normalize_target_lowercase x = t \<longrightarrow> to_lowercase x = t"
    "update_lines L t (Some k) sec ls = (out, found)"
  shows "\<exists>keys'. load_lines L sec keys out = Inr keys' \<and>
    (found \<or> hm_get keys t = Some k \<longrightarrow> hm_get keys' t = Some k)"
  using assms(5,6)
proof (induction ls arbitrary: sec keys out found)
  case Nil
  then show ?case by simp
next
  case (Cons raw ls)
  note low = ini_name_lower [OF assms(2)]
  show ?case
  proof (cases "is_section (trim raw)")
    case True
    obtain o1 f1 where u: "update_lines L t (Some k) (Some (section_name (trim raw))) ls = (o1, f1)" by fastforce
    have "\<not> is_comment (trim raw)" using True by (cases "trim raw") (auto simp: is_comment_def is_section_def)
    then have "load_lines L sec keys (raw # o1) = load_lines L (Some (section_name (trim raw))) keys o1"
      "\<forall>x\<in>set (line_targets (Some (section_name (trim raw))) ls). normalize_target_lowercase x = t \<longrightarrow> to_lowercase x = t"
      using True Cons.prems(1) by simp_all
    then show ?thesis using Cons.IH [OF _ u, of keys] Cons.prems(2) u True by auto
  next
    case sec: False
    obtain o1 f1 where u: "update_lines L t (Some k) sec ls = (o1, f1)" by fastforce
    have al: "\<forall>x\<in>set (line_targets sec ls). normalize_target_lowercase x = t \<longrightarrow> to_lowercase x = t"
      using Cons.prems(1) line_targets_tail [OF sec] by blast
    show ?thesis
    proof (cases "\<exists>n v x. parse_ini_line (trim raw) = Some (n, v) \<and> line_target sec n = Some x \<and> to_lowercase x = t")
      case True
      then obtain n v x where m: "parse_ini_line (trim raw) = Some (n, v)" "line_target sec n = Some x" "to_lowercase x = t"
        by blast
      have "normalize_target_lowercase x = t" using m(3) normalize_lower [of x] assms(2) by (simp add: ini_name_def)
      then have "load_lines L sec keys out = load_lines L sec (hm_insert t k keys) o1" "found"
        using Cons.prems(2) m u sec low load_key_line [OF assms(1-4)] load_section_key_line [OF assms(1,3,4)]
        by (auto simp: line_target_def split: if_splits)
      then show ?thesis using Cons.IH [OF al u, of "hm_insert t k keys"] by simp
    next
      case False
      then have "out = raw # o1" "found = f1"
        using Cons.prems(2) u sec low by (auto split: option.splits)
      moreover obtain keys1 where "load_lines L sec keys (raw # o1) = load_lines L sec keys1 o1" "hm_get keys1 t = hm_get keys t"
        using load_other_line [OF assms(1) sec Cons.prems(1), of keys o1] False by blast
      ultimately show ?thesis using Cons.IH [OF al u, of keys1] by simp
    qed
  qed
qed

lemma load_append_line:
  assumes "hex_law L" "ini_name t" "4 \<le> length k" "length k \<le> 56" "load_lines L sec keys ls = Inr keys1"
  shows "load_lines L sec keys (ls @ [t @ CHR ''='' # hex_enc L k]) = Inr (hm_insert t k keys1)"
  using assms(5)
proof (induction ls arbitrary: sec keys)
  case Nil
  then show ?case by (simp add: load_key_line [OF assms(1-4)] del: load_lines.simps(2)) 
next
  case (Cons raw ls)
  then show ?case by (auto simp: Let_def split: if_splits option.splits sum.splits)
qed


definition sample_legacy :: legacy where
  "sample_legacy = no_legacy\<lparr>lg_ini_path := Some ''/mirc/blowfish.ini'',
     lg_file := Some [''; keys'', ''[Bob]'', ''key=00112233'', ''#chan = 0011223344'']\<rparr>"


section \<open>Exported functions\<close>

lemma abc_graphic: "list_all graphic FISH10_B64_ABC"
  by code_simp

lemma push_six_graphic: "list_all graphic (push_six n w)"
proof (induction n w rule: push_six.induct)
  case (2 n w)
  have "unat (w AND 0x3F) < length FISH10_B64_ABC"
    using word_and_le1 [of w "0x3F"] by (simp add: word_le_nat_alt FISH10_B64_ABC_def)
  then have "FISH10_B64_ABC ! unat (w AND 0x3F) \<in> set FISH10_B64_ABC" by (rule nth_mem)
  then show ?case using 2 abc_graphic by (simp add: list_all_iff)
qed simp

lemma encode_blocks_graphic: "list_all graphic (encode_blocks bs)"
  by (induction bs rule: encode_blocks.induct) (simp_all add: push_six_graphic del: push_six.simps)

lemma bf_encrypt_graphic: "bf_encrypt_message L key m = Inr c \<Longrightarrow> list_all graphic c"
  by (auto simp: bf_encrypt_message_def fish10_b64_encode_def encode_blocks_graphic split: if_splits)

lemma trim_ok_payload:
  assumes "list_all graphic c" "c \<noteq> []"
  shows "trim (''+OK '' @ c) = ''+OK '' @ c"
proof (rule trim_id)
  have "graphic (CHR ''+'')" by (simp add: graphic_def)
  from ws_len_graphic [OF this, of "''OK '' @ c"] show "ws_len (''+OK '' @ c) = 0" by simp
  show "ws_len_rev (rev (''+OK '' @ c)) = 0"
    using assms by (cases c rule: rev_cases) (auto simp: ws_len_rev_graphic)
qed

lemma parse_input_plain:
  "CHR '' '' \<notin> set t \<Longrightarrow> normalize_target t \<noteq> [] \<Longrightarrow> m \<noteq> [] \<Longrightarrow>
   parse_input (t @ CHR '' '' # m) = Inr \<lparr>pi_target = normalize_target t, pi_message = m\<rparr>"
  by (simp add: parse_input_def splitn_char.simps numeral_2_eq_2 split_once_char)

lemma set_legacy_key_get:
  "set_legacy_key L t key_input lg = (Inr (), lg1) \<Longrightarrow> \<exists>k. get_legacy_key t lg1 = Some k \<and> bf_key_ok k"
  by (auto simp: set_legacy_key_def Let_def get_legacy_key_def bf_key_ok_def save_key_to_blowfish_ini_def
      update_blowfish_ini_key_def split: sum.splits if_splits prod.splits)



section \<open>The legacy engine\<close>

lemma splitn3:
  "CHR '' '' \<notin> set a \<Longrightarrow> CHR '' '' \<notin> set t \<Longrightarrow> splitn_char 3 (CHR '' '') (a @ CHR '' '' # t @ CHR '' '' # m) = [a, t, m]"
  by (simp add: numeral_3_eq_3 splitn_char.simps split_once_char)

lemma topic_only:
  assumes "\<not> starts_with ''TOPIC '' line"
  shows "handle_fish10_topic_message L line lg = None"
proof (cases "splitn_char 3 (CHR '' '') line")
  case (Cons a r)
  show ?thesis
  proof (cases "a = ''TOPIC'' \<and> r \<noteq> []")
    case True
    then obtain b where "split_once '' '' line = Some (a, b)"
      using Cons by (auto simp: numeral_3_eq_3 splitn_char.simps split: option.splits)
    then have "starts_with ''TOPIC '' line" using True by (auto dest!: split_once_join simp: starts_with_iff)
    then show ?thesis using assms by simp
  next
    case False
    then show ?thesis using Cons by (auto simp: handle_fish10_topic_message_def split: list.splits)
  qed
qed (simp add: handle_fish10_topic_message_def)

lemma plain_line_inert:
  assumes "graphic c" "c \<noteq> CHR ''+''" "c \<noteq> CHR ''m''" "c \<noteq> CHR ''D''" "\<not> starts_with ''TOPIC '' (c # s)"
  shows "process_incoming_fish10_message L pk (c # s) lg = Some (None, lg)"
proof -
  obtain s' where t: "trim (c # s) = c # s'" using trim_graphic_Cons [OF assms(1)] .
  have "\<not> is_legacy_message (c # s)" "\<not> is_dh1080_message (c # s)"
    using assms(2-4) t by (simp_all add: is_legacy_message_def is_dh1080_message_def)
  then show ?thesis using topic_only [OF assms(5)] by (simp add: process_incoming_fish10_message_def)
qed

text \<open>the engine reads the messages of an outgoing line back: the handler turns the
  encrypted line into the original one.  But the incoming entry point tests the start of
  the whole line, so neither that line nor any line with a server prefix is decrypted, and
  no DH1080 message with a prefix is answered.\<close>

theorem legacy_engine_lines:
  "(\<forall>s. process_incoming_fish10_message L pk (CHR '':'' # s) lg = Some (None, lg)) \<and>
   (\<forall>t m. bf_law L \<and> CHR '' '' \<notin> set t \<and> m \<noteq> [] \<and> utf8_valid (as_bytes m) \<and> last (as_bytes m) \<noteq> 0 \<and>
      (\<exists>k. get_legacy_key t lg = Some k \<and> bf_key_ok k) \<longrightarrow>
      (\<exists>c. process_outgoing_fish10_message L (''PRIVMSG '' @ t @ '' '' @ m) lg = Some (''PRIVMSG '' @ t @ '' +OK '' @ c) \<and>
           handle_fish10_encrypted_message L (''PRIVMSG '' @ t @ '' +OK '' @ c) lg = Some (''PRIVMSG '' @ t @ '' '' @ m) \<and>
           process_incoming_fish10_message L pk (''PRIVMSG '' @ t @ '' +OK '' @ c) lg = Some (None, lg)))"
proof (intro conjI allI impI)
  fix s
  show "process_incoming_fish10_message L pk (CHR '':'' # s) lg = Some (None, lg)"
    by (rule plain_line_inert) (simp_all add: graphic_def)
next
  fix t m
  assume a: "bf_law L \<and> CHR '' '' \<notin> set t \<and> m \<noteq> [] \<and> utf8_valid (as_bytes m) \<and> last (as_bytes m) \<noteq> 0 \<and>
      (\<exists>k. get_legacy_key t lg = Some k \<and> bf_key_ok k)"
  then obtain k where k: "get_legacy_key t lg = Some k" "bf_key_ok k" by blast
  obtain c where c: "bf_encrypt_message L k m = Inr c" "length c = 12 * ((length m + 7) div 8)"
    "bf_decrypt_message L k c = Inr m"
    using bf_roundtrip [OF _ k(2)] a by blast
  note g = bf_encrypt_graphic [OF c(1)]
  have "1 \<le> length m" using a by (cases m) auto
  then have ne: "c \<noteq> []" using c(2) by auto
  have sp: "CHR '' '' \<notin> set ''PRIVMSG''" "CHR '' '' \<notin> set t" using a by simp_all
  note s3 = splitn3 [OF sp, simplified]
  have pl: "strip_prefix ''+OK '' c = None" "strip_prefix ''mcps '' c = None"
    using g by (auto simp: strip_prefix_def starts_with_iff graphic_def)
  have sd: "legacy_decrypt L t c lg = Inr m"
    using c(3) k(1) pl by (simp add: legacy_decrypt_def legacy_decrypt_as_def detect_mode_def trim_graphic [OF g])
  have so: "stripped_payload (''+OK '' @ c) = Some c"
    using trim_ok_payload [OF g ne] ne by (simp add: stripped_payload_def strip_prefix_def)
  have "process_outgoing_fish10_message L (''PRIVMSG '' @ t @ '' '' @ m) lg = Some (''PRIVMSG '' @ t @ '' +OK '' @ c)"
    using s3 [of m] c(1) k(1)
    by (simp add: process_outgoing_fish10_message_def is_legacy_target_def hm_has_def get_legacy_key_def
        legacy_encrypt_def legacy_encrypt_with_mode_def)
  moreover have "handle_fish10_encrypted_message L (''PRIVMSG '' @ t @ '' +OK '' @ c) lg = Some (''PRIVMSG '' @ t @ '' '' @ m)"
    using s3 [of "''+OK '' @ c"] sd so by (simp add: handle_fish10_encrypted_message_def)
  moreover have "process_incoming_fish10_message L pk (''PRIVMSG '' @ t @ '' +OK '' @ c) lg = Some (None, lg)"
    unfolding append_Cons by (rule plain_line_inert) (simp_all add: graphic_def)
  ultimately show "\<exists>c. process_outgoing_fish10_message L (''PRIVMSG '' @ t @ '' '' @ m) lg = Some (''PRIVMSG '' @ t @ '' +OK '' @ c) \<and>
           handle_fish10_encrypted_message L (''PRIVMSG '' @ t @ '' +OK '' @ c) lg = Some (''PRIVMSG '' @ t @ '' '' @ m) \<and>
           process_incoming_fish10_message L pk (''PRIVMSG '' @ t @ '' +OK '' @ c) lg = Some (None, lg)"
    by blast
qed

lemma legacy_engine_lines_witness:
  "\<exists>c. let lg = store_legacy_key ''bob'' (replicate 16 7) no_legacy in
     process_outgoing_fish10_message ref_lib (''PRIVMSG '' @ ''bob'' @ '' '' @ '':hello'') lg =
       Some (''PRIVMSG '' @ ''bob'' @ '' +OK '' @ c) \<and>
     process_incoming_fish10_message ref_lib 5 (''PRIVMSG '' @ ''bob'' @ '' +OK '' @ c) lg = Some (None, lg)"
proof -
  let ?lg = "store_legacy_key ''bob'' (replicate 16 7) no_legacy"
  have "bf_law ref_lib" using ref_lib_ok by (simp add: lib_ok_def)
  moreover have "utf8_valid (as_bytes '':hello'')" "last (as_bytes '':hello'') \<noteq> 0" by code_simp+
  moreover have "get_legacy_key ''bob'' ?lg = Some (replicate 16 7)" "bf_key_ok (replicate 16 (7 :: u8))"
    by (simp_all add: get_legacy_key_def store_legacy_key_def bf_key_ok_def)
  ultimately show ?thesis
    using legacy_engine_lines [of ref_lib 5 ?lg, THEN conjunct2, rule_format, of "''bob''" "'':hello''"] nicks_space(1)
    unfolding Let_def by blast
qed

text \<open>the key of a \<open>DH1080\<close> exchange depends on who finishes it: the engine's answer to
  a FINISH stores the first 8 bytes of the hash of the secret, the exported ComputeSecret
  the 43 characters of the secret; the two keys are never the same.\<close>

theorem dh1080_finish_key_differs:
  assumes "lib_ok L" "hm_get (lg_dh lg) t = Some a" "CHR '' '' \<notin> set t" "normalize_target_lowercase t = t"
    "list_all graphic pub" "pub \<noteq> []" "compute_dh1080_shared_secret L a pub = Inr s"
  shows "\<exists>lg1 lg2. handle_dh1080_message L pk (''NOTICE '' @ t @ '' DH1080_FINISH '' @ pub) lg =
      Some (Some (''NOTICE '' @ t @ '' DH1080_FINISH '' @ pub), lg1) \<and>
    FiSH10_DH1080_ComputeSecret L (t @ '' '' @ pub) lg = (Inr s, lg2) \<and>
    get_legacy_key t lg1 = Some (engine_blowfish_key L s) \<and>
    get_legacy_key t lg1 \<noteq> get_legacy_key t lg2"
proof -
  have laws: "b64_law L" "hkdf_law L" "hex_law L" using assms(1) by (simp_all add: lib_ok_def)
  let ?m = "''DH1080_FINISH '' @ pub" and ?k = "engine_blowfish_key L s"
  have tm: "trim ?m = ?m"
  proof (rule trim_id)
    have "graphic (CHR ''D'')" by (simp add: graphic_def)
    from ws_len_graphic [OF this, of "''H1080_FINISH '' @ pub"] show "ws_len ?m = 0" by simp
    show "ws_len_rev (rev ?m) = 0"
      using assms(5,6) by (cases pub rule: rev_cases) (auto simp: ws_len_rev_graphic)
  qed
  have sp: "splitn_char 2 (CHR '' '') ?m = [''DH1080_FINISH'', pub]"
    using split_once_char [of "CHR '' ''" "''DH1080_FINISH''" pub] by (simp add: numeral_2_eq_2 splitn_char.simps)
  have ty: "parse_dh1080_message_type ?m = Some ''FINISH''" "extract_dh1080_public_key ?m = Some pub"
    using tm sp trim_graphic [OF assms(5)]
    by (simp_all add: parse_dh1080_message_type_def extract_dh1080_public_key_def)
  have len: "length ?k = 8" "length s = 43"
    using assms(7) laws(2) hash_text_length [OF laws(1)]
    by (auto simp: engine_blowfish_key_def hkdf_law_def compute_dh1080_shared_secret_def Let_def split: sum.splits if_splits)
  have "is_valid_hex_string (hex_enc L ?k)"
    using hex_text [OF laws(3), of ?k] by (simp add: is_valid_hex_string_def)
  then have set1: "get_legacy_key t (snd (set_legacy_key L t (hex_enc L ?k) lg)) = Some ?k"
    using hex_text(1) [OF laws(3), of ?k] len(1)
    by (auto simp: set_legacy_key_def get_legacy_key_def save_key_to_blowfish_ini_def update_blowfish_ini_key_def
        Let_def split: prod.splits)
  have h: "handle_dh1080_message L pk (''NOTICE '' @ t @ '' '' @ ?m) lg =
      Some (Some (''NOTICE '' @ t @ '' '' @ ?m), snd (set_legacy_key L t (hex_enc L ?k) lg))"
    using splitn3 [of "''NOTICE''" t ?m] assms(2,3,7) ty by (simp add: handle_dh1080_message_def)
  have c: "FiSH10_DH1080_ComputeSecret L (t @ '' '' @ pub) lg =
      (Inr s, lg\<lparr>lg_keys := hm_insert t (as_bytes s) (lg_keys lg)\<rparr>)"
    using assms(2-4,7) trim_graphic [OF assms(5)]
    by (simp add: FiSH10_DH1080_ComputeSecret_def splitn_char.simps numeral_2_eq_2 split_once_char)
  have "length ?k \<noteq> length (as_bytes s)" using len by simp
  then have "?k \<noteq> as_bytes s" by metis
  then show ?thesis using h c set1 by (simp add: get_legacy_key_def)
qed

lemma dh1080_finish_key_differs_witness:
  "\<exists>pub lg1 lg2 s. let lg = no_legacy\<lparr>lg_dh := [(''bob'', 2)]\<rparr> in
     handle_dh1080_message ref_lib 7 (''NOTICE '' @ ''bob'' @ '' DH1080_FINISH '' @ pub) lg =
       Some (Some (''NOTICE '' @ ''bob'' @ '' DH1080_FINISH '' @ pub), lg1) \<and>
     FiSH10_DH1080_ComputeSecret ref_lib (''bob'' @ '' '' @ pub) lg = (Inr s, lg2) \<and>
     get_legacy_key ''bob'' lg1 \<noteq> get_legacy_key ''bob'' lg2"
proof -
  let ?lg = "no_legacy\<lparr>lg_dh := [(''bob'', 2)]\<rparr>" and ?pub = "dh_public (generate_dh1080_keypair ref_lib 3)"
  have b: "b64_law ref_lib" using ref_lib_ok by (simp add: lib_ok_def)
  obtain s where s: "compute_dh1080_shared_secret ref_lib 2 ?pub = Inr s"
    using compute_secret [OF ref_lib_ok refl, of 3 2] in_range_small(2) by (auto simp: in_range_def)
  have "?pub \<noteq> []" by (simp add: generate_dh1080_keypair_def dh1080_base64_encode_def)
  moreover have "hm_get (lg_dh ?lg) ''bob'' = Some 2" by simp
  ultimately show ?thesis unfolding Let_def
    using dh1080_finish_key_differs [OF ref_lib_ok _ nicks_space(1) nicks_plain(1) dh1080_public_graphic [OF b] _ s] by metis
qed

end
