(* ===== verification/EngineRegistry.thy ===== *)
theory EngineRegistry
  imports Buffers
begin

text \<open>
  The engines of the injector (\<open>fish_11_inject/src/engines.rs\<close>).  An engine is its
  callbacks: functions of the socket and the line that may change the engine's own
  state, of type \<open>'w\<close>.  A C string is its bytes before the NUL; \<open>None\<close> is a null
  pointer.  Freeing a returned string has no effect on the model, and a callback is
  one that returns.
\<close>

definition FISH_INJECT_ENGINE_VERSION :: u32 where "FISH_INJECT_ENGINE_VERSION = 1"

type_synonym 'w line_callback = "u32 \<Rightarrow> bytes \<Rightarrow> 'w \<Rightarrow> bytes option \<times> 'w"

record 'w FishInjectEngine =
  fe_version :: u32
  fe_engine_name :: "bytes option"
  fe_is_postprocessor :: bool
  fe_on_outgoing_irc_line :: "'w line_callback"
  fe_on_incoming_irc_line :: "'w line_callback"
  fe_on_socket_closed :: "u32 \<Rightarrow> 'w \<Rightarrow> 'w"
  fe_get_network_name :: "u32 \<Rightarrow> 'w \<Rightarrow> bytes option \<times> 'w"

record 'w SafeEngine =
  engine_addr :: nat
  version :: u32
  engine_name :: string
  is_postprocessor :: bool
  on_outgoing_irc_line_ptr :: "'w line_callback"
  on_incoming_irc_line_ptr :: "'w line_callback"
  on_socket_closed_ptr :: "u32 \<Rightarrow> 'w \<Rightarrow> 'w"
  get_network_name_ptr :: "u32 \<Rightarrow> 'w \<Rightarrow> bytes option \<times> 'w"

section \<open>One engine\<close>

text \<open>\<open>addr\<close> is the pointer and \<open>engine\<close> what it points to.\<close>

definition SafeEngine_new :: "nat \<Rightarrow> 'w FishInjectEngine \<Rightarrow> 'w SafeEngine option" where
  "SafeEngine_new addr engine =
     (if addr = 0 then None
      else if fe_version engine \<noteq> FISH_INJECT_ENGINE_VERSION then None
      else Some
        \<lparr>engine_addr = addr,
         version = fe_version engine,
         engine_name = (case fe_engine_name engine of None \<Rightarrow> ''<Unnamed Engine>'' | Some n \<Rightarrow> from_utf8_lossy n),
         is_postprocessor = fe_is_postprocessor engine,
         on_outgoing_irc_line_ptr = fe_on_outgoing_irc_line engine,
         on_incoming_irc_line_ptr = fe_on_incoming_irc_line engine,
         on_socket_closed_ptr = fe_on_socket_closed engine,
         get_network_name_ptr = fe_get_network_name engine\<rparr>)"

text \<open>A call: whether the engine changed the line, and the line after it.\<close>

definition engine_call :: "'w line_callback \<Rightarrow> u32 \<Rightarrow> string \<Rightarrow> 'w \<Rightarrow> (bool \<times> string) \<times> 'w" where
  "engine_call cb socket line w =
     (case cstring_new line of
        None \<Rightarrow> ((False, line), w)
      | Some c_line \<Rightarrow>
          (case cb socket c_line w of
             (Some returned, w1) \<Rightarrow> ((True, from_utf8_lossy returned), w1)
           | (None, w1) \<Rightarrow> ((False, line), w1)))"

definition engine_on_outgoing :: "'w SafeEngine \<Rightarrow> u32 \<Rightarrow> string \<Rightarrow> 'w \<Rightarrow> (bool \<times> string) \<times> 'w" where
  "engine_on_outgoing e = engine_call (on_outgoing_irc_line_ptr e)"

definition engine_on_incoming :: "'w SafeEngine \<Rightarrow> u32 \<Rightarrow> string \<Rightarrow> 'w \<Rightarrow> (bool \<times> string) \<times> 'w" where
  "engine_on_incoming e = engine_call (on_incoming_irc_line_ptr e)"

definition engine_network_name :: "'w SafeEngine \<Rightarrow> u32 \<Rightarrow> 'w \<Rightarrow> string option \<times> 'w" where
  "engine_network_name e socket w =
     (case get_network_name_ptr e socket w of
        (Some n, w1) \<Rightarrow> (Some (from_utf8_lossy n), w1)
      | (None, w1) \<Rightarrow> (None, w1))"

section \<open>The registry\<close>

record 'w InjectEngines =
  pre_engines :: "'w SafeEngine list"
  post_engines :: "'w SafeEngine list"
  registered_ptrs :: "(nat, string) hmap"

definition InjectEngines_new :: "'w InjectEngines" where
  "InjectEngines_new = \<lparr>pre_engines = [], post_engines = [], registered_ptrs = []\<rparr>"

definition get_engines :: "'w InjectEngines \<Rightarrow> 'w SafeEngine list" where
  "get_engines r = pre_engines r @ post_engines r"

definition register :: "nat \<Rightarrow> 'w FishInjectEngine \<Rightarrow> 'w InjectEngines \<Rightarrow> bool \<times> 'w InjectEngines" where
  "register addr engine r =
     (if addr = 0 then (False, r)
      else case SafeEngine_new addr engine of
        None \<Rightarrow> (False, r)
      | Some e \<Rightarrow>
          if hm_has (registered_ptrs r) addr then (False, r)
          else
            (let r1 = r\<lparr>registered_ptrs := hm_insert addr (engine_name e) (registered_ptrs r)\<rparr> in
             (True, if is_postprocessor e then r1\<lparr>post_engines := post_engines r1 @ [e]\<rparr>
                    else r1\<lparr>pre_engines := pre_engines r1 @ [e]\<rparr>)))"

definition unregister :: "nat \<Rightarrow> 'w InjectEngines \<Rightarrow> bool \<times> 'w InjectEngines" where
  "unregister addr r =
     (if addr = 0 then (False, r)
      else if \<not> hm_has (registered_ptrs r) addr then (False, r)
      else
        (let keep = filter (\<lambda>e. engine_addr e \<noteq> addr);
             r1 = r\<lparr>registered_ptrs := hm_remove addr (registered_ptrs r),
                    pre_engines := keep (pre_engines r), post_engines := keep (post_engines r)\<rparr>;
             removed_count = (length (pre_engines r) - length (pre_engines r1)) +
                             (length (post_engines r) - length (post_engines r1))
         in (0 < removed_count, r1)))"

section \<open>A line through the engines\<close>

primrec run_engines ::
  "('w SafeEngine \<Rightarrow> u32 \<Rightarrow> string \<Rightarrow> 'w \<Rightarrow> (bool \<times> string) \<times> 'w) \<Rightarrow> u32 \<Rightarrow> 'w SafeEngine list \<Rightarrow> bool \<times> string \<Rightarrow> 'w
   \<Rightarrow> (bool \<times> string) \<times> 'w" where
  "run_engines call socket [] s w = (s, w)"
| "run_engines call socket (e # es) s w =
     (let ((m, l), w1) = call e socket (snd s) w in run_engines call socket es (fst s \<or> m, l) w1)"

definition on_outgoing_irc_line :: "'w InjectEngines \<Rightarrow> u32 \<Rightarrow> string \<Rightarrow> 'w \<Rightarrow> (bool \<times> string) \<times> 'w" where
  "on_outgoing_irc_line r socket line w =
     (let (s, w1) = run_engines engine_on_outgoing socket (pre_engines r) (False, line) w
      in run_engines engine_on_outgoing socket (post_engines r) s w1)"

definition on_incoming_irc_line :: "'w InjectEngines \<Rightarrow> u32 \<Rightarrow> string \<Rightarrow> 'w \<Rightarrow> (bool \<times> string) \<times> 'w" where
  "on_incoming_irc_line r socket line w =
     (let (s, w1) = run_engines engine_on_incoming socket (pre_engines r) (False, line) w
      in run_engines engine_on_incoming socket (post_engines r) s w1)"

definition engines_on_socket_closed :: "'w InjectEngines \<Rightarrow> u32 \<Rightarrow> 'w \<Rightarrow> 'w" where
  "engines_on_socket_closed r socket w =
     fold (\<lambda>e. on_socket_closed_ptr e socket) (post_engines r)
       (fold (\<lambda>e. on_socket_closed_ptr e socket) (pre_engines r) w)"

definition get_engine_list :: "'w InjectEngines \<Rightarrow> string" where
  "get_engine_list r =
     concat (map (\<lambda>e. ''[PRE:'' @ engine_name e @ '']'') (pre_engines r)) @
     concat (map (\<lambda>e. ''[POST:'' @ engine_name e @ '']'') (post_engines r))"

section \<open>The registry stays consistent\<close>

definition registry_ok :: "'w InjectEngines \<Rightarrow> bool" where
  "registry_ok r \<longleftrightarrow>
     distinct (map engine_addr (get_engines r)) \<and>
     hm_wf (registered_ptrs r) \<and>
     (\<forall>a. hm_has (registered_ptrs r) a \<longleftrightarrow> a \<in> engine_addr ` set (get_engines r)) \<and>
     list_all (\<lambda>e. engine_addr e \<noteq> 0 \<and> version e = FISH_INJECT_ENGINE_VERSION) (get_engines r) \<and>
     list_all (\<lambda>e. \<not> is_postprocessor e) (pre_engines r) \<and> list_all is_postprocessor (post_engines r)"

lemma SafeEngine_new_Some:
  "SafeEngine_new addr engine = Some e \<longleftrightarrow> addr \<noteq> 0 \<and> fe_version engine = FISH_INJECT_ENGINE_VERSION \<and>
     e = the (SafeEngine_new addr engine)"
  "SafeEngine_new addr engine = Some e \<Longrightarrow> engine_addr e = addr \<and> version e = FISH_INJECT_ENGINE_VERSION \<and>
     is_postprocessor e = fe_is_postprocessor engine"
  by (auto simp: SafeEngine_new_def split: if_splits)

lemma register_iff:
  "fst (register addr engine r) \<longleftrightarrow>
     addr \<noteq> 0 \<and> fe_version engine = FISH_INJECT_ENGINE_VERSION \<and> \<not> hm_has (registered_ptrs r) addr"
  by (auto simp: register_def SafeEngine_new_def Let_def)

lemma register_cases:
  assumes "register addr engine r = (b, r')"
  obtains "\<not> b" "r' = r"
  | e where "b" "engine_addr e = addr" "addr \<noteq> 0" "version e = FISH_INJECT_ENGINE_VERSION" "\<not> hm_has (registered_ptrs r) addr"
      "registered_ptrs r' = hm_insert addr (engine_name e) (registered_ptrs r)"
      "pre_engines r' = pre_engines r @ (if is_postprocessor e then [] else [e])"
      "post_engines r' = post_engines r @ (if is_postprocessor e then [e] else [])"
proof (cases b)
  case False
  then have "r' = r" using assms by (auto simp: register_def Let_def split: if_splits option.splits)
  then show ?thesis using that(1) False by simp
next
  case True
  then obtain e where e: "SafeEngine_new addr engine = Some e" "\<not> hm_has (registered_ptrs r) addr" "addr \<noteq> 0"
    using assms by (auto simp: register_def split: if_splits option.splits)
  then have "registered_ptrs r' = hm_insert addr (engine_name e) (registered_ptrs r)"
    "pre_engines r' = pre_engines r @ (if is_postprocessor e then [] else [e])"
    "post_engines r' = post_engines r @ (if is_postprocessor e then [e] else [])"
    using assms by (auto simp: register_def Let_def)
  then show ?thesis using that(2) [OF True] e SafeEngine_new_Some(2) [OF e(1)] by blast
qed

lemma register_ok: "registry_ok r \<Longrightarrow> registry_ok (snd (register addr engine r))"
proof -
  assume ok: "registry_ok r"
  obtain b r' where g: "register addr engine r = (b, r')" by fastforce
  then show ?thesis
  proof (cases rule: register_cases)
    case 1
    then show ?thesis using ok g by simp
  next
    case (2 e)
    then have "addr \<notin> engine_addr ` set (get_engines r)" using ok by (simp add: registry_ok_def)
    then show ?thesis
      using 2 ok g by (cases "is_postprocessor e") (auto simp: registry_ok_def get_engines_def distinct_update)
  qed
qed

definition without :: "nat \<Rightarrow> 'w InjectEngines \<Rightarrow> 'w InjectEngines" where
  "without addr r = r\<lparr>registered_ptrs := hm_remove addr (registered_ptrs r),
     pre_engines := filter (\<lambda>e. engine_addr e \<noteq> addr) (pre_engines r),
     post_engines := filter (\<lambda>e. engine_addr e \<noteq> addr) (post_engines r)\<rparr>"

lemma without_ok: "registry_ok r \<Longrightarrow> registry_ok (without addr r)"
proof -
  assume ok: "registry_ok r"
  have d: "distinct (map engine_addr (filter P xs))" if "distinct (map engine_addr xs)" for P and xs :: "'a SafeEngine list"
    using that by (induction xs) auto
  show ?thesis
    using ok unfolding registry_ok_def get_engines_def
    by (auto simp: without_def distinct_delete list_all_iff d)
qed

lemma filter_less: "x \<in> set xs \<Longrightarrow> \<not> P x \<Longrightarrow> length (filter P xs) < length xs"
  by (induction xs) (auto simp: less_Suc_eq_le)

lemma unregister_registered:
  assumes "registry_ok r"
  shows "unregister addr r = (if hm_has (registered_ptrs r) addr then (True, without addr r) else (False, r))"
proof (cases "hm_has (registered_ptrs r) addr")
  case True
  then have "addr \<in> engine_addr ` set (get_engines r)" using assms by (simp add: registry_ok_def)
  then obtain e where e: "e \<in> set (pre_engines r) \<or> e \<in> set (post_engines r)" "engine_addr e = addr"
    by (auto simp: get_engines_def)
  then have "addr \<noteq> 0" using assms by (auto simp: registry_ok_def get_engines_def list_all_iff)
  have "length (filter (\<lambda>e. engine_addr e \<noteq> addr) xs) < length xs" if "e \<in> set xs" for xs
    using filter_less [OF that, of "\<lambda>e. engine_addr e \<noteq> addr"] e(2) by simp
  then show ?thesis
    using True e \<open>addr \<noteq> 0\<close> by (auto simp: unregister_def Let_def without_def)
qed (simp add: unregister_def)

lemma unregister_ok: "registry_ok r \<Longrightarrow> registry_ok (snd (unregister addr r))"
  by (simp add: unregister_registered without_ok)

inductive registry_reach :: "'w InjectEngines \<Rightarrow> bool" where
  new: "registry_reach InjectEngines_new"
| register: "registry_reach r \<Longrightarrow> registry_reach (snd (register addr engine r))"
| unregister: "registry_reach r \<Longrightarrow> registry_reach (snd (unregister addr r))"

lemma registry_reach_ok: "registry_reach r \<Longrightarrow> registry_ok r"
proof (induction rule: registry_reach.induct)
  case new
  show ?case by (simp add: registry_ok_def InjectEngines_new_def get_engines_def)
qed (simp_all add: register_ok unregister_ok)

text \<open>C27: however engines come and go, the registered addresses are exactly those of the
  listed engines, each listed once, in the list of its kind, of the supported version;
  and registering and then unregistering an engine leaves the registry as it was.\<close>

theorem registry_consistent:
  assumes "registry_reach r"
  shows "registry_ok r \<and>
    (fst (register addr engine r) \<longleftrightarrow>
       addr \<noteq> 0 \<and> fe_version engine = 1 \<and> addr \<notin> engine_addr ` set (get_engines r)) \<and>
    (fst (register addr engine r) \<longrightarrow> unregister addr (snd (register addr engine r)) = (True, r))"
proof -
  have ok: "registry_ok r" using assms by (rule registry_reach_ok)
  have iff: "fst (register addr engine r) \<longleftrightarrow>
       addr \<noteq> 0 \<and> fe_version engine = 1 \<and> addr \<notin> engine_addr ` set (get_engines r)"
    using ok by (simp add: register_iff FISH_INJECT_ENGINE_VERSION_def registry_ok_def)
  moreover have "unregister addr (snd (register addr engine r)) = (True, r)" if b: "fst (register addr engine r)"
  proof -
    obtain r' where g: "register addr engine r = (True, r')" using b by (cases "register addr engine r") auto
    from g show ?thesis
    proof (cases rule: register_cases)
      case (2 e)
      have n: "addr \<notin> engine_addr ` set (pre_engines r)" "addr \<notin> engine_addr ` set (post_engines r)"
        using b iff by (auto simp: get_engines_def)
      have "hm_remove addr (registered_ptrs r') = registered_ptrs r"
        using 2(5,6) by (simp add: delete_update_same) (simp add: hm_has_def map_of_eq_None_iff)
      moreover have "filter (\<lambda>e. engine_addr e \<noteq> addr) xs = xs" if "addr \<notin> engine_addr ` set xs" for xs :: "'a SafeEngine list"
        using that by (auto simp: filter_id_conv)
      ultimately have "without addr r' = r"
        using 2(2,7,8) n by (simp add: without_def)
      moreover have "registry_ok r'" using register_ok [OF ok, of addr engine] g by simp
      moreover have "hm_has (registered_ptrs r') addr" using 2(6) by simp
      ultimately show ?thesis using g by (simp add: unregister_registered)
    qed simp
  qed
  ultimately show ?thesis using ok by blast
qed

text \<open>An engine that leaves every line alone.\<close>

definition quiet_engine :: "'w FishInjectEngine" where
  "quiet_engine = \<lparr>fe_version = 1, fe_engine_name = Some (as_bytes ''quiet''), fe_is_postprocessor = False,
     fe_on_outgoing_irc_line = (\<lambda>s l w. (None, w)), fe_on_incoming_irc_line = (\<lambda>s l w. (None, w)),
     fe_on_socket_closed = (\<lambda>s w. w), fe_get_network_name = (\<lambda>s w. (None, w))\<rparr>"

lemma registry_consistent_witness:
  "unregister 7 (snd (register 7 (quiet_engine :: unit FishInjectEngine) InjectEngines_new)) = (True, InjectEngines_new)"
  using registry_consistent [OF registry_reach.new, of 7 "quiet_engine :: unit FishInjectEngine"]
  by (simp add: quiet_engine_def InjectEngines_new_def get_engines_def)

end
