(* ===== verification/Sockets.thy ===== *)
theory Sockets
  imports EngineRegistry
begin

text \<open>
  What the injector keeps for a socket (\<open>socket/info.rs\<close>, \<open>state.rs\<close>,
  \<open>buffers.rs\<close>) and how it treats the bytes that pass: the lines of an incoming
  buffer and of an outgoing one (\<open>handlers/incoming_irc.rs\<close>, \<open>outgoing_irc.rs\<close>), the
  guess at the protocol (\<open>handlers/protocol_detection.rs\<close>), and the end of a
  connection (\<open>dispatcher.rs\<close>).  The calls of one thread are modelled, so a
  \<open>try_lock\<close> succeeds.  \<open>r\<close> is the registry of engines the socket refers to.
\<close>

section \<open>The state of a socket\<close>

datatype SocketState = Initializing | TlsHandshake | Connected | IrcIdentified | Closed

fun show_state :: "SocketState \<Rightarrow> string" where
  "show_state Initializing = ''Initializing''"
| "show_state TlsHandshake = ''TlsHandshake''"
| "show_state Connected = ''Connected''"
| "show_state IrcIdentified = ''IrcIdentified''"
| "show_state Closed = ''Closed''"

datatype SocketError = Utf8Error | IoError string | ProtocolError string | BufferOverflow

record SocketFlags =
  is_ssl_flag :: bool
  ssl_handshake_complete :: bool
  used_starttls :: bool

record SocketStats =
  bytes_sent :: nat
  lines_sent :: nat
  lines_encrypted :: nat
  bytes_received :: nat
  lines_received :: nat
  lines_decrypted :: nat

text \<open>\<open>si_engines\<close> is the \<open>Arc\<close> of the registry, as its index among those created.\<close>

record SocketInfo =
  si_socket :: u32
  si_engines :: nat
  network_name :: "string option"
  sock_state :: SocketState
  flags :: SocketFlags
  stats :: SocketStats
  received_buffer :: bytes
  processed_incoming_buffer :: bytes
  incoming_line_buffer :: string
  outgoing_line_buffer :: string
  tls_handshake_buffer :: bytes

definition SocketInfo_new :: "u32 \<Rightarrow> nat \<Rightarrow> SocketInfo" where
  "SocketInfo_new socket engines =
     \<lparr>si_socket = socket, si_engines = engines, network_name = None, sock_state = Initializing,
      flags = \<lparr>is_ssl_flag = False, ssl_handshake_complete = False, used_starttls = False\<rparr>,
      stats = \<lparr>bytes_sent = 0, lines_sent = 0, lines_encrypted = 0, bytes_received = 0, lines_received = 0, lines_decrypted = 0\<rparr>,
      received_buffer = [], processed_incoming_buffer = [], incoming_line_buffer = [],
      outgoing_line_buffer = [], tls_handshake_buffer = []\<rparr>"

definition set_network_name :: "string \<Rightarrow> SocketInfo \<Rightarrow> SocketInfo" where
  "set_network_name name si = si\<lparr>network_name := Some name\<rparr>"

definition set_state :: "SocketState \<Rightarrow> SocketInfo \<Rightarrow> SocketInfo" where
  "set_state s si = si\<lparr>sock_state := s\<rparr>"

definition set_ssl :: "bool \<Rightarrow> SocketInfo \<Rightarrow> SocketInfo" where
  "set_ssl b si = si\<lparr>flags := (flags si)\<lparr>is_ssl_flag := b\<rparr>\<rparr>"

definition is_ssl :: "SocketInfo \<Rightarrow> bool" where
  "is_ssl si = is_ssl_flag (flags si)"

definition set_ssl_handshake_complete :: "bool \<Rightarrow> SocketInfo \<Rightarrow> SocketInfo" where
  "set_ssl_handshake_complete b si = si\<lparr>flags := (flags si)\<lparr>ssl_handshake_complete := b\<rparr>\<rparr>"

definition is_ssl_handshake_complete :: "SocketInfo \<Rightarrow> bool" where
  "is_ssl_handshake_complete si = ssl_handshake_complete (flags si)"

definition get_stats :: "SocketInfo \<Rightarrow> string" where
  "get_stats si =
     ''[Socket '' @ show_nat (unat (si_socket si)) @ '' | '' @ show_state (sock_state si) @ '' | '' @
     (if is_ssl si then ''SSL'' else ''Plain'') @
     '' | Rx: '' @ show_nat (bytes_received (stats si)) @ ''b/'' @ show_nat (lines_received (stats si)) @
     ''ln | Tx: '' @ show_nat (bytes_sent (stats si)) @ ''b/'' @ show_nat (lines_sent (stats si)) @ ''ln]''"

section \<open>Buffers\<close>

definition write_received_data :: "bytes \<Rightarrow> SocketInfo \<Rightarrow> SocketInfo" where
  "write_received_data data si =
     (let buffer = received_buffer si;
          kept = (if length buffer + length data > 1000000
                  then (let overflow_amount = length buffer + length data - 990000 in
                        if overflow_amount < length buffer then drop overflow_amount buffer else [])
                  else buffer)
      in si\<lparr>received_buffer := kept @ data\<rparr>)"

text \<open>The bytes copied to a buffer of the given length.\<close>

definition read_processed_data :: "nat \<Rightarrow> SocketInfo \<Rightarrow> bytes \<times> SocketInfo" where
  "read_processed_data buffer_len si =
     (let n = min buffer_len (length (processed_incoming_buffer si)) in
      (take n (processed_incoming_buffer si),
       si\<lparr>processed_incoming_buffer := drop n (processed_incoming_buffer si)\<rparr>))"

definition get_processed_buffer :: "SocketInfo \<Rightarrow> bytes" where
  "get_processed_buffer si = processed_incoming_buffer si"

definition clear_processed_buffer :: "SocketInfo \<Rightarrow> SocketInfo" where
  "clear_processed_buffer si = si\<lparr>processed_incoming_buffer := []\<rparr>"

definition notify_close :: "'w InjectEngines \<Rightarrow> SocketInfo \<Rightarrow> 'w \<Rightarrow> SocketInfo \<times> 'w" where
  "notify_close r si w =
     ((set_state Closed si)\<lparr>received_buffer := [], processed_incoming_buffer := [],
        incoming_line_buffer := [], outgoing_line_buffer := []\<rparr>,
      engines_on_socket_closed r (si_socket si) w)"

section \<open>Incoming lines\<close>

text \<open>One line through the engines, and its result into the processed buffer.\<close>

definition receive_line :: "'w InjectEngines \<Rightarrow> string \<Rightarrow> SocketInfo \<Rightarrow> 'w \<Rightarrow> SocketInfo \<times> 'w" where
  "receive_line r line si w =
     (let ((_, out), w1) = on_incoming_irc_line r (si_socket si) (line @ CRLF) w in
      (si\<lparr>processed_incoming_buffer := processed_incoming_buffer si @ as_bytes out\<rparr>, w1))"

definition count_received :: "SocketInfo \<Rightarrow> SocketInfo" where
  "count_received si = si\<lparr>stats := (stats si)\<lparr>lines_received := lines_received (stats si) + 1\<rparr>\<rparr>"

text \<open>The loop over the segments; its first test is the one meant to stop at a partial line.\<close>

fun receive_segments ::
  "'w InjectEngines \<Rightarrow> string \<Rightarrow> string \<Rightarrow> string list \<Rightarrow> SocketInfo \<Rightarrow> 'w \<Rightarrow> SocketInfo \<times> 'w" where
  "receive_segments r data_str last_segment [] si w = (si, w)"
| "receive_segments r data_str last_segment (line # ls) si w =
     (if line = [] \<and> line = last_segment \<and> \<not> ends_with CRLF data_str then (si, w)
      else if line = [] then receive_segments r data_str last_segment ls si w
      else (let (si1, w1) = receive_line r line (count_received si) w
            in receive_segments r data_str last_segment ls si1 w1))"

text \<open>The salvage of a buffer that is not UTF-8, split at every carriage return.\<close>

fun split_byte :: "u8 \<Rightarrow> bytes \<Rightarrow> bytes list" where
  "split_byte b [] = [[]]"
| "split_byte b (c # cs) =
     (if c = b then [] # split_byte b cs
      else (case split_byte b cs of [] \<Rightarrow> [[c]] | s # ss \<Rightarrow> (c # s) # ss))"

definition without_newline :: "bytes \<Rightarrow> bytes" where
  "without_newline segment = (if segment \<noteq> [] \<and> last segment = 0x0A then butlast segment else segment)"

fun salvage_segments :: "'w InjectEngines \<Rightarrow> bytes list \<Rightarrow> SocketInfo \<Rightarrow> 'w \<Rightarrow> SocketInfo \<times> 'w" where
  "salvage_segments r [] si w = (si, w)"
| "salvage_segments r (segment # ss) si w =
     (let line_bytes = without_newline segment in
      if line_bytes = [] then salvage_segments r ss si w
      else (let (si1, w1) = receive_line r (from_utf8_lossy line_bytes) si w in salvage_segments r ss si1 w1))"

definition process_received_lines :: "'w InjectEngines \<Rightarrow> SocketInfo \<Rightarrow> 'w \<Rightarrow> SocketInfo \<times> 'w" where
  "process_received_lines r si w =
     (let data = received_buffer si; si0 = si\<lparr>received_buffer := []\<rparr> in
      if data = [] then (si, w)
      else case from_utf8 data of
        Some data_str \<Rightarrow>
          (let segments = split_str CRLF data_str;
               last_segment = last segments;
               (si1, w1) = receive_segments r data_str last_segment segments si0 w
           in (if \<not> ends_with CRLF data_str \<and> last_segment \<noteq> []
               then si1\<lparr>received_buffer := received_buffer si1 @ as_bytes last_segment\<rparr> else si1, w1))
      | None \<Rightarrow>
          (let segments = split_byte 0x0D data;
               last_segment = last segments;
               (si1, w1) = salvage_segments r segments si0 w
           in (if \<not> ends_with CRLF (str_of data) \<and> last_segment \<noteq> []
               then si1\<lparr>received_buffer := received_buffer si1 @ last_segment\<rparr> else si1, w1)))"

section \<open>The protocol of a new connection\<close>

definition handle_protocol_detection :: "bytes \<Rightarrow> SocketInfo \<Rightarrow> SocketInfo" where
  "handle_protocol_detection data si =
     (if data \<noteq> [] \<and> (hd data = 0x16 \<or> hd data = 0x80) then set_state TlsHandshake (set_ssl True si)
      else if length data > 4 then
        (if take 4 data \<in> {as_bytes ''NICK'', as_bytes ''USER'', as_bytes ''PASS'', as_bytes ''CAP ''}
         then set_state Connected si
         else case from_utf8 (take 4 data) of
           Some text \<Rightarrow>
             (if to_uppercase text \<in> {''NICK'', ''USER'', ''PASS'', ''CAP ''} then set_state Connected si else si)
         | None \<Rightarrow> si)
      else si)"

definition is_tls_handshake_packet :: "bytes \<Rightarrow> bool" where
  "is_tls_handshake_packet data =
     (5 \<le> length data \<and> data ! 0 = 22 \<and> data ! 1 = 3 \<and> 1 \<le> data ! 2 \<and> data ! 2 \<le> 4)"

definition initial_commands :: "string list" where
  "initial_commands = [''NICK '', ''USER '', ''PASS '', ''CAP '', ''PONG '', ''PING '']"

definition is_initial_irc_command :: "bytes \<Rightarrow> bool" where
  "is_initial_irc_command data =
     (if 5 \<le> length data \<and> (take 5 data \<in> {as_bytes ''NICK '', as_bytes ''USER '', as_bytes ''PASS '', as_bytes ''PING '', as_bytes ''PONG ''}
           \<or> take 4 data = as_bytes ''CAP '') then True
      else case from_utf8 data of
        Some str_data \<Rightarrow> list_ex (\<lambda>c. starts_with c (trim str_data)) initial_commands
      | None \<Rightarrow> False)"

section \<open>Outgoing lines\<close>

text \<open>The loop over the complete lines: each goes through the engines, and what they
  return is only counted.\<close>

fun send_lines ::
  "'w InjectEngines \<Rightarrow> nat \<Rightarrow> string list \<Rightarrow> SocketInfo \<Rightarrow> 'w \<Rightarrow> string \<times> SocketInfo \<times> 'w" where
  "send_lines r crlf_count [] si w = ([], si, w)"
| "send_lines r 0 (line # ls) si w = (line, si, w)"
| "send_lines r (Suc n) (line # ls) si w =
     (if line = [] then send_lines r n ls si w
      else
        (let si1 = si\<lparr>stats := (stats si)\<lparr>lines_sent := lines_sent (stats si) + 1\<rparr>\<rparr>;
             ((modified, _), w1) = on_outgoing_irc_line r (si_socket si) (line @ CRLF) w;
             si2 = (if modified then si1\<lparr>stats := (stats si1)\<lparr>lines_encrypted := lines_encrypted (stats si1) + 1\<rparr>\<rparr> else si1)
         in send_lines r n ls si2 w1))"

definition on_sending :: "'w InjectEngines \<Rightarrow> bytes \<Rightarrow> SocketInfo \<Rightarrow> 'w \<Rightarrow> (SocketError, unit) result \<times> SocketInfo \<times> 'w" where
  "on_sending r data si w =
     (let is_first = (bytes_sent (stats si) = 0);
          si1 = si\<lparr>stats := (stats si)\<lparr>bytes_sent := bytes_sent (stats si) + length data\<rparr>\<rparr>;
          si2 = (if is_first then handle_protocol_detection data si1 else si1)
      in case from_utf8 data of
           None \<Rightarrow> (Inl Utf8Error, si2, w)
         | Some data_str \<Rightarrow>
             (let line_buf = outgoing_line_buffer si2 @ data_str in
              if \<not> contains CRLF line_buf then (Inr (), si2\<lparr>outgoing_line_buffer := line_buf\<rparr>, w)
              else
                (let segments = split_str CRLF line_buf;
                     (remaining, si3, w1) = send_lines r (length segments - 1) segments si2 w
                 in (Inr (), si3\<lparr>outgoing_line_buffer := remaining\<rparr>, w1))))"

text \<open>Helpers that no hook calls: the result of the engines as the bytes to send, and
  the network name of a greeting.\<close>

definition prepare_outgoing_data :: "'w InjectEngines \<Rightarrow> bytes \<Rightarrow> SocketInfo \<Rightarrow> 'w \<Rightarrow> bytes \<times> 'w" where
  "prepare_outgoing_data r data si w =
     (let ((modified, output), w1) = on_outgoing_irc_line r (si_socket si) (from_utf8_lossy data) w in
      (if modified then as_bytes output else data, w1))"

definition info_on_outgoing_irc_line :: "'w InjectEngines \<Rightarrow> u32 \<Rightarrow> string \<Rightarrow> 'w \<Rightarrow> (bool \<times> string) \<times> 'w" where
  "info_on_outgoing_irc_line r socket line w =
     (let (s, w1) = run_engines engine_on_outgoing socket (filter (\<lambda>e. \<not> is_postprocessor e) (get_engines r)) (False, line) w
      in run_engines engine_on_outgoing socket (filter is_postprocessor (get_engines r)) s w1)"

definition is_network_info :: "string \<Rightarrow> bool" where
  "is_network_info line = contains '' 005 '' line"

fun trim_start_matches :: "nat \<Rightarrow> string \<Rightarrow> string \<Rightarrow> string" where
  "trim_start_matches 0 p s = s"
| "trim_start_matches (Suc n) p s = (if starts_with p s then trim_start_matches n p (drop (length p) s) else s)"

definition network_of_greeting :: "string \<Rightarrow> string option" where
  "network_of_greeting line =
     map_option (\<lambda>p. trim_start_matches (length p) ''NETWORK='' p)
       (find (starts_with ''NETWORK='') (split_whitespace line))"

definition handle_network_info :: "string \<Rightarrow> SocketInfo \<Rightarrow> SocketInfo" where
  "handle_network_info line si =
     (case network_of_greeting line of Some n \<Rightarrow> set_network_name n si | None \<Rightarrow> si)"

end
