(* ===== verification/Winsock.thy ===== *)
theory Winsock
  imports Sockets
begin

text \<open>
  The injector as a whole: its global state (\<open>lib.rs\<close>), the hooks of \<open>recv\<close>,
  \<open>send\<close>, \<open>connect\<close> and \<open>closesocket\<close> (\<open>hook_socket.rs\<close>), and the functions it
  exports to engines and to mIRC (\<open>engines.rs\<close>, \<open>dll_interface.rs\<close>).  The original
  Winsock functions are outside the program: what they returned is an argument, and
  a call the hook makes is part of the result.  An installed detour is a flag.
\<close>

definition SOCKET_ERROR :: int where "SOCKET_ERROR = -1"

text \<open>The registries ever created, \<open>engines\<close> the current one; a socket keeps the one it got.\<close>

record 'w inject =
  active_sockets :: "(u32, SocketInfo) hmap"
  discarded_sockets :: "u32 list"
  engines :: "nat option"
  registries :: "'w InjectEngines list"
  max_mirc_return_bytes :: nat
  loaded :: bool
  version_shown :: bool
  recv_hook :: bool
  send_hook :: bool
  connect_hook :: bool
  closesocket_hook :: bool

definition inject_start :: "'w inject" where
  "inject_start = \<lparr>active_sockets = [], discarded_sockets = [], engines = None, registries = [],
     max_mirc_return_bytes = 4096, loaded = False, version_shown = False,
     recv_hook = False, send_hook = False, connect_hook = False, closesocket_hook = False\<rparr>"

definition init_engines :: "'w inject \<Rightarrow> nat \<times> 'w inject" where
  "init_engines g =
     (case engines g of
        Some i \<Rightarrow> (i, g)
      | None \<Rightarrow> (length (registries g),
                 g\<lparr>engines := Some (length (registries g)), registries := registries g @ [InjectEngines_new]\<rparr>))"

definition registry_of :: "'w inject \<Rightarrow> SocketInfo \<Rightarrow> 'w InjectEngines" where
  "registry_of g si = registries g ! si_engines si"

definition put_socket :: "SocketInfo \<Rightarrow> 'w inject \<Rightarrow> 'w inject" where
  "put_socket si g = g\<lparr>active_sockets := hm_insert (si_socket si) si (active_sockets g)\<rparr>"

definition get_or_create_socket :: "u32 \<Rightarrow> 'w inject \<Rightarrow> SocketInfo \<times> 'w inject" where
  "get_or_create_socket socket_id g =
     (case hm_get (active_sockets g) socket_id of
        Some si \<Rightarrow> (si, g)
      | None \<Rightarrow>
          (let (i, g1) = init_engines g; si = SocketInfo_new socket_id i in (si, put_socket si g1)))"

definition remove_socket :: "u32 \<Rightarrow> 'w inject \<Rightarrow> 'w inject" where
  "remove_socket socket_id g =
     g\<lparr>active_sockets := hm_remove socket_id (active_sockets g), discarded_sockets := discarded_sockets g @ [socket_id]\<rparr>"

section \<open>Receiving\<close>

text \<open>The end of the last complete line: the position after the last CR LF.\<close>

definition crlf_boundary :: "bytes \<Rightarrow> nat" where
  "crlf_boundary bs =
     (case rev (filter (\<lambda>i. take 2 (drop i bs) = as_bytes CRLF) [0..<length bs - 1]) of
        [] \<Rightarrow> 0 | pos # _ \<Rightarrow> pos + 2)"

text \<open>The processed lines that fit go to the caller's buffer; the rest is put back,
  and then the buffer is cleared.\<close>

definition deliver :: "int \<Rightarrow> SocketInfo \<Rightarrow> bytes \<times> SocketInfo" where
  "deliver len si =
     (let processed_buffer = get_processed_buffer si;
          safe_len = (if 0 < len then nat len else 0);
          bytes_to_copy = crlf_boundary (take (min safe_len (length processed_buffer)) processed_buffer);
          si1 = (if 0 < bytes_to_copy \<and> bytes_to_copy < length processed_buffer
                 then si\<lparr>processed_incoming_buffer := drop bytes_to_copy processed_buffer\<rparr> else si)
      in (take bytes_to_copy processed_buffer, clear_processed_buffer si1))"

definition overwrite :: "bytes \<Rightarrow> bytes \<Rightarrow> bytes" where
  "overwrite buf data = data @ drop (length data) buf"

text \<open>Only a debug build looks for the network name.\<close>

definition detect_network :: "bool \<Rightarrow> bytes \<Rightarrow> SocketInfo \<Rightarrow> SocketInfo" where
  "detect_network debug data si =
     (case (if debug then from_utf8 data else None) of
        Some text \<Rightarrow> if is_network_info text then handle_network_info text si else si
      | None \<Rightarrow> si)"

text \<open>\<open>received\<close> is what the original \<open>recv\<close> did: \<open>Inl n\<close> if it returned \<open>n \<le> 0\<close>, and
  \<open>Inr data\<close> if it wrote \<open>data\<close> to the caller's buffer \<open>buf\<close> and returned its length.
  The result is the returned value and the contents of the buffer.\<close>

definition hooked_recv ::
  "bool \<Rightarrow> u64 \<Rightarrow> int \<Rightarrow> bytes \<Rightarrow> (int, bytes) result \<Rightarrow> 'w inject \<Rightarrow> 'w \<Rightarrow> (int \<times> bytes) \<times> 'w inject \<times> 'w" where
  "hooked_recv debug s len buf received g w =
     (let (si, g1) = get_or_create_socket (ucast s) g in
      if \<not> recv_hook g1 then ((SOCKET_ERROR, buf), g1, w)
      else case received of
        Inl n \<Rightarrow> ((n, buf), g1, w)
      | Inr data \<Rightarrow>
          if is_ssl si \<or> data = [] then ((int (length data), overwrite buf data), g1, w)
          else
            (let si1 = write_received_data data (detect_network debug data si);
                 (si2, w1) = process_received_lines (registry_of g1 si) si1 w;
                 (out, si3) = deliver len si2
             in ((int (length out), overwrite (overwrite buf data) out), put_socket si3 g1, w1)))"

section \<open>Sending\<close>

text \<open>What a hook does at its end: it calls the original function, with the given bytes,
  or fails with a Winsock error.\<close>

datatype send_call = Original u64 "bytes option" int | WsaFail

definition send_original :: "u64 \<Rightarrow> bytes option \<Rightarrow> int \<Rightarrow> 'w inject \<Rightarrow> send_call" where
  "send_original s buf len g = (if send_hook g then Original s buf len else WsaFail)"

definition first_packet :: "bytes \<Rightarrow> SocketInfo \<Rightarrow> SocketInfo" where
  "first_packet data si =
     (if bytes_sent (stats si) = 0 \<and> sock_state si = Initializing then
        (if is_initial_irc_command data then set_state IrcIdentified si
         else if is_tls_handshake_packet data then set_state TlsHandshake (set_ssl True si)
         else si)
      else si)"

definition hooked_send ::
  "u64 \<Rightarrow> bytes option \<Rightarrow> int \<Rightarrow> 'w inject \<Rightarrow> 'w \<Rightarrow> send_call \<times> 'w inject \<times> 'w" where
  "hooked_send s buf len g w =
     (let (si, g1) = get_or_create_socket (ucast s) g in
      if is_ssl si then (send_original s buf len g1, g1, w)
      else case buf of
        None \<Rightarrow> (send_original s buf len g1, g1, w)
      | Some data \<Rightarrow>
          if len < 0 then (send_original s buf len g1, g1, w)
          else
            (let (_, si1, w1) = on_sending (registry_of g1 si) data (first_packet data si) w
             in (send_original s buf len g1, put_socket si1 g1, w1)))"

section \<open>Connections\<close>

text \<open>\<open>result\<close> is what the original \<open>connect\<close> returned and \<open>eintr\<close> whether the error is
  \<open>WSAEINTR\<close>.\<close>

definition hooked_connect :: "u64 \<Rightarrow> int \<Rightarrow> bool \<Rightarrow> 'w inject \<Rightarrow> int \<times> 'w inject" where
  "hooked_connect s result eintr g =
     (let (_, g1) = get_or_create_socket (ucast s) g in
      if \<not> connect_hook g1 then (SOCKET_ERROR, g1)
      else
        (let (si, g2) = get_or_create_socket (ucast s) g1 in
         (result,
          if result = 0 then (if sock_state si = Initializing then put_socket (set_state Connected si) g2 else g2)
          else if result = SOCKET_ERROR \<and> \<not> eintr then put_socket (set_state Closed si) g2
          else g2)))"

definition hooked_closesocket :: "u64 \<Rightarrow> int \<Rightarrow> 'w inject \<Rightarrow> 'w \<Rightarrow> int \<times> 'w inject \<times> 'w" where
  "hooked_closesocket s result g w =
     (let w1 = (case hm_get (active_sockets g) (ucast s) of
                  Some si \<Rightarrow> engines_on_socket_closed (registry_of g si) (ucast s) w
                | None \<Rightarrow> w);
          g1 = g\<lparr>active_sockets := hm_remove (ucast s) (active_sockets g)\<rparr>
      in (if closesocket_hook g then result else SOCKET_ERROR, g1, w1))"

section \<open>Exported functions\<close>

definition RegisterEngine :: "nat \<Rightarrow> 'w FishInjectEngine \<Rightarrow> 'w inject \<Rightarrow> int \<times> 'w inject" where
  "RegisterEngine addr engine g =
     (case engines g of
        None \<Rightarrow> (-1, g)
      | Some i \<Rightarrow>
          (let (ok, r) = register addr engine (registries g ! i)
           in (if ok then 0 else 1, g\<lparr>registries := (registries g)[i := r]\<rparr>)))"

definition UnregisterEngine :: "nat \<Rightarrow> 'w inject \<Rightarrow> int \<times> 'w inject" where
  "UnregisterEngine addr g =
     (case engines g of
        None \<Rightarrow> (-1, g)
      | Some i \<Rightarrow>
          (let (ok, r) = unregister addr (registries g ! i)
           in (if ok then 0 else 1, g\<lparr>registries := (registries g)[i := r]\<rparr>)))"

definition GetNetworkName :: "u32 \<Rightarrow> 'w inject \<Rightarrow> bytes option" where
  "GetNetworkName socket_id g =
     (case hm_get (active_sockets g) socket_id of
        Some si \<Rightarrow> (case network_name si of Some n \<Rightarrow> cstring_new n | None \<Rightarrow> None)
      | None \<Rightarrow> None)"

text \<open>The buffer mIRC gave, as the bytes it holds; \<open>Inl\<close> refuses to write.\<close>

definition write_mirc_output_buffer :: "bytes option \<Rightarrow> nat \<Rightarrow> bytes \<Rightarrow> (unit, nat) result \<times> bytes option" where
  "write_mirc_output_buffer data max_bytes src =
     (case data of
        None \<Rightarrow> (Inl (), None)
      | Some mem \<Rightarrow>
          if max_bytes = 0 then (Inl (), data)
          else
            (let copy_len = min (length src) (max_bytes - 1)
             in (Inr copy_len, Some (overwrite mem (take copy_len src @ [0])))))"

text \<open>Sockets in the order of the map; \<open>len\<close> over 700 cuts the list short.\<close>

fun debug_stats :: "string \<Rightarrow> SocketInfo list \<Rightarrow> string" where
  "debug_stats acc [] = acc"
| "debug_stats acc (si # sis) =
     (let acc1 = acc @ get_stats si @ '' '' in
      if 700 < length acc1 then take 700 acc1 @ ''...'' else debug_stats acc1 sis)"

definition debug_info :: "'w inject \<Rightarrow> string" where
  "debug_info g =
     (let stats = debug_stats [] (map snd (active_sockets g)) in
      ''*** FiSH11_InjectDebugInfo() : Sockets : Active '' @ show_nat (length (active_sockets g)) @
      '' - Discarded '' @ show_nat (length (discarded_sockets g)) @ '' - '' @
      (if stats = [] then ''none'' else stats) @ '' - Engines: '' @
      (case engines g of Some i \<Rightarrow> get_engine_list (registries g ! i) | None \<Rightarrow> ''no engines''))"

definition MIRC_RETURN_DATA_COMMAND :: int where "MIRC_RETURN_DATA_COMMAND = 1"

text \<open>The outcome is \<open>None\<close> where the \<open>expect\<close> on the C string panics.\<close>

definition FiSH11_InjectDebugInfo :: "bytes option \<Rightarrow> 'w inject \<Rightarrow> (int \<times> bytes option) option" where
  "FiSH11_InjectDebugInfo data g =
     map_option (\<lambda>c. case write_mirc_output_buffer data (max_mirc_return_bytes g) c of
                       (Inl _, d) \<Rightarrow> (MIRC_HALT, d)
                     | (Inr _, d) \<Rightarrow> (MIRC_RETURN_DATA_COMMAND, d))
       (cstring_new (debug_info g))"

text \<open>\<open>installed\<close> is the number of hooks \<open>install_hooks\<close> gets in place, in its order, before
  one fails: four are all of them, and those placed before a failure stay.  \<open>bytes\<close> is
  \<open>m_bytes\<close>.  The result has the returned value and \<open>m_keep\<close>, where it is set.\<close>

definition install_hooks :: "nat \<Rightarrow> 'w inject \<Rightarrow> bool \<times> 'w inject" where
  "install_hooks installed g =
     (4 \<le> installed,
      g\<lparr>recv_hook := recv_hook g \<or> 1 \<le> installed, send_hook := send_hook g \<or> 2 \<le> installed,
        connect_hook := connect_hook g \<or> 3 \<le> installed, closesocket_hook := closesocket_hook g \<or> 4 \<le> installed\<rparr>)"

definition LoadDll :: "u32 option \<Rightarrow> nat \<Rightarrow> 'w inject \<Rightarrow> (int \<times> int option) \<times> 'w inject" where
  "LoadDll bytes installed g =
     (case bytes of
        None \<Rightarrow> ((MIRC_HALT, None), g)
      | Some b \<Rightarrow>
          (let (_, g1) = init_engines (g\<lparr>max_mirc_return_bytes := unat b\<rparr>);
               (ok, g2) = install_hooks installed g1
           in if \<not> ok then ((MIRC_HALT, Some 0), g2)
              else ((MIRC_HALT, Some 1), g2\<lparr>version_shown := True, loaded := True\<rparr>)))"

definition uninstall_socket_hooks :: "'w inject \<Rightarrow> 'w inject" where
  "uninstall_socket_hooks g =
     g\<lparr>closesocket_hook := False, connect_hook := False, send_hook := False, recv_hook := False\<rparr>"

definition UnloadDll :: "int \<Rightarrow> 'w inject \<Rightarrow> int \<times> 'w inject" where
  "UnloadDll action g =
     (if action = 1 then (0, g)
      else (MIRC_HALT, (uninstall_socket_hooks g)\<lparr>engines := None, loaded := False, version_shown := False\<rparr>))"

end
