(* ===== verification/WinsockFacts.thy ===== *)
theory WinsockFacts
  imports Winsock
begin

text \<open>
  Properties of the hooks: what reaches the wire, what reaches the client, when the
  stream of lines is kept and when it is not, and the invariant of the sockets.
\<close>

section \<open>Lines of a stream\<close>

lemma as_bytes_eq_Nil [simp]: "as_bytes s = [] \<longleftrightarrow> s = []" "str_of b = [] \<longleftrightarrow> b = []"
  by (metis as_bytes_Nil(1) as_bytes_inject, metis as_bytes_str_of as_bytes_Nil)

lemma CRLF_simps: "CRLF = CHR 0x0D # CHR 0x0A # []" "CRLF \<noteq> []" "length CRLF = 2"
  by (simp_all add: CRLF_def)

lemma find_crlf_append: "find_str CRLF a = Some i \<Longrightarrow> find_str CRLF (a @ b) = Some i"
proof (induction a arbitrary: i)
  case Nil
  then show ?case by (simp add: CRLF_def)
next
  case (Cons c a)
  then show ?case by (cases a) (auto simp: CRLF_def starts_with_def split: if_splits)
qed

lemma find_crlf_first: "find_str CRLF a = None \<Longrightarrow> find_str CRLF (a @ CRLF @ b) = Some (length a)"
proof (induction a)
  case Nil
  then show ?case by (simp add: CRLF_def)
next
  case (Cons c a)
  then show ?case by (cases a) (auto simp: CRLF_def starts_with_def split: if_splits)
qed

lemma split_crlf_append: "split_str CRLF (a @ CRLF @ b) = split_str CRLF a @ split_str CRLF b"
proof (induction CRLF a rule: split_str.induct)
  case (1 a)
  show ?case
  proof (cases "find_str CRLF a")
    case None
    then have "split_once CRLF (a @ CRLF @ b) = Some (a, b)"
      using find_crlf_first [OF None, of b] by (simp add: split_once_def)
    then show ?thesis using None
      by (simp add: split_str_Some CRLF_simps(2) split_str_None split_once_def)
  next
    case (Some i)
    then have s: "split_once CRLF a = Some (take i a, drop (i + 2) a)" by (simp add: split_once_def CRLF_simps(3))
    have "i + 2 \<le> length a" using find_str_Some [OF Some] by (simp add: CRLF_simps(3))
    then have "split_once CRLF (a @ CRLF @ b) = Some (take i a, drop (i + 2) a @ CRLF @ b)"
      using find_crlf_append [OF Some, of "CRLF @ b"] by (simp add: split_once_def CRLF_simps(3))
    then show ?thesis using 1 s by (simp add: split_str_Some CRLF_simps(2))
  qed
qed

lemma split_crlf_none: "\<not> contains CRLF a \<Longrightarrow> split_str CRLF a = [a]"
  by (simp add: split_str_None split_once_def contains_def)

lemma split_crlf_Nil [simp]: "split_str CRLF [] = [[]]"
  by (rule split_crlf_none) (simp add: contains_def CRLF_def)

lemma split_crlf_last: "\<not> contains CRLF (last (split_str CRLF s))"
proof (induction CRLF s rule: split_str.induct)
  case (1 s)
  show ?case
  proof (cases "split_once CRLF s")
    case None
    then show ?thesis by (simp add: split_str_None split_once_def contains_def split: option.splits)
  next
    case (Some ab)
    then show ?thesis using 1 by (cases ab) (simp add: split_str_Some CRLF_simps(2))
  qed
qed

lemma ends_crlf: "ends_with CRLF s \<longleftrightarrow> (\<exists>a. s = a @ CRLF)"
  by (auto simp: ends_with_def) (metis append_take_drop_id)

text \<open>The lines of a piece of the stream; the empty ones are dropped.\<close>

definition lines_of :: "string \<Rightarrow> string list" where
  "lines_of s = filter (\<lambda>l. l \<noteq> []) (split_str CRLF s)"

lemma lines_of_Nil [simp]: "lines_of [] = []"
  by (simp add: lines_of_def)

lemma lines_of_append:
  assumes "ends_with CRLF a"
  shows "lines_of (a @ b) = lines_of a @ lines_of b"
proof -
  obtain a' where a: "a = a' @ CRLF" using assms by (auto simp: ends_crlf)
  have "lines_of (x @ CRLF @ y) = lines_of x @ lines_of y" for x y
    by (simp add: lines_of_def split_crlf_append)
  then have "lines_of (a' @ CRLF @ b) = lines_of a' @ lines_of b" "lines_of (a' @ CRLF @ []) = lines_of a' @ lines_of []"
    by blast+
  then show ?thesis by (simp add: a)
qed

lemma last_split_ends:
  assumes "ends_with CRLF s"
  shows "last (split_str CRLF s) = []"
proof -
  obtain a where "s = a @ CRLF @ []" using assms by (auto simp: ends_crlf)
  then have "split_str CRLF s = split_str CRLF a @ split_str CRLF []" by (simp only: split_crlf_append)
  then show ?thesis by simp
qed

section \<open>What the engines make of a stream of lines\<close>

definition filter_line :: "'w InjectEngines \<Rightarrow> u32 \<Rightarrow> string \<Rightarrow> 'w \<Rightarrow> string \<times> 'w" where
  "filter_line r socket line w = (let ((_, out), w1) = on_incoming_irc_line r socket (line @ CRLF) w in (out, w1))"

fun filter_lines :: "'w InjectEngines \<Rightarrow> u32 \<Rightarrow> string list \<Rightarrow> 'w \<Rightarrow> string \<times> 'w" where
  "filter_lines r socket [] w = ([], w)"
| "filter_lines r socket (l # ls) w =
     (let (out, w1) = filter_line r socket l w; (outs, w2) = filter_lines r socket ls w1 in (out @ outs, w2))"

lemma filter_lines_append:
  "filter_lines r k (as @ bs) w =
     (let (x, w1) = filter_lines r k as w; (y, w2) = filter_lines r k bs w1 in (x @ y, w2))"
  by (induction as arbitrary: w) (auto simp: Let_def split: prod.split)

lemma receive_line_filter:
  "receive_line r line si w =
     (si\<lparr>processed_incoming_buffer := processed_incoming_buffer si @ as_bytes (fst (filter_line r (si_socket si) line w))\<rparr>,
      snd (filter_line r (si_socket si) line w))"
  by (simp add: receive_line_def filter_line_def split: prod.split)

lemma count_received_fields [simp]:
  "si_socket (count_received si) = si_socket si" "si_engines (count_received si) = si_engines si"
  "network_name (count_received si) = network_name si" "sock_state (count_received si) = sock_state si"
  "flags (count_received si) = flags si" "received_buffer (count_received si) = received_buffer si"
  "processed_incoming_buffer (count_received si) = processed_incoming_buffer si"
  "incoming_line_buffer (count_received si) = incoming_line_buffer si"
  "outgoing_line_buffer (count_received si) = outgoing_line_buffer si"
  "bytes_sent (stats (count_received si)) = bytes_sent (stats si)"
  by (simp_all add: count_received_def)

text \<open>All that processing changes in a socket: buffers and the count of lines.\<close>

definition same_socket :: "SocketInfo \<Rightarrow> SocketInfo \<Rightarrow> bool" where
  "same_socket a b \<longleftrightarrow> si_socket b = si_socket a \<and> si_engines b = si_engines a \<and> network_name b = network_name a \<and>
     sock_state b = sock_state a \<and> flags b = flags a \<and> incoming_line_buffer b = incoming_line_buffer a \<and>
     outgoing_line_buffer b = outgoing_line_buffer a \<and> bytes_sent (stats b) = bytes_sent (stats a)"

lemma same_socket_refl [simp]: "same_socket a a"
  by (simp add: same_socket_def)

lemma same_socket_trans: "same_socket a b \<Longrightarrow> same_socket b c \<Longrightarrow> same_socket a c"
  by (simp add: same_socket_def)

lemma receive_segments_filter:
  assumes "receive_segments r data last_segment ls si w = (si1, w1)" "ends_with CRLF data \<or> last_segment \<noteq> []"
  shows "w1 = snd (filter_lines r (si_socket si) (filter (\<lambda>l. l \<noteq> []) ls) w) \<and>
    processed_incoming_buffer si1 = processed_incoming_buffer si @
      as_bytes (fst (filter_lines r (si_socket si) (filter (\<lambda>l. l \<noteq> []) ls) w)) \<and>
    received_buffer si1 = received_buffer si \<and> same_socket si si1"
  using assms
proof (induction ls arbitrary: si w)
  case Nil
  then show ?case by simp
next
  case (Cons l ls)
  show ?case
  proof (cases "l = []")
    case True
    then show ?thesis using Cons by auto
  next
    case False
    then show ?thesis
      using Cons.prems Cons.IH [of "fst (receive_line r l (count_received si) w)" "snd (receive_line r l (count_received si) w)"]
      by (auto simp: receive_line_filter same_socket_def split: prod.splits)
  qed
qed

text \<open>The loop's break is never taken: the last segment is empty only after a line end.\<close>

lemma last_segment_ends: "s \<noteq> [] \<Longrightarrow> last (split_str CRLF s) = [] \<Longrightarrow> ends_with CRLF s"
proof (induction CRLF s rule: split_str.induct)
  case (1 s)
  show ?case
  proof (cases "split_once CRLF s")
    case None
    then show ?thesis using 1 by (simp add: split_str_None)
  next
    case (Some ab)
    then have s: "s = fst ab @ CRLF @ snd ab" "last (split_str CRLF (snd ab)) = []"
      using 1 split_once_join [of CRLF s "fst ab" "snd ab"] split_str_Some [of CRLF s "fst ab" "snd ab"]
      by (simp_all add: CRLF_simps(2))
    show ?thesis
    proof (cases "snd ab = []")
      case False
      then have "ends_with CRLF (snd ab)" using 1(1) [OF CRLF_simps(2) Some] s(2) by simp
      then show ?thesis using s(1) unfolding ends_crlf by (metis append.assoc)
    qed (use s in \<open>auto simp: ends_crlf\<close>)
  qed
qed

lemma process_utf8:
  assumes "received_buffer si = as_bytes data" "data \<noteq> []" "utf8_valid (as_bytes data)"
    "process_received_lines r si w = (si1, w1)"
  shows "w1 = snd (filter_lines r (si_socket si) (lines_of data) w) \<and>
    processed_incoming_buffer si1 = processed_incoming_buffer si @ as_bytes (fst (filter_lines r (si_socket si) (lines_of data) w)) \<and>
    received_buffer si1 = as_bytes (last (split_str CRLF data)) \<and> same_socket si si1"
proof -
  have u: "from_utf8 (as_bytes data) = Some data" using assms(3) by (simp add: from_utf8_def)
  have l: "ends_with CRLF data \<or> last (split_str CRLF data) \<noteq> []" using last_segment_ends assms(2) by blast
  have e: "ends_with CRLF data \<Longrightarrow> last (split_str CRLF data) = []" by (rule last_split_ends)
  obtain si2 w2 where r: "receive_segments r data (last (split_str CRLF data)) (split_str CRLF data) (si\<lparr>received_buffer := []\<rparr>) w = (si2, w2)"
    by fastforce
  have "process_received_lines r si w =
      (if \<not> ends_with CRLF data \<and> last (split_str CRLF data) \<noteq> []
       then si2\<lparr>received_buffer := received_buffer si2 @ as_bytes (last (split_str CRLF data))\<rparr> else si2, w2)"
    using assms(1,2) u r by (simp add: process_received_lines_def Let_def)
  then show ?thesis
    using receive_segments_filter [OF r l] assms(4) e
    by (auto simp: lines_of_def same_socket_def split: if_splits)
qed

section \<open>What the client gets\<close>

lemma filter_last: "rev (filter P [0..<n]) = i # is \<Longrightarrow> P i \<and> i < n \<and> (\<forall>j<n. P j \<longrightarrow> j \<le> i)"
proof (induction n arbitrary: i "is")
  case (Suc n)
  show ?case
  proof (cases "P n")
    case True
    then show ?thesis using Suc.prems by simp
  next
    case False
    then have "P i \<and> i < n \<and> (\<forall>j<n. P j \<longrightarrow> j \<le> i)" using Suc.IH [of i "is"] Suc.prems by simp
    then show ?thesis using False by (metis less_SucI less_antisym)
  qed
qed simp

lemma filter_last_none: "rev (filter P [0..<n]) = [] \<longleftrightarrow> (\<forall>j<n. \<not> P j)"
  by (auto simp: filter_empty_conv)

lemma crlf_boundary_cases:
  obtains "crlf_boundary bs = 0" "\<forall>i. take 2 (drop i bs) \<noteq> as_bytes CRLF"
  | i where "crlf_boundary bs = i + 2" "take 2 (drop i bs) = as_bytes CRLF" "i + 2 \<le> length bs"
      "\<forall>j. take 2 (drop j bs) = as_bytes CRLF \<longrightarrow> j \<le> i"
proof -
  let ?P = "\<lambda>i. take 2 (drop i bs) = as_bytes CRLF"
  have small: "i < length bs - 1" if "?P i" for i
  proof -
    have "length (take 2 (drop i bs)) = 2" using that by (simp add: CRLF_def)
    then show ?thesis by auto
  qed
  show ?thesis
  proof (cases "rev (filter ?P [0..<length bs - 1])")
    case Nil
    then show ?thesis using that(1) filter_last_none [of ?P] small by (auto simp: crlf_boundary_def)
  next
    case (Cons i "is")
    then have "?P i" "i < length bs - 1" "\<forall>j<length bs - 1. ?P j \<longrightarrow> j \<le> i" using filter_last by blast+
    moreover have "crlf_boundary bs = i + 2" using Cons by (simp add: crlf_boundary_def)
    ultimately show ?thesis using that(2) small by force
  qed
qed

lemma crlf_boundary_le: "crlf_boundary bs \<le> length bs"
  by (cases rule: crlf_boundary_cases [of bs]) auto

lemma crlf_boundary_ends: "crlf_boundary bs = 0 \<or> ends_with CRLF (str_of (take (crlf_boundary bs) bs))"
proof (cases rule: crlf_boundary_cases [of bs])
  case (2 i)
  have "take (i + 2) bs = take i bs @ take 2 (drop i bs)" by (rule take_add)
  then have "take (i + 2) bs = take i bs @ as_bytes CRLF" using 2(2) by simp
  then show ?thesis using 2(1) by (auto simp: ends_crlf)
qed simp

lemma crlf_boundary_all: "crlf_boundary (as_bytes (s @ CRLF)) = length s + 2"
proof (cases rule: crlf_boundary_cases [of "as_bytes (s @ CRLF)"])
  case 1
  have "take 2 (drop (length s) (as_bytes (s @ CRLF))) = as_bytes CRLF" by (simp add: CRLF_def)
  then show ?thesis using 1(2) by blast
next
  case (2 i)
  have "take 2 (drop (length s) (as_bytes (s @ CRLF))) = as_bytes CRLF" by (simp add: CRLF_def)
  then have "length s \<le> i" using 2(4) by blast
  then show ?thesis using 2(1,3) by (simp add: CRLF_def)
qed

lemma crlf_boundary_none: "CHR 0x0A \<notin> set s \<Longrightarrow> crlf_boundary (as_bytes s) = 0"
proof (cases rule: crlf_boundary_cases [of "as_bytes s"])
  case (2 i)
  assume n: "CHR 0x0A \<notin> set s"
  have "set (as_bytes CRLF) \<subseteq> set (as_bytes s)"
    using 2(2) set_take_subset set_drop_subset by (metis subset_trans)
  then have "byte_of (CHR 0x0A) \<in> byte_of ` set s" by (simp add: as_bytes_def CRLF_def)
  then show ?thesis using n by (metis imageE char_of_byte_of)
qed simp

lemma deliver_facts:
  assumes "deliver len si = (out, si')"
  shows "int (length out) \<le> max 0 len" "out = [] \<or> ends_with CRLF (str_of out)"
    "processed_incoming_buffer si' = []" "received_buffer si' = received_buffer si" "same_socket si si'"
proof -
  let ?b = "take (min (if 0 < len then nat len else 0) (length (processed_incoming_buffer si))) (processed_incoming_buffer si)"
  have o: "out = take (crlf_boundary ?b) (processed_incoming_buffer si)"
    using assms by (auto simp: deliver_def get_processed_buffer_def Let_def)
  have t: "take (crlf_boundary ?b) (processed_incoming_buffer si) = take (crlf_boundary ?b) ?b"
    using crlf_boundary_le [of ?b] by (simp add: min_absorb1)
  show "int (length out) \<le> max 0 len" using o crlf_boundary_le [of ?b] by auto
  show "out = [] \<or> ends_with CRLF (str_of out)"
    using crlf_boundary_ends [of ?b] unfolding o t by auto
  show "processed_incoming_buffer si' = []" "received_buffer si' = received_buffer si" "same_socket si si'"
    using assms by (auto simp: deliver_def clear_processed_buffer_def same_socket_def Let_def)
qed

lemma deliver_all:
  assumes "processed_incoming_buffer si = as_bytes (s @ CRLF)" "int (length s + 2) \<le> len"
  shows "fst (deliver len si) = as_bytes (s @ CRLF)"
  using assms crlf_boundary_all [of s] by (simp add: deliver_def get_processed_buffer_def Let_def CRLF_def)

section \<open>One call of the receiving hook\<close>

lemma write_received_fields [simp]:
  "same_socket si (write_received_data d si)" "processed_incoming_buffer (write_received_data d si) = processed_incoming_buffer si"
  by (simp_all add: write_received_data_def same_socket_def Let_def)

lemma write_received_small:
  "length (received_buffer si) + length d \<le> 1000000 \<Longrightarrow> received_buffer (write_received_data d si) = received_buffer si @ d"
  by (simp add: write_received_data_def Let_def)

lemma write_received_ne: "d \<noteq> [] \<Longrightarrow> received_buffer (write_received_data d si) \<noteq> []"
  by (simp add: write_received_data_def Let_def)

definition same_but_network :: "SocketInfo \<Rightarrow> SocketInfo \<Rightarrow> bool" where
  "same_but_network a b \<longleftrightarrow> (\<exists>n. b = a\<lparr>network_name := n\<rparr>)"

lemma detect_network_same: "same_but_network si (detect_network debug data si)"
proof -
  have "\<exists>n. si = si\<lparr>network_name := n\<rparr>" by (rule exI [of _ "network_name si"]) simp
  then show ?thesis
    by (auto simp: detect_network_def handle_network_info_def set_network_name_def same_but_network_def
        split: option.splits)
qed

lemma detect_network_fields [simp]:
  "received_buffer (detect_network dbg d si) = received_buffer si"
  "processed_incoming_buffer (detect_network dbg d si) = processed_incoming_buffer si"
  "si_socket (detect_network dbg d si) = si_socket si" "si_engines (detect_network dbg d si) = si_engines si"
  "flags (detect_network dbg d si) = flags si" "incoming_line_buffer (detect_network dbg d si) = incoming_line_buffer si"
  "outgoing_line_buffer (detect_network dbg d si) = outgoing_line_buffer si"
  using detect_network_same [of si dbg d] by (auto simp: same_but_network_def)

lemma overwrite_take [simp]: "take (length d) (overwrite b d) = d"
  by (simp add: overwrite_def)

lemma recv_call:
  assumes "hm_get (active_sockets g) (ucast s) = Some si" "recv_hook g" "\<not> is_ssl si" "data \<noteq> []"
    "process_received_lines (registry_of g si) (write_received_data data (detect_network debug data si)) w = (si2, w1)"
    "deliver len si2 = (out, si3)"
  shows "hooked_recv debug s len buf (Inr data) g w =
    ((int (length out), overwrite (overwrite buf data) out), put_socket si3 g, w1)"
  using assms by (simp add: hooked_recv_def get_or_create_socket_def registry_of_def)

section \<open>The invariant of the injector\<close>

definition idle :: "SocketInfo \<Rightarrow> bool" where
  "idle si \<longleftrightarrow> processed_incoming_buffer si = [] \<and> incoming_line_buffer si = [] \<and>
     \<not> contains CRLF (outgoing_line_buffer si) \<and> \<not> contains CRLF (str_of (received_buffer si))"

definition inject_ok :: "'w inject \<Rightarrow> bool" where
  "inject_ok g \<longleftrightarrow> hm_wf (active_sockets g) \<and>
     (\<forall>k si. hm_get (active_sockets g) k = Some si \<longrightarrow> si_socket si = k \<and> si_engines si < length (registries g) \<and> idle si) \<and>
     (\<forall>i. engines g = Some i \<longrightarrow> i < length (registries g)) \<and> list_all registry_ok (registries g)"

lemma contains_crlf_Nil [simp]: "\<not> contains CRLF []"
  by (simp add: contains_def CRLF_def)

lemma idle_new: "idle (SocketInfo_new k i)"
  by (simp add: idle_def SocketInfo_new_def)

lemma SocketInfo_new_fields [simp]:
  "si_socket (SocketInfo_new k i) = k" "si_engines (SocketInfo_new k i) = i"
  by (simp_all add: SocketInfo_new_def)

lemma registry_new_ok: "registry_ok InjectEngines_new"
  by (rule registry_reach_ok) (rule registry_reach.new)

lemma init_engines_ok: "inject_ok g \<Longrightarrow> init_engines g = (i, g') \<Longrightarrow> inject_ok g' \<and> i < length (registries g')"
  by (force simp: inject_ok_def init_engines_def registry_new_ok split: option.splits)

lemma put_socket_ok:
  "inject_ok g \<Longrightarrow> si_engines si < length (registries g) \<Longrightarrow> idle si \<Longrightarrow> inject_ok (put_socket si g)"
  by (auto simp: inject_ok_def put_socket_def distinct_update)

lemma get_or_create_ok:
  assumes "inject_ok g" "get_or_create_socket k g = (si, g')"
  shows "inject_ok g'" "hm_get (active_sockets g') k = Some si" "si_socket si = k" "si_engines si < length (registries g')" "idle si"
    "recv_hook g' = recv_hook g" "send_hook g' = send_hook g" "connect_hook g' = connect_hook g"
proof -
  have "inject_ok g' \<and> hm_get (active_sockets g') k = Some si"
  proof (cases "hm_get (active_sockets g) k")
    case None
    then obtain i g1 where g1: "init_engines g = (i, g1)" "si = SocketInfo_new k i" "g' = put_socket si g1"
      using assms(2) by (auto simp: get_or_create_socket_def Let_def split: prod.splits)
    then have "inject_ok g'" using init_engines_ok [OF assms(1) g1(1)] put_socket_ok [of g1 si] idle_new by simp
    then show ?thesis using g1 by (simp add: put_socket_def)
  qed (use assms in \<open>auto simp: get_or_create_socket_def\<close>)
  then show "inject_ok g'" "hm_get (active_sockets g') k = Some si" by blast+
  then show "si_socket si = k" "si_engines si < length (registries g')" "idle si" by (auto simp: inject_ok_def)
  show "recv_hook g' = recv_hook g" "send_hook g' = send_hook g" "connect_hook g' = connect_hook g"
    using assms(2) by (auto simp: get_or_create_socket_def init_engines_def put_socket_def Let_def split: option.splits)
qed

lemma salvage_segments_fields:
  "salvage_segments r ss si w = (si1, w1) \<Longrightarrow> received_buffer si1 = received_buffer si \<and> same_socket si si1"
proof (induction ss arbitrary: si w)
  case (Cons s ss)
  then show ?case
    by (auto simp: Let_def receive_line_filter same_socket_def split: if_splits prod.splits)
qed simp

lemma split_byte_last: "b \<notin> set (last (split_byte b bs)) \<and> split_byte b bs \<noteq> []"
  by (induction bs) (auto split: list.splits)

lemma no_crlf_bytes: "0x0D \<notin> set bs \<Longrightarrow> \<not> contains CRLF (str_of bs)"
proof
  assume n: "0x0D \<notin> set bs" "contains CRLF (str_of bs)"
  then obtain i where "find_str CRLF (str_of bs) = Some i" by (auto simp: contains_def)
  then have "str_of bs = take i (str_of bs) @ CRLF @ drop (i + length CRLF) (str_of bs)" by (rule find_str_split)
  then have "CHR 0x0D \<in> set (str_of bs)" by (metis CRLF_simps(1) Un_iff list.set_intros(1) set_append)
  then obtain b where b: "b \<in> set bs" "char_of_byte b = CHR 0x0D" by (auto simp: str_of_def)
  then have "b = 0x0D" using byte_of_char_of [of b] by (simp add: byte_of_def)
  then show False using n(1) b(1) by simp
qed

lemma process_received_idle:
  assumes "received_buffer si \<noteq> []" "process_received_lines r si w = (si1, w1)"
  shows "\<not> contains CRLF (str_of (received_buffer si1))" "same_socket si si1"
proof -
  have "\<not> contains CRLF (str_of (received_buffer si1)) \<and> same_socket si si1"
  proof (cases "utf8_valid (received_buffer si)")
    case True
    then show ?thesis
      using process_utf8 [of si "str_of (received_buffer si)" r w si1 w1] assms split_crlf_last by simp
  next
    case False
    obtain si2 w2 where s: "salvage_segments r (split_byte 0x0D (received_buffer si)) (si\<lparr>received_buffer := []\<rparr>) w = (si2, w2)"
      by fastforce
    have "si1 = (if \<not> ends_with CRLF (str_of (received_buffer si)) \<and> last (split_byte 0x0D (received_buffer si)) \<noteq> []
         then si2\<lparr>received_buffer := received_buffer si2 @ last (split_byte 0x0D (received_buffer si))\<rparr> else si2)"
      using assms False s by (simp add: process_received_lines_def from_utf8_def Let_def)
    then show ?thesis
      using salvage_segments_fields [OF s] split_byte_last [of "0x0D" "received_buffer si"] no_crlf_bytes
      by (auto simp: same_socket_def)
  qed
  then show "\<not> contains CRLF (str_of (received_buffer si1))" "same_socket si si1" by blast+
qed

lemma send_lines_fields:
  "send_lines r n ls si w = (rest, si1, w1) \<Longrightarrow>
    si_socket si1 = si_socket si \<and> si_engines si1 = si_engines si \<and> network_name si1 = network_name si \<and>
    sock_state si1 = sock_state si \<and> flags si1 = flags si \<and> received_buffer si1 = received_buffer si \<and>
    processed_incoming_buffer si1 = processed_incoming_buffer si \<and> incoming_line_buffer si1 = incoming_line_buffer si \<and>
    bytes_sent (stats si1) = bytes_sent (stats si)"
proof (induction r n ls si w rule: send_lines.induct)
  case (3 r n line ls si w)
  show ?case
  proof (cases "line = []")
    case True
    then show ?thesis using 3 by simp
  next
    case False
    obtain m out w2 where o: "on_outgoing_irc_line r (si_socket si) (line @ CRLF) w = ((m, out), w2)" by (metis surj_pair)
    then show ?thesis using 3(2) [OF False refl o [symmetric] refl refl] 3(3) False by (cases m) (auto simp: Let_def)
  qed
qed auto

lemma send_lines_rest: "ls \<noteq> [] \<Longrightarrow> fst (send_lines r (length ls - 1) ls si w) = last ls"
proof (induction ls arbitrary: si w)
  case (Cons l ls)
  show ?case
  proof (cases ls)
    case (Cons l' ls')
    then have "fst (send_lines r (length ls - 1) ls si w) = last ls" for si w using Cons.IH by simp
    then show ?thesis using Cons by (auto simp: Let_def split: prod.split)
  qed simp
qed simp

lemma protocol_fields [simp]:
  "si_socket (handle_protocol_detection d si) = si_socket si" "si_engines (handle_protocol_detection d si) = si_engines si"
  "received_buffer (handle_protocol_detection d si) = received_buffer si"
  "processed_incoming_buffer (handle_protocol_detection d si) = processed_incoming_buffer si"
  "incoming_line_buffer (handle_protocol_detection d si) = incoming_line_buffer si"
  "outgoing_line_buffer (handle_protocol_detection d si) = outgoing_line_buffer si"
  "stats (handle_protocol_detection d si) = stats si" "network_name (handle_protocol_detection d si) = network_name si"
  by (simp_all add: handle_protocol_detection_def set_state_def set_ssl_def split: option.split)

lemma first_packet_fields [simp]:
  "si_socket (first_packet d si) = si_socket si" "si_engines (first_packet d si) = si_engines si"
  "received_buffer (first_packet d si) = received_buffer si"
  "processed_incoming_buffer (first_packet d si) = processed_incoming_buffer si"
  "incoming_line_buffer (first_packet d si) = incoming_line_buffer si"
  "outgoing_line_buffer (first_packet d si) = outgoing_line_buffer si"
  "stats (first_packet d si) = stats si" "network_name (first_packet d si) = network_name si"
  by (simp_all add: first_packet_def set_state_def set_ssl_def)

lemma on_sending_idle:
  assumes "on_sending r data si w = (res, si1, w1)" "idle si"
  shows "idle si1" "si_socket si1 = si_socket si" "si_engines si1 = si_engines si"
proof -
  define si2 where "si2 = (let s = si\<lparr>stats := (stats si)\<lparr>bytes_sent := bytes_sent (stats si) + length data\<rparr>\<rparr>
    in if bytes_sent (stats si) = 0 then handle_protocol_detection data s else s)"
  have si2: "si_socket si2 = si_socket si" "si_engines si2 = si_engines si" "idle si2"
    using assms(2) by (simp_all add: si2_def idle_def Let_def)
  have "idle si1 \<and> si_socket si1 = si_socket si \<and> si_engines si1 = si_engines si"
  proof (cases "from_utf8 data")
    case None
    then show ?thesis using assms(1) si2 by (auto simp: on_sending_def si2_def [symmetric] Let_def si2_def)
  next
    case (Some t)
    let ?b = "outgoing_line_buffer si2 @ t"
    obtain rest si3 w3 where s: "send_lines r (length (split_str CRLF ?b) - 1) (split_str CRLF ?b) si2 w = (rest, si3, w3)"
      by (metis surj_pair)
    have "rest = last (split_str CRLF ?b)" using send_lines_rest [of "split_str CRLF ?b" r si2 w] s by simp
    then have "\<not> contains CRLF rest" using split_crlf_last by simp
    then show ?thesis
      using assms(1) Some s si2 send_lines_fields [OF s]
      by (auto simp: on_sending_def si2_def [symmetric, unfolded Let_def] Let_def idle_def split: if_splits)
  qed
  then show "idle si1" "si_socket si1 = si_socket si" "si_engines si1 = si_engines si" by blast+
qed

text \<open>Anything may call the injector in any order, with any engine and any data.\<close>

inductive inject_step :: "'w inject \<times> 'w \<Rightarrow> 'w inject \<times> 'w \<Rightarrow> bool" where
  recv: "hooked_recv dbg s len buf received g w = (r, g', w') \<Longrightarrow> inject_step (g, w) (g', w')"
| send: "hooked_send s data len g w = (c, g', w') \<Longrightarrow> inject_step (g, w) (g', w')"
| connect: "hooked_connect s result eintr g = (n, g') \<Longrightarrow> inject_step (g, w) (g', w)"
| closesocket: "hooked_closesocket s result g w = (n, g', w') \<Longrightarrow> inject_step (g, w) (g', w')"
| register: "RegisterEngine addr engine g = (n, g') \<Longrightarrow> inject_step (g, w) (g', w)"
| unregister: "UnregisterEngine addr g = (n, g') \<Longrightarrow> inject_step (g, w) (g', w)"
| load: "LoadDll m installed g = (n, g') \<Longrightarrow> inject_step (g, w) (g', w)"
| unload: "UnloadDll action g = (n, g') \<Longrightarrow> inject_step (g, w) (g', w)"
| engine: "inject_step (g, w) (g, w')"

inductive_cases inject_stepE: "inject_step gw gw'"

definition inject_reach :: "'w inject \<times> 'w \<Rightarrow> bool" where
  "inject_reach gw \<longleftrightarrow> (\<exists>w. inject_step\<^sup>*\<^sup>* (inject_start, w) gw)"

lemma inject_ok_hooks [simp]:
  "inject_ok (g\<lparr>recv_hook := a\<rparr>) = inject_ok g" "inject_ok (g\<lparr>send_hook := a\<rparr>) = inject_ok g"
  "inject_ok (g\<lparr>connect_hook := a\<rparr>) = inject_ok g" "inject_ok (g\<lparr>closesocket_hook := a\<rparr>) = inject_ok g"
  "inject_ok (g\<lparr>loaded := a\<rparr>) = inject_ok g" "inject_ok (g\<lparr>version_shown := a\<rparr>) = inject_ok g"
  "inject_ok (g\<lparr>max_mirc_return_bytes := n\<rparr>) = inject_ok g"
  by (simp_all add: inject_ok_def)

lemma recv_ok:
  assumes "inject_ok g" "hooked_recv dbg s len buf received g w = (r, g', w')"
  shows "inject_ok g'"
proof -
  obtain si g1 where c: "get_or_create_socket (ucast s) g = (si, g1)" by fastforce
  note k = get_or_create_ok [OF assms(1) c]
  show ?thesis
  proof (cases "recv_hook g1 \<and> \<not> is_ssl si \<and> (\<exists>d. received = Inr d \<and> d \<noteq> [])")
    case False
    then show ?thesis using assms(2) c k(1) by (auto simp: hooked_recv_def split: if_splits sum.splits)
  next
    case True
    then obtain d where d: "received = Inr d" "d \<noteq> []" by blast
    define si1 where "si1 = write_received_data d (detect_network dbg d si)"
    obtain si2 w2 where p: "process_received_lines (registry_of g1 si) si1 w = (si2, w2)" by fastforce
    obtain out si3 where o: "deliver len si2 = (out, si3)" by fastforce
    have "same_socket (detect_network dbg d si) si1" by (simp add: si1_def)
    moreover have "received_buffer si1 \<noteq> []" using d by (simp add: si1_def write_received_ne)
    ultimately have "same_socket (detect_network dbg d si) si3" "received_buffer si3 = received_buffer si2"
      "\<not> contains CRLF (str_of (received_buffer si2))" "processed_incoming_buffer si3 = []"
      using process_received_idle [OF _ p] deliver_facts [OF o] same_socket_trans by blast+
    then have "idle si3" "si_engines si3 = si_engines si"
      using k(5) by (auto simp: idle_def same_socket_def)
    then have "inject_ok (put_socket si3 g1)" using put_socket_ok k(1,4) by metis
    then show ?thesis using assms(2) c d True p o by (auto simp: hooked_recv_def si1_def)
  qed
qed

lemma send_ok:
  assumes "inject_ok g" "hooked_send s data len g w = (c, g', w')"
  shows "inject_ok g'"
proof -
  obtain si g1 where c: "get_or_create_socket (ucast s) g = (si, g1)" by fastforce
  note k = get_or_create_ok [OF assms(1) c]
  have "idle (first_packet d si)" for d using k(5) by (simp add: idle_def)
  then have "inject_ok (put_socket si1 g1)" if "on_sending (registry_of g1 si) d (first_packet d si) w = (res, si1, w1)" for d res si1 w1
    using on_sending_idle [OF that] put_socket_ok [OF k(1), of si1] k(4) by simp
  then show ?thesis using assms(2) c k(1) by (auto simp: hooked_send_def split: if_splits option.splits prod.splits)
qed

lemma set_state_ok: "inject_ok g \<Longrightarrow> hm_get (active_sockets g) k = Some si \<Longrightarrow> inject_ok (put_socket (set_state x si) g)"
  by (rule put_socket_ok) (auto simp: inject_ok_def set_state_def idle_def)

lemma connect_ok: "inject_ok g \<Longrightarrow> hooked_connect s result eintr g = (n, g') \<Longrightarrow> inject_ok g'"
proof -
  assume a: "inject_ok g" "hooked_connect s result eintr g = (n, g')"
  obtain si1 g1 where c1: "get_or_create_socket (ucast s) g = (si1, g1)" by fastforce
  obtain si g2 where c2: "get_or_create_socket (ucast s) g1 = (si, g2)" by fastforce
  note k1 = get_or_create_ok [OF a(1) c1]
  note k2 = get_or_create_ok [OF k1(1) c2]
  show "inject_ok g'"
    using a(2) c1 c2 k1(1) k2(1) set_state_ok [OF k2(1,2)] by (auto simp: hooked_connect_def split: if_splits)
qed

lemma with_registry_ok:
  "inject_ok g \<Longrightarrow> engines g = Some i \<Longrightarrow> registry_ok r \<Longrightarrow> inject_ok (g\<lparr>registries := (registries g)[i := r]\<rparr>)"
  by (auto simp: inject_ok_def list_all_length nth_list_update)

lemma current_registry_ok: "inject_ok g \<Longrightarrow> engines g = Some i \<Longrightarrow> registry_ok (registries g ! i)"
  by (simp add: inject_ok_def list_all_length)

lemma register_engine_ok:
  assumes "inject_ok g"
  shows "inject_ok (snd (RegisterEngine addr engine g))"
proof (cases "engines g")
  case (Some i)
  obtain b r where r: "register addr engine (registries g ! i) = (b, r)" by fastforce
  then have "registry_ok r" using register_ok [OF current_registry_ok [OF assms Some], of addr engine] by simp
  then show ?thesis using with_registry_ok [OF assms Some] Some r by (simp add: RegisterEngine_def)
qed (use assms in \<open>simp add: RegisterEngine_def\<close>)

lemma unregister_engine_ok:
  assumes "inject_ok g"
  shows "inject_ok (snd (UnregisterEngine addr g))"
proof (cases "engines g")
  case (Some i)
  obtain b r where r: "unregister addr (registries g ! i) = (b, r)" by fastforce
  then have "registry_ok r" using unregister_ok [OF current_registry_ok [OF assms Some], of addr] by simp
  then show ?thesis using with_registry_ok [OF assms Some] Some r by (simp add: UnregisterEngine_def)
qed (use assms in \<open>simp add: UnregisterEngine_def\<close>)

lemma load_ok:
  assumes "inject_ok g"
  shows "inject_ok (snd (LoadDll m installed g))"
proof (cases m)
  case (Some b)
  obtain i g1 where i: "init_engines (g\<lparr>max_mirc_return_bytes := unat b\<rparr>) = (i, g1)" by fastforce
  then have "inject_ok g1" using init_engines_ok [of "g\<lparr>max_mirc_return_bytes := unat b\<rparr>"] assms by simp
  then show ?thesis using i Some by (simp add: LoadDll_def install_hooks_def)
qed (use assms in \<open>simp add: LoadDll_def\<close>)

lemma inject_step_ok: "inject_step (g, w) (g', w') \<Longrightarrow> inject_ok g \<Longrightarrow> inject_ok g'"
proof (induction "(g, w)" "(g', w')" rule: inject_step.induct)
  case closesocket
  then show ?case by (auto simp: hooked_closesocket_def inject_ok_def distinct_delete split: if_splits)
next
  case register
  then show ?case using register_engine_ok [of g] by (metis snd_conv)
next
  case unregister
  then show ?case using unregister_engine_ok [of g] by (metis snd_conv)
next
  case load
  then show ?case using load_ok [of g] by (metis snd_conv)
next
  case unload
  then show ?case by (auto simp: UnloadDll_def uninstall_socket_hooks_def inject_ok_def split: if_splits)
qed (auto dest: recv_ok send_ok connect_ok)

lemma inject_reach_ok: "inject_reach (g, w) \<Longrightarrow> inject_ok g"
proof -
  have "inject_step\<^sup>*\<^sup>* (inject_start, w0) gw \<Longrightarrow> inject_ok (fst gw)" for w0 and gw :: "'a inject \<times> 'a"
  proof (induction rule: rtranclp_induct)
    case base
    show ?case by (simp add: inject_start_def inject_ok_def)
  next
    case (step y z)
    then show ?case using inject_step_ok [of "fst y" "snd y" "fst z" "snd z"] by simp
  qed
  then show "inject_reach (g, w) \<Longrightarrow> inject_ok g" by (force simp: inject_reach_def)
qed

end
