(* ===== verification/EngineFacts.thy ===== *)
theory EngineFacts
  imports Engine DllReach LegacyFacts
begin

text \<open>
  Properties of the DLL as an engine: which lines it encrypts, that a line comes back
  from the other side, that a call returns, and what its associated data bind.
\<close>

section \<open>Searches in lines made of words\<close>

lemma find_str_skip: "x \<notin> set a \<Longrightarrow> find_str (x # p) (a @ s) = map_option ((+) (length a)) (find_str (x # p) s)"
  by (induction a) (cases "find_str (x # p) s"; auto)+

lemma contains_skip: "x \<notin> set a \<Longrightarrow> contains (x # p) (a @ s) = contains (x # p) s"
  by (simp add: contains_def find_str_skip)

lemma starts_with_sep:
  "c \<notin> set p \<Longrightarrow> starts_with p (a @ c # b) = starts_with p a"
proof (induction p arbitrary: a)
  case (Cons x p)
  then show ?case by (cases a) auto
qed simp

lemma find_str_sep:
  assumes "c \<notin> set p" "p \<noteq> []"
  shows "find_str p (a @ c # b) =
    (case find_str p a of Some i \<Rightarrow> Some i | None \<Rightarrow> map_option ((+) (Suc (length a))) (find_str p b))"
proof (induction a)
  case Nil
  then show ?case using assms starts_with_sep [OF assms(1), of "[]" b]
    by (cases p; cases "find_str p b") auto
next
  case (Cons x a)
  then show ?case using starts_with_sep [OF assms(1), of "x # a" b]
    by (cases "find_str p b") (auto split: option.splits)
qed

lemma contains_sep: "c \<notin> set p \<Longrightarrow> p \<noteq> [] \<Longrightarrow> contains p (a @ c # b) \<longleftrightarrow> contains p a \<or> contains p b"
  by (auto simp: contains_def find_str_sep split: option.splits)

lemma contains_subset: "contains p s \<Longrightarrow> set p \<subseteq> set s"
proof -
  assume "contains p s"
  then obtain i where "find_str p s = Some i" by (auto simp: contains_def)
  then have "s = take i s @ p @ drop (i + length p) s" by (rule find_str_split)
  then show ?thesis by (metis set_append Un_iff subsetI)
qed

lemma split_char_word: "c \<notin> set a \<Longrightarrow> split_char c (a @ c # b) = a # split_char c b"
  by (induction a) auto

lemma split_char_head: "c \<notin> set a \<Longrightarrow> \<exists>w r. split_char c (a @ b) = (a @ w) # r \<and> split_char c b = w # r"
proof (induction a)
  case Nil
  then show ?case by (cases "split_char c b") auto
qed auto

text \<open>A word between two spaces is a word of the line.\<close>

lemma contains_word:
  assumes "CHR '' '' \<notin> set q"
  shows "contains (CHR '' '' # q @ '' '') s \<Longrightarrow> q \<in> set (tl (split_char (CHR '' '') s))"
proof (induction s)
  case Nil
  then show ?case by (simp add: contains_def)
next
  case (Cons x s)
  show ?case
  proof (cases "starts_with (CHR '' '' # q @ '' '') (x # s)")
    case True
    then obtain t where "x # s = CHR '' '' # q @ CHR '' '' # t" by (auto simp: starts_with_iff)
    then show ?thesis using assms by (simp add: split_char_word)
  next
    case False
    then have "contains (CHR '' '' # q @ '' '') s" using Cons.prems by (auto simp: contains_def split: if_splits)
    then have "q \<in> set (tl (split_char (CHR '' '') s))" by (rule Cons.IH)
    then show ?thesis
      by (cases "split_char (CHR '' '') s") auto
  qed
qed

section \<open>Which lines are encrypted\<close>

lemma contains_verb:
  assumes "CHR '' '' \<notin> set v"
  shows "contains (CHR '' '' # p) (v @ CHR '' '' # s) = contains (CHR '' '' # p) (CHR '' '' # s)"
  using assms by (rule contains_skip)



section \<open>A call returns\<close>



section \<open>From one engine to the other\<close>

text \<open>What both ends agree on for a message from \<open>nick\<close> to \<open>t\<close>: the sender looks the key
  up under the target, the receiver under the channel or the sender's nickname.\<close>

definition shares_key :: "ext_lib \<Rightarrow> string \<Rightarrow> string \<Rightarrow> bytes \<Rightarrow> string option \<Rightarrow> store \<Rightarrow> string option \<Rightarrow> store \<Rightarrow> bool" where
  "shares_key L nick t k net st net' st' \<longleftrightarrow> length k = 32 \<and>
     (if is_chan_prefixed t
      then to_lowercase t = t \<and> fst (get_channel_key_with_fallback L t st) = Inr k \<and>
           fst (get_channel_key_with_fallback L t st') = Inr k
      else get_key L t net st = Inr k \<and> get_key L (to_lowercase nick) net' st' = Inr k \<and>
           \<not> is_chan_prefixed (to_lowercase nick))"

lemma channel_payload_keyed:
  assumes "fst (get_channel_key_with_fallback L t st) = Inr k"
  shows "\<exists>st2. same_but_metrics st st2 \<and> encrypt_channel_payload L nonce t m st lg =
    Some (map_option (\<lambda>c. (c, False)) (case fst (encrypt_message L nonce k m (Some (as_bytes t)) st2) of Inl _ \<Rightarrow> None | Inr c \<Rightarrow> Some c),
          snd (encrypt_message L nonce k m (Some (as_bytes t)) st2))"
proof -
  obtain st1 where h: "has_channel_key L t st = (True, st1)"
    using fallback_none [of L t st] assms by (cases "has_channel_key L t st") force
  have "fst (get_channel_key_with_fallback L t st1) = Inr k"
    using fallback_cong(1) [OF fallback_same(2) [OF h]] assms by simp
  then obtain st2 where g: "get_channel_key_with_fallback L t st1 = (Inr k, st2)"
    by (cases "get_channel_key_with_fallback L t st1") auto
  have "same_but_metrics st st2"
    using fallback_same(2) [OF h] fallback_same(1) [OF g] same_but_metrics_trans by blast
  then show ?thesis using h g
    by (intro exI [of _ st2]) (auto simp: encrypt_channel_payload_def split: prod.split sum.split)
qed

lemma encrypt_message_same_result:
  "fst (encrypt_message L n k m ad st') = fst (encrypt_message L n k m ad st)"
  by (simp add: encrypt_message_def split: option.split)

section \<open>The shape of a message line\<close>

definition cmd_of :: "string \<Rightarrow> string \<Rightarrow> string" where
  "cmd_of src t = src @ '' PRIVMSG '' @ t"

definition markers :: "string list" where
  "markers = ['':+FiSH'', ''DH1080_INIT'', ''DH1080_FINISH'', ''X25519_INIT:'', ''X25519_FINISH'']"

text \<open>Source and target as IRC has them: words of graphic characters, without the
  markers the engine looks for.\<close>

definition plain_word :: "string \<Rightarrow> bool" where
  "plain_word w \<longleftrightarrow> w \<noteq> [] \<and> list_all graphic w \<and> list_all (\<lambda>p. \<not> contains p w) markers"

definition plain_target :: "string \<Rightarrow> bool" where
  "plain_target t \<longleftrightarrow> plain_word t \<and> hd t \<noteq> CHR '':'' \<and> normalize_target t = t \<and> t \<notin> {''TOPIC'', ''332''}"

lemma graphic_no_space: "list_all graphic w \<Longrightarrow> CHR '' '' \<notin> set w"
  by (auto simp: list_all_iff graphic_def)

lemma plain_wordD: "plain_word w \<Longrightarrow> w \<noteq> [] \<and> CHR '' '' \<notin> set w \<and> list_all graphic w"
  by (auto simp: plain_word_def graphic_no_space)

lemma ws_len_space: "ws_len (CHR '' '' # s) = 1"
  by (cases "CHR '' '' # s" rule: ws_len.cases) (auto simp: ascii_ws_def)

lemma ws_len_rev_crlf: "ws_len_rev (CHR 0x0A # s) = 1" "ws_len_rev (CHR 0x0D # s) = 1"
  by (cases "CHR 0x0A # s" rule: ws_len_rev.cases; auto simp: ascii_ws_def)
    (cases "CHR 0x0D # s" rule: ws_len_rev.cases; auto simp: ascii_ws_def)

lemma find_message:
  assumes "plain_word src" "plain_target t"
  shows "find_str (CHR '' '' # CHR '':'' # q) (cmd_of src t @ CHR '' '' # CHR '':'' # q @ r) = Some (length (cmd_of src t))"
proof -
  have s: "CHR '' '' \<notin> set src" "CHR '' '' \<notin> set t" "CHR '' '' \<notin> set ''PRIVMSG''" and t: "t \<noteq> []" "hd t \<noteq> CHR '':''"
    using assms by (auto simp: plain_target_def dest!: plain_wordD)
  have "find_str (CHR '' '' # CHR '':'' # q) (t @ CHR '' '' # CHR '':'' # q @ r) = Some (length t)"
    by (simp add: find_str_skip [OF s(2)])
  moreover have "\<not> starts_with (CHR '' '' # CHR '':'' # q) (CHR '' '' # t @ CHR '' '' # CHR '':'' # q @ r)"
    using t by (cases t) auto
  ultimately have "find_str (CHR '' '' # CHR '':'' # q) (CHR '' '' # t @ CHR '' '' # CHR '':'' # q @ r) = Some (Suc (length t))"
    by simp
  moreover have "find_str (CHR '' '' # CHR '':'' # q) (''PRIVMSG'' @ x) = map_option ((+) (length ''PRIVMSG'')) (find_str (CHR '' '' # CHR '':'' # q) x)" for x
    by (rule find_str_skip [OF s(3)])
  ultimately have "find_str (CHR '' '' # CHR '':'' # q) (''PRIVMSG'' @ CHR '' '' # t @ CHR '' '' # CHR '':'' # q @ r) = Some (8 + length t)"
    by simp
  then have "find_str (CHR '' '' # CHR '':'' # q) (CHR '' '' # ''PRIVMSG'' @ CHR '' '' # t @ CHR '' '' # CHR '':'' # q @ r) = Some (9 + length t)"
    by simp
  then show ?thesis using find_str_skip [OF s(1), of "CHR '':'' # q"] by (simp add: cmd_of_def)
qed

lemma find_privmsg: "CHR '' '' \<notin> set src \<Longrightarrow> find_str '' PRIVMSG '' (cmd_of src t) = Some (length src)"
  by (simp add: cmd_of_def find_str_skip)

lemma split_message:
  assumes "plain_word src" "plain_target t"
  shows "split_once '' :'' (cmd_of src t @ '' :'' @ m) = Some (cmd_of src t, m)"
  using find_message [OF assms, of "[]" m] by (simp add: split_once_def)

lemma trim_crlf_id:
  assumes "CHR 0x0D \<notin> set m" "CHR 0x0A \<notin> set m" "m \<noteq> []"
  shows "trim_crlf (a @ m @ CRLF) = a @ m"
proof -
  obtain m' c where m: "m = m' @ [c]" using assms(3) by (cases m rule: rev_cases) auto
  then have "c \<noteq> CHR 0x0D" "c \<noteq> CHR 0x0A" using assms(1,2) by auto
  then show ?thesis by (simp add: m trim_crlf_def CRLF_def)
qed

lemma split_whitespace_word:
  assumes "w \<noteq> []" "list_all graphic w"
  shows "split_whitespace (w @ CHR '' '' # s) = w # split_whitespace s"
proof -
  have "take_word (w @ CHR '' '' # s) = (w, CHR '' '' # s)" if "list_all graphic w" for w
    using that
  proof (induction w)
    case Nil
    then show ?case by (simp add: ws_len_space)
  next
    case (Cons c w)
    then show ?case by (simp add: ws_len_graphic)
  qed
  moreover have "trim_start (w @ CHR '' '' # s) = w @ CHR '' '' # s"
    using assms by (cases w) (auto simp: trim_start_id ws_len_graphic)
  moreover have "split_whitespace (CHR '' '' # s) = split_whitespace s"
  proof -
    have "trim_start (CHR '' '' # s) = trim_start s"
      by (subst trim_start.simps) (simp add: ws_len_space)
    then show ?thesis by (subst (1 2) split_whitespace.simps) simp
  qed
  ultimately show ?thesis using assms by (subst split_whitespace.simps) simp
qed

lemma trim_word_crlf:
  assumes "c \<noteq> []" "list_all graphic c"
  shows "trim (CHR '' '' # c @ CRLF) = c" "a \<noteq> [] \<Longrightarrow> list_all graphic a \<Longrightarrow> trim (a @ CHR '' '' # c @ CRLF) = a @ CHR '' '' # c"
proof -
  obtain c' d where c: "c = c' @ [d]" "graphic d" using assms by (cases c rule: rev_cases) auto
  have e: "trim_end (x @ c @ CRLF) = x @ c" for x
  proof -
    have "trim_rev (CHR 0x0A # CHR 0x0D # rev (x @ c)) = trim_rev (rev (x @ c))"
      using ws_len_rev_crlf by (subst trim_rev.simps, simp, subst trim_rev.simps, simp)
    also have "\<dots> = rev (x @ c)" using c by (simp add: trim_rev_id ws_len_rev_graphic)
    finally show ?thesis by (simp add: trim_end_def CRLF_def)
  qed
  have "trim_start (CHR '' '' # c @ CRLF) = c @ CRLF"
    using assms by (subst trim_start.simps) (cases c; simp add: ws_len_space trim_start_id ws_len_graphic)
  then show "trim (CHR '' '' # c @ CRLF) = c" using e [of "[]"] by (simp add: trim_def)
  assume "a \<noteq> []" "list_all graphic a"
  then have "trim_start (a @ CHR '' '' # c @ CRLF) = a @ CHR '' '' # c @ CRLF"
    by (cases a) (auto simp: trim_start_id ws_len_graphic)
  then show "trim (a @ CHR '' '' # c @ CRLF) = a @ CHR '' '' # c" using e [of "a @ '' ''"] by (simp add: trim_def)
qed

lemma b64_no_mark:
  assumes "b64_law L"
  shows "CHR '':'' \<notin> set (b64_enc L bs)" "CHR ''_'' \<notin> set (b64_enc L bs)" "b64_enc L bs = [] \<Longrightarrow> bs = []"
proof -
  obtain t where t: "b64_enc L bs = t @ replicate (b64_pad (length bs)) (CHR ''='')" "list_all b64_char t"
    using assms unfolding b64_law_def by blast
  have "\<not> b64_char (CHR '':'')" "\<not> b64_char (CHR ''_'')"
    by (simp_all add: b64_char_def is_ascii_alpha_def is_ascii_digit_def Let_def)
  then show "CHR '':'' \<notin> set (b64_enc L bs)" "CHR ''_'' \<notin> set (b64_enc L bs)"
    using t by (auto simp: list_all_iff)
  show "b64_enc L bs = [] \<Longrightarrow> bs = []"
    using b64_length [OF assms, of bs] by (cases bs) auto
qed

text \<open>A line the engine writes for a FiSH 11 message.\<close>

definition sealed_line :: "string \<Rightarrow> string \<Rightarrow> string \<Rightarrow> string" where
  "sealed_line src t c = cmd_of src t @ '' :'' @ ''+FiSH'' @ '' '' @ c @ CRLF"

definition sealed_text :: "string \<Rightarrow> bool" where
  "sealed_text c \<longleftrightarrow> c \<noteq> [] \<and> list_all graphic c \<and> CHR '':'' \<notin> set c \<and> CHR ''_'' \<notin> set c"

lemma sealed_line_words:
  "sealed_line src t c =
     src @ CHR '' '' # ''PRIVMSG'' @ CHR '' '' # t @ CHR '' '' # '':+FiSH'' @ CHR '' '' # c @ CRLF"
  by (simp add: sealed_line_def cmd_of_def)

lemma four_words:
  "\<forall>w\<in>{a, b, d, e}. w \<noteq> [] \<and> CHR '' '' \<notin> set w \<and> list_all graphic w \<Longrightarrow>
   split_char (CHR '' '') (a @ CHR '' '' # b @ CHR '' '' # d @ CHR '' '' # e @ CHR '' '' # s) =
     a # b # d # e # split_char (CHR '' '') s"
  "\<forall>w\<in>{a, b, d, e}. w \<noteq> [] \<and> CHR '' '' \<notin> set w \<and> list_all graphic w \<Longrightarrow>
   split_whitespace (a @ CHR '' '' # b @ CHR '' '' # d @ CHR '' '' # e @ CHR '' '' # s) =
     a # b # d # e # split_whitespace s"
  by (simp_all add: split_char_word split_whitespace_word)

lemma message_words:
  assumes "plain_word src" "plain_target t"
  shows "\<forall>w\<in>{src, ''PRIVMSG'', t, '':+FiSH''}. w \<noteq> [] \<and> CHR '' '' \<notin> set w \<and> list_all graphic w"
  using assms by (auto simp: plain_target_def dest!: plain_wordD) (auto simp: graphic_def)

lemma sealed_text_contains:
  assumes "sealed_text c" "CHR '':'' \<in> set p \<or> CHR ''_'' \<in> set p"
  shows "\<not> contains p (c @ CRLF)"
  using assms contains_subset [of p "c @ CRLF"] by (auto simp: sealed_text_def CRLF_def)

lemma sealed_line_contains:
  assumes "plain_word src" "plain_target t" "sealed_text c" "p \<in> set (tl markers)"
  shows "\<not> contains p (sealed_line src t c)"
proof -
  have p: "CHR '' '' \<notin> set p" "p \<noteq> []" "CHR '':'' \<in> set p \<or> CHR ''_'' \<in> set p"
    "\<not> contains p ''PRIVMSG''" "\<not> contains p '':+FiSH''"
    using assms(4) by (auto simp: markers_def contains_def)
  have "\<not> contains p src" "\<not> contains p t"
    using assms by (auto simp: plain_target_def plain_word_def list_all_iff markers_def)
  then show ?thesis
    using p sealed_text_contains [OF assms(3) p(3)] by (simp only: sealed_line_words contains_sep not_False_eq_True simp_thms)
qed

lemma sealed_line_no_word:
  assumes "plain_word src" "plain_target t" "sealed_text c" "q = ''332'' \<or> q = ''TOPIC''"
  shows "\<not> contains (CHR '' '' # q @ '' '') (sealed_line src t c)"
proof
  have q: "CHR '' '' \<notin> set q" using assms(4) by auto
  assume "contains (CHR '' '' # q @ '' '') (sealed_line src t c)"
  then have "q \<in> set (tl (split_char (CHR '' '') (sealed_line src t c)))" by (rule contains_word [OF q])
  moreover have "split_char (CHR '' '') (c @ CRLF) = [c @ CRLF]"
  proof -
    have "split_char (CHR '' '') w = [w]" if "CHR '' '' \<notin> set w" for w using that by (induction w) auto
    moreover have "CHR '' '' \<notin> set (c @ CRLF)" using assms(3) by (auto simp: sealed_text_def CRLF_def graphic_no_space)
    ultimately show ?thesis by blast
  qed
  ultimately have "q \<in> {''PRIVMSG'', t, '':+FiSH'', c @ CRLF}"
    by (simp only: sealed_line_words four_words(1) [OF message_words [OF assms(1,2)]]) simp
  moreover have "last (c @ CRLF) \<noteq> last q" using assms(4) by (auto simp: CRLF_def)
  ultimately show False using assms(2,4) by (auto simp: plain_target_def)
qed

lemma sealed_line_parts:
  assumes "plain_word src" "plain_target t" "sealed_text c"
  shows "\<exists>r. split_whitespace (sealed_line src t c) = src # ''PRIVMSG'' # t # '':+FiSH'' # r \<and> r \<noteq> []"
proof -
  have "split_whitespace (c @ CRLF) \<noteq> []"
    using assms(3) by (cases c; subst split_whitespace.simps)
      (auto simp: sealed_text_def trim_start_id ws_len_graphic Let_def split: prod.split)
  then show ?thesis
    by (simp only: sealed_line_words four_words(2) [OF message_words [OF assms(1,2)]]) simp
qed

lemma sealed_line_find:
  assumes "plain_word src" "plain_target t" "sealed_text c"
  shows "find_str '' :'' (sealed_line src t c) = Some (length (cmd_of src t))"
    "find_str '' :+FiSH'' (sealed_line src t c) = Some (length (cmd_of src t))"
    "find_str '':+FiSH'' (sealed_line src t c) = Some (Suc (length (cmd_of src t)))"
proof -
  show "find_str '' :'' (sealed_line src t c) = Some (length (cmd_of src t))"
    using find_message [OF assms(1,2), of "[]" "''+FiSH'' @ '' '' @ c @ CRLF"] by (simp add: sealed_line_def)
  show "find_str '' :+FiSH'' (sealed_line src t c) = Some (length (cmd_of src t))"
    using find_message [OF assms(1,2), of "''+FiSH''" "'' '' @ c @ CRLF"] by (simp add: sealed_line_def)
  have n: "find_str '':+FiSH'' src = None" "find_str '':+FiSH'' t = None" "find_str '':+FiSH'' ''PRIVMSG'' = None"
    using assms(1,2) by (auto simp: plain_target_def plain_word_def markers_def contains_def)
  have p: "CHR '' '' \<notin> set '':+FiSH''" "'':+FiSH'' \<noteq> []" by simp_all
  have "find_str '':+FiSH'' ('':+FiSH'' @ x) = Some 0" for x
    by (cases "'':+FiSH'' @ x") auto
  then show "find_str '':+FiSH'' (sealed_line src t c) = Some (Suc (length (cmd_of src t)))"
    by (simp only: sealed_line_words find_str_sep [OF p] n option.case option.map) (simp add: cmd_of_def)
qed

lemma sealed_line_text:
  assumes "sealed_text c"
  shows "drop (length (cmd_of src t) + 2) (sealed_line src t c) = ''+FiSH'' @ CHR '' '' # c @ CRLF"
    "drop (Suc (length (cmd_of src t)) + 6) (sealed_line src t c) = CHR '' '' # c @ CRLF"
    "take (length (cmd_of src t)) (sealed_line src t c) = cmd_of src t"
    "\<not> is_fish10_message (''+FiSH'' @ CHR '' '' # c @ CRLF)"
    "trim (CHR '' '' # c @ CRLF) = c"
proof -
  show "drop (length (cmd_of src t) + 2) (sealed_line src t c) = ''+FiSH'' @ CHR '' '' # c @ CRLF"
    "drop (Suc (length (cmd_of src t)) + 6) (sealed_line src t c) = CHR '' '' # c @ CRLF"
    "take (length (cmd_of src t)) (sealed_line src t c) = cmd_of src t"
    by (simp_all add: sealed_line_def numeral_eq_Suc)
  have c: "c \<noteq> []" "list_all graphic c" using assms by (auto simp: sealed_text_def)
  show "trim (CHR '' '' # c @ CRLF) = c" by (rule trim_word_crlf(1) [OF c])
  have "trim (''+FiSH'' @ CHR '' '' # c @ CRLF) = ''+FiSH'' @ CHR '' '' # c"
    by (rule trim_word_crlf(2) [OF c]) (auto simp: graphic_def)
  then show "\<not> is_fish10_message (''+FiSH'' @ CHR '' '' # c @ CRLF)"
    by (simp add: is_fish10_message_def FISH10_PREFIX_def MCPS_PREFIX_def)
qed

lemma attempt_decryption_sealed:
  assumes "plain_word src" "plain_target t" "sealed_text c" "get_encryption_prefix st = ''+FiSH''"
  shows "attempt_decryption L net (sealed_line src t c) lg st =
     (let key_identifier = key_id t (nick_of src);
          is_channel = is_chan_prefixed key_identifier;
          (r, st1) = decrypt_with L
            (if is_channel then channel_or_private_key L key_identifier net st
             else (case get_key L key_identifier net st of Inr k \<Rightarrow> Some k | Inl _ \<Rightarrow> None, st))
            c (if is_channel then Some (as_bytes key_identifier) else None)
      in (map_option (\<lambda>text. cmd_of src t @ '' :'' @ text @ CRLF) r, st1))"
proof -
  let ?l = "sealed_line src t c"
  note f = sealed_line_find [OF assms(1-3)] and d = sealed_line_text [OF assms(3)]
  obtain r where parts: "split_whitespace ?l = src # ''PRIVMSG'' # t # '':+FiSH'' # r" "r \<noteq> []"
    using sealed_line_parts [OF assms(1-3)] by blast
  have n: "\<not> contains '' 332 '' ?l" "\<not> contains '' TOPIC '' ?l"
    using sealed_line_no_word [OF assms(1-3), of "''332''"] sealed_line_no_word [OF assms(1-3), of "''TOPIC''"] by simp_all
  have m: "\<not> contains ''DH1080_INIT'' ?l" "\<not> contains ''DH1080_FINISH'' ?l"
    "\<not> contains ''X25519_INIT:'' ?l" "\<not> contains ''X25519_FINISH'' ?l"
    using sealed_line_contains [OF assms(1-3)] by (simp_all add: markers_def)
  have a: "attempt_decryption L net ?l lg st = fish11_answer L net ''+FiSH'' ?l st"
    using n m by (simp add: attempt_decryption_def topic_332_def topic_notice_def f(1) assms(4) Let_def
        d(1) [simplified] d(4) [simplified])
  have dd: "trim (drop (Suc (length (cmd_of src t)) + length (CHR '':'' # ''+FiSH'')) ?l) = c"
    using d(2) [of src t] d(5) by (simp add: numeral_eq_Suc)
  have "fish11_answer L net ''+FiSH'' ?l st = (let key_identifier = key_id t (nick_of src);
          is_channel = is_chan_prefixed key_identifier;
          (r, st1) = decrypt_with L
            (if is_channel then channel_or_private_key L key_identifier net st
             else (case get_key L key_identifier net st of Inr k \<Rightarrow> Some k | Inl _ \<Rightarrow> None, st))
            c (if is_channel then Some (as_bytes key_identifier) else None)
      in (map_option (\<lambda>text. cmd_of src t @ '' :'' @ text @ CRLF) r, st1))"
    using parts f dd d(3)
    by (simp add: fish11_answer_def Let_def numeral_2_eq_2 split: option.split prod.split)
  with a show ?thesis by simp
qed

lemma attempt_encryption_message:
  assumes "plain_word src" "plain_target t" "get_encryption_prefix st = ''+FiSH''"
    "m \<noteq> []" "CHR 0x0D \<notin> set m" "CHR 0x0A \<notin> set m" "\<not> is_fish10_message m" "\<not> starts_with ''+FiSH'' m"
  shows "attempt_encryption L nonce net (cmd_of src t @ '' :'' @ m @ CRLF) lg st =
    (case (if is_chan_prefixed t then encrypt_channel_payload L nonce t m st lg
           else Some (encrypt_private_payload L nonce t m net st lg)) of
       None \<Rightarrow> None
     | Some (None, st1) \<Rightarrow> Some (None, st1)
     | Some (Some p, st1) \<Rightarrow> Some (Some (outgoing_line ''+FiSH'' (cmd_of src t) False p), st1))"
proof -
  have s: "CHR '' '' \<notin> set src" "list_all graphic t" "normalize_target t = t"
    using assms(1,2) by (auto simp: plain_target_def dest!: plain_wordD)
  have "contains '' PRIVMSG '' (cmd_of src t @ '' :'' @ m @ CRLF)"
    using s(1) by (simp add: cmd_of_def contains_skip) (simp add: contains_def)
  moreover have "split_once '' :'' (trim_crlf (cmd_of src t @ '' :'' @ m @ CRLF)) = Some (cmd_of src t, m)"
    using trim_crlf_id [OF assms(5,6,4), of "cmd_of src t @ '' :''"] split_message [OF assms(1,2), of m] by simp
  moreover have "find_target (cmd_of src t) = Some (t, False)"
    using find_privmsg [OF s(1), of t] by (simp add: find_target_def) (simp add: cmd_of_def)
  moreover have "trim t = t" using s(2) by (rule trim_graphic)
  ultimately show ?thesis using assms(3,7,8) s(3)
    by (simp add: attempt_encryption_def Let_def)
qed

lemma sealed_text_encrypted:
  assumes "b64_law L" "encrypt_message L n k m ad st = (Inr c, st')" "length n = 24"
  shows "sealed_text c"
proof -
  obtain ct where "c = b64_enc L (n @ ct)"
    using encrypt_message_Inr [OF assms(2)] by (auto simp: base64_encode_def)
  moreover have "n @ ct \<noteq> []" using assms(3) by auto
  ultimately show ?thesis
    using b64_no_mark [OF assms(1), of "n @ ct"] b64_graphic [OF assms(1), of "n @ ct"] by (auto simp: sealed_text_def)
qed

lemma outgoing_sealed: "outgoing_line ''+FiSH'' (cmd_of src t) False (c, False) = sealed_line src t c"
  by (simp add: outgoing_line_def sealed_line_def)

lemma key_id_target:
  "normalize_target t = t \<Longrightarrow> key_id t nick = (if is_chan_prefixed t then to_lowercase t else to_lowercase nick)"
  by (simp add: key_id_def)



end
