(* ===== verification/HookProps.thy ===== *)
theory HookProps
  imports WinsockFacts EngineFacts
begin

text \<open>
  What the hooks guarantee to the client and to the network, with any engines and with
  the DLL's own engine: the interface between the injector and an engine is a locale,
  interpreted on the DLL.
\<close>

section \<open>Lossy conversion and line ends\<close>

lemma nth0_append:
  "nth0 (a @ s) i = (if i < length a then nth0 a i else nth0 s (i - length a))"
  by (auto simp: nth0_def nth_append)

lemma nth0_ascii: "list_all (\<lambda>b. b < 0x80) s \<Longrightarrow> nth0 s i < 0x80"
  by (simp add: nth0_def list_all_length)

lemma ascii_not_cont: "b < 0x80 \<Longrightarrow> \<not> utf8_cont b \<and> \<not> second_ok a b"
  by (auto simp: utf8_cont_def second_ok_def word_less_nat_alt word_le_nat_alt)

lemma nth0_past: "length a \<le> i \<Longrightarrow> nth0 a i = 0"
  by (simp add: nth0_def)

lemma utf8_step_append:
  assumes "a \<noteq> []" "list_all (\<lambda>b. b < 0x80) s"
  shows "utf8_step (a @ s) = utf8_step a" "snd (utf8_step a) \<le> length a"
proof -
  have z: "(0::u8) < 0x80" by simp
  have n: "\<not> utf8_cont (nth0 (a @ s) i) \<and> \<not> second_ok x (nth0 (a @ s) i) \<and> \<not> utf8_cont (nth0 a i) \<and> \<not> second_ok x (nth0 a i)"
    if "length a \<le> i" for i x
    using ascii_not_cont [OF nth0_ascii [OF assms(2), of "i - length a"]] ascii_not_cont [OF z] that
    by (simp add: nth0_append nth0_past)
  have e: "nth0 (a @ s) i = nth0 a i" if "i < length a" for i using that by (simp add: nth0_append)
  have l: "0 < length a" using assms(1) by simp
  show "utf8_step (a @ s) = utf8_step a"
    using n [of 1] n [of 2] n [of 3] e [of 0] e [of 1] e [of 2] e [of 3] l
    unfolding utf8_step_def Let_def by (smt (verit) not_le)
  have "utf8_cont (nth0 a 1) \<longrightarrow> 2 \<le> length a" "second_ok x (nth0 a 1) \<longrightarrow> 2 \<le> length a"
    "utf8_cont (nth0 a 2) \<longrightarrow> 3 \<le> length a" "utf8_cont (nth0 a 3) \<longrightarrow> 4 \<le> length a" for x
    using n [of 1 x] n [of 2 0] n [of 3 0] by linarith+
  then show "snd (utf8_step a) \<le> length a"
    using l unfolding utf8_step_def Let_def by (simp add: Suc_le_eq)
qed

lemma lossy_append_ascii: "list_all (\<lambda>b. b < 0x80) s \<Longrightarrow> lossy_bytes (a @ s) = lossy_bytes a @ s"
proof (induction a rule: lossy_bytes.induct)
  case (1 a)
  show ?case
  proof (cases "a = []")
    case True
    then show ?thesis using lossy_valid [OF utf8_valid_ascii [OF 1(2)]] by (simp add: lossy_bytes.simps)
  next
    case False
    note u = utf8_step_append [OF False 1(2)]
    have "lossy_bytes (drop (snd (utf8_step a)) a @ s) = lossy_bytes (drop (snd (utf8_step a)) a) @ s"
      using 1 False by simp
    then show ?thesis using u False
      by (subst lossy_bytes.simps, subst (2) lossy_bytes.simps) simp
  qed
qed

lemma lossy_keeps_crlf: "ends_with CRLF (str_of b) \<Longrightarrow> ends_with CRLF (from_utf8_lossy b)"
proof -
  assume "ends_with CRLF (str_of b)"
  then obtain a where "str_of b = a @ CRLF" by (auto simp: ends_crlf)
  then have "b = as_bytes a @ as_bytes CRLF" by (metis as_bytes_append as_bytes_str_of)
  moreover have "list_all (\<lambda>b. b < 0x80) (as_bytes CRLF)" by code_simp
  ultimately show ?thesis by (auto simp: from_utf8_lossy_def lossy_append_ascii ends_crlf)
qed

section \<open>The interface of an engine\<close>

text \<open>What the injector relies on for the incoming direction: a line that ends in CR LF
  is answered, if at all, by text that ends in CR LF.\<close>

definition keeps_line_ends :: "'w line_callback \<Rightarrow> bool" where
  "keeps_line_ends cb \<longleftrightarrow> (\<forall>k c w r w1. ends_with CRLF (str_of c) \<longrightarrow> cb k c w = (Some r, w1) \<longrightarrow> ends_with CRLF (str_of r))"

text \<open>A client that reads \<open>s\<close> once for every chunk that arrives, with a buffer of \<open>len\<close>
  bytes, and keeps all it is given.\<close>

fun recv_all :: "bool \<Rightarrow> u64 \<Rightarrow> int \<Rightarrow> string list \<Rightarrow> 'w inject \<Rightarrow> 'w \<Rightarrow> string \<times> 'w inject \<times> 'w" where
  "recv_all debug s len [] g w = ([], g, w)"
| "recv_all debug s len (c # cs) g w =
     (let ((n, buf), g1, w1) = hooked_recv debug s len (replicate (nat len) 0) (Inr (as_bytes c)) g w;
          (outs, g2, w2) = recv_all debug s len cs g1 w1
      in (str_of (take (nat n) buf) @ outs, g2, w2))"

locale line_engines =
  fixes r :: "'w InjectEngines"
  assumes keeps: "e \<in> set (get_engines r) \<Longrightarrow> keeps_line_ends (on_incoming_irc_line_ptr e)"
begin

lemma call_keeps:
  assumes "e \<in> set (get_engines r)" "ends_with CRLF l" "engine_on_incoming e k l w = ((m, out), w1)"
  shows "ends_with CRLF out"
proof (cases "\<exists>c ret w2. cstring_new l = Some c \<and> on_incoming_irc_line_ptr e k c w = (Some ret, w2)")
  case True
  then obtain c ret w2 where c: "cstring_new l = Some c" "on_incoming_irc_line_ptr e k c w = (Some ret, w2)" by blast
  then have "str_of c = l" by (auto simp: cstring_new_def split: if_splits)
  then have "ends_with CRLF (str_of ret)"
    using keeps [OF assms(1)] assms(2) c(2) unfolding keeps_line_ends_def by blast
  then show ?thesis using lossy_keeps_crlf [of ret] assms(3) c by (auto simp: engine_on_incoming_def engine_call_def)
next
  case False
  then have "out = l" using assms(3)
    by (auto simp: engine_on_incoming_def engine_call_def split: option.splits prod.splits)
  then show ?thesis using assms(2) by simp
qed

lemma run_keeps:
  assumes "set es \<subseteq> set (get_engines r)" "ends_with CRLF (snd s)"
  shows "ends_with CRLF (snd (fst (run_engines engine_on_incoming k es s w)))"
  using assms
proof (induction es arbitrary: s w)
  case (Cons e es)
  obtain m out w1 where c: "engine_on_incoming e k (snd s) w = ((m, out), w1)" by (metis surj_pair)
  then have "ends_with CRLF out" using call_keeps [of e "snd s"] Cons.prems by simp
  then show ?case using Cons c by simp
qed simp

lemma filter_line_ends: "ends_with CRLF (fst (filter_line r k l w))"
proof -
  obtain s w1 where s: "run_engines engine_on_incoming k (pre_engines r) (False, l @ CRLF) w = (s, w1)" by fastforce
  have "ends_with CRLF (snd s)"
    using run_keeps [of "pre_engines r" "(False, l @ CRLF)" k w] s by (simp add: get_engines_def ends_crlf)
  then have "ends_with CRLF (snd (fst (run_engines engine_on_incoming k (post_engines r) s w1)))"
    using run_keeps [of "post_engines r" s] by (simp add: get_engines_def)
  then show ?thesis by (auto simp: filter_line_def on_incoming_irc_line_def s split: prod.splits)
qed

lemma filter_lines_ends: "ls \<noteq> [] \<Longrightarrow> ends_with CRLF (fst (filter_lines r k ls w))"
proof (induction ls arbitrary: w)
  case (Cons l ls)
  have app: "ends_with CRLF b \<Longrightarrow> ends_with CRLF (a @ b)" for a b by (auto simp: ends_crlf)
  show ?case
  proof (cases "ls = []")
    case True
    then show ?thesis using filter_line_ends [of k l w] by (simp split: prod.split)
  next
    case False
    then show ?thesis using Cons.IH app by (auto split: prod.splits) (metis fst_conv)
  qed
qed simp

text \<open>A buffer of complete lines goes to the client whole, when it fits.\<close>

lemma recv_lines:
  assumes "hm_get (active_sockets g) (ucast s) = Some si" "recv_hook g" "\<not> is_ssl si"
    "received_buffer si = []" "processed_incoming_buffer si = []" "registry_of g si = r"
    "ends_with CRLF data" "utf8_valid (as_bytes data)" "length data \<le> 1000000"
    "filter_lines r (si_socket si) (lines_of data) w = (out, w1)" "int (length out) \<le> len"
  shows "\<exists>si'. hooked_recv debug s len buf (Inr (as_bytes data)) g w =
      ((int (length out), overwrite (overwrite buf (as_bytes data)) (as_bytes out)), put_socket si' g, w1) \<and>
    si_socket si' = si_socket si \<and> si_engines si' = si_engines si \<and> flags si' = flags si \<and>
    received_buffer si' = [] \<and> processed_incoming_buffer si' = []"
proof -
  have ne: "data \<noteq> []" using assms(7) CRLF_simps(2) by (auto simp: ends_crlf)
  define si1 where "si1 = write_received_data (as_bytes data) (detect_network debug (as_bytes data) si)"
  have b: "received_buffer si1 = as_bytes data" "processed_incoming_buffer si1 = []" "si_socket si1 = si_socket si"
    using assms(4,5,9) write_received_small [of "detect_network debug (as_bytes data) si" "as_bytes data"]
      write_received_fields(1) [of "detect_network debug (as_bytes data) si" "as_bytes data"]
    by (simp_all add: si1_def same_socket_def)
  have same1: "same_socket (detect_network debug (as_bytes data) si) si1" by (simp add: si1_def)
  obtain si2 w2 where p: "process_received_lines r si1 w = (si2, w2)" by fastforce
  have q: "w2 = w1" "processed_incoming_buffer si2 = as_bytes out" "received_buffer si2 = []" "same_socket si1 si2"
    using process_utf8 [OF b(1) ne assms(8) p] b assms(10) last_split_ends [OF assms(7)] by simp_all
  obtain got si3 where d: "deliver len si2 = (got, si3)" by fastforce
  have "got = as_bytes out"
  proof (cases "lines_of data = []")
    case True
    then have "out = []" using assms(10) by simp
    then show ?thesis using d q(2) deliver_facts(1,2) [OF d]
      by (auto simp: deliver_def get_processed_buffer_def Let_def)
  next
    case False
    then obtain o' where "out = o' @ CRLF" using filter_lines_ends [of "lines_of data" "si_socket si" w] assms(10)
      by (auto simp: ends_crlf)
    then show ?thesis using deliver_all [of si2 o' len] q(2) d assms(11) by (simp add: CRLF_simps)
  qed
  moreover have "same_socket (detect_network debug (as_bytes data) si) si3"
    using same1 q(4) deliver_facts(5) [OF d] same_socket_trans by blast
  ultimately show ?thesis
    using recv_call [OF assms(1-3), of "as_bytes data" debug w si2 w2 len got si3 buf] p d ne q deliver_facts(3,4) [OF d] assms(6)
    by (auto simp: si1_def same_socket_def)
qed

text \<open>The stream as chunks, each ending with a line end: the client reads the lines of the
  whole stream, filtered one by one.\<close>

lemma recv_all_lines:
  assumes "hm_get (active_sockets g) (ucast s) = Some si" "si_socket si = ucast s" "recv_hook g" "\<not> is_ssl si"
    "received_buffer si = []" "processed_incoming_buffer si = []" "registry_of g si = r"
    "\<forall>c\<in>set chunks. ends_with CRLF c \<and> utf8_valid (as_bytes c) \<and> length c \<le> 1000000 \<and>
       (\<forall>w. int (length (fst (filter_lines r (ucast s) (lines_of c) w))) \<le> len)"
  shows "fst (recv_all debug s len chunks g w) = fst (filter_lines r (ucast s) (lines_of (concat chunks)) w) \<and>
    snd (snd (recv_all debug s len chunks g w)) = snd (filter_lines r (ucast s) (lines_of (concat chunks)) w)"
  using assms
proof (induction chunks arbitrary: g si w)
  case (Cons c cs)
  obtain out w1 where o: "filter_lines r (ucast s) (lines_of c) w = (out, w1)" by fastforce
  have "int (length out) \<le> len" using Cons.prems(8) o by (metis fst_conv list.set_intros(1))
  then obtain si' where h: "hooked_recv debug s len (replicate (nat len) 0) (Inr (as_bytes c)) g w =
      ((int (length out), overwrite (overwrite (replicate (nat len) 0) (as_bytes c)) (as_bytes out)), put_socket si' g, w1)"
    "si_socket si' = si_socket si" "si_engines si' = si_engines si" "flags si' = flags si"
    "received_buffer si' = []" "processed_incoming_buffer si' = []"
    using recv_lines [OF Cons.prems(1,3-7), of c w out w1 len debug "replicate (nat len) 0"] Cons.prems(2,8) o by auto
  obtain outs g2 w2 where t: "recv_all debug s len cs (put_socket si' g) w1 = (outs, g2, w2)" by (metis surj_pair)
  have "fst (recv_all debug s len cs (put_socket si' g) w1) = fst (filter_lines r (ucast s) (lines_of (concat cs)) w1) \<and>
      snd (snd (recv_all debug s len cs (put_socket si' g) w1)) = snd (filter_lines r (ucast s) (lines_of (concat cs)) w1)"
    by (rule Cons.IH [of "put_socket si' g" si'])
      (use Cons.prems h in \<open>auto simp: put_socket_def registry_of_def is_ssl_def\<close>)
  then have i: "outs = fst (filter_lines r (ucast s) (lines_of (concat cs)) w1)"
      "w2 = snd (filter_lines r (ucast s) (lines_of (concat cs)) w1)"
    using t by simp_all
  have k: "str_of (take (length out) (overwrite b (as_bytes out))) = out" for b
    using overwrite_take [of "as_bytes out" b] by simp
  have "recv_all debug s len (c # cs) g w = (out @ outs, g2, w2)"
    using h(1) t k by simp
  then show ?case
    using i o Cons.prems(8) lines_of_append [of c "concat cs"]
    by (simp add: filter_lines_append split: prod.split)
qed simp

end

section \<open>The engine of the DLL\<close>

text \<open>The DLL's state as the world of its callbacks: the key store, the legacy store, and
  how many nonces \<open>rnd\<close> has given.  \<open>net\<close> is what \<open>GetNetworkName\<close> answers.  An encryption
  that blocks is no answer here: \<open>outgoing_always_returns\<close> shows there is none.\<close>

type_synonym dll_world = "store \<times> legacy \<times> nat"

definition fish_on_incoming :: "ext_lib \<Rightarrow> (u32 \<Rightarrow> string option) \<Rightarrow> dll_world line_callback" where
  "fish_on_incoming L net k c w =
     (case w of (st, lg, n) \<Rightarrow>
       (let (r, st1) = on_incoming L (net k) (Some c) lg st in (map_option as_bytes r, (st1, lg, n))))"

definition fish_on_outgoing :: "ext_lib \<Rightarrow> (nat \<Rightarrow> bytes) \<Rightarrow> (u32 \<Rightarrow> string option) \<Rightarrow> dll_world line_callback" where
  "fish_on_outgoing L rnd net k c w =
     (case w of (st, lg, n) \<Rightarrow>
       (case on_outgoing L (rnd n) (net k) (Some c) lg st of
          None \<Rightarrow> (None, (st, lg, n))
        | Some (r, st1) \<Rightarrow> (map_option as_bytes r, (st1, lg, Suc n))))"

definition FISH_INJECT_ENGINE ::
  "bytes \<Rightarrow> ext_lib \<Rightarrow> (nat \<Rightarrow> bytes) \<Rightarrow> (u32 \<Rightarrow> string option) \<Rightarrow> dll_world FishInjectEngine" where
  "FISH_INJECT_ENGINE name L rnd net =
     \<lparr>fe_version = 1, fe_engine_name = Some name, fe_is_postprocessor = False,
      fe_on_outgoing_irc_line = fish_on_outgoing L rnd net,
      fe_on_incoming_irc_line = fish_on_incoming L net,
      fe_on_socket_closed = (\<lambda>k w. w),
      fe_get_network_name = (\<lambda>k w. (map_option as_bytes (net k), w))\<rparr>"

text \<open>The registry once the DLL has registered its engine, at the address \<open>addr\<close>.\<close>

definition dll_registry ::
  "nat \<Rightarrow> bytes \<Rightarrow> ext_lib \<Rightarrow> (nat \<Rightarrow> bytes) \<Rightarrow> (u32 \<Rightarrow> string option) \<Rightarrow> dll_world InjectEngines" where
  "dll_registry addr name L rnd net = snd (register addr (FISH_INJECT_ENGINE name L rnd net) InjectEngines_new)"

lemma topic_answer_ends:
  assumes "topic_answer L net line i ch lg st = (Inl (Some out), st1)"
  shows "ends_with CRLF out"
  using assms by (force simp: topic_answer_def Let_def ends_crlf split: if_splits sum.splits option.splits prod.splits)

lemma decryption_ends:
  assumes "attempt_decryption L net line lg st = (Some out, st1)"
  shows "ends_with CRLF out"
proof -
  have t: "ends_with CRLF out" if "topic_332 L net line lg st = (Inl (Some out), s)" for s
    using that topic_answer_ends by (auto simp: topic_332_def Let_def split: if_splits option.splits)
  have n: "ends_with CRLF out" if "topic_notice L net line lg st' = (Inl (Some out), s)" for s st'
    using that topic_answer_ends by (auto simp: topic_notice_def Let_def split: if_splits option.splits list.splits)
  have l: "ends_with CRLF out" if "legacy_answer L line i lg = Some out" for i
    using that by (force simp: legacy_answer_def Let_def ends_crlf split: if_splits option.splits sum.splits)
  have f: "ends_with CRLF out" if "fish11_answer L net p line st' = (Some out, s)" for p st' s
    using that by (force simp: fish11_answer_def Let_def ends_crlf split: if_splits option.splits sum.splits prod.splits)
  show ?thesis using assms t n l f
    by (auto simp: attempt_decryption_def Let_def split: prod.splits sum.splits if_splits option.splits)
qed

lemma fish_keeps: "keeps_line_ends (fish_on_incoming L net)"
proof -
  have "ends_with CRLF (str_of r)" if h: "fish_on_incoming L net k c w = (Some r, w1)" for k c w r w1
  proof -
    obtain st lg n where w: "w = (st, lg, n)" by (metis surj_pair)
    then obtain out st1 where o: "on_incoming L (net k) (Some c) lg st = (Some out, st1)" "r = as_bytes out"
      using h by (auto simp: fish_on_incoming_def split: prod.splits)
    then obtain s msg where "attempt_decryption L (net k) s lg (enter_network (net k) st) = (Some msg, st1)" "c_result (Some msg) = Some out"
      by (auto simp: on_incoming_def c_result_def Let_def split: option.splits if_splits prod.splits)
    then show ?thesis using decryption_ends o(2) by (auto simp: c_result_def cstring_new_def split: if_splits)
  qed
  then show ?thesis unfolding keeps_line_ends_def by blast
qed

lemma dll_registry_engines:
  "get_engines (dll_registry addr name L rnd net) =
     (if addr = 0 then [] else [the (SafeEngine_new addr (FISH_INJECT_ENGINE name L rnd net))])"
  by (simp add: dll_registry_def register_def SafeEngine_new_def FISH_INJECT_ENGINE_def InjectEngines_new_def get_engines_def
      FISH_INJECT_ENGINE_VERSION_def)

lemma dll_registry_lists:
  assumes "addr \<noteq> 0"
  shows "\<exists>e. pre_engines (dll_registry addr name L rnd net) = [e] \<and> post_engines (dll_registry addr name L rnd net) = [] \<and>
    on_incoming_irc_line_ptr e = fish_on_incoming L net"
  using assms
  by (simp add: dll_registry_def register_def SafeEngine_new_def FISH_INJECT_ENGINE_def InjectEngines_new_def
      FISH_INJECT_ENGINE_VERSION_def)

text \<open>A line through the DLL's engine.\<close>

lemma dll_filter_line:
  assumes "addr \<noteq> 0"
  shows "filter_line (dll_registry addr name L rnd net) k l (st, lg, n) =
    (case cstring_new (l @ CRLF) of
       None \<Rightarrow> (l @ CRLF, (st, lg, n))
     | Some c \<Rightarrow>
         (case on_incoming L (net k) (Some c) lg st of
            (None, st1) \<Rightarrow> (l @ CRLF, (st1, lg, n))
          | (Some r, st1) \<Rightarrow> (from_utf8_lossy (as_bytes r), (st1, lg, n))))"
proof -
  obtain e where e: "pre_engines (dll_registry addr name L rnd net) = [e]" "post_engines (dll_registry addr name L rnd net) = []"
    "on_incoming_irc_line_ptr e = fish_on_incoming L net" using dll_registry_lists [OF assms] by blast
  have "engine_on_incoming e k l' (st, lg, n) =
    (case cstring_new l' of
       None \<Rightarrow> ((False, l'), (st, lg, n))
     | Some c \<Rightarrow>
         (case on_incoming L (net k) (Some c) lg st of
            (None, st1) \<Rightarrow> ((False, l'), (st1, lg, n))
          | (Some r, st1) \<Rightarrow> ((True, from_utf8_lossy (as_bytes r)), (st1, lg, n))))" for l'
    by (simp add: engine_on_incoming_def engine_call_def e(3) fish_on_incoming_def split: option.split prod.split)
  then show ?thesis
    by (simp add: filter_line_def on_incoming_irc_line_def e split: option.split prod.split)
qed

interpretation fish: line_engines "dll_registry addr name L rnd net" for addr name L rnd net
  by unfold_locales
    (auto simp: dll_registry_engines SafeEngine_new_def FISH_INJECT_ENGINE_def FISH_INJECT_ENGINE_VERSION_def fish_keeps
      split: if_splits)

section \<open>What reaches the network\<close>

text \<open>C15: whatever engines are registered and whatever they answer, \<open>hooked_send\<close> hands the
  caller's own buffer to the original \<open>send\<close>: no encrypted line is ever transmitted.\<close>

theorem send_transmits_callers_bytes:
  "fst (hooked_send s buf len g w) = (if send_hook g then Original s buf len else WsaFail)"
proof -
  obtain si g1 where c: "get_or_create_socket (ucast s) g = (si, g1)" by fastforce
  have "send_hook g1 = send_hook g"
    using c by (auto simp: get_or_create_socket_def init_engines_def put_socket_def Let_def split: option.splits)
  then show ?thesis
    using c by (auto simp: hooked_send_def send_original_def split: option.split prod.split)
qed

section \<open>What reaches the client\<close>


text \<open>One call, with what an earlier one left in \<open>received_buffer\<close>.\<close>

lemma recv_text:
  assumes "hm_get (active_sockets g) (ucast s) = Some si" "recv_hook g" "\<not> is_ssl si"
    "received_buffer si = as_bytes p" "processed_incoming_buffer si = []" "d \<noteq> []"
    "utf8_valid (as_bytes (p @ d))" "length (p @ d) \<le> 1000000"
    "filter_lines (registry_of g si) (si_socket si) (lines_of (p @ d)) w = (x, w1)"
  shows "\<exists>si'. hooked_recv debug s len buf (Inr (as_bytes d)) g w =
      ((int (length (fst (deliver len (si\<lparr>processed_incoming_buffer := as_bytes x\<rparr>)))),
        overwrite (overwrite buf (as_bytes d)) (fst (deliver len (si\<lparr>processed_incoming_buffer := as_bytes x\<rparr>)))),
       put_socket si' g, w1) \<and>
    si_socket si' = si_socket si \<and> si_engines si' = si_engines si \<and> flags si' = flags si \<and>
    received_buffer si' = as_bytes (last (split_str CRLF (p @ d))) \<and> processed_incoming_buffer si' = []"
proof -
  let ?s0 = "detect_network debug (as_bytes d) si"
  define si1 where "si1 = write_received_data (as_bytes d) ?s0"
  have b: "received_buffer si1 = as_bytes (p @ d)" "processed_incoming_buffer si1 = []" "same_socket ?s0 si1"
    using assms(4,5,8) write_received_small [of ?s0 "as_bytes d"] by (simp_all add: si1_def)
  then have k: "si_socket si1 = si_socket si" by (simp add: same_socket_def)
  obtain si2 w2 where p: "process_received_lines (registry_of g si) si1 w = (si2, w2)" by fastforce
  have q: "w2 = w1" "processed_incoming_buffer si2 = as_bytes x" "same_socket si1 si2"
    "received_buffer si2 = as_bytes (last (split_str CRLF (p @ d)))"
    using process_utf8 [OF b(1) _ assms(7) p] assms(6,9) b(2) k by simp_all
  obtain out si3 where o: "deliver len si2 = (out, si3)" by fastforce
  have "out = fst (deliver len (si\<lparr>processed_incoming_buffer := as_bytes x\<rparr>))"
    using o q(2) by (auto simp: deliver_def get_processed_buffer_def Let_def)
  moreover have "same_socket ?s0 si3"
    using b(3) q(3) deliver_facts(5) [OF o] same_socket_trans by blast
  ultimately show ?thesis
    using recv_call [OF assms(1-3), of "as_bytes d" debug w si2 w2 len out si3 buf] p o assms(6) q deliver_facts(3,4) [OF o]
    by (auto simp: si1_def same_socket_def)
qed

definition plain_text :: "string \<Rightarrow> bool" where
  "plain_text s \<longleftrightarrow> s \<noteq> [] \<and> CHR 0x0D \<notin> set s \<and> CHR 0x0A \<notin> set s"

lemma plain_no_crlf: "CHR 0x0A \<notin> set a \<Longrightarrow> \<not> contains CRLF a"
proof
  assume "CHR 0x0A \<notin> set a" "contains CRLF a"
  then show False using contains_subset [of CRLF a] by (simp add: CRLF_def)
qed

lemma lines_of_plain: "plain_text a \<Longrightarrow> lines_of a = [a]" "plain_text a \<Longrightarrow> lines_of (a @ CRLF) = [a]"
proof -
  assume a: "plain_text a"
  then have s: "split_str CRLF a = [a]" by (simp add: plain_text_def plain_no_crlf split_crlf_none)
  then show "lines_of a = [a]" using a by (simp add: lines_of_def plain_text_def)
  have "split_str CRLF (a @ CRLF @ []) = split_str CRLF a @ split_str CRLF []" by (rule split_crlf_append)
  then show "lines_of (a @ CRLF) = [a]" using a s by (simp add: lines_of_def plain_text_def)
qed

definition quiet_registry :: "'w InjectEngines \<Rightarrow> bool" where
  "quiet_registry r \<longleftrightarrow> (\<forall>k l w. on_incoming_irc_line r k l w = ((False, l), w))"

lemma quiet_lines: "quiet_registry r \<Longrightarrow> filter_lines r k [l] w = (l @ CRLF, w)"
  by (simp add: quiet_registry_def filter_line_def)

text \<open>a line that arrives in two pieces reaches the client twice: once as its first
  piece with a line end made up by the code, then as a whole.\<close>

theorem partial_line_delivered_twice:
  assumes "hm_get (active_sockets g) (ucast s) = Some si" "si_socket si = ucast s" "recv_hook g" "\<not> is_ssl si"
    "received_buffer si = []" "processed_incoming_buffer si = []" "quiet_registry (registry_of g si)"
    "plain_text a" "plain_text b" "utf8_valid (as_bytes a)" "utf8_valid (as_bytes (a @ b @ CRLF))"
    "int (length (a @ b) + 2) \<le> len" "length (a @ b) + 2 \<le> 1000000"
  shows "fst (recv_all debug s len [a, b @ CRLF] g w) = (a @ CRLF) @ (a @ b @ CRLF)"
proof -
  let ?r = "registry_of g si"
  have ab: "plain_text (a @ b)" using assms(8,9) by (simp add: plain_text_def)
  have l1: "int (length a + 2) \<le> len" using assms(12) by simp
  have d1: "fst (deliver len (si\<lparr>processed_incoming_buffer := as_bytes (a @ CRLF)\<rparr>)) = as_bytes (a @ CRLF)"
    using deliver_all [OF _ l1, of "si\<lparr>processed_incoming_buffer := as_bytes (a @ CRLF)\<rparr>"] by simp
  have la: "last (split_str CRLF a) = a" using assms(8) by (simp add: plain_text_def plain_no_crlf split_crlf_none)
  have "\<exists>si1. hooked_recv debug s len (replicate (nat len) 0) (Inr (as_bytes a)) g w =
      ((int (length a + 2), overwrite (overwrite (replicate (nat len) 0) (as_bytes a)) (as_bytes (a @ CRLF))), put_socket si1 g, w) \<and>
    si_socket si1 = si_socket si \<and> si_engines si1 = si_engines si \<and> flags si1 = flags si \<and>
    received_buffer si1 = as_bytes a \<and> processed_incoming_buffer si1 = []"
    using recv_text [OF assms(1,3,4), of "[]" a w "a @ CRLF" w debug len "replicate (nat len) 0"] assms d1
      quiet_lines [OF assms(7), of "ucast s" a w] la
    by (simp add: lines_of_plain(1) plain_text_def CRLF_simps(3))
  then obtain si1 where h1: "hooked_recv debug s len (replicate (nat len) 0) (Inr (as_bytes a)) g w =
      ((int (length a + 2), overwrite (overwrite (replicate (nat len) 0) (as_bytes a)) (as_bytes (a @ CRLF))), put_socket si1 g, w)"
    "si_socket si1 = ucast s" "si_engines si1 = si_engines si" "flags si1 = flags si"
    "received_buffer si1 = as_bytes a" "processed_incoming_buffer si1 = []" using assms(2) by auto
  let ?g = "put_socket si1 g"
  have g: "hm_get (active_sockets ?g) (ucast s) = Some si1" "recv_hook ?g" "\<not> is_ssl si1" "registry_of ?g si1 = ?r"
    using h1 assms(3,4) by (simp_all add: put_socket_def registry_of_def is_ssl_def)
  have d2: "fst (deliver len (si1\<lparr>processed_incoming_buffer := as_bytes ((a @ b) @ CRLF)\<rparr>)) = as_bytes ((a @ b) @ CRLF)"
    using deliver_all [OF _ assms(12), of "si1\<lparr>processed_incoming_buffer := as_bytes ((a @ b) @ CRLF)\<rparr>"] by simp
  have "\<exists>si2. hooked_recv debug s len (replicate (nat len) 0) (Inr (as_bytes (b @ CRLF))) ?g w =
      ((int (length (a @ b) + 2), overwrite (overwrite (replicate (nat len) 0) (as_bytes (b @ CRLF))) (as_bytes ((a @ b) @ CRLF))), put_socket si2 ?g, w)"
    using recv_text [OF g(1-3), of a "b @ CRLF" w "(a @ b) @ CRLF" w debug len "replicate (nat len) 0"] assms h1 g(4) d2
      quiet_lines [OF assms(7), of "ucast s" "a @ b" w] lines_of_plain(2) [OF ab]
    by (auto simp: CRLF_simps(3) plain_text_def)
  then obtain si2 where h2: "hooked_recv debug s len (replicate (nat len) 0) (Inr (as_bytes (b @ CRLF))) ?g w =
      ((int (length (a @ b) + 2), overwrite (overwrite (replicate (nat len) 0) (as_bytes (b @ CRLF))) (as_bytes ((a @ b) @ CRLF))), put_socket si2 ?g, w)"
    by blast
  have t: "str_of (take (length (z @ CRLF)) (overwrite y (as_bytes (z @ CRLF)))) = z @ CRLF" for y z
    using overwrite_take [of "as_bytes (z @ CRLF)" y] by simp
  have n: "nat (2 + int x) = Suc (Suc x)" "nat (2 + (int x + int y)) = Suc (Suc (x + y))" for x y by linarith+
  show ?thesis using h1(1) h2 t [of a] t [of "a @ b"] by (simp add: CRLF_simps(3) n)
qed

text \<open>when a line fills the client's buffer exactly, the client is told 0 bytes, which
  means that the peer closed the connection, although data arrived.\<close>

theorem full_buffer_reads_as_closed:
  assumes "hm_get (active_sockets g) (ucast s) = Some si" "si_socket si = ucast s" "recv_hook g" "\<not> is_ssl si"
    "received_buffer si = []" "processed_incoming_buffer si = []" "quiet_registry (registry_of g si)"
    "plain_text a" "utf8_valid (as_bytes a)" "length a \<le> 1000000"
  shows "fst (fst (hooked_recv debug s (int (length a)) buf (Inr (as_bytes a)) g w)) = 0"
proof -
  have "deliver (int (length a)) (si\<lparr>processed_incoming_buffer := as_bytes (a @ CRLF)\<rparr>) = ([], clear_processed_buffer (si\<lparr>processed_incoming_buffer := as_bytes (a @ CRLF)\<rparr>))"
    using crlf_boundary_none [of a] assms(8)
    by (simp add: deliver_def get_processed_buffer_def Let_def plain_text_def)
  then show ?thesis
    using recv_text [OF assms(1,3,4), of "[]" a w "a @ CRLF" w debug "int (length a)" buf] assms
      quiet_lines [OF assms(7), of "ucast s" a w]
    by (auto simp: lines_of_plain(1) plain_text_def)
qed

text \<open>C33: in every reachable state, what \<open>hooked_recv\<close> returns for data it processed fits the
  client's buffer and is whole lines, and nothing waits for the next call: processed
  lines that did not fit are gone.\<close>

theorem recv_returns_whole_lines:
  assumes "inject_reach (g, w)" "hm_get (active_sockets g) (ucast s) = Some si" "recv_hook g" "\<not> is_ssl si" "data \<noteq> []"
    "hooked_recv debug s len buf (Inr data) g w = ((n, buf'), g', w')"
  shows "0 \<le> n \<and> n \<le> max 0 len \<and> (n = 0 \<or> ends_with CRLF (str_of (take (nat n) buf'))) \<and>
    (\<exists>si'. hm_get (active_sockets g') (ucast s) = Some si' \<and> processed_incoming_buffer si' = [] \<and>
       \<not> contains CRLF (str_of (received_buffer si')))"
proof -
  let ?si1 = "write_received_data data (detect_network debug data si)"
  obtain si2 w1 where p: "process_received_lines (registry_of g si) ?si1 w = (si2, w1)" by fastforce
  obtain out si3 where d: "deliver len si2 = (out, si3)" by fastforce
  have r: "n = int (length out)" "buf' = overwrite (overwrite buf data) out" "g' = put_socket si3 g"
    using recv_call [OF assms(2-5) p d, of buf] assms(6) by simp_all
  have ok: "si_socket si = ucast s" using inject_reach_ok [OF assms(1)] assms(2) by (simp add: inject_ok_def)
  have i: "\<not> contains CRLF (str_of (received_buffer si2))" "same_socket ?si1 si2"
    using process_received_idle [OF write_received_ne [OF assms(5)] p] by blast+
  have "same_socket (detect_network debug data si) si3"
    using i(2) deliver_facts(5) [OF d] write_received_fields(1) same_socket_trans by blast
  then have "si_socket si3 = ucast s" using ok by (simp add: same_socket_def)
  then have "hm_get (active_sockets g') (ucast s) = Some si3" by (simp add: r(3) put_socket_def)
  moreover have "take (nat n) buf' = out" by (simp add: r)
  ultimately show ?thesis using r(1) deliver_facts(1-4) [OF d] i(1) by auto
qed

section \<open>From the sender's engine to the receiver's client\<close>

lemma cmd_of_chars: "plain_word src \<Longrightarrow> plain_target t \<Longrightarrow> c \<in> set (cmd_of src t) \<Longrightarrow> graphic c \<or> c = CHR '' ''"
  by (auto simp: cmd_of_def plain_target_def list_all_iff graphic_def dest!: plain_wordD)

lemma sealed_line_form:
  assumes "plain_word src" "plain_target t" "sealed_text c"
  shows "\<exists>x. sealed_line src t c = x @ CRLF \<and> plain_text x \<and> (\<forall>d\<in>set x. graphic d \<or> d = CHR '' '')"
proof -
  let ?x = "cmd_of src t @ '' :'' @ ''+FiSH'' @ '' '' @ c"
  have g: "graphic d \<or> d = CHR '' ''" if "d \<in> set ?x" for d
    using that cmd_of_chars [OF assms(1,2), of d] assms(3) by (auto simp: sealed_text_def list_all_iff graphic_def)
  have "CHR 0x0D \<notin> set ?x" "CHR 0x0A \<notin> set ?x" using g [of "CHR 0x0D"] g [of "CHR 0x0A"] by (auto simp: graphic_def)
  then have "plain_text ?x" unfolding plain_text_def by blast
  then show ?thesis using g by (intro exI [of _ ?x]) (simp add: sealed_line_def)
qed

lemma cstring_ok: "CHR 0x00 \<notin> set s \<Longrightarrow> cstring_new s = Some (as_bytes s)"
proof -
  assume n: "CHR 0x00 \<notin> set s"
  have "byte_of c \<noteq> 0" if "c \<in> set s" for c
  proof
    assume "byte_of c = 0"
    then have "c = char_of_byte 0" using char_of_byte_of [of c] by simp
    then have "c = CHR 0x00" by (simp add: char_of_byte_def char_eq_code)
    then show False using that n by simp
  qed
  then show ?thesis by (auto simp: cstring_new_def as_bytes_def)
qed

lemma recv_all_one:
  assumes "hooked_recv debug s len (replicate (nat len) 0) (Inr (as_bytes c)) g w = ((int (length d), overwrite b (as_bytes d)), g', w')"
  shows "fst (recv_all debug s len [c] g w) = d"
  using overwrite_take [of "as_bytes d" b] by (simp add: assms)


section \<open>Examples\<close>

text \<open>An injector with the hooks in place and one connected socket; with no engine, and with
  the DLL's.\<close>

definition quiet_inject :: "unit inject" where
  "quiet_inject = snd (hooked_connect 5 0 False (snd (LoadDll (Some 4096) 4 inject_start)))"

lemma quiet_inject_eq:
  "quiet_inject = (put_socket (set_state Connected (SocketInfo_new 5 0)) (snd (LoadDll (Some 4096) 4 inject_start)))"
  "recv_hook quiet_inject" "registry_of quiet_inject (set_state Connected (SocketInfo_new 5 0)) = InjectEngines_new"
  by (simp_all add: quiet_inject_def hooked_connect_def LoadDll_def install_hooks_def init_engines_def inject_start_def
      get_or_create_socket_def put_socket_def registry_of_def SocketInfo_new_def set_state_def Let_def)

lemma quiet_inject_socket:
  "hm_get (active_sockets quiet_inject) (ucast (5::u64)) = Some (set_state Connected (SocketInfo_new 5 0))"
  by (simp add: quiet_inject_eq(1) put_socket_def set_state_def)

lemma quiet_inject_reach: "inject_reach (quiet_inject, ())"
proof -
  let ?g = "snd (LoadDll (Some 4096) 4 inject_start)"
  have "inject_step (inject_start, ()) (?g, ())"
    by (rule inject_step.load) (rule prod.collapse [symmetric])
  moreover have "inject_step (?g, ()) (quiet_inject, ())"
    unfolding quiet_inject_def by (rule inject_step.connect) (rule prod.collapse [symmetric])
  ultimately have "inject_step\<^sup>*\<^sup>* (inject_start, ()) (quiet_inject, ())" by (rule converse_rtranclp_into_rtranclp [OF _ r_into_rtranclp])
  then show ?thesis by (auto simp: inject_reach_def)
qed

lemma new_socket_facts:
  "\<not> is_ssl (set_state x (SocketInfo_new k i))" "received_buffer (set_state x (SocketInfo_new k i)) = []"
  "processed_incoming_buffer (set_state x (SocketInfo_new k i)) = []" "si_socket (set_state x (SocketInfo_new k i)) = k"
  "quiet_registry InjectEngines_new"
  by (simp_all add: is_ssl_def SocketInfo_new_def set_state_def quiet_registry_def on_incoming_irc_line_def InjectEngines_new_def)

lemma partial_line_delivered_twice_witness:
  "fst (recv_all False 5 512 [''PING :a'', ''bc'' @ CRLF] quiet_inject ()) = ''PING :a'' @ CRLF @ ''PING :abc'' @ CRLF"
proof -
  have "utf8_valid (as_bytes ''PING :a'')" by (rule utf8_valid_ascii) code_simp
  moreover have "utf8_valid (as_bytes (''PING :a'' @ ''bc'' @ CRLF))" by (rule utf8_valid_ascii) code_simp
  moreover have "plain_text ''PING :a''" "plain_text ''bc''" by code_simp+
  moreover have "registry_of quiet_inject (set_state Connected (SocketInfo_new 5 0)) = InjectEngines_new" by (rule quiet_inject_eq)
  ultimately show ?thesis
    using partial_line_delivered_twice [OF quiet_inject_socket, of "''PING :a''" "''bc''" 512 False "()"]
    by (simp add: new_socket_facts quiet_inject_eq(2))
qed

lemma full_buffer_reads_as_closed_witness:
  "fst (fst (hooked_recv False 5 8 [] (Inr (as_bytes ''PING :ab'')) quiet_inject ())) = 0"
proof -
  have "utf8_valid (as_bytes ''PING :ab'')" by (rule utf8_valid_ascii) code_simp
  moreover have "plain_text ''PING :ab''" by code_simp
  moreover have "registry_of quiet_inject (set_state Connected (SocketInfo_new 5 0)) = InjectEngines_new" by (rule quiet_inject_eq)
  ultimately show ?thesis
    using full_buffer_reads_as_closed [OF quiet_inject_socket, of "''PING :ab''" False "[]" "()"]
    by (simp add: new_socket_facts quiet_inject_eq(2))
qed

lemma recv_returns_whole_lines_witness:
  "\<exists>n buf g'. hooked_recv False 5 512 [] (Inr (as_bytes ''PING :ab'')) quiet_inject () = ((n, buf), g', ()) \<and> n \<le> 512"
proof -
  obtain n buf g' where h: "hooked_recv False 5 512 [] (Inr (as_bytes ''PING :ab'')) quiet_inject () = ((n, buf), g', ())"
    by (cases "hooked_recv False 5 512 [] (Inr (as_bytes ''PING :ab'')) quiet_inject ()") auto
  have "n \<le> 512"
    using recv_returns_whole_lines [OF quiet_inject_reach quiet_inject_socket quiet_inject_eq(2) _ _ h] by (simp add: new_socket_facts)
  then show ?thesis using h by blast
qed

lemma ping_not_decrypted:
  "fst (attempt_decryption L net (''PING :x'' @ CRLF) lg st) = None"
proof -
  let ?l = "''PING :x'' @ CRLF"
  have n: "\<not> contains '' 332 '' ?l" "\<not> starts_with '':'' ?l" "\<not> contains ''DH1080_INIT'' ?l" "\<not> contains ''DH1080_FINISH'' ?l"
    "find_str '' :'' ?l = Some 4" "drop (4 + 2) ?l = ''x'' @ CRLF" "\<not> is_fish10_message (''x'' @ CRLF)"
    "length (split_whitespace ?l) < 4" by code_simp+
  have "fst (fish11_answer L net p ?l s) = None" for p s using n(8) by (simp add: fish11_answer_def)
  then show ?thesis using n(1-7)
    by (simp add: attempt_decryption_def topic_332_def topic_notice_def Let_def)
qed

lemma ping_filtered:
  assumes "addr \<noteq> 0"
  shows "fst (filter_line (dll_registry addr name L rnd net) k ''PING :x'' w) = ''PING :x'' @ CRLF"
proof -
  obtain st lg n where w: "w = (st, lg, n)" by (metis surj_pair)
  have "cstring_new (''PING :x'' @ CRLF) = Some (as_bytes (''PING :x'' @ CRLF))" by code_simp
  moreover have "utf8_valid (as_bytes (''PING :x'' @ CRLF))" by (rule utf8_valid_ascii) code_simp
  ultimately show ?thesis
    using ping_not_decrypted [of L "net k" lg "enter_network (net k) st"]
    by (auto simp: w dll_filter_line [OF assms] on_incoming_def from_utf8_def c_result_def split: prod.split)
qed

definition sample_registry :: "dll_world InjectEngines" where
  "sample_registry = dll_registry 9 (as_bytes ''FiSH_11_Engine'') ref_lib (\<lambda>n. replicate 24 5) (\<lambda>k. None)"

definition dll_inject :: "dll_world inject" where
  "dll_inject = put_socket (set_state Connected (SocketInfo_new 5 0))
     (inject_start\<lparr>engines := Some 0, registries := [sample_registry], recv_hook := True\<rparr>)"

lemma dll_inject_facts:
  "hm_get (active_sockets dll_inject) (ucast (5::u64)) = Some (set_state Connected (SocketInfo_new 5 0))" "recv_hook dll_inject"
  "registry_of dll_inject (set_state Connected (SocketInfo_new 5 0)) = sample_registry"
  by (simp_all add: dll_inject_def put_socket_def registry_of_def set_state_def)



end
