(* ===== verification/SslHooks.thy ===== *)
theory SslHooks
  imports WinsockFacts
begin

text \<open>
  The hooks of OpenSSL (\<open>hook_ssl.rs\<close>) and the mapping from its contexts to sockets
  (\<open>ssl_mapping.rs\<close>).  A context is its address, 0 the null pointer; the original
  functions of OpenSSL are outside the program.  The calls of one thread are modelled,
  so the retries of the mapping succeed at once.  A detour redirects every call of its
  target, also one through the target's own address; only the trampoline goes around it.
\<close>

section \<open>Contexts and sockets\<close>

record ssl_map =
  ssl_to_socket :: "(nat, u32) hmap"
  socket_to_ssl :: "(u32, nat) hmap"

definition associate :: "nat \<Rightarrow> u32 \<Rightarrow> ssl_map \<Rightarrow> ssl_map" where
  "associate ssl socket_id m =
     (if ssl = 0 then m
      else m\<lparr>ssl_to_socket := hm_insert ssl socket_id (ssl_to_socket m),
             socket_to_ssl := hm_insert socket_id ssl (socket_to_ssl m)\<rparr>)"

definition get_socket :: "nat \<Rightarrow> ssl_map \<Rightarrow> u32 option" where
  "get_socket ssl m = (if ssl = 0 then None else hm_get (ssl_to_socket m) ssl)"

definition get_ssl :: "u32 \<Rightarrow> ssl_map \<Rightarrow> nat option" where
  "get_ssl socket_id m = hm_get (socket_to_ssl m) socket_id"

definition remove_ssl :: "nat \<Rightarrow> ssl_map \<Rightarrow> u32 option \<times> ssl_map" where
  "remove_ssl ssl m =
     (if ssl = 0 then (None, m)
      else case hm_get (ssl_to_socket m) ssl of
        None \<Rightarrow> (None, m)
      | Some socket_id \<Rightarrow>
          (Some socket_id,
           m\<lparr>ssl_to_socket := hm_remove ssl (ssl_to_socket m), socket_to_ssl := hm_remove socket_id (socket_to_ssl m)\<rparr>))"

definition ssl_remove_socket :: "u32 \<Rightarrow> ssl_map \<Rightarrow> nat option \<times> ssl_map" where
  "ssl_remove_socket socket_id m =
     (case hm_get (socket_to_ssl m) socket_id of
        None \<Rightarrow> (None, m)
      | Some ssl \<Rightarrow>
          (Some ssl,
           m\<lparr>socket_to_ssl := hm_remove socket_id (socket_to_ssl m), ssl_to_socket := hm_remove ssl (ssl_to_socket m)\<rparr>))"

definition contains_ssl :: "nat \<Rightarrow> ssl_map \<Rightarrow> bool" where
  "contains_ssl ssl m = (ssl \<noteq> 0 \<and> hm_has (ssl_to_socket m) ssl)"

definition contains_socket :: "u32 \<Rightarrow> ssl_map \<Rightarrow> bool" where
  "contains_socket socket_id m = hm_has (socket_to_ssl m) socket_id"

definition mapping_len :: "ssl_map \<Rightarrow> nat" where
  "mapping_len m = length (ssl_to_socket m)"

text \<open>The repair: each loop holds the entry it looks at, so removing that entry waits for
  itself.  The outcome is \<open>None\<close> then, and otherwise the number of repairs.\<close>

definition check_and_repair_consistency :: "ssl_map \<Rightarrow> (nat \<times> ssl_map) option" where
  "check_and_repair_consistency m =
     (if ssl_to_socket m = [] \<and> socket_to_ssl m = [] then Some (0, m)
      else if list_ex (\<lambda>(ssl, k). \<not> hm_has (socket_to_ssl m) k) (ssl_to_socket m) then None
      else if list_ex (\<lambda>(k, ssl). \<not> hm_has (ssl_to_socket m) ssl) (socket_to_ssl m) then None
      else Some (0, m))"

definition clear_mapping :: "ssl_map" where
  "clear_mapping = \<lparr>ssl_to_socket = [], socket_to_ssl = []\<rparr>"

section \<open>The hooks\<close>

text \<open>\<open>original_ssl_write\<close> says whether the address of \<open>SSL_write\<close> is stored,
  \<open>ssl_init_fn\<close> whether \<open>SSL_is_init_finished\<close> is.\<close>

record 'w ssl_state =
  inj :: "'w inject"
  mapping :: ssl_map
  ssl_read_hook :: bool
  ssl_write_hook :: bool
  original_ssl_read :: bool
  original_ssl_write :: bool
  ssl_init_fn :: bool
  ssl_hooks_installed :: bool

definition ssl_start :: "'w ssl_state" where
  "ssl_start = \<lparr>inj = inject_start, mapping = clear_mapping, ssl_read_hook = False, ssl_write_hook = False,
     original_ssl_read = False, original_ssl_write = False, ssl_init_fn = False, ssl_hooks_installed = False\<rparr>"

text \<open>\<open>created\<close> and \<open>enabled\<close> are the number of detours, read first, that are created and
  enabled before one fails: two are both.\<close>

definition no_ssl_hooks :: "'w ssl_state \<Rightarrow> 'w ssl_state" where
  "no_ssl_hooks x = x\<lparr>ssl_read_hook := False, ssl_write_hook := False, original_ssl_read := False,
     original_ssl_write := False, ssl_init_fn := False\<rparr>"

definition install_ssl_hooks :: "nat \<Rightarrow> nat \<Rightarrow> 'w ssl_state \<Rightarrow> bool \<times> 'w ssl_state" where
  "install_ssl_hooks created enabled x =
     (if ssl_hooks_installed x then (False, x)
      else if created < 2 \<or> enabled < 2 then (False, no_ssl_hooks x)
      else (True, x\<lparr>ssl_read_hook := True, ssl_write_hook := True, original_ssl_read := True,
                    original_ssl_write := True, ssl_init_fn := True, ssl_hooks_installed := True\<rparr>))"

definition uninstall_ssl_hooks :: "'w ssl_state \<Rightarrow> 'w ssl_state" where
  "uninstall_ssl_hooks x = x\<lparr>ssl_read_hook := False, ssl_write_hook := False, mapping := clear_mapping,
     original_ssl_read := False, original_ssl_write := False, ssl_hooks_installed := False\<rparr>"

text \<open>The functions that would fill the mapping: nothing calls the first, and the second is
  never installed as a detour, and its original is never stored.\<close>

definition store_ssl_mapping :: "nat \<Rightarrow> u64 \<Rightarrow> 'w ssl_state \<Rightarrow> 'w ssl_state" where
  "store_ssl_mapping ssl socket x = x\<lparr>mapping := associate ssl (ucast socket) (mapping x)\<rparr>"

definition hooked_ssl_set_fd :: "int option \<Rightarrow> nat \<Rightarrow> u32 \<Rightarrow> 'w ssl_state \<Rightarrow> int \<times> 'w ssl_state" where
  "hooked_ssl_set_fd original ssl fd x =
     (case original of
        None \<Rightarrow> (-1, x)
      | Some result \<Rightarrow>
          if 0 < result \<and> ssl \<noteq> 0 then
            (let (si, g) = get_or_create_socket fd (inj x) in
             (result, x\<lparr>mapping := associate ssl fd (mapping x), inj := put_socket (set_ssl True si) g\<rparr>))
          else (result, x))"

text \<open>After a read or write: a finished handshake makes the socket \<open>Connected\<close>.\<close>

definition handshake_done :: "u32 \<Rightarrow> int \<Rightarrow> 'w ssl_state \<Rightarrow> 'w ssl_state" where
  "handshake_done socket_id status x =
     (if ssl_init_fn x \<and> status \<noteq> 0 then
        (let (si, g) = get_or_create_socket socket_id (inj x) in
         x\<lparr>inj := (if sock_state si = TlsHandshake then put_socket (set_state Connected si) g else g)\<rparr>)
      else x)"

text \<open>\<open>read\<close> is what the original \<open>SSL_read\<close> did, as for \<open>hooked_recv\<close>; \<open>status\<close> what
  \<open>SSL_is_init_finished\<close> answers.\<close>

definition hooked_ssl_read ::
  "nat \<Rightarrow> bytes option \<Rightarrow> int \<Rightarrow> (int, bytes) result \<Rightarrow> int \<Rightarrow> 'w ssl_state \<Rightarrow> 'w \<Rightarrow> (int \<times> bytes option) \<times> 'w ssl_state \<times> 'w" where
  "hooked_ssl_read ssl buf num read status x w =
     (case buf of
        None \<Rightarrow> ((-1, None), x, w)
      | Some b \<Rightarrow>
          if ssl = 0 \<or> \<not> ssl_read_hook x then ((-1, buf), x, w)
          else case get_socket ssl (mapping x) of
            None \<Rightarrow> (case read of Inl n \<Rightarrow> ((n, buf), x, w) | Inr data \<Rightarrow> ((int (length data), Some (overwrite b data)), x, w))
          | Some socket_id \<Rightarrow>
              (let x1 = handshake_done socket_id status x in
               case read of
                 Inl n \<Rightarrow> ((n, buf), x1, w)
               | Inr data \<Rightarrow>
                   if data = [] then ((0, buf), x1, w)
                   else
                     (let (si, g) = get_or_create_socket socket_id (inj x1);
                          (si1, w1) = process_received_lines (registry_of g si) (write_received_data data si) w;
                          (out, si2) = deliver num si1
                      in ((int (length out), Some (overwrite (overwrite b data) out)), x1\<lparr>inj := put_socket si2 g\<rparr>, w1))))"

text \<open>\<open>real\<close> is what OpenSSL's own \<open>SSL_write\<close> returns.  The outcome is \<open>None\<close> when the fuel
  runs out, so a call returns exactly if some fuel gives \<open>Some\<close>.\<close>

fun hooked_ssl_write ::
  "nat \<Rightarrow> int \<Rightarrow> int \<Rightarrow> nat \<Rightarrow> bytes option \<Rightarrow> int \<Rightarrow> 'w ssl_state \<Rightarrow> 'w \<Rightarrow> (int \<times> 'w ssl_state \<times> 'w) option" where
  "hooked_ssl_write 0 real status ssl buf num x w = None"
| "hooked_ssl_write (Suc fuel) real status ssl buf num x w =
     (let original = (\<lambda>y w1. if ssl_write_hook y then hooked_ssl_write fuel real status ssl buf num y w1
                             else Some (real, y, w1)) in
      if ssl = 0 \<or> buf = None \<and> 0 < num then Some (-1, x, w)
      else case get_socket ssl (mapping x) of
        None \<Rightarrow> if original_ssl_write x then original x w else Some (-1, x, w)
      | Some socket_id \<Rightarrow>
          (let (x1, w1) =
             (case buf of
                Some data \<Rightarrow>
                  if 0 < num then
                    (let (si, g) = get_or_create_socket socket_id (inj x);
                         (_, si1, w1) = on_sending (registry_of g si) data si w
                     in (x\<lparr>inj := put_socket si1 g\<rparr>, w1))
                  else (x, w)
              | None \<Rightarrow> (x, w))
           in if \<not> original_ssl_write x1 then Some (-1, x1, w1)
              else case original x1 w1 of
                None \<Rightarrow> None
              | Some (result, x2, w2) \<Rightarrow>
                  Some (result,
                        (case get_socket ssl (mapping x2) of
                           Some k \<Rightarrow> handshake_done k status x2 | None \<Rightarrow> x2), w2)))"

section \<open>Properties\<close>

text \<open>C34: once the hooks are installed, a call of \<open>SSL_write\<close> never returns: the stored
  ``original'' is the address the detour itself redirects, so the hook calls itself for ever.\<close>

theorem ssl_write_never_returns:
  fixes x :: "'w ssl_state"
  assumes "ssl_write_hook x" "original_ssl_write x" "ssl \<noteq> 0" "buf \<noteq> None \<or> num \<le> 0"
  shows "hooked_ssl_write fuel real status ssl buf num x w = None"
  using assms
proof (induction fuel arbitrary: x w)
  case (Suc fuel)
  have i: "hooked_ssl_write fuel real status ssl buf num y w1 = None" if "ssl_write_hook y" "original_ssl_write y" for y :: "'w ssl_state" and w1
    by (rule Suc.IH [OF that Suc.prems(3,4)])
  have "\<not> (ssl = 0 \<or> buf = None \<and> 0 < num)" using Suc.prems by auto
  then show ?case using Suc.prems i
    by (auto simp: Let_def split: option.split prod.split)
qed simp

lemma ssl_write_never_returns_witness:
  "\<forall>fuel. hooked_ssl_write fuel 4 1 7 (Some [1, 2, 3, 4]) 4 (snd (install_ssl_hooks 2 2 (ssl_start :: unit ssl_state))) () = None"
  using ssl_write_never_returns [of "snd (install_ssl_hooks 2 2 (ssl_start :: unit ssl_state))" 7 "Some [1, 2, 3, 4]" 4 _ 4 1 "()"]
  by (simp add: install_ssl_hooks_def ssl_start_def)

text \<open>All calls the program makes; the mapping is only ever cleared.\<close>

inductive ssl_step :: "'w ssl_state \<times> 'w \<Rightarrow> 'w ssl_state \<times> 'w \<Rightarrow> bool" where
  winsock: "inject_step (inj x, w) (g, w') \<Longrightarrow> ssl_step (x, w) (x\<lparr>inj := g\<rparr>, w')"
| ssl_read: "hooked_ssl_read ssl buf num read status x w = (r, x', w') \<Longrightarrow> ssl_step (x, w) (x', w')"
| ssl_write: "hooked_ssl_write fuel real status ssl data num x w = Some (n, x', w') \<Longrightarrow> ssl_step (x, w) (x', w')"
| install: "install_ssl_hooks created enabled x = (ok, x') \<Longrightarrow> ssl_step (x, w) (x', w)"
| uninstall: "ssl_step (x, w) (uninstall_ssl_hooks x, w)"

definition ssl_reach :: "'w ssl_state \<times> 'w \<Rightarrow> bool" where
  "ssl_reach xw \<longleftrightarrow> (\<exists>w. ssl_step\<^sup>*\<^sup>* (ssl_start, w) xw)"

lemma handshake_mapping [simp]: "mapping (handshake_done k s x) = mapping x"
  by (simp add: handshake_done_def split: prod.split)

lemma read_mapping: "hooked_ssl_read ssl buf num read status x w = (r, x', w') \<Longrightarrow> mapping x' = mapping x"
  by (auto simp: hooked_ssl_read_def Let_def split: option.splits if_splits sum.splits prod.splits)

lemma write_mapping:
  fixes x :: "'w ssl_state"
  shows "hooked_ssl_write fuel real status ssl data num x w = Some (n, x', w') \<Longrightarrow> mapping x' = mapping x"
proof (induction fuel arbitrary: x w n x' w' data)
  case (Suc fuel)
  have i: "hooked_ssl_write fuel real status ssl d num y w1 = Some (n, y', w1') \<Longrightarrow> mapping y' = mapping y"
    for y y' :: "'w ssl_state" and w1 w1' n d by (rule Suc.IH)
  from Suc.prems show ?case
    by (auto simp: Let_def split: if_splits option.splits prod.splits dest: i)
qed simp

lemma ssl_reach_mapping: "ssl_reach (x, w) \<Longrightarrow> mapping x = clear_mapping"
proof -
  have "ssl_step\<^sup>*\<^sup>* (ssl_start, w0) xw \<Longrightarrow> mapping (fst xw) = clear_mapping" for w0 and xw :: "'a ssl_state \<times> 'a"
  proof (induction rule: rtranclp_induct)
    case base
    show ?case by (simp add: ssl_start_def)
  next
    case (step y z)
    from step(2,3) show ?case
      by (cases rule: ssl_step.cases)
        (auto simp: install_ssl_hooks_def no_ssl_hooks_def uninstall_ssl_hooks_def split: if_splits
          dest: read_mapping write_mapping)
  qed
  then show "ssl_reach (x, w) \<Longrightarrow> mapping x = clear_mapping" by (force simp: ssl_reach_def)
qed

text \<open>in every reachable state the mapping is empty, so \<open>hooked_ssl_read\<close> gives the caller
  what OpenSSL read, untouched: no line of a TLS connection is ever decrypted by an engine.\<close>

theorem ssl_lines_never_processed:
  assumes "ssl_reach (x, w)" "ssl \<noteq> 0" "ssl_read_hook x"
  shows "hooked_ssl_read ssl (Some b) num (Inr data) status x w = ((int (length data), Some (overwrite b data)), x, w)"
  using assms ssl_reach_mapping [OF assms(1)] by (simp add: hooked_ssl_read_def get_socket_def clear_mapping_def)

lemma ssl_lines_never_processed_witness:
  "hooked_ssl_read 7 (Some (replicate 9 0)) 9 (Inr (as_bytes ''PING :x'')) 1 (snd (install_ssl_hooks 2 2 (ssl_start :: unit ssl_state))) () =
    ((7, Some (overwrite (replicate 9 0) (as_bytes ''PING :x''))), snd (install_ssl_hooks 2 2 ssl_start), ())"
proof -
  let ?x = "snd (install_ssl_hooks 2 2 (ssl_start :: unit ssl_state))"
  have "ssl_step (ssl_start, ()) (?x, ())" by (rule ssl_step.install) (rule prod.collapse [symmetric])
  then have "ssl_reach (?x, ())" unfolding ssl_reach_def by blast
  moreover have "ssl_read_hook ?x" by (simp add: install_ssl_hooks_def ssl_start_def)
  ultimately show ?thesis using ssl_lines_never_processed [of ?x "()" 7 "replicate 9 0" 9 "as_bytes ''PING :x''" 1] by simp
qed

section \<open>The mapping\<close>

definition mapping_ok :: "ssl_map \<Rightarrow> bool" where
  "mapping_ok m \<longleftrightarrow> hm_wf (ssl_to_socket m) \<and> hm_wf (socket_to_ssl m) \<and>
     (\<forall>ssl k. hm_get (ssl_to_socket m) ssl = Some k \<longleftrightarrow> hm_get (socket_to_ssl m) k = Some ssl) \<and>
     \<not> hm_has (ssl_to_socket m) 0"

text \<open>C35: the two maps stay inverse to each other as long as a context is associated once and
  with a socket that has none; but a socket that is given a second context loses it when
  the first is removed, although the second still names the socket.\<close>

theorem ssl_mapping_inverse:
  assumes "mapping_ok m"
  shows "(get_socket ssl m = None \<and> get_ssl k m = None \<longrightarrow> mapping_ok (associate ssl k m)) \<and>
    mapping_ok (snd (remove_ssl ssl m)) \<and> mapping_ok (snd (ssl_remove_socket k m)) \<and>
    (get_socket ssl m = Some k \<longleftrightarrow> get_ssl k m = Some ssl) \<and>
    (get_socket ssl m = Some k \<and> ssl' \<noteq> 0 \<and> get_socket ssl' m = None \<longrightarrow>
       (let m' = snd (remove_ssl ssl (associate ssl' k m)) in get_socket ssl' m' = Some k \<and> get_ssl k m' = None))"
proof -
  have z: "hm_get (ssl_to_socket m) 0 = None" "hm_get (socket_to_ssl m) k \<noteq> Some 0" for k
    using assms by (auto simp: mapping_ok_def hm_has_def)
  have inv: "hm_get (ssl_to_socket m) a = Some b \<longleftrightarrow> hm_get (socket_to_ssl m) b = Some a" for a b
    using assms by (simp add: mapping_ok_def)
  have 1: "mapping_ok (associate ssl k m)" if "get_socket ssl m = None" "get_ssl k m = None"
    using that assms inv unfolding mapping_ok_def associate_def get_socket_def get_ssl_def
    by (auto simp: distinct_update simp del: map_of_eq_Some_iff split: if_splits) (metis option.distinct(1))
  have 2: "mapping_ok (snd (remove_ssl ssl m))"
    using assms inv unfolding mapping_ok_def remove_ssl_def
    by (auto simp: distinct_delete simp del: map_of_eq_Some_iff split: option.split if_splits) (metis option.inject)
  have 3: "mapping_ok (snd (ssl_remove_socket k m))"
    using assms inv unfolding mapping_ok_def ssl_remove_socket_def
    by (auto simp: distinct_delete simp del: map_of_eq_Some_iff split: option.split if_splits) (metis option.inject)
  have 4: "get_socket ssl m = Some k \<longleftrightarrow> get_ssl k m = Some ssl"
    using z inv by (auto simp: get_socket_def get_ssl_def)
  have 5: "let m' = snd (remove_ssl ssl (associate ssl' k m)) in get_socket ssl' m' = Some k \<and> get_ssl k m' = None"
    if "get_socket ssl m = Some k" "ssl' \<noteq> 0" "get_socket ssl' m = None"
    using that by (auto simp: remove_ssl_def associate_def get_socket_def get_ssl_def Let_def split: if_splits)
  show ?thesis using 1 2 3 4 5 by blast
qed

lemma ssl_mapping_inverse_witness:
  "mapping_ok (associate 7 3 clear_mapping) \<and>
    (let m' = snd (remove_ssl 7 (associate 8 3 (associate 7 3 clear_mapping))) in get_socket 8 m' = Some 3 \<and> get_ssl 3 m' = None)"
proof -
  have "mapping_ok clear_mapping" by (simp add: mapping_ok_def clear_mapping_def)
  then have a: "mapping_ok (associate 7 3 clear_mapping)"
    using ssl_mapping_inverse [of clear_mapping 7 3 0] by (simp add: get_socket_def get_ssl_def clear_mapping_def)
  then show ?thesis using ssl_mapping_inverse [OF a, of 7 3 8]
    by (simp add: get_socket_def get_ssl_def clear_mapping_def associate_def)
qed

end
