(* ===== verification/Tls.thy ===== *)
theory Tls
  imports Sockets
begin

text \<open>
  What the injector reads of a TLS connection: the record header, the type of a
  handshake message and the server name of a ClientHello
  (\<open>handlers/protocol_detection.rs\<close>), and the buffer that puts records together from
  chunks (\<open>handlers/tls.rs\<close>).  Every read of the code is checked: \<open>None\<close> is a read past
  the end, which the code answers by giving up.
\<close>

section \<open>Records\<close>

definition be16 :: "u8 \<Rightarrow> u8 \<Rightarrow> nat" where
  "be16 a b = unat a * 256 + unat b"

definition parse_tls_record_info :: "bytes \<Rightarrow> (u8 \<times> nat \<times> nat) option" where
  "parse_tls_record_info data =
     (if 5 \<le> length data then
        (if data ! 1 = 3 \<and> 1 \<le> data ! 2 \<and> data ! 2 \<le> 4
         then Some (data ! 0, be16 (data ! 1) (data ! 2), be16 (data ! 3) (data ! 4)) else None)
      else None)"

definition parse_tls_handshake_type :: "bytes \<Rightarrow> u8 option" where
  "parse_tls_handshake_type data =
     (if 6 \<le> length data \<and> data ! 0 = 22 \<and> data ! 1 = 3 \<and> 1 \<le> data ! 2 \<and> data ! 2 \<le> 4
      then Some (data ! 5) else None)"

definition get_tls_version_string :: "nat \<Rightarrow> string" where
  "get_tls_version_string v =
     (if v = 0x0301 then ''TLS 1.0'' else if v = 0x0302 then ''TLS 1.1''
      else if v = 0x0303 then ''TLS 1.2'' else if v = 0x0304 then ''TLS 1.3'' else ''Unknown'')"

definition get_tls_handshake_type_string :: "u8 \<Rightarrow> string" where
  "get_tls_handshake_type_string t =
     (if t = 1 then ''ClientHello'' else if t = 2 then ''ServerHello'' else if t = 11 then ''Certificate''
      else if t = 12 then ''ServerKeyExchange'' else if t = 13 then ''CertificateRequest''
      else if t = 14 then ''ServerHelloDone'' else if t = 15 then ''CertificateVerify''
      else if t = 16 then ''ClientKeyExchange'' else if t = 20 then ''Finished'' else ''Unknown'')"

text \<open>The loop over the complete records of the buffer; \<open>hs\<close> says whether one was a
  handshake.\<close>

function tls_records :: "bytes \<Rightarrow> bool \<Rightarrow> bytes \<times> bool" where
  "tls_records buffer hs =
     (if length buffer < 5 then (buffer, hs)
      else case parse_tls_record_info buffer of
        None \<Rightarrow> (buffer, hs)
      | Some info \<Rightarrow>
          if 5 + snd (snd info) \<le> length buffer
          then tls_records (drop (5 + snd (snd info)) buffer) (hs \<or> fst info = 22)
          else (buffer, hs))"
  by auto
termination
  by (relation "measure (\<lambda>(b, h). length b)") auto

declare tls_records.simps [simp del]

definition on_receiving :: "bytes \<Rightarrow> SocketInfo \<Rightarrow> SocketInfo" where
  "on_receiving data si =
     (let (rest, hs) = tls_records (tls_handshake_buffer si @ data) False;
          si1 = si\<lparr>tls_handshake_buffer := rest\<rparr>
      in if hs then set_state TlsHandshake si1 else si1)"

section \<open>The server name of a ClientHello\<close>

definition get_byte :: "bytes \<Rightarrow> nat \<Rightarrow> u8 option" where
  "get_byte data i = (if i < length data then Some (data ! i) else None)"

definition read_u16 :: "bytes \<Rightarrow> nat \<Rightarrow> nat option" where
  "read_u16 data offset =
     (if offset + 2 \<le> length data then Some (be16 (data ! offset) (data ! (offset + 1))) else None)"

definition read_u24 :: "bytes \<Rightarrow> nat \<Rightarrow> nat option" where
  "read_u24 data offset =
     (if offset + 3 \<le> length data
      then Some (unat (data ! offset) * 65536 + unat (data ! (offset + 1)) * 256 + unat (data ! (offset + 2))) else None)"

text \<open>The body of a server name extension: \<open>Some r\<close> when the search ends with \<open>r\<close>,
  \<open>None\<close> when it goes on.\<close>

definition sni_extension :: "bytes \<Rightarrow> nat \<Rightarrow> nat \<Rightarrow> string option option" where
  "sni_extension data pos ext_len =
     (case read_u16 data pos of
        None \<Rightarrow> Some None
      | Some sni_list_len \<Rightarrow>
          if sni_list_len + 2 > ext_len then Some None
          else case get_byte data (pos + 2) of
            None \<Rightarrow> Some None
          | Some sni_type \<Rightarrow>
              (case read_u16 data (pos + 3) of
                 None \<Rightarrow> Some None
               | Some sni_len \<Rightarrow>
                   if sni_type = 0 \<and> 0 < sni_len \<and> pos + 5 + sni_len \<le> pos + ext_len then
                     (if pos + 5 + sni_len \<le> length data then
                        (case from_utf8 (take sni_len (drop (pos + 5) data)) of
                           Some host \<Rightarrow> Some (Some host) | None \<Rightarrow> None)
                      else Some None)
                   else None))"

function sni_extensions :: "bytes \<Rightarrow> nat \<Rightarrow> nat \<Rightarrow> string option" where
  "sni_extensions data extensions_end pos =
     (if \<not> pos + 4 \<le> extensions_end then None
      else case read_u16 data pos of
        None \<Rightarrow> None
      | Some ext_type \<Rightarrow>
          (case read_u16 data (pos + 2) of
             None \<Rightarrow> None
           | Some ext_len \<Rightarrow>
               (case (if ext_type = 0 \<and> 5 \<le> ext_len \<and> pos + 4 + ext_len \<le> extensions_end
                      then sni_extension data (pos + 4) ext_len else None) of
                  Some r \<Rightarrow> r
                | None \<Rightarrow> sni_extensions data extensions_end (pos + 4 + ext_len))))"
  by auto
termination
  by (relation "measure (\<lambda>(d, e, p). e - p)") auto

declare sni_extensions.simps [simp del]

definition extract_sni_from_client_hello :: "bytes \<Rightarrow> string option" where
  "extract_sni_from_client_hello data =
     (if length data < 6 \<or> data ! 0 \<noteq> 22 \<or> data ! 5 \<noteq> 1 then None
      else case read_u24 data 6 of
        None \<Rightarrow> None
      | Some handshake_len \<Rightarrow>
          if length data < 9 + handshake_len \<or> length data < 9 + 2 + 32 + 1 then None
          else case get_byte data 43 of
            None \<Rightarrow> None
          | Some session_id_len \<Rightarrow>
              (let pos = 44 + unat session_id_len in
               if length data < pos + 2 then None
               else case read_u16 data pos of
                 None \<Rightarrow> None
               | Some cipher_suites_len \<Rightarrow>
                   (let pos = pos + 2 + cipher_suites_len in
                    if length data < pos + 1 then None
                    else case get_byte data pos of
                      None \<Rightarrow> None
                    | Some compression_methods_len \<Rightarrow>
                        (let pos = pos + 1 + unat compression_methods_len in
                         if length data < pos + 2 then None
                         else case read_u16 data pos of
                           None \<Rightarrow> None
                         | Some extensions_len \<Rightarrow>
                             (let pos = pos + 2 in
                              if length data < pos + extensions_len then None
                              else sni_extensions data (pos + extensions_len) pos)))))"

section \<open>Records do not depend on the chunks\<close>

lemma parse_append: "5 \<le> length a \<Longrightarrow> parse_tls_record_info (a @ b) = parse_tls_record_info a"
  by (auto simp: parse_tls_record_info_def nth_append)

text \<open>A buffer that starts with a complete record, and one that does not.\<close>

definition complete_record :: "bytes \<Rightarrow> (u8 \<times> nat \<times> nat) \<Rightarrow> bool" where
  "complete_record b info \<longleftrightarrow> parse_tls_record_info b = Some info \<and> 5 \<le> length b \<and> 5 + snd (snd info) \<le> length b"

lemma tls_records_cases:
  obtains "tls_records b hs = (b, hs)"
      "length b < 5 \<or> parse_tls_record_info b = None \<or> (\<exists>t v n. parse_tls_record_info b = Some (t, v, n) \<and> length b < 5 + n)"
      "\<And>info. \<not> complete_record b info"
  | info where "complete_record b info" "\<And>h. tls_records b h = tls_records (drop (5 + snd (snd info)) b) (h \<or> fst info = 22)"
proof (cases "\<exists>info. complete_record b info")
  case True
  then obtain info where i: "complete_record b info" by blast
  then have "tls_records b h = tls_records (drop (5 + snd (snd info)) b) (h \<or> fst info = 22)" for h
    by (subst tls_records.simps) (simp add: complete_record_def)
  then show ?thesis using that(2) i by blast
next
  case False
  then have "tls_records b hs = (b, hs)"
    by (subst tls_records.simps) (auto simp: complete_record_def split: option.split)
  moreover have "length b < 5 \<or> parse_tls_record_info b = None \<or> (\<exists>t v n. parse_tls_record_info b = Some (t, v, n) \<and> length b < 5 + n)"
    using False by (cases "parse_tls_record_info b") (auto simp: complete_record_def not_le)
  ultimately show ?thesis using that(1) False by blast
qed

lemma complete_record_shrinks: "complete_record b info \<Longrightarrow> length (drop (5 + snd (snd info)) b) < length b"
  by (auto simp: complete_record_def)

lemma complete_record_append: "complete_record a info \<Longrightarrow> complete_record (a @ b) info"
  by (auto simp: complete_record_def parse_append)

lemma complete_record_step:
  "complete_record b info \<Longrightarrow> tls_records b h = tls_records (drop (5 + snd (snd info)) b) (h \<or> fst info = 22)"
  by (subst tls_records.simps) (simp add: complete_record_def)

lemma tls_records_append:
  "tls_records a hs = (rest, hs1) \<Longrightarrow> tls_records (a @ b) hs = tls_records (rest @ b) hs1"
proof (induction "length a" arbitrary: a hs rule: less_induct)
  case less
  show ?case
  proof (cases rule: tls_records_cases [of a hs])
    case 1
    then show ?thesis using less.prems by simp
  next
    case (2 info)
    then have "tls_records (a @ b) hs = tls_records (drop (5 + snd (snd info)) a @ b) (hs \<or> fst info = 22)"
      using complete_record_step [OF complete_record_append [OF 2(1)]] by (simp add: complete_record_def)
    then show ?thesis
      using less.hyps [OF complete_record_shrinks [OF 2(1)], of "hs \<or> fst info = 22"] less.prems 2(2) by simp
  qed
qed

lemma tls_records_flag: "tls_records a True = (fst (tls_records a hs), True)"
proof (induction "length a" arbitrary: a hs rule: less_induct)
  case less
  show ?case
  proof (cases rule: tls_records_cases [of a hs])
    case 1
    moreover have "tls_records a True = (a, True)"
      by (cases rule: tls_records_cases [of a True]) (use 1 in auto)
    ultimately show ?thesis by simp
  next
    case (2 info)
    show ?thesis using less [OF complete_record_shrinks [OF 2(1)]] 2(2) by simp
  qed
qed

lemma tls_rest:
  "tls_records x h = (y, h') \<Longrightarrow> length y < 5 \<or> parse_tls_record_info y = None \<or>
      (\<exists>t v n. parse_tls_record_info y = Some (t, v, n) \<and> length y < 5 + n)"
proof (induction "length x" arbitrary: x h rule: less_induct)
  case less
  show ?case
  proof (cases rule: tls_records_cases [of x h])
    case 1
    then show ?thesis using less.prems by simp
  next
    case (2 info)
    then show ?thesis
      using less.hyps [OF complete_record_shrinks [OF 2(1)], of "h \<or> fst info = 22"] less.prems by simp
  qed
qed

text \<open>C28: the loop over the records ends on every buffer, and what it makes of a stream
  does not depend on how the stream is cut into chunks; what stays in the buffer is a record
  that is not complete, or bytes that are no record.\<close>

theorem tls_chunks_equivalent:
  "on_receiving b (on_receiving a si) = on_receiving (a @ b) si \<and>
   (let rest = tls_handshake_buffer (on_receiving a si) in
    length rest < 5 \<or> parse_tls_record_info rest = None \<or>
    (\<exists>t v n. parse_tls_record_info rest = Some (t, v, n) \<and> length rest < 5 + n))"
proof
  obtain rest hs where r: "tls_records (tls_handshake_buffer si @ a) False = (rest, hs)" by fastforce
  have e: "tls_records ((tls_handshake_buffer si @ a) @ b) False = tls_records (rest @ b) hs"
    using tls_records_append [OF r] .
  show "on_receiving b (on_receiving a si) = on_receiving (a @ b) si"
  proof (cases hs)
    case True
    then have "tls_records (rest @ b) hs = (fst (tls_records (rest @ b) False), True)" using tls_records_flag by simp
    then show ?thesis using r e True by (simp add: on_receiving_def set_state_def Let_def split: prod.split)
  next
    case False
    then show ?thesis using r e by (simp add: on_receiving_def split: prod.split)
  qed
  show "let rest = tls_handshake_buffer (on_receiving a si) in
    length rest < 5 \<or> parse_tls_record_info rest = None \<or>
    (\<exists>t v n. parse_tls_record_info rest = Some (t, v, n) \<and> length rest < 5 + n)"
    using tls_rest [OF r] r by (simp add: on_receiving_def set_state_def Let_def)
qed

section \<open>The name of a well-formed ClientHello is found\<close>

definition enc16 :: "nat \<Rightarrow> bytes" where
  "enc16 n = [of_nat (n div 256), of_nat (n mod 256)]"

definition enc24 :: "nat \<Rightarrow> bytes" where
  "enc24 n = [of_nat (n div 65536), of_nat (n div 256 mod 256), of_nat (n mod 256)]"

definition sni_bytes :: "bytes \<Rightarrow> bytes" where
  "sni_bytes host = enc16 0 @ enc16 (5 + length host) @ enc16 (3 + length host) @ [0] @ enc16 (length host) @ host"

definition ext_bytes :: "nat \<times> bytes \<Rightarrow> bytes" where
  "ext_bytes e = enc16 (fst e) @ enc16 (length (snd e)) @ snd e"

definition other_ext :: "nat \<times> bytes \<Rightarrow> bool" where
  "other_ext e \<longleftrightarrow> 0 < fst e \<and> fst e < 65536 \<and> length (snd e) < 65536"

text \<open>A ClientHello as RFC 8446 lays it out, with other extensions before the server name and
  anything after it.\<close>

definition hello_extensions :: "(nat \<times> bytes) list \<Rightarrow> bytes \<Rightarrow> bytes \<Rightarrow> bytes" where
  "hello_extensions others host after = concat (map ext_bytes others) @ sni_bytes host @ after"

definition client_hello :: "bytes \<Rightarrow> bytes \<Rightarrow> bytes \<Rightarrow> bytes \<Rightarrow> bytes \<Rightarrow> bytes" where
  "client_hello random sid ciphers compression extensions =
     (let body = [3, 3] @ random @ [of_nat (length sid)] @ sid @ enc16 (length ciphers) @ ciphers @
                 [of_nat (length compression)] @ compression @ enc16 (length extensions) @ extensions
      in [22, 3, 1] @ enc16 (4 + length body) @ [1] @ enc24 (length body) @ body)"

lemma length_enc [simp]: "length (enc16 n) = 2" "length (enc24 n) = 3"
  by (simp_all add: enc16_def enc24_def)

lemma unat_of_nat_small: "n < 256 \<Longrightarrow> unat (of_nat n :: u8) = n"
  by (simp add: unat_of_nat)

lemma read_u16_at:
  assumes "data = p @ enc16 n @ q" "i = length p" "n < 65536"
  shows "read_u16 data i = Some n"
proof -
  have "unat (of_nat (n div 256) :: u8) = n div 256" using assms(3) by (intro unat_of_nat_small) simp
  moreover have "unat (of_nat (n mod 256) :: u8) = n mod 256" by (intro unat_of_nat_small) simp
  ultimately show ?thesis using assms
    by (simp add: read_u16_def be16_def enc16_def nth_append)
qed

lemma read_u24_at:
  assumes "data = p @ enc24 n @ q" "i = length p" "n < 16777216"
  shows "read_u24 data i = Some n"
proof -
  have u: "unat (of_nat (n div 65536) :: u8) = n div 65536" "unat (of_nat (n div 256 mod 256) :: u8) = n div 256 mod 256"
    "unat (of_nat (n mod 256) :: u8) = n mod 256" using assms(3) by (intro unat_of_nat_small; simp)+
  have "n div 65536 = n div 256 div 256" by (simp add: div_mult2_eq [symmetric])
  then have "n div 65536 * 65536 + n div 256 mod 256 * 256 + n mod 256 = n"
    using div_mult_mod_eq [of n 256] div_mult_mod_eq [of "n div 256" 256] by linarith
  then show ?thesis using assms u
    by (simp add: read_u24_def enc24_def nth_append)
qed

lemma get_byte_at: "data = p @ b # q \<Longrightarrow> i = length p \<Longrightarrow> get_byte data i = Some b"
  by (simp add: get_byte_def)

lemma sni_extension_found:
  assumes "data = p @ sni_bytes host @ q" "pos = length p + 4" "host \<noteq> []" "length host + 5 < 65536" "utf8_valid host"
  shows "sni_extension data pos (5 + length host) = Some (Some (str_of host))"
proof -
  let ?n = "length host"
  have "read_u16 data pos = Some (3 + ?n)"
    by (rule read_u16_at [of _ "p @ enc16 0 @ enc16 (5 + ?n)" _ "[0] @ enc16 ?n @ host @ q"])
      (use assms in \<open>simp_all add: sni_bytes_def\<close>)
  moreover have "get_byte data (pos + 2) = Some 0"
    by (rule get_byte_at [of _ "p @ enc16 0 @ enc16 (5 + ?n) @ enc16 (3 + ?n)" _ "enc16 ?n @ host @ q"])
      (use assms in \<open>simp_all add: sni_bytes_def\<close>)
  moreover have "read_u16 data (pos + 3) = Some ?n"
    by (rule read_u16_at [of _ "p @ enc16 0 @ enc16 (5 + ?n) @ enc16 (3 + ?n) @ [0]" _ "host @ q"])
      (use assms in \<open>simp_all add: sni_bytes_def\<close>)
  moreover have "take ?n (drop (pos + 5) data) = host" "pos + 5 + ?n \<le> length data"
    using assms(1,2) by (simp_all add: sni_bytes_def enc16_def)
  ultimately show ?thesis using assms(3,5) by (simp add: sni_extension_def from_utf8_def)
qed

lemma sni_extensions_found:
  assumes "list_all other_ext others" "data = p @ concat (map ext_bytes others) @ sni_bytes host @ after"
    "extensions_end = length data" "host \<noteq> []" "length host + 5 < 65536" "utf8_valid host"
  shows "sni_extensions data extensions_end (length p) = Some (str_of host)"
  using assms(1,2)
proof (induction others arbitrary: p)
  case Nil
  let ?n = "length host"
  have "read_u16 data (length p) = Some 0"
    by (rule read_u16_at [of _ p _ "enc16 (5 + ?n) @ enc16 (3 + ?n) @ [0] @ enc16 ?n @ host @ after"])
      (use Nil in \<open>simp_all add: sni_bytes_def\<close>)
  moreover have "read_u16 data (length p + 2) = Some (5 + ?n)"
    by (rule read_u16_at [of _ "p @ enc16 0" _ "enc16 (3 + ?n) @ [0] @ enc16 ?n @ host @ after"])
      (use Nil assms(5) in \<open>simp_all add: sni_bytes_def\<close>)
  moreover have "sni_extension data (length p + 4) (5 + ?n) = Some (Some (str_of host))"
    using sni_extension_found [of data p host after] Nil assms(4-6) by simp
  moreover have "length data = length p + 9 + ?n + length after" using Nil by (simp add: sni_bytes_def)
  ultimately show ?case using assms(3) by (subst sni_extensions.simps) simp
next
  case (Cons e others)
  let ?b = "snd e" and ?rest = "concat (map ext_bytes others) @ sni_bytes host @ after"
  have e: "0 < fst e" "fst e < 65536" "length ?b < 65536" using Cons.prems(1) by (simp_all add: other_ext_def)
  have d: "data = p @ enc16 (fst e) @ enc16 (length ?b) @ ?b @ ?rest" using Cons.prems(2) by (simp add: ext_bytes_def [of e])
  have "read_u16 data (length p) = Some (fst e)" by (rule read_u16_at [OF d]) (use e in simp_all)
  moreover have "read_u16 data (length p + 2) = Some (length ?b)"
    by (rule read_u16_at [of _ "p @ enc16 (fst e)" _ "?b @ ?rest"]) (use d e in simp_all)
  moreover have "sni_extensions data extensions_end (length (p @ ext_bytes e)) = Some (str_of host)"
    by (rule Cons.IH) (use Cons.prems in simp_all)
  moreover have "length (p @ ext_bytes e) = length p + 4 + length ?b" by (simp add: ext_bytes_def)
  moreover have "length p + 4 \<le> extensions_end" using d assms(3) by simp
  ultimately show ?case using e by (subst sni_extensions.simps) (simp add: add.assoc)
qed

text \<open>C29: from every ClientHello laid out as the standard has it, whatever other extensions come
  before and after, the code reads exactly the host name the client sent.\<close>

theorem sni_roundtrip:
  assumes "length random = 32" "length sid < 256" "length ciphers < 65536" "length compression < 256"
    "list_all other_ext others" "host \<noteq> []" "length host + 5 < 65536" "utf8_valid host"
    "length (hello_extensions others host after) < 65536"
  shows "extract_sni_from_client_hello (client_hello random sid ciphers compression (hello_extensions others host after)) =
    Some (str_of host)"
proof -
  let ?x = "hello_extensions others host after"
  define body where "body = [3, 3] @ random @ [of_nat (length sid)] @ sid @ enc16 (length ciphers) @ ciphers @
                 [of_nat (length compression)] @ compression @ enc16 (length ?x) @ ?x"
  define data where "data = [22, 3, 1] @ enc16 (4 + length body) @ [1] @ enc24 (length body) @ body"
  define h where "h = [22, 3, 1] @ enc16 (4 + length body) @ [1] @ enc24 (length body) @ [3, 3] @ random"
  define p1 where "p1 = h @ [of_nat (length sid)] @ sid"
  define p2 where "p2 = p1 @ enc16 (length ciphers) @ ciphers"
  define p3 where "p3 = p2 @ [of_nat (length compression)] @ compression"
  have lb: "length body < 16777216" using assms(1-4,9) by (simp add: body_def)
  have lh: "length h = 43" using assms(1) by (simp add: h_def)
  have d0: "data = h @ [of_nat (length sid)] @ sid @ enc16 (length ciphers) @ ciphers @
                 [of_nat (length compression)] @ compression @ enc16 (length ?x) @ ?x"
    by (simp add: data_def h_def body_def)
  have d1: "data = p1 @ enc16 (length ciphers) @ ciphers @ [of_nat (length compression)] @ compression @ enc16 (length ?x) @ ?x"
    and d2: "data = p2 @ [of_nat (length compression)] @ compression @ enc16 (length ?x) @ ?x"
    and d3: "data = p3 @ enc16 (length ?x) @ ?x" by (simp_all add: d0 p1_def p2_def p3_def)
  have l: "length p1 = 44 + length sid" "length p2 = length p1 + 2 + length ciphers" "length p3 = length p2 + 1 + length compression"
    using lh by (simp_all add: p1_def p2_def p3_def)
  have "read_u24 data 6 = Some (length body)"
    by (rule read_u24_at [of _ "[22, 3, 1] @ enc16 (4 + length body) @ [1]" _ body]) (use lb in \<open>simp_all add: data_def\<close>)
  moreover have "get_byte data 43 = Some (of_nat (length sid))" by (rule get_byte_at [of _ h]) (use d0 lh in simp_all)
  moreover have "read_u16 data (length p1) = Some (length ciphers)" by (rule read_u16_at [OF d1 refl assms(3)])
  moreover have "get_byte data (length p2) = Some (of_nat (length compression))" by (rule get_byte_at [of _ p2]) (use d2 in simp_all)
  moreover have "read_u16 data (length p3) = Some (length ?x)" by (rule read_u16_at [OF d3 refl assms(9)])
  moreover have "sni_extensions data (length data) (length (p3 @ enc16 (length ?x))) = Some (str_of host)"
    by (rule sni_extensions_found [OF assms(5) _ refl assms(6-8)]) (simp add: d3 hello_extensions_def)
  moreover have "length data = length p3 + 2 + length ?x" by (simp add: d3)
  moreover have "length data = 9 + length body" "data ! 0 = 22" "data ! 5 = 1" by (simp_all add: data_def enc16_def)
  moreover have "unat (of_nat (length sid) :: u8) = length sid" "unat (of_nat (length compression) :: u8) = length compression"
    using assms(2,4) by (simp_all add: unat_of_nat_small)
  ultimately have "extract_sni_from_client_hello data = Some (str_of host)"
    using l unfolding extract_sni_from_client_hello_def Let_def by simp
  then show ?thesis by (simp add: client_hello_def data_def body_def Let_def)
qed

lemma sni_roundtrip_witness:
  "extract_sni_from_client_hello (client_hello (replicate 32 7) [] [19, 1] [0]
     (hello_extensions [(10, [0, 2, 0, 29])] (as_bytes ''irc.libera.chat'') [])) = Some ''irc.libera.chat''"
proof -
  have "utf8_valid (as_bytes ''irc.libera.chat'')" by (rule utf8_valid_ascii) code_simp
  moreover have "as_bytes ''irc.libera.chat'' \<noteq> []" "length (hello_extensions [(10, [0, 2, 0, 29])] (as_bytes ''irc.libera.chat'') []) < 65536"
    "list_all other_ext [(10, [0, 2, 0, 29])]"
    by (simp_all add: hello_extensions_def ext_bytes_def sni_bytes_def other_ext_def) (simp add: as_bytes_def)
  ultimately show ?thesis
    using sni_roundtrip [of "replicate 32 7" "[]" "[19, 1]" "[0]" "[(10, [0, 2, 0, 29])]" "as_bytes ''irc.libera.chat''" "[]"]
    by (simp only: str_of_as_bytes length_replicate list.size) simp
qed

end
