(* ===== verification/BufferPool.thy ===== *)
theory BufferPool
  imports Prelude
begin

text \<open>
  The pool of buffers (\<open>fish_11_inject/src/buffer_pool.rs\<close>).  A buffer is its capacity
  and its contents; \<open>BytesMut\<close> is the \<open>bytes\<close> crate's, of which the pool uses only these.
  The pool and its statistics are behind two locks that are not reentrant: an outcome
  of \<open>None\<close> is a thread that waits for a lock it holds itself.
\<close>

definition MAX_POOL_BUFFER_SIZE :: nat where "MAX_POOL_BUFFER_SIZE = 16 * 1024"

definition MAX_POOLED_BUFFERS :: nat where "MAX_POOLED_BUFFERS = 64"

record buffer =
  capacity :: nat
  content :: bytes

record BufferPoolStats =
  allocations :: nat
  reuses :: nat
  current_pool_size :: nat
  max_pool_size :: nat

record BufferPool =
  pool :: "buffer list"
  pool_stats :: BufferPoolStats

definition BufferPool_new :: BufferPool where
  "BufferPool_new = \<lparr>pool = [], pool_stats = \<lparr>allocations = 0, reuses = 0, current_pool_size = 0, max_pool_size = 0\<rparr>\<rparr>"

text \<open>\<open>Iterator::position\<close>.\<close>

primrec first_fit :: "('a \<Rightarrow> bool) \<Rightarrow> 'a list \<Rightarrow> nat option" where
  "first_fit P [] = None"
| "first_fit P (x # xs) = (if P x then Some 0 else map_option Suc (first_fit P xs))"

text \<open>\<open>stats_held\<close> says whether the caller holds the lock of the statistics; a buffer that
  fits is taken out under that lock.\<close>

definition try_acquire_from_pool :: "bool \<Rightarrow> nat \<Rightarrow> BufferPool \<Rightarrow> (buffer option \<times> BufferPool) option" where
  "try_acquire_from_pool stats_held min_capacity p =
     (case first_fit (\<lambda>b. min_capacity \<le> capacity b) (pool p) of
        None \<Rightarrow> Some (None, p)
      | Some i \<Rightarrow>
          if stats_held then None
          else Some (Some (pool p ! i),
                 p\<lparr>pool := take i (pool p) @ drop (Suc i) (pool p),
                   pool_stats := (pool_stats p)\<lparr>current_pool_size := current_pool_size (pool_stats p) - 1\<rparr>\<rparr>))"

definition acquire :: "nat \<Rightarrow> BufferPool \<Rightarrow> (buffer \<times> BufferPool) option" where
  "acquire min_capacity p =
     (let p1 = p\<lparr>pool_stats := (pool_stats p)\<lparr>allocations := allocations (pool_stats p) + 1\<rparr>\<rparr> in
      case try_acquire_from_pool True min_capacity p1 of
        None \<Rightarrow> None
      | Some (Some b, p2) \<Rightarrow> Some (b, p2\<lparr>pool_stats := (pool_stats p2)\<lparr>reuses := reuses (pool_stats p2) + 1\<rparr>\<rparr>)
      | Some (None, p2) \<Rightarrow> Some (\<lparr>capacity = max min_capacity 1024, content = []\<rparr>, p2))"

definition release :: "buffer \<Rightarrow> BufferPool \<Rightarrow> BufferPool" where
  "release b p =
     (if MAX_POOL_BUFFER_SIZE < capacity b then p
      else if MAX_POOLED_BUFFERS \<le> length (pool p) then p
      else
        (let q = pool p @ [b\<lparr>content := []\<rparr>] in
         p\<lparr>pool := q,
           pool_stats := (pool_stats p)\<lparr>current_pool_size := current_pool_size (pool_stats p) + 1,
             max_pool_size := max (max_pool_size (pool_stats p)) (length q)\<rparr>\<rparr>))"

definition get_pool_stats :: "BufferPool \<Rightarrow> BufferPoolStats" where
  "get_pool_stats p = pool_stats p"

definition clear_pool :: "BufferPool \<Rightarrow> BufferPool" where
  "clear_pool p = p\<lparr>pool := [], pool_stats := (pool_stats p)\<lparr>current_pool_size := 0\<rparr>\<rparr>"

text \<open>A \<open>SmartBuffer\<close> takes its buffer from the pool and gives it back when dropped;
  \<open>into_bytes\<close> keeps the contents and drops an empty buffer.\<close>

definition SmartBuffer_new :: "nat \<Rightarrow> BufferPool \<Rightarrow> (buffer \<times> BufferPool) option" where
  "SmartBuffer_new min_capacity p = acquire min_capacity p"

definition SmartBuffer_drop :: "buffer \<Rightarrow> BufferPool \<Rightarrow> BufferPool" where
  "SmartBuffer_drop b p = (if content b \<noteq> [] \<or> 0 < capacity b then release b p else p)"

definition SmartBuffer_into_bytes :: "buffer \<Rightarrow> BufferPool \<Rightarrow> bytes \<times> BufferPool" where
  "SmartBuffer_into_bytes b p = (content b, SmartBuffer_drop \<lparr>capacity = 0, content = []\<rparr> p)"

section \<open>Properties\<close>

lemma position_None: "first_fit P xs = None \<longleftrightarrow> list_all (\<lambda>x. \<not> P x) xs"
  by (induction xs) auto

definition pool_ok :: "BufferPool \<Rightarrow> bool" where
  "pool_ok p \<longleftrightarrow> length (pool p) \<le> MAX_POOLED_BUFFERS \<and>
     list_all (\<lambda>b. capacity b \<le> MAX_POOL_BUFFER_SIZE \<and> content b = []) (pool p) \<and>
     current_pool_size (pool_stats p) = length (pool p) \<and> length (pool p) \<le> max_pool_size (pool_stats p)"

lemma acquire_cases:
  "acquire n p =
     (if list_ex (\<lambda>b. n \<le> capacity b) (pool p) then None
      else Some (\<lparr>capacity = max n 1024, content = []\<rparr>,
                 p\<lparr>pool_stats := (pool_stats p)\<lparr>allocations := allocations (pool_stats p) + 1\<rparr>\<rparr>))"
proof (cases "first_fit (\<lambda>b. n \<le> capacity b) (pool p)")
  case None
  then have "\<not> list_ex (\<lambda>b. n \<le> capacity b) (pool p)" by (auto simp: position_None list_all_iff list_ex_iff)
  then show ?thesis using None by (simp add: acquire_def try_acquire_from_pool_def)
next
  case (Some i)
  then have "list_ex (\<lambda>b. n \<le> capacity b) (pool p)"
    using position_None [of "\<lambda>b. n \<le> capacity b" "pool p"] by (auto simp: list_all_iff list_ex_iff)
  then show ?thesis using Some by (simp add: acquire_def try_acquire_from_pool_def)
qed

inductive pool_reach :: "BufferPool \<Rightarrow> bool" where
  new: "pool_reach BufferPool_new"
| acquire: "pool_reach p \<Longrightarrow> acquire n p = Some (b, p') \<Longrightarrow> pool_reach p'"
| release: "pool_reach p \<Longrightarrow> pool_reach (release b p)"
| clear: "pool_reach p \<Longrightarrow> pool_reach (clear_pool p)"
| drop: "pool_reach p \<Longrightarrow> pool_reach (SmartBuffer_drop b p)"

lemma release_ok: "pool_ok p \<Longrightarrow> pool_ok (release b p)"
  by (auto simp: release_def pool_ok_def Let_def)

lemma pool_reach_ok: "pool_reach p \<Longrightarrow> pool_ok p"
proof (induction rule: pool_reach.induct)
  case new
  show ?case by (simp add: BufferPool_new_def pool_ok_def)
next
  case acquire
  then show ?case by (auto simp: acquire_cases pool_ok_def split: if_splits)
next
  case clear
  then show ?case by (simp add: clear_pool_def pool_ok_def)
qed (auto simp: SmartBuffer_drop_def release_ok)

lemma pool_reach_reuses: "pool_reach p \<Longrightarrow> reuses (pool_stats p) = 0"
proof (induction rule: pool_reach.induct)
  case acquire
  then show ?case by (auto simp: acquire_cases split: if_splits)
qed (auto simp: BufferPool_new_def release_def clear_pool_def SmartBuffer_drop_def Let_def)

text \<open>the pool keeps at most 64 buffers of at most 16 KB, counted right, but none is ever
  reused: \<open>acquire\<close> waits for ever for a lock it holds exactly when a pooled buffer would do.\<close>

theorem pool_never_reuses:
  assumes "pool_reach p"
  shows "pool_ok p \<and> reuses (pool_stats p) = 0 \<and>
    (acquire n p = None \<longleftrightarrow> (\<exists>b\<in>set (pool p). n \<le> capacity b)) \<and>
    (length (pool p) < 64 \<and> capacity b \<le> 16384 \<and> n \<le> capacity b \<longrightarrow> acquire n (release b p) = None)"
proof -
  have "acquire n p = None \<longleftrightarrow> (\<exists>b\<in>set (pool p). n \<le> capacity b)" by (simp add: acquire_cases list_ex_iff)
  moreover have "acquire n (release b p) = None" if "length (pool p) < 64" "capacity b \<le> 16384" "n \<le> capacity b"
    using that by (simp add: acquire_cases release_def MAX_POOL_BUFFER_SIZE_def MAX_POOLED_BUFFERS_def Let_def)
  ultimately show ?thesis using pool_reach_ok [OF assms] pool_reach_reuses [OF assms] by blast
qed

lemma pool_never_reuses_witness:
  "acquire 512 (release \<lparr>capacity = 1024, content = [1, 2]\<rparr> BufferPool_new) = None"
  using pool_never_reuses [OF pool_reach.new, of 512 "\<lparr>capacity = 1024, content = [1, 2]\<rparr>"]
  by (simp add: BufferPool_new_def)

end
