(* ===== verification/Passwords.thy ===== *)
theory Passwords
  imports RustStr
begin

text \<open>
  The strength of master passwords (\<open>fish_11_core/src/master_key/password_validation.rs\<close>).
  A \<open>char\<close> is its code point; what Unicode says of those above 127 is the parameter \<open>U\<close>.
  A slice of a string at a byte that is inside a character panics: the outcome \<open>None\<close>.
\<close>

section \<open>Characters and slices\<close>

definition code_point :: "bytes \<Rightarrow> nat" where
  "code_point bs =
     (case bs of
        [a] \<Rightarrow> unat a
      | [a, b] \<Rightarrow> unat a mod 32 * 64 + unat b mod 64
      | [a, b, c] \<Rightarrow> unat a mod 16 * 4096 + unat b mod 64 * 64 + unat c mod 64
      | [a, b, c, d] \<Rightarrow> unat a mod 8 * 262144 + unat b mod 64 * 4096 + unat c mod 64 * 64 + unat d mod 64
      | _ \<Rightarrow> 0)"

function code_points :: "bytes \<Rightarrow> nat list" where
  "code_points bs =
     (if bs = [] then []
      else code_point (take (snd (utf8_step bs)) bs) # code_points (drop (snd (utf8_step bs)) bs))"
  by auto
termination
  by (relation "measure length") (auto simp: utf8_step_pos)

declare code_points.simps [simp del]

definition chars :: "string \<Rightarrow> nat list" where
  "chars s = code_points (as_bytes s)"

definition char_boundary :: "string \<Rightarrow> nat \<Rightarrow> bool" where
  "char_boundary s i = (i = length s \<or> i < length s \<and> \<not> utf8_cont (byte_of (s ! i)))"

definition slice :: "string \<Rightarrow> nat \<Rightarrow> nat \<Rightarrow> string option" where
  "slice s a b = (if a \<le> b \<and> char_boundary s a \<and> char_boundary s b then Some (take (b - a) (drop a s)) else None)"

section \<open>The tests\<close>

text \<open>\<open>is_lowercase\<close>, \<open>is_uppercase\<close> and \<open>is_alphanumeric\<close> above ASCII.\<close>

record unicode =
  uni_lower :: "nat \<Rightarrow> bool"
  uni_upper :: "nat \<Rightarrow> bool"
  uni_alnum :: "nat \<Rightarrow> bool"

definition char_class :: "unicode \<Rightarrow> nat \<Rightarrow> nat option" where
  "char_class U c =
     (if (if c < 128 then 97 \<le> c \<and> c \<le> 122 else uni_lower U c) then Some 0
      else if (if c < 128 then 65 \<le> c \<and> c \<le> 90 else uni_upper U c) then Some 1
      else if 48 \<le> c \<and> c \<le> 57 then Some 2
      else if c < 128 \<or> \<not> uni_alnum U c then Some 3
      else None)"

definition MIN_PASSWORD_LENGTH :: nat where "MIN_PASSWORD_LENGTH = 12"
definition MIN_CHARACTER_CLASSES :: nat where "MIN_CHARACTER_CLASSES = 3"

definition count_character_classes :: "unicode \<Rightarrow> string \<Rightarrow> nat" where
  "count_character_classes U password =
     length (filter (\<lambda>k. Some k \<in> set (map (char_class U) (chars password))) [0, 1, 2, 3])"

definition common_passwords :: "string list" where
  "common_passwords = [
    ''password'', ''123456'', ''qwerty'', ''abc123'', ''password123'', ''admin'', ''letmein'', ''welcome'',
    ''monkey'', ''1234567890'', ''password1'', ''trustno1'', ''dragon'', ''baseball'', ''football'',
    ''iloveyou'', ''princess'', ''rockyou'', ''abc123'', ''nicole'', ''daniel'', ''babygirl'', ''qwerty'',
    ''lovely'', ''123456'', ''hello'', ''mother'', ''mylove'', ''sunshine'', ''shadow'', ''ashley'',
    ''michael'', ''angela'', ''cookie'', ''summer'', ''charlie'', ''loves'', ''corazon'', ''hello123'',
    ''harley'', ''robert'', ''danielle'', ''forever'', ''family'', ''jonathan'', ''computer'', ''987654'',
    ''jessica'', ''michelle'', ''sakura'', ''jennifer'', ''superman'', ''123456789'', ''12345'', ''1234567'',
    ''12345678'', ''1234567890'', ''qwerty'', ''abc123'', ''football'', ''monkey'', ''letmein'',
    ''trustno1'', ''dragon'', ''baseball'', ''master'', ''magazine'', ''technician'', ''michael'',
    ''internet'']"

definition is_common_password :: "string \<Rightarrow> bool" where
  "is_common_password password = list_ex (\<lambda>common. contains common (to_lowercase password)) common_passwords"

text \<open>The loops over three characters in a row.\<close>

fun three_in_row :: "(nat \<Rightarrow> nat \<Rightarrow> nat \<Rightarrow> bool) \<Rightarrow> nat list \<Rightarrow> bool" where
  "three_in_row P (a # b # c # cs) = (P a b c \<or> three_in_row P (b # c # cs))"
| "three_in_row P _ = False"

definition has_sequential_pattern :: "string \<Rightarrow> bool" where
  "has_sequential_pattern password =
     (three_in_row (\<lambda>a b c. b = a + 1 \<and> c = b + 1) (chars password) \<or>
      three_in_row (\<lambda>a b c. b + 1 = a \<and> c + 1 = b) (chars password))"

text \<open>The loop over lengths and positions, in its order.\<close>

fun repeated_at :: "string \<Rightarrow> (nat \<times> nat) list \<Rightarrow> bool option" where
  "repeated_at password [] = Some False"
| "repeated_at password ((len, i) # ps) =
     (case slice password i (i + len) of
        None \<Rightarrow> None
      | Some substring \<Rightarrow>
          (case slice password (i + len) (i + 2 * len) of
             None \<Rightarrow> None
           | Some next_substring \<Rightarrow> if substring = next_substring then Some True else repeated_at password ps))"

definition repeat_positions :: "nat \<Rightarrow> (nat \<times> nat) list" where
  "repeat_positions n = concat (map (\<lambda>len. map (Pair len) [0..<n - 2 * len + 1]) [2..<n div 2 + 1])"

definition has_repeated_pattern :: "string \<Rightarrow> bool option" where
  "has_repeated_pattern password =
     (if three_in_row (\<lambda>a b c. a = b \<and> a = c) (chars password) then Some True
      else if 6 \<le> length password then repeated_at password (repeat_positions (length password))
      else Some False)"

definition keyboard_patterns :: "string list" where
  "keyboard_patterns = [
    ''qwerty'', ''asdfgh'', ''zxcvbn'', ''qwertyuiop'', ''asdfghjkl'', ''zxcvbnm'', ''123456'', ''654321'',
    ''!@#$%^'', ''poiu'', ''lkjh'', ''mnbvcx'']"

definition has_keyboard_pattern :: "string \<Rightarrow> bool" where
  "has_keyboard_pattern password =
     list_ex (\<lambda>pattern. contains pattern (to_lowercase password) \<or> contains (rev pattern) (to_lowercase password)) keyboard_patterns"

definition validate_password_strength :: "unicode \<Rightarrow> string \<Rightarrow> (string, unit) result option" where
  "validate_password_strength U password =
     (if length password < MIN_PASSWORD_LENGTH then
        Some (Inl (''Password must be at least '' @ show_nat MIN_PASSWORD_LENGTH @ '' characters long''))
      else if count_character_classes U password < MIN_CHARACTER_CLASSES then
        Some (Inl (''Password must contain at least '' @ show_nat MIN_CHARACTER_CLASSES @
                   '' of the following: lowercase, uppercase, digits, special characters''))
      else if is_common_password password then Some (Inl ''Password is too common or predictable'')
      else if has_sequential_pattern password then
        Some (Inl ''Password contains sequential characters which are easily guessable'')
      else (case has_repeated_pattern password of
              None \<Rightarrow> None
            | Some True \<Rightarrow> Some (Inl ''Password contains repeated characters which are easily guessable'')
            | Some False \<Rightarrow>
                if has_keyboard_pattern password then
                  Some (Inl ''Password contains common keyboard patterns which are easily guessable'')
                else Some (Inr ())))"

text \<open>The score is a \<open>u8\<close>: the length is cut to 8 bits before it is capped.\<close>

definition calculate_strength_score :: "unicode \<Rightarrow> string \<Rightarrow> nat option" where
  "calculate_strength_score U password =
     map_option
       (\<lambda>repeated.
          let s0 = min (length password mod 256) 30 + count_character_classes U password * 10;
              s1 = (if is_common_password password then s0 - 20 else s0);
              s2 = (if has_sequential_pattern password then s1 - 15 else s1);
              s3 = (if repeated then s2 - 15 else s2);
              s4 = (if has_keyboard_pattern password then s3 - 10 else s3)
          in min s4 100)
       (has_repeated_pattern password)"

definition get_strength_rating :: "unicode \<Rightarrow> string \<Rightarrow> string option" where
  "get_strength_rating U password =
     map_option
       (\<lambda>score.
          if score \<le> 20 then ''Very Weak'' else if score \<le> 40 then ''Weak'' else if score \<le> 60 then ''Fair''
          else if score \<le> 80 then ''Good'' else if score \<le> 100 then ''Strong'' else ''Unknown'')
       (calculate_strength_score U password)"

section \<open>Which passwords are accepted\<close>

lemma three_in_row_nth:
  "three_in_row P xs \<longleftrightarrow> (\<exists>i. i + 2 < length xs \<and> P (xs ! i) (xs ! (i + 1)) (xs ! (i + 2)))"
proof (induction P xs rule: three_in_row.induct)
  case (1 P a b c cs)
  have "(\<exists>i. i + 2 < length (a # b # c # cs) \<and> P ((a # b # c # cs) ! i) ((a # b # c # cs) ! (i + 1)) ((a # b # c # cs) ! (i + 2)))
      \<longleftrightarrow> P a b c \<or> (\<exists>i. i + 2 < length (b # c # cs) \<and> P ((b # c # cs) ! i) ((b # c # cs) ! (i + 1)) ((b # c # cs) ! (i + 2)))"
    (is "(\<exists>i. ?L i) \<longleftrightarrow> _ \<or> (\<exists>i. ?R i)")
  proof -
    have "?L 0 \<longleftrightarrow> P a b c" "?L (Suc i) \<longleftrightarrow> ?R i" for i by simp_all
    then show ?thesis by (metis old.nat.exhaust)
  qed
  then show ?case using 1 by simp
qed auto

lemma repeated_at_False:
  "repeated_at p ps = Some False \<longleftrightarrow>
     (\<forall>(len, i)\<in>set ps. \<exists>a b. slice p i (i + len) = Some a \<and> slice p (i + len) (i + 2 * len) = Some b \<and> a \<noteq> b)"
  by (induction p ps rule: repeated_at.induct) (auto split: option.split)

lemma set_repeat_positions:
  "(len, i) \<in> set (repeat_positions n) \<longleftrightarrow> 2 \<le> len \<and> i + 2 * len \<le> n"
  by (auto simp: repeat_positions_def image_iff simp del: upt_Suc)

lemma not_cont_ascii: "is_ascii_char c \<Longrightarrow> \<not> utf8_cont (byte_of c)"
proof -
  assume "is_ascii_char c"
  then have "(of_char c :: nat) < 128" by (simp add: is_ascii_char_def)
  then have "unat (byte_of c) < 128" by (simp add: byte_of_def unat_of_nat)
  then show ?thesis by (simp add: utf8_cont_def word_le_nat_alt)
qed

lemma ascii_boundary: "list_all is_ascii_char p \<Longrightarrow> char_boundary p i \<longleftrightarrow> i \<le> length p"
  by (auto simp: char_boundary_def list_all_length not_cont_ascii)

lemma second_cont: "second_ok a b \<Longrightarrow> utf8_cont b"
  by (auto simp: second_ok_def utf8_cont_def word_le_nat_alt split: if_splits)

text \<open>A valid string without continuation bytes is ASCII.\<close>

lemma utf8_not_ascii:
  assumes "utf8_valid bs" "list_all (\<lambda>b. \<not> utf8_cont b) bs"
  shows "list_all (\<lambda>b. b < 0x80) bs"
  using assms
proof (induction bs rule: utf8_valid.induct)
  case (1 bs)
  show ?case
  proof (cases bs)
    case (Cons a cs)
    have nc: "\<not> utf8_cont (nth0 bs i)" for i
      using 1(3) not_cont_zero by (auto simp: nth0_def list_all_length)
    have step: "fst (utf8_step bs)" "utf8_valid (drop (snd (utf8_step bs)) bs)"
      using 1(2) Cons by (subst (asm) utf8_valid.simps, simp split: if_splits)+
    then have a: "nth0 bs 0 < 0x80" "snd (utf8_step bs) = 1"
      using nc second_cont unfolding utf8_step_def Let_def by (auto split: if_splits)
    moreover have "list_all (\<lambda>b. b < 0x80) cs"
      using 1(1) [OF _ step] 1(3) Cons a(2) by simp
    ultimately show ?thesis using Cons by (simp add: nth0_def)
  qed simp
qed

lemma ascii_byte: "is_ascii_char c \<longleftrightarrow> byte_of c < 0x80"
proof -
  have "(of_char c :: nat) < 256" using range_nat_of_char by auto
  then show ?thesis by (simp add: is_ascii_char_def byte_of_def word_less_nat_alt unat_of_nat)
qed

lemma non_ascii_cont:
  assumes "utf8_valid (as_bytes p)" "\<not> list_all is_ascii_char p"
  obtains i where "i < length p" "utf8_cont (byte_of (p ! i))"
proof -
  have "\<not> list_all (\<lambda>b. \<not> utf8_cont b) (as_bytes p)"
    using utf8_not_ascii [OF assms(1)] assms(2) by (auto simp: list_all_iff ascii_byte as_bytes_def)
  then show ?thesis using that by (auto simp: list_all_length as_bytes_def)
qed

text \<open>The loop with length two looks at every position.\<close>

lemma non_ascii_not_clean:
  assumes "utf8_valid (as_bytes p)" "\<not> list_all is_ascii_char p" "6 \<le> length p"
  shows "repeated_at p (repeat_positions (length p)) \<noteq> Some False"
proof
  assume r: "repeated_at p (repeat_positions (length p)) = Some False"
  obtain i where i: "i < length p" "utf8_cont (byte_of (p ! i))" using non_ascii_cont [OF assms(1,2)] .
  then have nb: "\<not> char_boundary p i" by (simp add: char_boundary_def)
  have b: "char_boundary p j \<and> char_boundary p (j + 2) \<and> char_boundary p (j + 4)" if "j + 4 \<le> length p" for j
  proof -
    have "(2, j) \<in> set (repeat_positions (length p))" using that by (simp add: set_repeat_positions)
    then show ?thesis using r unfolding repeated_at_False by (fastforce simp: slice_def split: if_splits)
  qed
  consider "i + 4 \<le> length p" | "i - 2 + 4 \<le> length p" "2 \<le> i" | "i - 4 + 4 \<le> length p" "4 \<le> i" using i(1) assms(3) by linarith
  then show False
  proof cases
    case 1
    then show False using b [of i] nb by simp
  next
    case 2
    then show False using b [of "i - 2"] nb by (metis le_add_diff_inverse2)
  next
    case 3
    then show False using b [of "i - 4"] nb by (metis le_add_diff_inverse2)
  qed
qed

lemma ascii_repeated:
  assumes "list_all is_ascii_char p"
  shows "repeated_at p (repeat_positions (length p)) =
    Some (\<exists>len i. 2 \<le> len \<and> i + 2 * len \<le> length p \<and> take len (drop i p) = take len (drop (i + len) p))"
proof -
  have "\<forall>(len, i)\<in>set ps. i + 2 * len \<le> length p \<Longrightarrow>
      repeated_at p ps = Some (\<exists>(len, i)\<in>set ps. take len (drop i p) = take len (drop (i + len) p))" for ps
    using assms by (induction ps) (auto simp: slice_def ascii_boundary)
  from this [of "repeat_positions (length p)"] show ?thesis
    by (simp add: Bex_def set_repeat_positions Ball_def split_paired_Ex)
qed

lemma ascii_chars: "list_all is_ascii_char p \<Longrightarrow> chars p = map of_char p"
proof (induction p)
  case (Cons c p)
  have "utf8_step (as_bytes (c # p)) = (True, 1)"
    using Cons by (simp add: utf8_step_def nth0_def as_bytes_def ascii_byte)
  moreover have "unat (byte_of c) = of_char c"
  proof -
    have "(of_char c :: nat) < 256" using range_nat_of_char by auto
    then show ?thesis by (simp add: byte_of_def unat_of_nat)
  qed
  ultimately show ?case using Cons
    by (subst chars_def, subst code_points.simps) (simp add: chars_def as_bytes_def code_point_def)
qed (simp add: chars_def code_points.simps)

lemma ascii_has_repeated:
  assumes "list_all is_ascii_char p" "12 \<le> length p"
  shows "has_repeated_pattern p =
    Some ((\<exists>i. i + 2 < length p \<and> p ! i = p ! (i + 1) \<and> p ! i = p ! (i + 2)) \<or>
      (\<exists>len i. 2 \<le> len \<and> i + 2 * len \<le> length p \<and> take len (drop i p) = take len (drop (i + len) p)))"
proof -
  have "three_in_row (\<lambda>a b c. a = b \<and> a = c) (chars p) \<longleftrightarrow> (\<exists>i. i + 2 < length p \<and> p ! i = p ! (i + 1) \<and> p ! i = p ! (i + 2))"
    using assms(1) by (auto simp: three_in_row_nth ascii_chars)
  then show ?thesis using assms by (simp only: has_repeated_pattern_def ascii_repeated [OF assms(1)]) auto
qed

lemma accepted_iff:
  assumes "utf8_valid (as_bytes p)"
  shows "(validate_password_strength U p = Some (Inr ()) \<longleftrightarrow>
      12 \<le> length p \<and> 3 \<le> count_character_classes U p \<and>
      \<not> is_common_password p \<and> \<not> has_sequential_pattern p \<and> \<not> has_keyboard_pattern p \<and>
      list_all is_ascii_char p \<and>
      (\<forall>i. i + 2 < length p \<longrightarrow> \<not> (p ! i = p ! (i + 1) \<and> p ! i = p ! (i + 2))) \<and>
      (\<forall>len i. 2 \<le> len \<and> i + 2 * len \<le> length p \<longrightarrow> take len (drop i p) \<noteq> take len (drop (i + len) p))) \<and>
    (list_all is_ascii_char p \<longrightarrow> validate_password_strength U p \<noteq> None)"
proof (cases "list_all is_ascii_char p")
  case True
  show ?thesis
  proof (cases "12 \<le> length p")
    case len: True
    show ?thesis using True
      by (auto simp: validate_password_strength_def MIN_PASSWORD_LENGTH_def MIN_CHARACTER_CLASSES_def
          ascii_has_repeated [OF True len] split: bool.splits)
  qed (simp add: validate_password_strength_def MIN_PASSWORD_LENGTH_def)
next
  case False
  have "has_repeated_pattern p \<noteq> Some False" if "12 \<le> length p"
    using non_ascii_not_clean [OF assms False] that by (simp add: has_repeated_pattern_def)
  then have "validate_password_strength U p \<noteq> Some (Inr ())"
    by (cases "12 \<le> length p")
      (auto simp: validate_password_strength_def MIN_PASSWORD_LENGTH_def split: option.split bool.split)
  then show ?thesis using False by simp
qed


definition plain_unicode :: unicode where
  "plain_unicode = \<lparr>uni_lower = (\<lambda>c. False), uni_upper = (\<lambda>c. False), uni_alnum = (\<lambda>c. True)\<rparr>"

definition umlaut :: string where
  "umlaut = [char_of (0xC3 :: nat), char_of (0xA4 :: nat)]"

lemma ascii_char_valid: "list_all is_ascii_char p \<Longrightarrow> utf8_valid (as_bytes p)"
  by (rule utf8_valid_ascii) (simp add: as_bytes_def list_all_iff ascii_byte)

lemma sample_password:
  "validate_password_strength plain_unicode ''My.C0mpl3x#P@s!K'' = Some (Inr ())"
proof -
  let ?p = "''My.C0mpl3x#P@s!K''"
  have a: "list_all is_ascii_char ?p" by code_simp
  have c: "chars ?p = map of_char ?p" using a by (rule ascii_chars)
  have "3 \<le> count_character_classes plain_unicode ?p" unfolding count_character_classes_def c by code_simp
  moreover have "\<not> has_sequential_pattern ?p" unfolding has_sequential_pattern_def c by code_simp
  moreover have "\<not> is_common_password ?p" "\<not> has_keyboard_pattern ?p" by code_simp+
  moreover have "list_all (\<lambda>(len, i). take len (drop i ?p) \<noteq> take len (drop (i + len) ?p)) (repeat_positions (length ?p))"
    by code_simp
  then have "\<forall>len i. 2 \<le> len \<and> i + 2 * len \<le> length ?p \<longrightarrow> take len (drop i ?p) \<noteq> take len (drop (i + len) ?p)"
    unfolding list_all_iff set_repeat_positions [symmetric] by blast
  moreover have "list_all (\<lambda>i. \<not> (?p ! i = ?p ! (i + 1) \<and> ?p ! i = ?p ! (i + 2))) [0..<length ?p - 2]" by code_simp
  then have "\<forall>i. i + 2 < length ?p \<longrightarrow> \<not> (?p ! i = ?p ! (i + 1) \<and> ?p ! i = ?p ! (i + 2))"
    unfolding list_all_iff set_upt by (metis add_lessD1 atLeastLessThan_iff less_diff_conv zero_le)
  moreover have "12 \<le> length ?p" by simp
  ultimately show "validate_password_strength plain_unicode ?p = Some (Inr ())"
    using accepted_iff [OF ascii_char_valid [OF a], of plain_unicode] a by blast
qed


lemma deductions:
  fixes s :: nat
  shows "min (let s1 = (if a then s - 20 else s); s2 = (if b then s1 - 15 else s1);
                  s3 = (if c then s2 - 15 else s2); s4 = (if d then s3 - 10 else s3) in s4) 100 \<le> s"
  by (cases a; cases b; cases c; cases d) (simp_all add: min.coboundedI1)

text \<open>The highest score is 70: no password is rated Strong.\<close>

theorem never_rated_strong:
  "\<exists>s. calculate_strength_score U p = s \<and> (\<forall>k. s = Some k \<longrightarrow> k \<le> 70) \<and> get_strength_rating U p \<noteq> Some ''Strong''"
proof -
  have c: "count_character_classes U p \<le> 4"
    unfolding count_character_classes_def by (rule order_trans [OF length_filter_le]) simp
  have k: "calculate_strength_score U p = Some k \<Longrightarrow> k \<le> 70" for k
  proof -
    assume "calculate_strength_score U p = Some k"
    then obtain r where "k \<le> min (length p mod 256) 30 + count_character_classes U p * 10"
      unfolding calculate_strength_score_def map_option_eq_Some Let_def
      using deductions [unfolded Let_def] by metis
    then show "k \<le> 70" using c by simp
  qed
  show ?thesis
  proof (cases "calculate_strength_score U p")
    case (Some k)
    then show ?thesis using k [OF Some] by (simp add: get_strength_rating_def)
  qed (simp add: get_strength_rating_def)
qed

end
