(* ===== verification/ConfigFile.thy ===== *)
theory ConfigFile
  imports KeyManagement "HOL-Library.Char_ord" "HOL-Library.List_Lexorder"
begin

text \<open>
  The configuration as an INI document (\<open>config/ini_helpers.rs\<close>), how the process reads it
  at its start (\<open>config/file_storage.rs\<close>, the \<open>CONFIG\<close> of \<open>config/mod.rs\<close>), and the
  operations on entries and topics (\<open>config/entries.rs\<close>, \<open>config/topics.rs\<close>).  A document is
  its named sections with their properties, in order; its text is the \<open>ini\<close> crate's, and
  the document read from the file is an argument.
\<close>

section \<open>Documents\<close>

type_synonym ini = "(string \<times> (string \<times> string) list) list"

definition ini_section :: "ini \<Rightarrow> string \<Rightarrow> (string \<times> string) list option" where
  "ini_section ini sec = map_of ini sec"

definition ini_get :: "ini \<Rightarrow> string \<Rightarrow> string \<Rightarrow> string option" where
  "ini_get ini sec k = (case ini_section ini sec of Some ps \<Rightarrow> map_of ps k | None \<Rightarrow> None)"

text \<open>\<open>with_section(Some(sec)).set(k, v)\<close>: a section that is not there is added.\<close>

definition ini_set :: "string \<Rightarrow> string \<Rightarrow> string \<Rightarrow> ini \<Rightarrow> ini" where
  "ini_set sec k v ini =
     AList.update sec (AList.update k v (case ini_section ini sec of Some ps \<Rightarrow> ps | None \<Rightarrow> [])) ini"

text \<open>The text of a document is the \<open>ini\<close> crate's: \<open>Ini::write_to\<close> and \<open>Ini::load_from_str\<close>.\<close>

record ini_crate =
  ini_text :: "ini \<Rightarrow> string"
  ini_parse :: "string \<Rightarrow> (string, ini) result"

definition parse_bool :: "string \<Rightarrow> bool" where
  "parse_bool s = (to_lowercase s = ''true'' \<or> s = ''1'')"

definition show_bool :: "bool \<Rightarrow> string" where
  "show_bool b = (if b then ''true'' else ''false'')"

section \<open>Writing\<close>

definition save_keypair :: "string option \<Rightarrow> string option \<Rightarrow> ini \<Rightarrow> ini" where
  "save_keypair private public ini =
     (let ini1 = (case private of Some p \<Rightarrow> ini_set ''KeyPair'' ''private'' p ini | None \<Rightarrow> ini)
      in case public of Some p \<Rightarrow> ini_set ''KeyPair'' ''public'' p ini1 | None \<Rightarrow> ini1)"

definition save_nick_networks :: "(string, string) hmap \<Rightarrow> ini \<Rightarrow> ini" where
  "save_nick_networks nick_networks =
     fold (\<lambda>(k, v). ini_set ''NickNetworks'' k v) (sort_key fst nick_networks)"

definition save_fish11_section :: "Fish11Section \<Rightarrow> ini \<Rightarrow> ini" where
  "save_fish11_section f ini =
     (let set = ini_set ''FiSH11'';
          ini1 = set ''no_fish10_legacy'' (show_bool (f_no_fish10_legacy f))
                (set ''mark_encrypted'' (f_mark_encrypted f)
                (set ''mark_position'' (show_nat (unat (f_mark_position f)))
                (set ''encrypt_action'' (show_bool (f_encrypt_action f))
                (set ''encrypt_notice'' (show_bool (f_encrypt_notice f))
                (set ''plain_prefix'' (f_plain_prefix f)
                (set ''process_outgoing'' (show_bool (f_process_outgoing f))
                (set ''process_incoming'' (show_bool (f_process_incoming f)) ini)))))));
          ini2 = (case f_key_ttl f of Some ttl \<Rightarrow> set ''key_ttl'' (show_int ttl) ini1 | None \<Rightarrow> ini1)
      in set ''fish_prefix'' (show_bool (f_fish_prefix f)) (set ''encryption_prefix'' (f_encryption_prefix f) ini2))"

definition save_startup :: "nat option \<Rightarrow> ini \<Rightarrow> ini" where
  "save_startup startup ini = (case startup of Some date \<Rightarrow> ini_set ''Startup'' ''date'' (show_nat date) ini | None \<Rightarrow> ini)"

definition save_entry :: "string \<times> EntryData \<Rightarrow> ini \<Rightarrow> ini" where
  "save_entry kv ini =
     (let (entry_key, entry_data) = kv;
          ini1 = (case e_key entry_data of Some v \<Rightarrow> ini_set ''Keys'' entry_key v ini | None \<Rightarrow> ini)
      in case e_date entry_data of Some v \<Rightarrow> ini_set ''Dates'' entry_key v ini1 | None \<Rightarrow> ini1)"

definition save_entries :: "(string, EntryData) hmap \<Rightarrow> ini \<Rightarrow> ini" where
  "save_entries entries = fold save_entry (sort_key fst entries)"

definition config_to_ini :: "FishConfig \<Rightarrow> ini" where
  "config_to_ini c =
     save_entries (c_entries c)
       (save_startup (c_startup_date c)
       (save_fish11_section (c_fish11 c)
       (save_nick_networks (c_nick_networks c)
       (save_keypair (c_our_private_key c) (c_our_public_key c) []))))"

section \<open>Reading\<close>

text \<open>From the lower-cased name of a section to its name.\<close>

definition build_section_cache :: "ini \<Rightarrow> (string, string) hmap" where
  "build_section_cache ini = fold (\<lambda>s. hm_insert (to_lowercase s) s) (map fst ini) []"

definition section_get :: "ini \<Rightarrow> (string, string) hmap \<Rightarrow> string \<Rightarrow> string \<Rightarrow> string option" where
  "section_get ini sections name k =
     (case hm_get sections name of Some sec \<Rightarrow> ini_get ini sec k | None \<Rightarrow> None)"

definition load_keypair :: "ini \<Rightarrow> (string, string) hmap \<Rightarrow> string option \<times> string option" where
  "load_keypair ini sections =
     (section_get ini sections ''keypair'' ''private'', section_get ini sections ''keypair'' ''public'')"

definition load_nick_networks :: "ini \<Rightarrow> (string, string) hmap \<Rightarrow> (string, string) hmap" where
  "load_nick_networks ini sections =
     (case hm_get sections ''nicknetworks'' of
        None \<Rightarrow> []
      | Some sec \<Rightarrow>
          (case ini_section ini sec of None \<Rightarrow> [] | Some s \<Rightarrow> fold (\<lambda>(k, v). hm_insert k v) s []))"

text \<open>A number that does not parse leaves the default; \<open>as u8\<close> keeps the low eight bits.\<close>

definition load_fish11_section :: "ini \<Rightarrow> (string, string) hmap \<Rightarrow> Fish11Section" where
  "load_fish11_section ini sections =
     (let d = fish11_default;
          field = section_get ini sections ''fish11'';
          bool = (\<lambda>k v. case field k of Some s \<Rightarrow> parse_bool s | None \<Rightarrow> v);
          text = (\<lambda>k v. case field k of Some s \<Rightarrow> s | None \<Rightarrow> v);
          number = (\<lambda>k. case field k of Some s \<Rightarrow> parse_i64 s | None \<Rightarrow> None)
      in \<lparr>f_nickname = f_nickname d,
          f_process_incoming = bool ''process_incoming'' (f_process_incoming d),
          f_process_outgoing = bool ''process_outgoing'' (f_process_outgoing d),
          f_plain_prefix = text ''plain_prefix'' (f_plain_prefix d),
          f_encrypt_notice = bool ''encrypt_notice'' (f_encrypt_notice d),
          f_encrypt_action = bool ''encrypt_action'' (f_encrypt_action d),
          f_mark_position = (case number ''mark_position'' of Some pos \<Rightarrow> word_of_int pos | None \<Rightarrow> f_mark_position d),
          f_mark_encrypted = text ''mark_encrypted'' (f_mark_encrypted d),
          f_no_fish10_legacy = bool ''no_fish10_legacy'' (f_no_fish10_legacy d),
          f_key_ttl = number ''key_ttl'',
          f_encryption_prefix = text ''encryption_prefix'' (f_encryption_prefix d),
          f_fish_prefix = bool ''fish_prefix'' (f_fish_prefix d)\<rparr>)"

text \<open>\<open>as u64\<close> of a negative number wraps.\<close>

definition load_startup :: "ini \<Rightarrow> (string, string) hmap \<Rightarrow> nat option" where
  "load_startup ini sections =
     (case section_get ini sections ''startup'' ''date'' of
        Some v \<Rightarrow> map_option (\<lambda>d. nat (d mod 2 ^ 64)) (parse_i64 v)
      | None \<Rightarrow> None)"

definition load_entries :: "ini \<Rightarrow> (string, string) hmap \<Rightarrow> (string, EntryData) hmap" where
  "load_entries ini sections =
     (case hm_get sections ''keys'' of
        None \<Rightarrow> []
      | Some keys_name \<Rightarrow>
          (case ini_section ini keys_name of
             None \<Rightarrow> []
           | Some keys_data \<Rightarrow>
               fold (\<lambda>(entry_key, key_val).
                  hm_insert entry_key
                    \<lparr>e_key = Some key_val, e_date = section_get ini sections ''dates'' entry_key, e_is_exchange = Some False\<rparr>)
                 keys_data []))"

definition ini_to_config :: "nat \<Rightarrow> ini \<Rightarrow> FishConfig" where
  "ini_to_config now_secs ini =
     (let sections = build_section_cache ini;
          (private, public) = load_keypair ini sections
      in (fish_config_new now_secs)\<lparr>
           c_our_private_key := private, c_our_public_key := public,
           c_nick_networks := load_nick_networks ini sections,
           c_fish11 := load_fish11_section ini sections,
           c_startup_date := load_startup ini sections,
           c_entries := load_entries ini sections\<rparr>)"

section \<open>The start of the process\<close>

text \<open>\<open>file\<close> is the text of the file, if there is one; \<open>secret\<close> is what a new keypair draws.
  The 5-second timeouts are left out.\<close>

definition load_config ::
  "ext_lib \<Rightarrow> ini_crate \<Rightarrow> bytes \<Rightarrow> nat \<Rightarrow> string option \<Rightarrow> store \<Rightarrow> (FishError, FishConfig) result \<times> store" where
  "load_config L I secret now_secs file st =
     (case file of
        None \<Rightarrow>
          (let keypair = generate_keypair L secret (s_clock st);
               config = (fish_config_new now_secs)\<lparr>c_our_private_key := Some (base64_encode L (kp_private keypair)),
                          c_our_public_key := Some (base64_encode L (kp_public keypair))\<rparr>
           in case save_config (st\<lparr>s_config := config\<rparr>) of
                (Inl e, _) \<Rightarrow> (Inl e, st)
              | (Inr _, st1) \<Rightarrow> (Inr (s_config st1), st1\<lparr>s_config := s_config st\<rparr>))
      | Some content \<Rightarrow>
          (case ini_parse I content of
             Inl e \<Rightarrow> (Inl (FE_ConfigError (''Failed to load INI file: '' @ e)), st)
           | Inr ini \<Rightarrow> (Inr (ini_to_config now_secs ini), st)))"

definition init_CONFIG ::
  "ext_lib \<Rightarrow> ini_crate \<Rightarrow> bytes \<Rightarrow> nat \<Rightarrow> string option \<Rightarrow> store \<Rightarrow> store" where
  "init_CONFIG L I secret now_secs file st =
     (case load_config L I secret now_secs file st of
        (Inr c, st1) \<Rightarrow> st1\<lparr>s_config := c\<rparr>
      | (Inl _, st1) \<Rightarrow> st1\<lparr>s_config := fish_config_new now_secs\<rparr>)"

section \<open>Entries and topics\<close>

definition channel_entry_key :: "string \<Rightarrow> string \<Rightarrow> string" where
  "channel_entry_key channel network = (if starts_with ''#'' channel then channel else ''#'' @ channel) @ ''@'' @ network"

definition get_data :: "string \<Rightarrow> store \<Rightarrow> (string option \<times> string option) option" where
  "get_data entry_key = with_config (\<lambda>c. map_option (\<lambda>e. (e_key e, e_date e)) (get_entry c entry_key))"

definition set_data ::
  "ext_lib \<Rightarrow> string \<Rightarrow> bytes option \<Rightarrow> string option \<Rightarrow> store \<Rightarrow> (FishError, unit) result \<times> store" where
  "set_data L entry_key key date st =
     with_config_mut (\<lambda>c.
       (let entry = (case get_entry c entry_key of Some e \<Rightarrow> e | None \<Rightarrow> \<lparr>e_key = None, e_date = None, e_is_exchange = None\<rparr>);
            entry1 = (case key of Some k \<Rightarrow> entry\<lparr>e_key := Some (base64_encode L k)\<rparr> | None \<Rightarrow> entry);
            entry2 = (case date of
                        Some d \<Rightarrow> entry1\<lparr>e_date := Some d\<rparr>
                      | None \<Rightarrow> if e_date entry1 = None then entry1\<lparr>e_date := Some (date_fmt L (s_clock st))\<rparr> else entry1)
        in (Inr (), set_entry entry_key entry2 c))) st"

definition get_channel_data :: "string \<Rightarrow> string \<Rightarrow> store \<Rightarrow> (string option \<times> string option) option" where
  "get_channel_data channel network = get_data (channel_entry_key channel network)"

definition set_channel_data ::
  "ext_lib \<Rightarrow> string \<Rightarrow> string \<Rightarrow> bytes option \<Rightarrow> string option \<Rightarrow> store \<Rightarrow> (FishError, unit) result \<times> store" where
  "set_channel_data L channel network = set_data L (channel_entry_key channel network)"

definition get_user_data :: "string \<Rightarrow> string \<Rightarrow> store \<Rightarrow> (string option \<times> string option) option" where
  "get_user_data username network = get_data (username @ ''@'' @ network)"

definition set_user_data ::
  "ext_lib \<Rightarrow> string \<Rightarrow> string \<Rightarrow> bytes option \<Rightarrow> string option \<Rightarrow> store \<Rightarrow> (FishError, unit) result \<times> store" where
  "set_user_data L username network = set_data L (username @ ''@'' @ network)"

definition list_entries :: "bool \<Rightarrow> FishConfig \<Rightarrow> (string \<times> string \<times> string option \<times> string option) list" where
  "list_entries channels c =
     List.map_filter (\<lambda>(entry_key, entry).
       case find_str ''@'' entry_key of
         None \<Rightarrow> None
       | Some at_pos \<Rightarrow>
           (let name_part = take at_pos entry_key; network = drop (at_pos + 1) entry_key in
            if starts_with ''#'' name_part = channels then Some (name_part, network, e_key entry, e_date entry) else None))
       (c_entries c)"

definition list_channel_entries :: "store \<Rightarrow> (string \<times> string \<times> string option \<times> string option) list" where
  "list_channel_entries = with_config (list_entries True)"

definition list_user_entries :: "store \<Rightarrow> (string \<times> string \<times> string option \<times> string option) list" where
  "list_user_entries = with_config (list_entries False)"

definition set_topic :: "string \<Rightarrow> string \<Rightarrow> FishConfig \<Rightarrow> (FishError, unit) result \<times> FishConfig" where
  "set_topic channel topic c =
     (if channel = [] then (Inl (FE_InvalidInput ''channel name cannot be empty''), c)
      else if topic = [] then (Inl (FE_InvalidInput ''topic cannot be empty''), c)
      else (Inr (), mark_dirty (c\<lparr>c_topics := hm_insert (to_lowercase channel) topic (c_topics c)\<rparr>)))"

definition get_topic :: "string \<Rightarrow> FishConfig \<Rightarrow> (FishError, string option) result" where
  "get_topic channel c =
     (if channel = [] then Inl (FE_InvalidInput ''channel name cannot be empty'')
      else Inr (hm_get (c_topics c) (to_lowercase channel)))"

definition remove_topic :: "string \<Rightarrow> FishConfig \<Rightarrow> (FishError, bool) result \<times> FishConfig" where
  "remove_topic channel c =
     (if channel = [] then (Inl (FE_InvalidInput ''channel name cannot be empty''), c)
      else if hm_has (c_topics c) (to_lowercase channel)
      then (Inr True, mark_dirty (c\<lparr>c_topics := hm_remove (to_lowercase channel) (c_topics c)\<rparr>))
      else (Inr False, c))"

definition list_topics :: "FishConfig \<Rightarrow> (string \<times> string) list" where
  "list_topics c = c_topics c"

section \<open>A configuration written and read back\<close>

lemma ini_get_set [simp]:
  "ini_get (ini_set s k v i) s' k' = (if s' = s \<and> k' = k then Some v else ini_get i s' k')"
  by (auto simp: ini_get_def ini_set_def ini_section_def split: option.split)

definition section_names :: "ini \<Rightarrow> string set" where
  "section_names i = fst ` set i"

lemma section_names_set [simp]:
  "section_names (ini_set s k v i) = insert s (section_names i)" "section_names [] = {}"
  by (simp_all add: section_names_def ini_set_def dom_update)

text \<open>Every section has each property once.\<close>

definition ini_wf :: "ini \<Rightarrow> bool" where
  "ini_wf i \<longleftrightarrow> (\<forall>s ps. ini_section i s = Some ps \<longrightarrow> distinct (map fst ps))"

lemma ini_wf_Nil [simp]: "ini_wf []"
  by (simp add: ini_wf_def ini_section_def)

lemma ini_wf_set [simp]: "ini_wf i \<Longrightarrow> ini_wf (ini_set s k v i)"
  by (auto simp: ini_wf_def ini_set_def ini_section_def distinct_update split: option.splits if_splits)

lemma ini_get_fold:
  "ini_get (fold (\<lambda>(k, v). ini_set s k v) xs i) s' k' =
     (if s' = s \<and> hm_has (rev xs) k' then hm_get (rev xs) k' else ini_get i s' k')"
  by (induction xs arbitrary: i) (auto simp: hm_has_def map_add_def split: option.split)

lemma fold_ini_set:
  "ini_wf i \<Longrightarrow> ini_wf (fold (\<lambda>(k, v). ini_set s k v) xs i)"
  "section_names (fold (\<lambda>(k, v). ini_set s k v) xs i) = (if xs = [] then {} else {s}) \<union> section_names i"
  by (induction xs arbitrary: i) auto

lemma map_of_eqI_distinct:
  "distinct (map fst xs) \<Longrightarrow> distinct (map fst ys) \<Longrightarrow> set xs = set ys \<Longrightarrow> hm_get xs = hm_get ys"
  by (rule map_of_inject_set [THEN iffD2])

lemma map_of_rev: "distinct (map fst ps) \<Longrightarrow> hm_get (rev ps) k = hm_get ps k"
  by (subst map_of_eqI_distinct [of "rev ps" ps]) (simp_all add: rev_map [symmetric])

lemma map_of_sorted:
  fixes m :: "('a::linorder, 'b) hmap"
  assumes "hm_wf m"
  shows "hm_get (rev (sort_key fst m)) k = hm_get m k"
proof -
  have "distinct (map fst (sort_key fst m))"
    using assms by (simp add: distinct_map inj_on_def)
  then have "hm_get (rev (sort_key fst m)) = hm_get (sort_key fst m)"
    by (intro ext map_of_rev)
  moreover have "hm_get (sort_key fst m) = hm_get m"
    by (rule map_of_eqI_distinct) (use assms in \<open>simp_all add: distinct_map inj_on_def\<close>)
  ultimately show ?thesis by simp
qed

lemma sort_key_Nil_iff [simp]: "sort_key f xs = [] \<longleftrightarrow> xs = []"
  by (metis length_0_conv length_sort)

lemma map_of_insert_all:
  "hm_get (fold (\<lambda>(k, v). hm_insert k (f k v)) ps m) k =
     (case hm_get (rev ps) k of Some v \<Rightarrow> Some (f k v) | None \<Rightarrow> hm_get m k)"
  by (induction ps arbitrary: m) (auto simp: map_add_def split: option.split)

text \<open>The cache finds the sections the program writes, in any spelling of their names.\<close>

definition written_sections :: "string list" where
  "written_sections = [''KeyPair'', ''NickNetworks'', ''FiSH11'', ''Startup'', ''Keys'', ''Dates'']"

lemma written_sections_lower: "distinct (map to_lowercase written_sections)"
  by code_simp

lemma section_cache:
  assumes "set ss \<subseteq> set written_sections" "s \<in> set written_sections"
  shows "hm_get (fold (\<lambda>s. hm_insert (to_lowercase s) s) ss m) (to_lowercase s) =
    (if s \<in> set ss then Some s else hm_get m (to_lowercase s))"
  using assms
proof (induction ss arbitrary: m)
  case (Cons x ss)
  have "to_lowercase x = to_lowercase s \<longleftrightarrow> x = s"
    using Cons.prems written_sections_lower by (auto simp: distinct_map inj_on_def)
  then show ?case using Cons by auto
qed simp

lemma cached:
  assumes "section_names i \<subseteq> set written_sections" "s \<in> set written_sections"
  shows "hm_get (build_section_cache i) (to_lowercase s) = (if s \<in> section_names i then Some s else None)"
  using section_cache [of "map fst i" s "[]"] assms by (simp add: build_section_cache_def section_names_def)

lemma no_section: "s \<notin> section_names i \<Longrightarrow> ini_get i s k = None"
  by (simp add: ini_get_def ini_section_def section_names_def map_of_eq_None_iff [THEN iffD2])

lemma cached_get:
  assumes "section_names i \<subseteq> set written_sections" "s \<in> set written_sections" "name = to_lowercase s"
  shows "section_get i (build_section_cache i) name k = ini_get i s k"
  using cached [OF assms(1,2)] assms(3) by (simp add: section_get_def no_section)

lemma find_section:
  "s \<in> section_names i \<Longrightarrow> \<exists>ps. ini_section i s = Some ps \<and> (\<forall>k. hm_get ps k = ini_get i s k)"
proof -
  assume "s \<in> section_names i"
  then have "hm_get i s \<noteq> None" by (simp add: section_names_def map_of_eq_None_iff)
  then show ?thesis by (auto simp: ini_section_def ini_get_def)
qed

lemma load_section:
  assumes "ini_wf i" "section_names i \<subseteq> set written_sections" "s \<in> set written_sections" "name = to_lowercase s"
  shows "hm_get (case hm_get (build_section_cache i) name of None \<Rightarrow> []
      | Some sec \<Rightarrow> (case ini_section i sec of None \<Rightarrow> [] | Some ps \<Rightarrow> fold (\<lambda>(k, v). hm_insert k (f k v)) ps [])) k =
    map_option (f k) (ini_get i s k)"
proof (cases "s \<in> section_names i")
  case True
  then obtain ps where ps: "ini_section i s = Some ps" "\<And>k. hm_get ps k = ini_get i s k"
    using find_section by blast
  then have "distinct (map fst ps)" using assms(1) by (auto simp: ini_wf_def)
  then show ?thesis
    using True ps cached [OF assms(2,3)] assms(4) by (simp add: map_of_insert_all map_of_rev split: option.split)
qed (use cached [OF assms(2,3)] assms(4) no_section in simp)

text \<open>What the document of a configuration holds.\<close>

lemma save_entries_get:
  "ini_get (fold save_entry es i) s k =
     (case hm_get (rev es) k of
        None \<Rightarrow> ini_get i s k
      | Some e \<Rightarrow> if s = ''Keys'' \<and> e_key e \<noteq> None then e_key e
                  else if s = ''Dates'' \<and> e_date e \<noteq> None then e_date e else ini_get i s k)"
  if "distinct (map fst es)"
  using that
proof (induction es arbitrary: i)
  case (Cons x es)
  obtain k0 e where x: "x = (k0, e)" by fastforce
  have "hm_get (rev es) k0 = None" using Cons.prems x by (simp add: map_of_eq_None_iff rev_map [symmetric])
  then show ?case using Cons x
    by (cases "k = k0") (auto simp: save_entry_def map_add_def split: option.split)
qed simp

lemma save_entry_names:
  "section_names (save_entry x i) \<subseteq> {''Keys'', ''Dates''} \<union> section_names i" "ini_wf i \<Longrightarrow> ini_wf (save_entry x i)"
  by (cases x; auto simp: save_entry_def split: option.split)+

lemma save_entries_names:
  "section_names (fold save_entry es i) \<subseteq> {''Keys'', ''Dates''} \<union> section_names i"
proof (induction es arbitrary: i)
  case (Cons x es)
  then show ?case using save_entry_names(1) [of x i] Cons [of "save_entry x i"] by auto
qed auto

lemma save_entries_wf: "ini_wf i \<Longrightarrow> ini_wf (fold save_entry es i)"
  by (induction es arbitrary: i) (simp_all add: save_entry_names(2))

text \<open>Every writer sets the properties of one section.\<close>

definition keypair_props :: "FishConfig \<Rightarrow> (string \<times> string) list" where
  "keypair_props c =
     (case c_our_private_key c of Some p \<Rightarrow> [(''private'', p)] | None \<Rightarrow> []) @
     (case c_our_public_key c of Some p \<Rightarrow> [(''public'', p)] | None \<Rightarrow> [])"

definition fish11_props :: "Fish11Section \<Rightarrow> (string \<times> string) list" where
  "fish11_props f =
     [(''process_incoming'', show_bool (f_process_incoming f)), (''process_outgoing'', show_bool (f_process_outgoing f)),
      (''plain_prefix'', f_plain_prefix f), (''encrypt_notice'', show_bool (f_encrypt_notice f)),
      (''encrypt_action'', show_bool (f_encrypt_action f)), (''mark_position'', show_nat (unat (f_mark_position f))),
      (''mark_encrypted'', f_mark_encrypted f), (''no_fish10_legacy'', show_bool (f_no_fish10_legacy f))] @
     (case f_key_ttl f of Some ttl \<Rightarrow> [(''key_ttl'', show_int ttl)] | None \<Rightarrow> []) @
     [(''encryption_prefix'', f_encryption_prefix f), (''fish_prefix'', show_bool (f_fish_prefix f))]"

definition startup_props :: "nat option \<Rightarrow> (string \<times> string) list" where
  "startup_props d = (case d of Some date \<Rightarrow> [(''date'', show_nat date)] | None \<Rightarrow> [])"

definition ini_props :: "string \<Rightarrow> (string \<times> string) list \<Rightarrow> ini \<Rightarrow> ini" where
  "ini_props s xs = fold (\<lambda>(k, v). ini_set s k v) xs"

lemma ini_props_get:
  "ini_get (ini_props s xs i) s' k' =
     (if s' = s \<and> hm_has (rev xs) k' then hm_get (rev xs) k' else ini_get i s' k')"
  by (simp add: ini_props_def ini_get_fold)

lemma ini_props_names: "section_names (ini_props s xs i) \<subseteq> insert s (section_names i)"
  by (auto simp: ini_props_def fold_ini_set split: if_splits)

lemma ini_props_wf: "ini_wf i \<Longrightarrow> ini_wf (ini_props s xs i)"
  by (simp add: ini_props_def fold_ini_set)

definition written_head :: "FishConfig \<Rightarrow> ini" where
  "written_head c =
     ini_props ''Startup'' (startup_props (c_startup_date c))
       (ini_props ''FiSH11'' (fish11_props (c_fish11 c))
       (ini_props ''NickNetworks'' (sort_key fst (c_nick_networks c))
       (ini_props ''KeyPair'' (keypair_props c) [])))"

lemma config_to_ini_props:
  "config_to_ini c = fold save_entry (sort_key fst (c_entries c)) (written_head c)"
proof -
  have 1: "save_keypair (c_our_private_key c) (c_our_public_key c) [] = ini_props ''KeyPair'' (keypair_props c) []"
    by (simp add: save_keypair_def keypair_props_def ini_props_def split: option.split)
  have 2: "save_fish11_section f i = ini_props ''FiSH11'' (fish11_props f) i" for f i
    by (cases "f_key_ttl f") (simp_all add: save_fish11_section_def fish11_props_def ini_props_def Let_def)
  have 3: "save_startup d i = ini_props ''Startup'' (startup_props d) i" for d i
    by (simp add: save_startup_def startup_props_def ini_props_def split: option.split)
  show ?thesis
    unfolding config_to_ini_def save_entries_def written_head_def 1 2 3 save_nick_networks_def
    by (simp only: ini_props_def)
qed

lemma ini_get_Nil [simp]: "ini_get [] s k = None"
  by (simp add: ini_get_def ini_section_def)

lemma written_ok:
  "ini_wf (config_to_ini c)" "section_names (config_to_ini c) \<subseteq> set written_sections"
proof -
  show "ini_wf (config_to_ini c)"
    by (simp add: config_to_ini_props written_head_def save_entries_wf ini_props_wf)
  have h1: "section_names (config_to_ini c) \<subseteq> {''Keys'', ''Dates''} \<union> section_names (written_head c)"
    unfolding config_to_ini_props by (rule save_entries_names)
  have h2: "section_names (written_head c) \<subseteq> {''Startup'', ''FiSH11'', ''NickNetworks'', ''KeyPair''}"
    unfolding written_head_def
    by (intro order_trans [OF ini_props_names] insert_mono) simp
  have "{''Keys'', ''Dates''} \<union> {''Startup'', ''FiSH11'', ''NickNetworks'', ''KeyPair''} \<subseteq> set written_sections"
    by (simp add: written_sections_def)
  then show "section_names (config_to_ini c) \<subseteq> set written_sections"
    using h1 h2 by (meson Un_mono order_refl order_trans)
qed

lemma written_head_get:
  "ini_get (written_head c) ''Startup'' k = hm_get (rev (startup_props (c_startup_date c))) k"
  "ini_get (written_head c) ''FiSH11'' k = hm_get (rev (fish11_props (c_fish11 c))) k"
  "ini_get (written_head c) ''NickNetworks'' k = hm_get (rev (sort_key fst (c_nick_networks c))) k"
  "ini_get (written_head c) ''KeyPair'' k = hm_get (rev (keypair_props c)) k"
  "ini_get (written_head c) ''Keys'' k = None" "ini_get (written_head c) ''Dates'' k = None"
  by (simp_all add: written_head_def ini_props_get hm_has_def)

lemma written_get:
  assumes "hm_wf (c_entries c)"
  shows "ini_get (config_to_ini c) s k =
    (case hm_get (c_entries c) k of
       None \<Rightarrow> ini_get (written_head c) s k
     | Some e \<Rightarrow> if s = ''Keys'' \<and> e_key e \<noteq> None then e_key e
                 else if s = ''Dates'' \<and> e_date e \<noteq> None then e_date e else ini_get (written_head c) s k)"
proof -
  have d: "distinct (map fst (sort_key fst (c_entries c)))"
    using assms by (simp add: distinct_map inj_on_def)
  show ?thesis
    by (simp add: config_to_ini_props save_entries_get [OF d] map_of_sorted [OF assms])
qed

lemma written_other:
  assumes "hm_wf (c_entries c)" "s \<noteq> ''Keys''" "s \<noteq> ''Dates''"
  shows "ini_get (config_to_ini c) s k = ini_get (written_head c) s k"
  using assms(2,3) by (simp add: written_get [OF assms(1)] split: option.split)

lemma show_bool_parse [simp]: "parse_bool (show_bool b) = b"
  by (cases b) (simp_all add: parse_bool_def show_bool_def to_lowercase_def lower_char_def)

lemma parse_i64_nat: "n < 2 ^ 63 \<Longrightarrow> parse_i64 (show_nat n) = Some (int n)"
  using parse_i64_show [of "int n"] by (simp add: show_int_def)

text \<open>The settings, one property at a time.\<close>

lemma fish11_props_get:
  "hm_get (rev (fish11_props f)) ''process_incoming'' = Some (show_bool (f_process_incoming f))"
  "hm_get (rev (fish11_props f)) ''process_outgoing'' = Some (show_bool (f_process_outgoing f))"
  "hm_get (rev (fish11_props f)) ''plain_prefix'' = Some (f_plain_prefix f)"
  "hm_get (rev (fish11_props f)) ''encrypt_notice'' = Some (show_bool (f_encrypt_notice f))"
  "hm_get (rev (fish11_props f)) ''encrypt_action'' = Some (show_bool (f_encrypt_action f))"
  "hm_get (rev (fish11_props f)) ''mark_position'' = Some (show_nat (unat (f_mark_position f)))"
  "hm_get (rev (fish11_props f)) ''mark_encrypted'' = Some (f_mark_encrypted f)"
  "hm_get (rev (fish11_props f)) ''no_fish10_legacy'' = Some (show_bool (f_no_fish10_legacy f))"
  "hm_get (rev (fish11_props f)) ''key_ttl'' = map_option show_int (f_key_ttl f)"
  "hm_get (rev (fish11_props f)) ''encryption_prefix'' = Some (f_encryption_prefix f)"
  "hm_get (rev (fish11_props f)) ''fish_prefix'' = Some (show_bool (f_fish_prefix f))"
  by (cases "f_key_ttl f"; simp add: fish11_props_def)+

lemma loaded_section:
  assumes "s \<in> set written_sections" "name = to_lowercase s"
  shows "section_get (config_to_ini c) (build_section_cache (config_to_ini c)) name k = ini_get (config_to_ini c) s k"
  using cached_get [OF written_ok(2) assms] .

definition ttl_ok :: "Fish11Section \<Rightarrow> bool" where
  "ttl_ok f = (case f_key_ttl f of None \<Rightarrow> True | Some t \<Rightarrow> - (2 ^ 63) \<le> t \<and> t < 2 ^ 63)"

text \<open>The names the loader asks for are the written ones in lower case.\<close>

lemma lower_names:
  "''fish11'' = to_lowercase ''FiSH11''" "''keypair'' = to_lowercase ''KeyPair''"
  "''nicknetworks'' = to_lowercase ''NickNetworks''" "''startup'' = to_lowercase ''Startup''"
  "''keys'' = to_lowercase ''Keys''" "''dates'' = to_lowercase ''Dates''"
  by code_simp+

lemma written_sections_mem:
  "''FiSH11'' \<in> set written_sections" "''KeyPair'' \<in> set written_sections" "''NickNetworks'' \<in> set written_sections"
  "''Startup'' \<in> set written_sections" "''Keys'' \<in> set written_sections" "''Dates'' \<in> set written_sections"
  by (simp_all add: written_sections_def)

lemmas loaded_get =
  loaded_section [OF written_sections_mem(1) lower_names(1)] loaded_section [OF written_sections_mem(2) lower_names(2)]
  loaded_section [OF written_sections_mem(3) lower_names(3)] loaded_section [OF written_sections_mem(4) lower_names(4)]
  loaded_section [OF written_sections_mem(5) lower_names(5)] loaded_section [OF written_sections_mem(6) lower_names(6)]

lemma loaded_fish11:
  assumes "hm_wf (c_entries c)" "ttl_ok (c_fish11 c)"
  shows "load_fish11_section (config_to_ini c) (build_section_cache (config_to_ini c)) = (c_fish11 c)\<lparr>f_nickname := []\<rparr>"
proof -
  have g: "section_get (config_to_ini c) (build_section_cache (config_to_ini c)) ''fish11'' k = hm_get (rev (fish11_props (c_fish11 c))) k" for k
    unfolding loaded_get(1) by (simp add: written_other [OF assms(1)] written_head_get(2))
  have m: "parse_i64 (show_nat (unat p)) = Some (int (unat p))" for p :: u8
    using unat_u8 [of p] by (simp add: parse_i64_nat)
  have t: "(case f_key_ttl (c_fish11 c) of None \<Rightarrow> None | Some x \<Rightarrow> (parse_i64 \<circ> show_int) x) = f_key_ttl (c_fish11 c)"
    using assms(2) by (auto simp: ttl_ok_def parse_i64_show split: option.split)
  show ?thesis
    by (rule Fish11Section.equality)
      (simp_all add: load_fish11_section_def Let_def g fish11_props_get m t fish11_default_def)
qed

lemma loaded_entries:
  assumes "hm_wf (c_entries c)"
  shows "hm_get (load_entries (config_to_ini c) (build_section_cache (config_to_ini c))) k =
    (case hm_get (c_entries c) k of
       None \<Rightarrow> None
     | Some e \<Rightarrow> map_option (\<lambda>s. \<lparr>e_key = Some s, e_date = e_date e, e_is_exchange = Some False\<rparr>) (e_key e))"
proof -
  note l = load_section [OF written_ok written_sections_mem(5) lower_names(5)]
  show ?thesis
    unfolding load_entries_def l loaded_get(6)
    by (simp add: written_get [OF assms] written_head_get split: option.split)
qed

lemma loaded_nick_networks:
  assumes "hm_wf (c_entries c)" "hm_wf (c_nick_networks c)"
  shows "hm_get (load_nick_networks (config_to_ini c) (build_section_cache (config_to_ini c))) k = hm_get (c_nick_networks c) k"
  unfolding load_nick_networks_def load_section [OF written_ok written_sections_mem(3) lower_names(3), of "\<lambda>k v. v"]
  by (simp add: written_other [OF assms(1)] written_head_get map_of_sorted [OF assms(2)] option.map_ident)

lemma loaded_keypair:
  assumes "hm_wf (c_entries c)"
  shows "load_keypair (config_to_ini c) (build_section_cache (config_to_ini c)) = (c_our_private_key c, c_our_public_key c)"
  unfolding load_keypair_def loaded_get(2)
  by (simp add: written_other [OF assms] written_head_get keypair_props_def split: option.split)

lemma loaded_startup:
  assumes "hm_wf (c_entries c)" "\<And>d. c_startup_date c = Some d \<Longrightarrow> d < 2 ^ 63"
  shows "load_startup (config_to_ini c) (build_section_cache (config_to_ini c)) = c_startup_date c"
  unfolding load_startup_def loaded_get(4)
  using assms(2)
  by (auto simp: written_other [OF assms(1)] written_head_get startup_props_def parse_i64_nat split: option.split)


definition sample_config :: FishConfig where
  "sample_config = (fish_config_new 7)\<lparr>
     c_our_private_key := Some ''cHJpdg=='', c_nick_networks := [(''bob'', ''net''), (''amy'', ''oft'')],
     c_topics := [(''#c'', ''topic'')],
     c_entries := [(''bob@net'', \<lparr>e_key = Some ''a2V5'', e_date = Some ''d'', e_is_exchange = Some True\<rparr>),
       (''amy@oft'', \<lparr>e_key = None, e_date = Some ''d'', e_is_exchange = None\<rparr>)]\<rparr>"


section \<open>Restarts\<close>

text \<open>What the crate promises: it reads its own text back, with the same sections and the
  same properties, as long as the names of the properties do not contain its separators or
  look like a comment or a section; a value comes back as it was if it is plain.\<close>

definition plain_value :: "string \<Rightarrow> bool" where
  "plain_value v \<longleftrightarrow> (v = [] \<or> graphic (hd v) \<and> graphic (last v) \<and> hd v \<noteq> CHR 34 \<and> hd v \<noteq> CHR 39) \<and>
     list_all (\<lambda>c. (graphic c \<or> c = CHR '' '') \<and> c \<notin> set [CHR 92, CHR '';'', CHR ''#'']) v"

definition plain_name :: "string \<Rightarrow> bool" where
  "plain_name k \<longleftrightarrow> k \<noteq> [] \<and> list_all graphic k \<and> hd k \<notin> set [CHR '';'', CHR ''#'', CHR ''[''] \<and>
     list_all (\<lambda>c. c \<notin> set [CHR ''='', CHR '':'', CHR 92]) k"

definition names_plain :: "ini \<Rightarrow> bool" where
  "names_plain i \<longleftrightarrow> (\<forall>(s, ps) \<in> set i. \<forall>(k, v) \<in> set ps. plain_name k)"

definition values_plain :: "ini \<Rightarrow> bool" where
  "values_plain i \<longleftrightarrow> (\<forall>(s, ps) \<in> set i. list_all graphic s \<and> (\<forall>(k, v) \<in> set ps. plain_value v))"

definition ini_law :: "ini_crate \<Rightarrow> bool" where
  "ini_law I \<longleftrightarrow> (\<forall>i. names_plain i \<longrightarrow> ini_wf i \<longrightarrow> distinct (map fst i) \<longrightarrow>
     (\<exists>i'. ini_parse I (ini_text I i) = Inr i' \<and> map fst i' = map fst i \<and> ini_wf i' \<and>
       (\<forall>s k. ini_get i s k = None \<longrightarrow> ini_get i' s k = None) \<and>
       (\<forall>s k v. ini_get i s k = Some v \<longrightarrow> plain_value v \<longrightarrow> ini_get i' s k = Some v)) \<and>
     (values_plain i \<longrightarrow> utf8_valid (as_bytes (ini_text I i))))"

text \<open>The next process finds what the last save wrote.\<close>

definition restart :: "ext_lib \<Rightarrow> ini_crate \<Rightarrow> bytes \<Rightarrow> nat \<Rightarrow> store \<Rightarrow> store" where
  "restart L I secret now_secs st =
     init_CONFIG L I secret now_secs (map_option (\<lambda>c. ini_text I (config_to_ini c)) (s_disk st)) (st\<lparr>s_network := None\<rparr>)"

lemma set_key_saved:
  assumes "set_key L n k net ow x st = (Inr (), st')" "s_disk_ok st"
  shows "s_disk st' = Some (s_config st')"
proof -
  obtain r c where rc: "set_key_entry L st n k net ow x (mark_dirty (s_config st)) = (r, c)"
    by force
  show ?thesis using assms
    by (auto simp: set_key_def with_config_mut_set_entry [OF rc] set_network_persist persist_def split: sum.splits)
qed

lemma graphic_plain:
  assumes "list_all graphic v" "\<And>c. c \<in> set v \<Longrightarrow> c \<notin> set [CHR 34, CHR 39, CHR 92, CHR '';'', CHR ''#'']"
  shows "plain_value v"
proof -
  have "v \<noteq> [] \<Longrightarrow> hd v \<in> set v \<and> last v \<in> set v" by simp
  then show ?thesis using assms(2) [of "hd v"] assms unfolding plain_value_def list_all_iff by auto
qed

lemma b64_plain: "b64_law L \<Longrightarrow> plain_value (b64_enc L bs)"
proof (rule b64_form [of L bs])
  fix t assume t: "b64_enc L bs = t @ replicate (b64_pad (length bs)) (CHR ''='')" "list_all b64_char t"
  have "b64_char c \<Longrightarrow> c \<notin> set [CHR 34, CHR 39, CHR 92, CHR '';'', CHR ''#'']" for c
    by (auto simp: b64_char_def is_ascii_alpha_def is_ascii_digit_def Let_def)
  then have "c \<in> set (b64_enc L bs) \<Longrightarrow> c \<notin> set [CHR 34, CHR 39, CHR 92, CHR '';'', CHR ''#'']" for c
    using t by (auto simp: list_all_iff split: if_splits)
  then show "b64_law L \<Longrightarrow> plain_value (b64_enc L bs)"
    by (intro graphic_plain b64_graphic)
qed

lemma config_to_ini_distinct: "distinct (map fst (config_to_ini c))"
proof -
  have u: "distinct (map fst i) \<Longrightarrow> distinct (map fst (ini_set s k v i))" for i s k v
    by (simp add: ini_set_def distinct_update)
  then have f: "distinct (map fst i) \<Longrightarrow> distinct (map fst (ini_props s xs i))" for i s xs
    by (simp add: ini_props_def, induction xs arbitrary: i) auto
  have e: "distinct (map fst i) \<Longrightarrow> distinct (map fst (fold save_entry es i))" for i es
    by (induction es arbitrary: i) (auto simp: save_entry_def u split: option.split)
  show ?thesis unfolding config_to_ini_props written_head_def by (intro e f) simp
qed

lemma names_plain_set [simp]: "names_plain (ini_set s k v i) \<longleftrightarrow> True" if "names_plain i" "plain_name k"
proof -
  have u: "set (AList.update a b xs) \<subseteq> insert (a, b) (set xs)" for a :: string and b :: 'x and xs
    by (induction xs) auto
  have "ini_section i s = Some ps \<Longrightarrow> (s, ps) \<in> set i" for ps
    by (simp add: ini_section_def map_of_SomeD)
  then have "(x, y) \<in> set (AList.update k v (case ini_section i s of Some ps \<Rightarrow> ps | None \<Rightarrow> [])) \<Longrightarrow> plain_name x" for x y
    using that u [of k v] by (fastforce simp: names_plain_def split: option.splits)
  then show ?thesis
    using that(1) u [of s _ i] unfolding names_plain_def ini_set_def by fastforce
qed

lemma names_plain_fold: "names_plain i \<Longrightarrow> (\<And>k v. (k, v) \<in> set xs \<Longrightarrow> plain_name k) \<Longrightarrow> names_plain (ini_props s xs i)"
  by (unfold ini_props_def, induction xs arbitrary: i) (auto intro!: names_plain_set [THEN iffD2])

lemma names_plain_entries:
  "names_plain i \<Longrightarrow> (\<And>k v. (k, v) \<in> set es \<Longrightarrow> plain_name k) \<Longrightarrow> names_plain (fold save_entry es i)"
proof (induction es arbitrary: i)
  case (Cons x es)
  obtain k e where x: "x = (k, e)" by fastforce
  have "plain_name k" using Cons.prems(2) [of k e] by (simp add: x)
  then have "names_plain (save_entry x i)" using Cons.prems(1) by (simp add: x save_entry_def split: option.split)
  moreover have "(k, v) \<in> set es \<Longrightarrow> plain_name k" for k v using Cons.prems(2) [of k v] by simp
  ultimately show ?case using Cons.IH by simp
qed simp

text \<open>The names the program chooses itself are plain.\<close>

lemma names_plain_config:
  assumes "\<And>k v. (k, v) \<in> set (c_entries c) \<Longrightarrow> plain_name k" "\<And>k v. (k, v) \<in> set (c_nick_networks c) \<Longrightarrow> plain_name k"
  shows "names_plain (config_to_ini c)"
proof -
  have fixed: "list_all plain_name [''private'', ''public'', ''date'', ''process_incoming'', ''process_outgoing'',
      ''plain_prefix'', ''encrypt_notice'', ''encrypt_action'', ''mark_position'', ''mark_encrypted'',
      ''no_fish10_legacy'', ''key_ttl'', ''encryption_prefix'', ''fish_prefix'']"
    by code_simp
  have "list_all (\<lambda>(k, v). plain_name k) (startup_props d)" "list_all (\<lambda>(k, v). plain_name k) (keypair_props c)"
    "list_all (\<lambda>(k, v). plain_name k) (fish11_props f)" for d f
    using fixed by (simp_all add: startup_props_def keypair_props_def fish11_props_def split: option.split)
  then have p: "(k, v) \<in> set (startup_props d) \<Longrightarrow> plain_name k" "(k, v) \<in> set (keypair_props c) \<Longrightarrow> plain_name k"
    "(k, v) \<in> set (fish11_props f) \<Longrightarrow> plain_name k" for d f k v
    by (fastforce simp: list_all_iff)+
  have "names_plain []" by (simp add: names_plain_def)
  then show ?thesis
    unfolding config_to_ini_props written_head_def
    by (intro names_plain_entries names_plain_fold) (simp_all, (rule p assms, assumption)+)
qed

lemma restarted_entry:
  assumes "ini_law I" "s_disk st = Some c" "names_plain (config_to_ini c)" "hm_wf (c_entries c)"
    "hm_get (c_entries c) k = Some e" "e_key e = Some key" "plain_value key"
  shows "\<exists>d. hm_get (c_entries (s_config (restart L I secret now_secs st))) k =
    Some \<lparr>e_key = Some key, e_date = d, e_is_exchange = Some False\<rparr>"
proof -
  have g: "ini_get (config_to_ini c) ''Keys'' k = Some key"
    by (simp add: written_get [OF assms(4)] assms(5,6))
  obtain i' where i': "ini_parse I (ini_text I (config_to_ini c)) = Inr i'" "map fst i' = map fst (config_to_ini c)"
      "ini_wf i'" "ini_get i' ''Keys'' k = Some key"
    using assms(1,3,7) written_ok(1) [of c] config_to_ini_distinct [of c] g unfolding ini_law_def by blast
  have n: "section_names i' \<subseteq> set written_sections"
    using written_ok(2) [of c] i'(2) by (metis section_names_def set_map)
  note l = load_section [OF i'(3) n written_sections_mem(5) lower_names(5)]
  show ?thesis
    by (simp add: restart_def assms(2) init_CONFIG_def load_config_def i'(1) ini_to_config_def Let_def
        load_keypair_def load_entries_def l i'(4))
qed


subsection \<open>A crate that keeps the promise\<close>

text \<open>Lengths in unary, so that every document can be read back.\<close>

definition ref_str :: "string \<Rightarrow> string" where
  "ref_str s = replicate (length s) (CHR ''1'') @ CHR ''0'' # s"

definition ref_unstr :: "string \<Rightarrow> string \<times> string" where
  "ref_unstr cs = (let n = length (takeWhile ((=) (CHR ''1'')) cs) in
     (take n (drop (Suc n) cs), drop n (drop (Suc n) cs)))"

lemma ref_unstr [simp]: "ref_unstr (ref_str s @ r) = (s, r)"
  by (simp add: ref_unstr_def ref_str_def takeWhile_append takeWhile_eq_all_conv [THEN iffD2])

fun ref_list :: "('a \<Rightarrow> string) \<Rightarrow> 'a list \<Rightarrow> string" where
  "ref_list f [] = ''0''"
| "ref_list f (x # xs) = CHR ''1'' # f x @ ref_list f xs"

fun ref_unlist :: "nat \<Rightarrow> (string \<Rightarrow> 'a \<times> string) \<Rightarrow> string \<Rightarrow> 'a list \<times> string" where
  "ref_unlist (Suc n) g (CHR ''1'' # cs) = (let (x, r) = g cs; (xs, r') = ref_unlist n g r in (x # xs, r'))"
| "ref_unlist n g cs = ([], tl cs)"

lemma ref_list_length: "length xs \<le> length (ref_list f xs)"
  by (induction xs) auto

lemma ref_unlist:
  "(\<And>x r. g (f x @ r) = (x, r)) \<Longrightarrow> length xs \<le> n \<Longrightarrow> ref_unlist n g (ref_list f xs @ r) = (xs, r)"
proof (induction xs arbitrary: n)
  case (Cons x xs)
  then show ?case by (cases n) auto
qed (cases n; simp)

definition ref_prop :: "string \<times> string \<Rightarrow> string" where
  "ref_prop p = ref_str (fst p) @ ref_str (snd p)"

definition ref_unprop :: "string \<Rightarrow> (string \<times> string) \<times> string" where
  "ref_unprop cs = (let (k, r) = ref_unstr cs; (v, r') = ref_unstr r in ((k, v), r'))"

definition ref_section :: "string \<times> (string \<times> string) list \<Rightarrow> string" where
  "ref_section p = ref_str (fst p) @ ref_str (ref_list ref_prop (snd p))"

definition ref_unsection :: "string \<Rightarrow> (string \<times> (string \<times> string) list) \<times> string" where
  "ref_unsection cs = (let (s, r) = ref_unstr cs; (t, r') = ref_unstr r in ((s, fst (ref_unlist (length t) ref_unprop t)), r'))"

definition ref_ini :: ini_crate where
  "ref_ini = \<lparr>ini_text = ref_list ref_section, ini_parse = (\<lambda>t. Inr (fst (ref_unlist (length t) ref_unsection t)))\<rparr>"

lemma ref_unprop [simp]: "ref_unprop (ref_prop p @ r) = (p, r)"
  by (simp add: ref_unprop_def ref_prop_def)

lemma ref_unsection [simp]: "ref_unsection (ref_section p @ r) = (p, r)"
  using ref_unlist [of ref_unprop ref_prop "snd p" _ "[]"] ref_list_length [of "snd p" ref_prop]
  by (simp add: ref_unsection_def ref_section_def)

lemma ref_ini_reads: "ini_parse ref_ini (ini_text ref_ini i) = Inr i"
  using ref_unlist [of ref_unsection ref_section i _ "[]"] ref_list_length [of i ref_section]
  by (simp add: ref_ini_def)

lemma ref_str_valid: "utf8_valid (as_bytes s) \<Longrightarrow> utf8_valid (as_bytes (ref_str s))"
proof -
  assume s: "utf8_valid (as_bytes s)"
  have "utf8_valid (as_bytes (replicate (length s) (CHR ''1'') @ ''0''))" by (rule ascii_valid) (auto simp: list_all_iff)
  from utf8_valid_append [OF this s] show ?thesis by (simp add: ref_str_def as_bytes_def)
qed

lemma ref_list_valid: "(\<And>x. x \<in> set xs \<Longrightarrow> utf8_valid (as_bytes (f x))) \<Longrightarrow> utf8_valid (as_bytes (ref_list f xs))"
proof (induction xs)
  case Nil
  show ?case by (rule ascii_valid) simp
next
  case (Cons x xs)
  have "utf8_valid (as_bytes ''1'')" by (rule ascii_valid) simp
  from utf8_valid_append [OF this utf8_valid_append [of "as_bytes (f x)" "as_bytes (ref_list f xs)"]] Cons
  show ?case by (simp add: as_bytes_def)
qed

lemma plain_valid: "plain_value v \<Longrightarrow> utf8_valid (as_bytes v)" "plain_name k \<Longrightarrow> utf8_valid (as_bytes k)"
proof -
  have "(of_char c :: nat) < 128" if "graphic c \<or> c = CHR '' ''" for c using that graphic_code(1) by auto
  then show "plain_value v \<Longrightarrow> utf8_valid (as_bytes v)"
    by (intro ascii_valid) (simp add: plain_value_def list_all_iff)
  show "plain_name k \<Longrightarrow> utf8_valid (as_bytes k)"
    by (intro graphic_valid) (simp add: plain_name_def)
qed

lemma ref_ini_valid: "names_plain i \<Longrightarrow> values_plain i \<Longrightarrow> utf8_valid (as_bytes (ini_text ref_ini i))"
proof -
  assume p: "names_plain i" "values_plain i"
  have "utf8_valid (as_bytes (ref_prop q))" if "plain_name (fst q)" "plain_value (snd q)" for q
    using utf8_valid_append [OF ref_str_valid ref_str_valid, of "fst q" "snd q"] that plain_valid
    by (simp add: ref_prop_def as_bytes_def)
  then have "utf8_valid (as_bytes (ref_list ref_prop ps))" if "(s, ps) \<in> set i" for s ps
    using p that by (intro ref_list_valid) (fastforce simp: names_plain_def values_plain_def)
  moreover have "utf8_valid (as_bytes s)" if "(s, ps) \<in> set i" for s ps
    using p(2) that by (auto simp: values_plain_def intro: graphic_valid)
  ultimately have "utf8_valid (as_bytes (ref_section q))" if "q \<in> set i" for q
    using that utf8_valid_append [OF ref_str_valid ref_str_valid, of "fst q" "ref_list ref_prop (snd q)"]
    by (cases q) (simp add: ref_section_def as_bytes_append)
  then show ?thesis by (simp add: ref_ini_def ref_list_valid)
qed

lemma ref_ini_law: "ini_law ref_ini"
  by (simp add: ini_law_def ref_ini_reads ref_ini_valid)


end
