(* ===== verification/MasterKey.thy ===== *)
theory MasterKey
  imports ExtLib
begin

text \<open>
  The keys under the master password (\<open>fish_11_core/src/master_key/\<close>: \<open>derivation.rs\<close>,
  \<open>encryption.rs\<close>, \<open>memory.rs\<close>, \<open>core/\<close>) and the encrypted configuration text
  (\<open>config/encrypted_config.rs\<close>).  Argon2 and its salts are the record \<open>A\<close>, HKDF, SHA-256 and
  ChaCha20-Poly1305 the record \<open>L\<close>; random nonces and salts are arguments.  An \<open>expect\<close>
  that fails is \<open>None\<close>.  The counters are 64-bit words and wrap as in release builds.
\<close>

section \<open>Numbers as bytes\<close>

fun be_bytes :: "nat \<Rightarrow> nat \<Rightarrow> bytes" where
  "be_bytes 0 x = []"
| "be_bytes (Suc n) x = be_bytes n (x div 256) @ [word_of_nat (x mod 256)]"

definition be_value :: "bytes \<Rightarrow> nat" where
  "be_value bs = foldl (\<lambda>acc b. acc * 256 + unat b) 0 bs"

lemma length_be_bytes [simp]: "length (be_bytes n x) = n"
  by (induction n arbitrary: x) auto

lemma be_value_be_bytes [simp]: "x < 256 ^ n \<Longrightarrow> be_value (be_bytes n x) = x"
proof (induction n arbitrary: x)
  case (Suc n)
  then have "be_value (be_bytes n (x div 256)) = x div 256" by (simp add: less_mult_imp_div_less mult.commute)
  moreover have "unat (word_of_nat (x mod 256) :: u8) = x mod 256" by (simp add: unat_of_nat)
  ultimately show ?case by (simp add: be_value_def)
qed (simp add: be_value_def)

lemma be_bytes_inj: "x < 256 ^ n \<Longrightarrow> y < 256 ^ n \<Longrightarrow> be_bytes n x = be_bytes n y \<longleftrightarrow> x = y"
  by (metis be_value_be_bytes)

lemma be_value_append: "be_value (bs @ [b]) = be_value bs * 256 + unat b"
  by (simp add: be_value_def)

lemma be_bytes_be_value: "length bs = n \<Longrightarrow> be_bytes n (be_value bs) = bs \<and> be_value bs < 256 ^ n"
proof (induction n arbitrary: bs)
  case (Suc n)
  then obtain cs b where bs: "bs = cs @ [b]" "length cs = n" by (metis length_Suc_conv_rev)
  then show ?case using Suc.IH [of cs] unat_u8 [of b]
    by (auto simp: be_value_append)
qed (simp add: be_value_def)

lemma u64_range: "unat (w :: u64) < 256 ^ 8"
  using unsigned_less [of w] by simp

lemma u32_range: "unat (w :: u32) < 256 ^ 4"
  using unsigned_less [of w] by simp

section \<open>Derivation\<close>

record argon_lib =
  salt_from_b64 :: "string \<Rightarrow> (string, string) result"           \<comment> \<open>SaltString::from_b64\<close>
  argon_hash :: "bytes \<Rightarrow> string \<Rightarrow> (string, bytes) result"      \<comment> \<open>Argon2id, 64 MB, 3 passes, 4 lanes, 32 bytes\<close>

text \<open>A salt that parses stands for itself, and one of the generated length hashes any
  password that fits into 32 bits of length.\<close>

definition argon_law :: "argon_lib \<Rightarrow> bool" where
  "argon_law A \<longleftrightarrow>
     (\<forall>s s'. salt_from_b64 A s = Inr s' \<longrightarrow> s' = s) \<and>
     (\<forall>p s. salt_from_b64 A s = Inr s \<longrightarrow> length s = 22 \<longrightarrow> length p < 2 ^ 32 \<longrightarrow>
        (\<exists>k. argon_hash A p s = Inr k \<and> length k = 32))"

text \<open>\<open>generated\<close> is what \<open>SaltString::generate\<close> draws.\<close>

definition derive_master_key_with_salt ::
  "argon_lib \<Rightarrow> string \<Rightarrow> string \<Rightarrow> string option \<Rightarrow> (string, bytes \<times> string) result" where
  "derive_master_key_with_salt A generated password salt =
     (case (case salt of
              Some s \<Rightarrow> map_err (\<lambda>e. ''Invalid salt: '' @ e) (salt_from_b64 A s)
            | None \<Rightarrow> Inr generated) of
        Inl e \<Rightarrow> Inl e
      | Inr salt_string \<Rightarrow>
          (case argon_hash A (as_bytes password) salt_string of
             Inl e \<Rightarrow> Inl (''Argon2 hashing error: '' @ e)
           | Inr key \<Rightarrow> Inr (key, salt_string)))"

definition derive_master_key :: "argon_lib \<Rightarrow> string \<Rightarrow> string \<Rightarrow> (string, bytes \<times> string) result" where
  "derive_master_key A generated password = derive_master_key_with_salt A generated password None"

definition HKDF_PREFIX :: string where "HKDF_PREFIX = ''fish11:''"

definition derive_subkey :: "ext_lib \<Rightarrow> bytes \<Rightarrow> string \<Rightarrow> bytes option" where
  "derive_subkey L master_key ctxt = hkdf L (replicate 32 0) master_key (as_bytes (HKDF_PREFIX @ ctxt)) 32"

definition derive_config_kek :: "ext_lib \<Rightarrow> bytes \<Rightarrow> bytes option" where
  "derive_config_kek L master_key = derive_subkey L master_key ''config''"

definition derive_export_kek :: "ext_lib \<Rightarrow> bytes \<Rightarrow> bytes option" where
  "derive_export_kek L master_key = derive_subkey L master_key ''export''"

definition derive_channel_key :: "ext_lib \<Rightarrow> bytes \<Rightarrow> string \<Rightarrow> u32 \<Rightarrow> bytes option" where
  "derive_channel_key L config_kek channel generation =
     derive_subkey L config_kek (''channel:'' @ channel @ '':gen:'' @ show_nat (unat generation))"

lemma derive_subkey_some: "hkdf_law L \<Longrightarrow> \<exists>k. derive_subkey L m c = Some k \<and> length k = 32"
  by (rule hkdf_out [of L 32 "replicate 32 0" m]) (auto simp: derive_subkey_def)

section \<open>Encrypted blobs\<close>

record EncryptedBlob =
  eb_version :: u8
  eb_generation :: u32
  eb_nonce_counter :: u64
  eb_ciphertext :: bytes

definition blob_new :: "u32 \<Rightarrow> u64 \<Rightarrow> bytes \<Rightarrow> EncryptedBlob" where
  "blob_new generation nonce_counter ciphertext =
     \<lparr>eb_version = 1, eb_generation = generation, eb_nonce_counter = nonce_counter, eb_ciphertext = ciphertext\<rparr>"

definition blob_to_bytes :: "EncryptedBlob \<Rightarrow> bytes" where
  "blob_to_bytes b =
     eb_version b # be_bytes 4 (unat (eb_generation b)) @ be_bytes 8 (unat (eb_nonce_counter b)) @ eb_ciphertext b"

definition blob_from_bytes :: "bytes \<Rightarrow> EncryptedBlob option" where
  "blob_from_bytes data =
     (if length data < 13 then None
      else Some \<lparr>eb_version = hd data,
                 eb_generation = word_of_nat (be_value (take 4 (drop 1 data))),
                 eb_nonce_counter = word_of_nat (be_value (take 8 (drop 5 data))),
                 eb_ciphertext = drop 13 data\<rparr>)"

text \<open>the bytes of a blob are read back as the blob, and every text of at least 13 bytes
  is the bytes of exactly the blob that is read from it; a shorter one is refused.\<close>

theorem blob_roundtrip:
  "blob_from_bytes (blob_to_bytes b) = Some b \<and>
   map_option blob_to_bytes (blob_from_bytes data) = (if length data < 13 then None else Some data)"
proof
  show "blob_from_bytes (blob_to_bytes b) = Some b"
    using u64_range [of "eb_nonce_counter b"] u32_range [of "eb_generation b"]
    by (simp add: blob_from_bytes_def blob_to_bytes_def numeral_eq_Suc [of "num.Bit1 num.One"])
  show "map_option blob_to_bytes (blob_from_bytes data) = (if length data < 13 then None else Some data)"
  proof (cases "length data < 13")
    case False
    define g c where "g = take 4 (drop (Suc 0) data)" and "c = take 8 (drop 5 data)"
    have l: "length g = 4" "length c = 8" using False by (simp_all add: g_def c_def)
    have "unat (word_of_nat (be_value g) :: u32) = be_value g" "unat (word_of_nat (be_value c) :: u64) = be_value c"
      using be_bytes_be_value [OF l(1)] be_bytes_be_value [OF l(2)] by (simp_all add: unat_of_nat)
    moreover have "hd data # g @ c @ drop 13 data = data"
    proof -
      have "drop 13 data = drop 8 (drop 5 data)" "drop 5 data = drop 4 (drop (Suc 0) data)" by simp_all
      then have "g @ c @ drop 13 data = drop (Suc 0) data" unfolding g_def c_def by (metis append_take_drop_id)
      then show ?thesis using False by (cases data) auto
    qed
    ultimately show ?thesis
      using False be_bytes_be_value [OF l(1)] be_bytes_be_value [OF l(2)]
      by (simp add: blob_from_bytes_def blob_to_bytes_def g_def [symmetric] c_def [symmetric])
  qed (simp add: blob_from_bytes_def)
qed

section \<open>Nonces\<close>

text \<open>The set of used nonces of a key is a list without repetitions.\<close>

record NonceManager =
  counters :: "(string, u64) hmap"
  used_nonces :: "(string, u64 list) hmap"

definition nonce_manager_new :: NonceManager where
  "nonce_manager_new = \<lparr>counters = [], used_nonces = []\<rparr>"

definition counter_nonce :: "u64 \<Rightarrow> bytes" where
  "counter_nonce counter = replicate 4 0 @ be_bytes 8 (unat counter)"

definition get_counter :: "string \<Rightarrow> NonceManager \<Rightarrow> u64" where
  "get_counter key_id m = (case hm_get (counters m) key_id of Some c \<Rightarrow> c | None \<Rightarrow> 0)"

definition set_counter :: "string \<Rightarrow> u64 \<Rightarrow> NonceManager \<Rightarrow> NonceManager" where
  "set_counter key_id counter m = m\<lparr>counters := hm_insert key_id counter (counters m)\<rparr>"

definition get_next_nonce :: "string \<Rightarrow> NonceManager \<Rightarrow> (string, bytes \<times> u64) result \<times> NonceManager" where
  "get_next_nonce key_id m =
     (let counter = get_counter key_id m + 1;
          used = (case hm_get (used_nonces m) key_id of Some u \<Rightarrow> u | None \<Rightarrow> []);
          m1 = m\<lparr>counters := hm_insert key_id counter (counters m), used_nonces := hm_insert key_id used (used_nonces m)\<rparr>
      in if counter \<in> set used then (Inl (''Nonce collision detected for key '' @ key_id), m1)
         else
           (let used_set = counter # used;
                min_to_keep = counter - 10000;
                used1 = (if 10000 < length used_set then filter (\<lambda>n. min_to_keep < n) used_set else used_set)
            in (Inr (counter_nonce counter, counter), m1\<lparr>used_nonces := hm_insert key_id used1 (used_nonces m1)\<rparr>)))"

section \<open>Data under a key\<close>

definition encrypt_data ::
  "ext_lib \<Rightarrow> bytes \<Rightarrow> bytes \<Rightarrow> string \<Rightarrow> u32 \<Rightarrow> NonceManager \<Rightarrow> (string, EncryptedBlob) result \<times> NonceManager" where
  "encrypt_data L data key key_id generation m =
     (case get_next_nonce key_id m of
        (Inl e, m1) \<Rightarrow> (Inl e, m1)
      | (Inr (nonce, counter), m1) \<Rightarrow>
          (case cseal L key nonce data of
             None \<Rightarrow> (Inl ''Encryption failed: aead::Error'', m1)
           | Some ciphertext \<Rightarrow> (Inr (blob_new generation counter ciphertext), m1)))"

definition decrypt_data :: "ext_lib \<Rightarrow> EncryptedBlob \<Rightarrow> bytes \<Rightarrow> (string, bytes) result" where
  "decrypt_data L blob key =
     (case copen L key (counter_nonce (eb_nonce_counter blob)) (eb_ciphertext blob) of
        None \<Rightarrow> Inl ''Decryption failed: aead::Error''
      | Some plaintext \<Rightarrow> Inr plaintext)"

text \<open>\<open>str::lines\<close>: a line ends with a line feed, which may follow a carriage return.\<close>

definition strip_cr :: "string \<Rightarrow> string" where
  "strip_cr l = (if l \<noteq> [] \<and> last l = CHR 0x0D then butlast l else l)"

definition str_lines :: "string \<Rightarrow> string list" where
  "str_lines s =
     (let ws = split_char (CHR 0x0A) s
      in map strip_cr (butlast ws) @ (if last ws = [] then [] else [last ws]))"

definition ENCRYPTED_CONFIG_HEADER :: string where
  "ENCRYPTED_CONFIG_HEADER = ''# FiSH_11_ENCRYPTED_CONFIG_V1''"

definition encrypt_config_data ::
  "ext_lib \<Rightarrow> string \<Rightarrow> bytes \<Rightarrow> NonceManager \<Rightarrow> ((string, bytes) result \<times> NonceManager) option" where
  "encrypt_config_data L data master_key m =
     map_option
       (\<lambda>config_key.
          case encrypt_data L (as_bytes data) config_key ''config'' 0 m of
            (Inl e, m1) \<Rightarrow> (Inl (''Config encryption failed: '' @ e), m1)
          | (Inr blob, m1) \<Rightarrow>
              (Inr (as_bytes (ENCRYPTED_CONFIG_HEADER @ [CHR 0x0A] @ b64_enc L (blob_to_bytes blob) @ [CHR 0x0A])), m1))
       (derive_config_kek L master_key)"

definition decrypt_config_data :: "ext_lib \<Rightarrow> bytes \<Rightarrow> bytes \<Rightarrow> (string, string) result option" where
  "decrypt_config_data L encrypted_data master_key =
     (case from_utf8 encrypted_data of
        None \<Rightarrow> Some (Inl ''Invalid UTF-8 in encrypted config'')
      | Some content \<Rightarrow>
          (let lines = str_lines content in
           if lines = [] \<or> \<not> starts_with ENCRYPTED_CONFIG_HEADER (hd lines) then Some (Inl ''Invalid encrypted config header'')
           else if length lines < 2 then Some (Inl ''Encrypted config file is malformed'')
           else
             (case b64_dec L (lines ! 1) of
                Inl e \<Rightarrow> Some (Inl (''Failed to decode base64: '' @ e))
              | Inr encrypted_bytes \<Rightarrow>
                  (case blob_from_bytes encrypted_bytes of
                     None \<Rightarrow> Some (Inl ''Failed to parse encrypted blob'')
                   | Some blob \<Rightarrow>
                       (case derive_config_kek L master_key of
                          None \<Rightarrow> None
                        | Some config_key \<Rightarrow>
                            Some (case decrypt_data L blob config_key of
                                    Inl e \<Rightarrow> Inl (''Config decryption failed: '' @ e)
                                  | Inr plain \<Rightarrow>
                                      ok_or ''Invalid UTF-8 in decrypted config'' (from_utf8 plain)))))))"

definition is_encrypted_config :: "bytes \<Rightarrow> bool" where
  "is_encrypted_config data =
     (case from_utf8 data of
        Some content \<Rightarrow> (case str_lines content of line # _ \<Rightarrow> starts_with ENCRYPTED_CONFIG_HEADER line | [] \<Rightarrow> False)
      | None \<Rightarrow> False)"

section \<open>The key system\<close>

text \<open>\<open>core/master_key.rs\<close>, \<open>core/config_key.rs\<close>: keys that hash the password once.\<close>

record MasterKey =
  mk_key_material :: bytes
  mk_salt :: bytes
  mk_is_unlocked :: bool

definition master_key_new :: "ext_lib \<Rightarrow> string \<Rightarrow> bytes \<Rightarrow> MasterKey" where
  "master_key_new L password salt =
     \<lparr>mk_key_material = take 32 (sha256 L (as_bytes password @ salt)), mk_salt = salt, mk_is_unlocked = True\<rparr>"

definition mk_derive_subkey :: "ext_lib \<Rightarrow> MasterKey \<Rightarrow> string \<Rightarrow> bytes" where
  "mk_derive_subkey L k purpose = take 32 (sha256 L (mk_key_material k @ as_bytes purpose))"

definition mk_encrypt :: "ext_lib \<Rightarrow> bytes \<Rightarrow> MasterKey \<Rightarrow> bytes \<Rightarrow> (string, bytes) result" where
  "mk_encrypt L nonce k data =
     (case cseal L (mk_key_material k) nonce data of
        None \<Rightarrow> Inl ''Encryption failed: aead::Error''
      | Some ciphertext \<Rightarrow> Inr (nonce @ ciphertext))"

definition mk_decrypt :: "ext_lib \<Rightarrow> MasterKey \<Rightarrow> bytes \<Rightarrow> (string, bytes) result" where
  "mk_decrypt L k encrypted_data =
     (if length encrypted_data < 12 then Inl ''Encrypted data too short''
      else ok_or ''Decryption failed: aead::Error''
             (copen L (mk_key_material k) (take 12 encrypted_data) (drop 12 encrypted_data)))"

definition mk_lock :: "MasterKey \<Rightarrow> MasterKey" where
  "mk_lock k = k\<lparr>mk_key_material := replicate 32 0, mk_is_unlocked := False\<rparr>"

record ConfigKey =
  ck_key_material :: bytes
  ck_version :: u32

definition config_key_from_master :: "ext_lib \<Rightarrow> MasterKey \<Rightarrow> ConfigKey" where
  "config_key_from_master L master_key =
     \<lparr>ck_key_material = mk_derive_subkey L master_key ''config_encryption'', ck_version = 1\<rparr>"

definition encrypt_config :: "ext_lib \<Rightarrow> bytes \<Rightarrow> ConfigKey \<Rightarrow> string \<Rightarrow> (string, string) result" where
  "encrypt_config L nonce k config_data =
     (case cseal L (ck_key_material k) nonce (as_bytes config_data) of
        None \<Rightarrow> Inl ''Config encryption failed: aead::Error''
      | Some ciphertext \<Rightarrow> Inr (b64_enc L (nonce @ ciphertext)))"

definition decrypt_config :: "ext_lib \<Rightarrow> ConfigKey \<Rightarrow> string \<Rightarrow> (string, string) result" where
  "decrypt_config L k encrypted =
     (case b64_dec L encrypted of
        Inl e \<Rightarrow> Inl (''Base64 decode failed: '' @ e)
      | Inr bs \<Rightarrow>
          if length bs < 12 then Inl ''Encrypted config data too short''
          else (case copen L (ck_key_material k) (take 12 bs) (drop 12 bs) of
                  None \<Rightarrow> Inl ''Config decryption failed: aead::Error''
                | Some plaintext \<Rightarrow> Inr (from_utf8_lossy plaintext)))"

definition config_key_rotate :: "ext_lib \<Rightarrow> MasterKey \<Rightarrow> ConfigKey \<Rightarrow> ConfigKey" where
  "config_key_rotate L master_key k =
     \<lparr>ck_key_material = mk_derive_subkey L master_key (''config_encryption_v'' @ show_nat (unat (ck_version k + 1))),
      ck_version = ck_version k + 1\<rparr>"

text \<open>The static \<open>KEY_SYSTEM\<close>.\<close>

record KeySystemState =
  ks_master_key :: "MasterKey option"
  ks_config_key :: "ConfigKey option"

definition KEY_SYSTEM_INIT :: KeySystemState where
  "KEY_SYSTEM_INIT = \<lparr>ks_master_key = None, ks_config_key = None\<rparr>"

definition initialize_key_system :: "ext_lib \<Rightarrow> string \<Rightarrow> bytes \<Rightarrow> KeySystemState \<Rightarrow> KeySystemState" where
  "initialize_key_system L password salt ks =
     (let k = master_key_new L password salt
      in ks\<lparr>ks_master_key := Some k, ks_config_key := Some (config_key_from_master L k)\<rparr>)"

definition lock_key_system :: "KeySystemState \<Rightarrow> KeySystemState" where
  "lock_key_system ks = ks\<lparr>ks_master_key := None, ks_config_key := None\<rparr>"

definition is_key_system_unlocked :: "KeySystemState \<Rightarrow> bool" where
  "is_key_system_unlocked ks = (case ks_master_key ks of Some k \<Rightarrow> mk_is_unlocked k | None \<Rightarrow> False)"

definition get_config_key :: "KeySystemState \<Rightarrow> ConfigKey option" where
  "get_config_key ks = ks_config_key ks"

definition rotate_all_keys :: "ext_lib \<Rightarrow> KeySystemState \<Rightarrow> KeySystemState" where
  "rotate_all_keys L ks =
     (case ks_master_key ks of
        Some k \<Rightarrow> ks\<lparr>ks_config_key := Some (config_key_from_master L k)\<rparr>
      | None \<Rightarrow> ks)"

section \<open>Secure memory\<close>

text \<open>The limit on the size of a \<open>SecureString\<close> or \<open>SecureBytes\<close>; clearing leaves it empty.\<close>

definition MAX_SECURE_ALLOCATION_SIZE :: nat where "MAX_SECURE_ALLOCATION_SIZE = 1024 * 1024"

definition secure_string_new :: "string \<Rightarrow> (string, string) result" where
  "secure_string_new s =
     (if MAX_SECURE_ALLOCATION_SIZE < length s then
        Inl (''SecureString allocation too large: '' @ show_nat (length s) @ '' bytes (max: '' @
             show_nat MAX_SECURE_ALLOCATION_SIZE @ '')'')
      else Inr s)"

definition secure_bytes_new :: "bytes \<Rightarrow> (string, bytes) result" where
  "secure_bytes_new bs =
     (if MAX_SECURE_ALLOCATION_SIZE < length bs then
        Inl (''SecureBytes allocation too large: '' @ show_nat (length bs) @ '' bytes (max: '' @
             show_nat MAX_SECURE_ALLOCATION_SIZE @ '')'')
      else Inr bs)"

section \<open>Facts\<close>

lemma counter_nonce_length [simp]: "length (counter_nonce c) = 12"
  by (simp add: counter_nonce_def)

lemma counter_nonce_inject [simp]: "counter_nonce a = counter_nonce b \<longleftrightarrow> a = b"
  using u64_range [of a] u64_range [of b] by (simp add: counter_nonce_def be_bytes_inj word_unat_eq_iff)

lemma split_char_app: "c \<notin> set a \<Longrightarrow> split_char c (a @ c # b) = a # split_char c b"
  by (induction a) auto

lemma two_lines:
  assumes "CHR 0x0A \<notin> set a" "CHR 0x0A \<notin> set b" "CHR 0x0D \<notin> set a" "CHR 0x0D \<notin> set b"
  shows "str_lines (a @ CHR 0x0A # b @ [CHR 0x0A]) = [a, b]"
  using assms by (auto simp: str_lines_def split_char_app Let_def strip_cr_def dest: last_in_set)

lemma graphic_no_breaks: "list_all graphic s \<Longrightarrow> CHR 0x0A \<notin> set s \<and> CHR 0x0D \<notin> set s"
  by (auto simp: list_all_iff graphic_def)

lemma header_facts:
  "CHR 0x0A \<notin> set ENCRYPTED_CONFIG_HEADER" "CHR 0x0D \<notin> set ENCRYPTED_CONFIG_HEADER"
  "starts_with ENCRYPTED_CONFIG_HEADER ENCRYPTED_CONFIG_HEADER"
  "list_all (\<lambda>b. b < 0x80) (as_bytes ENCRYPTED_CONFIG_HEADER)"
  by (simp_all add: ENCRYPTED_CONFIG_HEADER_def) code_simp+

end
