(* ===== verification/Keystore.thy ===== *)
theory Keystore
  imports MasterKey ConfigFile
begin

text \<open>
  The keystore (\<open>fish_11_core/src/master_key/keystore.rs\<close>, \<open>keystore_encryption.rs\<close>) and the
  rotation policy (\<open>rotation.rs\<close>): salts, verifier, nonce counters and key metadata, their INI
  document, and the file encrypted under a key made of the machine's names and the current
  directory.  JSON is the record \<open>J\<close>, INI text the record \<open>I\<close>, the environment the record \<open>E\<close>;
  the file system is a map from paths to bytes.  Clocks and random bytes are arguments; the
  usage percentages of \<open>rotation.rs\<close> are floating point and left out.
\<close>

section \<open>Metadata\<close>

record KeyMetadata =
  km_created_at :: u64
  km_last_used :: u64
  km_usage_count :: u64
  km_message_count :: u64
  km_data_size_bytes :: u64
  km_description :: string
  km_is_revoked :: bool

record json_crate =
  json_enc :: "KeyMetadata \<Rightarrow> (string, string) result"   \<comment> \<open>serde_json::to_string\<close>
  json_dec :: "string \<Rightarrow> KeyMetadata option"              \<comment> \<open>serde_json::from_str\<close>

definition metadata_default :: "u64 \<Rightarrow> KeyMetadata" where
  "metadata_default now = \<lparr>km_created_at = now, km_last_used = now, km_usage_count = 0, km_message_count = 0,
     km_data_size_bytes = 0, km_description = ''New key'', km_is_revoked = False\<rparr>"

definition metadata_new :: "u64 \<Rightarrow> u64 \<Rightarrow> KeyMetadata" where
  "metadata_new now initial_message_count = (metadata_default now)\<lparr>km_message_count := initial_message_count\<rparr>"

datatype RotationReason = MessageLimit | DataSizeLimit | AgeLimit | Manual

definition MAX_MESSAGES_PER_KEY :: u64 where "MAX_MESSAGES_PER_KEY = 1000000"
definition MAX_DATA_SIZE_PER_KEY :: u64 where "MAX_DATA_SIZE_PER_KEY = 100 * 1024 * 1024 * 1024"
definition MAX_KEY_AGE_SECONDS :: u64 where "MAX_KEY_AGE_SECONDS = 90 * 24 * 60 * 60"

text \<open>\<open>saturating_sub\<close>: a key from the future has age 0.\<close>

definition should_rotate_key :: "u64 \<Rightarrow> KeyMetadata \<Rightarrow> RotationReason option" where
  "should_rotate_key now m =
     (if MAX_MESSAGES_PER_KEY \<le> km_message_count m then Some MessageLimit
      else if MAX_DATA_SIZE_PER_KEY \<le> km_data_size_bytes m then Some DataSizeLimit
      else
        (let age = (if km_created_at m \<le> now then now - km_created_at m else 0) in
         if MAX_KEY_AGE_SECONDS \<le> age then Some AgeLimit else None))"

section \<open>The keystore\<close>

type_synonym path = "string \<times> string"   \<comment> \<open>directory and file name\<close>

record Keystore =
  master_key_salt :: string
  password_verifier :: "string option"
  nonce_counters :: "(string, u64) hmap"
  key_metadata :: "(string, KeyMetadata) hmap"
  ks_file_path :: "path option"

definition with_salt :: "string \<Rightarrow> Keystore" where
  "with_salt salt = \<lparr>master_key_salt = salt, password_verifier = None, nonce_counters = [], key_metadata = [],
     ks_file_path = None\<rparr>"

definition keystore_new :: "ext_lib \<Rightarrow> bytes \<Rightarrow> Keystore" where
  "keystore_new L salt_bytes = with_salt (b64_enc L salt_bytes)"

definition get_nonce :: "string \<Rightarrow> Keystore \<Rightarrow> u64 \<times> Keystore" where
  "get_nonce ctxt k =
     (let counter = (case hm_get (nonce_counters k) ctxt of Some c \<Rightarrow> c | None \<Rightarrow> 0) + 1
      in (counter - 1, k\<lparr>nonce_counters := hm_insert ctxt counter (nonce_counters k)\<rparr>))"

definition metadata_of :: "u64 \<Rightarrow> string \<Rightarrow> Keystore \<Rightarrow> KeyMetadata" where
  "metadata_of now key_id k = (case hm_get (key_metadata k) key_id of Some m \<Rightarrow> m | None \<Rightarrow> metadata_default now)"

definition increment_key_usage :: "u64 \<Rightarrow> string \<Rightarrow> Keystore \<Rightarrow> Keystore" where
  "increment_key_usage now key_id k =
     (let m = metadata_of now key_id k
      in k\<lparr>key_metadata := hm_insert key_id (m\<lparr>km_usage_count := km_usage_count m + 1, km_last_used := now\<rparr>) (key_metadata k)\<rparr>)"

definition revoke_key :: "u64 \<Rightarrow> string \<Rightarrow> Keystore \<Rightarrow> Keystore" where
  "revoke_key now key_id k =
     k\<lparr>key_metadata := hm_insert key_id ((metadata_of now key_id k)\<lparr>km_is_revoked := True\<rparr>) (key_metadata k)\<rparr>"

definition is_key_revoked :: "string \<Rightarrow> Keystore \<Rightarrow> bool" where
  "is_key_revoked key_id k = (case hm_get (key_metadata k) key_id of Some m \<Rightarrow> km_is_revoked m | None \<Rightarrow> False)"

definition get_master_salt :: "Keystore \<Rightarrow> string option" where
  "get_master_salt k = Some (master_key_salt k)"

definition set_master_salt :: "string \<Rightarrow> Keystore \<Rightarrow> Keystore" where
  "set_master_salt salt k = k\<lparr>master_key_salt := salt\<rparr>"

definition set_password_verifier :: "string \<Rightarrow> Keystore \<Rightarrow> Keystore" where
  "set_password_verifier verifier k = k\<lparr>password_verifier := Some verifier\<rparr>"

definition get_password_verifier :: "Keystore \<Rightarrow> string option" where
  "get_password_verifier k = password_verifier k"

definition clear_password_verifier :: "Keystore \<Rightarrow> Keystore" where
  "clear_password_verifier k = k\<lparr>password_verifier := None\<rparr>"

section \<open>The document\<close>

fun save_metadata :: "json_crate \<Rightarrow> (string \<times> KeyMetadata) list \<Rightarrow> ini \<Rightarrow> (string, ini) result" where
  "save_metadata J [] ini = Inr ini"
| "save_metadata J ((key_id, metadata) # ms) ini =
     (case json_enc J metadata of
        Inl e \<Rightarrow> Inl (''Failed to serialize key metadata: '' @ e)
      | Inr metadata_str \<Rightarrow> save_metadata J ms (ini_set ''KeyMetadata'' key_id metadata_str ini))"

definition keystore_to_ini :: "json_crate \<Rightarrow> Keystore \<Rightarrow> (string, ini) result" where
  "keystore_to_ini J k =
     (let ini1 = ini_set ''MasterKey'' ''salt'' (master_key_salt k) [];
          ini2 = (case password_verifier k of Some v \<Rightarrow> ini_set ''MasterKey'' ''verifier'' v ini1 | None \<Rightarrow> ini1);
          ini3 = fold (\<lambda>(ctxt, counter). ini_set ''NonceCounters'' ctxt (show_nat (unat counter))) (nonce_counters k) ini2
      in save_metadata J (key_metadata k) ini3)"

definition to_ini_string :: "json_crate \<Rightarrow> ini_crate \<Rightarrow> Keystore \<Rightarrow> (string, string) result" where
  "to_ini_string J I k = (case keystore_to_ini J k of Inl e \<Rightarrow> Inl e | Inr ini \<Rightarrow> Inr (ini_text I ini))"

definition parse_bool_strict :: "string \<Rightarrow> bool option" where
  "parse_bool_strict s = (if s = ''true'' then Some True else if s = ''false'' then Some False else None)"

definition parse_u64 :: "string \<Rightarrow> u64 option" where
  "parse_u64 s = map_option word_of_nat (parse_unsigned 64 s)"

text \<open>Colon-separated fields; the description is joined from the sixth field on, and so ends
  with the field of the flag.\<close>

definition parse_legacy_metadata :: "string \<Rightarrow> KeyMetadata option" where
  "parse_legacy_metadata s =
     (let parts = split_char (CHR '':'') s in
      if length parts < 7 then None
      else
        (case parse_u64 (parts ! 0) of None \<Rightarrow> None | Some created_at \<Rightarrow>
         (case parse_u64 (parts ! 1) of None \<Rightarrow> None | Some last_used \<Rightarrow>
         (case parse_u64 (parts ! 2) of None \<Rightarrow> None | Some usage_count \<Rightarrow>
         (case parse_u64 (parts ! 3) of None \<Rightarrow> None | Some message_count \<Rightarrow>
         (case parse_u64 (parts ! 4) of None \<Rightarrow> None | Some data_size_bytes \<Rightarrow>
         (case parse_bool_strict (parts ! 6) of None \<Rightarrow> None | Some is_revoked \<Rightarrow>
            Some \<lparr>km_created_at = created_at, km_last_used = last_used, km_usage_count = usage_count,
                  km_message_count = message_count, km_data_size_bytes = data_size_bytes,
                  km_description = join '':'' (drop 5 parts), km_is_revoked = is_revoked\<rparr>)))))))"

definition load_metadata :: "json_crate \<Rightarrow> string \<Rightarrow> KeyMetadata option" where
  "load_metadata J s = (case json_dec J s of Some m \<Rightarrow> Some m | None \<Rightarrow> parse_legacy_metadata s)"

text \<open>The properties of a section that parse, as a map.\<close>

definition load_section_with :: "(string \<Rightarrow> 'a option) \<Rightarrow> string \<Rightarrow> ini \<Rightarrow> (string, 'a) hmap" where
  "load_section_with f sec ini =
     (case ini_section ini sec of
        None \<Rightarrow> []
      | Some ps \<Rightarrow> fold (\<lambda>(k, v) m. case f v of Some a \<Rightarrow> hm_insert k a m | None \<Rightarrow> m) ps [])"

definition ini_to_keystore :: "json_crate \<Rightarrow> ini \<Rightarrow> Keystore" where
  "ini_to_keystore J ini =
     \<lparr>master_key_salt = (case ini_get ini ''MasterKey'' ''salt'' of Some s \<Rightarrow> s | None \<Rightarrow> []),
      password_verifier = ini_get ini ''MasterKey'' ''verifier'',
      nonce_counters = load_section_with parse_u64 ''NonceCounters'' ini,
      key_metadata = load_section_with (load_metadata J) ''KeyMetadata'' ini,
      ks_file_path = None\<rparr>"

definition from_ini_string :: "json_crate \<Rightarrow> ini_crate \<Rightarrow> string \<Rightarrow> (string, Keystore) result" where
  "from_ini_string J I ini_string =
     (case ini_parse I ini_string of
        Inl e \<Rightarrow> Inl (''Failed to parse keystore INI: '' @ e)
      | Inr ini \<Rightarrow> Inr (ini_to_keystore J ini))"

section \<open>The file\<close>

record machine =
  env_computername :: "string option"
  env_hostname :: "string option"
  env_username :: "string option"
  env_user :: "string option"
  env_mircdir :: "string option"
  current_dir :: "(string, string) result"

record disk =
  dk_files :: "(path, bytes) hmap"
  dk_writable :: bool

definition fs_read :: "disk \<Rightarrow> path \<Rightarrow> (string, bytes) result" where
  "fs_read d p = ok_or ''The system cannot find the file specified. (os error 2)'' (hm_get (dk_files d) p)"

definition fs_write :: "path \<Rightarrow> bytes \<Rightarrow> disk \<Rightarrow> (string, unit) result \<times> disk" where
  "fs_write p content d =
     (if dk_writable d then (Inr (), d\<lparr>dk_files := hm_insert p content (dk_files d)\<rparr>)
      else (Inl ''Access is denied. (os error 5)'', d))"

definition default_path :: "machine \<Rightarrow> (string, path) result" where
  "default_path E =
     (case env_mircdir E of
        Some mirc_path \<Rightarrow> Inr (mirc_path, ''fish_11_keystore.ini'')
      | None \<Rightarrow> (case current_dir E of Inl e \<Rightarrow> Inl e | Inr dir \<Rightarrow> Inr (dir, ''fish_11_keystore.ini'')))"

definition or_env :: "string option \<Rightarrow> string option \<Rightarrow> string" where
  "or_env a b = (case a of Some s \<Rightarrow> s | None \<Rightarrow> (case b of Some s \<Rightarrow> s | None \<Rightarrow> []))"

definition key_seed :: "machine \<Rightarrow> string \<Rightarrow> string" where
  "key_seed E dir = or_env (env_computername E) (env_hostname E) @ or_env (env_username E) (env_user E) @ dir @
     ''fish_11_keystore_encryption_salt''"

definition derive_keystore_encryption_key :: "ext_lib \<Rightarrow> machine \<Rightarrow> (string, bytes) result" where
  "derive_keystore_encryption_key L E =
     (case current_dir E of Inl e \<Rightarrow> Inl e | Inr dir \<Rightarrow> Inr (sha256 L (as_bytes (key_seed E dir))))"

definition encrypt_keystore_data :: "ext_lib \<Rightarrow> machine \<Rightarrow> bytes \<Rightarrow> string \<Rightarrow> (string, bytes) result" where
  "encrypt_keystore_data L E nonce data =
     (case derive_keystore_encryption_key L E of
        Inl e \<Rightarrow> Inl e
      | Inr key \<Rightarrow>
          (case cseal L key nonce (as_bytes data) of
             None \<Rightarrow> Inl ''Encryption failed: aead::Error''
           | Some ciphertext \<Rightarrow> Inr (nonce @ ciphertext)))"

definition decrypt_keystore_data :: "ext_lib \<Rightarrow> machine \<Rightarrow> bytes \<Rightarrow> (string, string) result" where
  "decrypt_keystore_data L E encrypted_data =
     (if length encrypted_data < 12 then Inl ''Encrypted data too short''
      else
        (case derive_keystore_encryption_key L E of
           Inl e \<Rightarrow> Inl e
         | Inr key \<Rightarrow>
             (case copen L key (take 12 encrypted_data) (drop 12 encrypted_data) of
                None \<Rightarrow> Inl ''Decryption failed: aead::Error''
              | Some plaintext \<Rightarrow> ok_or ''Invalid UTF-8 in decrypted data'' (from_utf8 plaintext))))"

definition is_encrypted_data :: "bytes \<Rightarrow> bool" where
  "is_encrypted_data data = (if length data < 12 then False else \<not> list_all (\<lambda>b. b = 0) (take 12 data))"

definition load_from_file ::
  "ext_lib \<Rightarrow> json_crate \<Rightarrow> ini_crate \<Rightarrow> machine \<Rightarrow> disk \<Rightarrow> path \<Rightarrow> (string, Keystore) result" where
  "load_from_file L J I E d path =
     (case fs_read d path of
        Inl e \<Rightarrow> Inl e
      | Inr file_content \<Rightarrow>
          (let plaintext = ok_or ''Failed to read keystore as plaintext'' (from_utf8 file_content);
               ini_string =
                 (if is_encrypted_data file_content then
                    (case decrypt_keystore_data L E file_content of
                       Inr decrypted \<Rightarrow> Inr decrypted
                     | Inl _ \<Rightarrow> plaintext)
                  else plaintext)
           in case ini_string of
                Inl e \<Rightarrow> Inl e
              | Inr s \<Rightarrow>
                  (case from_ini_string J I s of
                     Inl e \<Rightarrow> Inl e
                   | Inr k \<Rightarrow> Inr (k\<lparr>ks_file_path := Some path\<rparr>))))"

definition save_to_path ::
  "ext_lib \<Rightarrow> json_crate \<Rightarrow> ini_crate \<Rightarrow> machine \<Rightarrow> bytes \<Rightarrow> Keystore \<Rightarrow> path \<Rightarrow> disk \<Rightarrow> (string, unit) result \<times> disk" where
  "save_to_path L J I E nonce k path d =
     (case to_ini_string J I k of
        Inl e \<Rightarrow> (Inl e, d)
      | Inr ini_string \<Rightarrow>
          (case encrypt_keystore_data L E nonce ini_string of
             Inl e \<Rightarrow> (Inl e, d)
           | Inr encrypted_data \<Rightarrow> fs_write path encrypted_data d))"

definition save_to_file ::
  "ext_lib \<Rightarrow> json_crate \<Rightarrow> ini_crate \<Rightarrow> machine \<Rightarrow> bytes \<Rightarrow> Keystore \<Rightarrow> disk \<Rightarrow> (string, unit) result \<times> disk" where
  "save_to_file L J I E nonce k d =
     (case ks_file_path k of
        Some path \<Rightarrow> save_to_path L J I E nonce k path d
      | None \<Rightarrow> (Inl ''No file path specified for keystore'', d))"

definition load_keystore :: "ext_lib \<Rightarrow> json_crate \<Rightarrow> ini_crate \<Rightarrow> machine \<Rightarrow> disk \<Rightarrow> (string, Keystore) result" where
  "load_keystore L J I E d = (case default_path E of Inl e \<Rightarrow> Inl e | Inr path \<Rightarrow> load_from_file L J I E d path)"

definition save_keystore ::
  "ext_lib \<Rightarrow> json_crate \<Rightarrow> ini_crate \<Rightarrow> machine \<Rightarrow> bytes \<Rightarrow> Keystore \<Rightarrow> disk \<Rightarrow> (string, unit) result \<times> disk" where
  "save_keystore L J I E nonce k d =
     (case default_path E of Inl e \<Rightarrow> (Inl e, d) | Inr path \<Rightarrow> save_to_path L J I E nonce k path d)"

section \<open>The encrypted text file\<close>

definition ENCRYPTED_KEYSTORE_HEADER :: string where
  "ENCRYPTED_KEYSTORE_HEADER = ''# FiSH_11_ENCRYPTED_KEYSTORE_V1'' @ [CHR 0x0A]"

definition derive_system_specific_key :: "ext_lib \<Rightarrow> machine \<Rightarrow> bytes" where
  "derive_system_specific_key L E =
     sha256 L (as_bytes (key_seed E (case current_dir E of Inr dir \<Rightarrow> dir | Inl _ \<Rightarrow> [])))"

definition encrypt_with_key :: "ext_lib \<Rightarrow> bytes \<Rightarrow> bytes \<Rightarrow> bytes \<Rightarrow> (string, bytes) result" where
  "encrypt_with_key L nonce data key =
     (case cseal L key nonce data of
        None \<Rightarrow> Inl ''Encryption failed: aead::Error''
      | Some ciphertext \<Rightarrow> Inr (nonce @ ciphertext))"

definition decrypt_with_key :: "ext_lib \<Rightarrow> bytes \<Rightarrow> bytes \<Rightarrow> (string, bytes) result" where
  "decrypt_with_key L encrypted_data key =
     (if length encrypted_data < 12 then Inl ''Encrypted data too short''
      else ok_or ''Decryption failed: aead::Error'' (copen L key (take 12 encrypted_data) (drop 12 encrypted_data)))"

definition encrypt_and_write ::
  "ext_lib \<Rightarrow> json_crate \<Rightarrow> ini_crate \<Rightarrow> bytes \<Rightarrow> Keystore \<Rightarrow> path \<Rightarrow> bytes \<Rightarrow> disk \<Rightarrow> (string, unit) result \<times> disk" where
  "encrypt_and_write L J I nonce k path key d =
     (case to_ini_string J I k of
        Inl e \<Rightarrow> (Inl e, d)
      | Inr ini_string \<Rightarrow>
          (case encrypt_with_key L nonce (as_bytes ini_string) key of
             Inl e \<Rightarrow> (Inl e, d)
           | Inr encrypted_data \<Rightarrow>
               fs_write path (as_bytes (ENCRYPTED_KEYSTORE_HEADER @ b64_enc L encrypted_data @ [CHR 0x0A])) d))"

definition read_decrypt_parse ::
  "ext_lib \<Rightarrow> json_crate \<Rightarrow> ini_crate \<Rightarrow> disk \<Rightarrow> path \<Rightarrow> bytes \<Rightarrow> (string, Keystore) result" where
  "read_decrypt_parse L J I d path key =
     (case fs_read d path of
        Inl e \<Rightarrow> Inl e
      | Inr bs \<Rightarrow>
          (case from_utf8 bs of
             None \<Rightarrow> Inl ''stream did not contain valid UTF-8''
           | Some content \<Rightarrow>
               if \<not> starts_with ENCRYPTED_KEYSTORE_HEADER content then Inl ''Not an encrypted keystore file''
               else if length (str_lines content) < 2 then Inl ''Invalid encrypted keystore format''
               else
                 (case b64_dec L (str_lines content ! 1) of
                    Inl e \<Rightarrow> Inl (''Failed to decode base64: '' @ e)
                  | Inr encrypted_data \<Rightarrow>
                      (case decrypt_with_key L encrypted_data key of
                         Inl e \<Rightarrow> Inl e
                       | Inr decrypted_bytes \<Rightarrow>
                           (case from_utf8 decrypted_bytes of
                              None \<Rightarrow> Inl ''Failed to convert decrypted data to string''
                            | Some decrypted_content \<Rightarrow>
                                (case from_ini_string J I decrypted_content of
                                   Inl e \<Rightarrow> Inl e
                                 | Inr k \<Rightarrow> Inr (k\<lparr>ks_file_path := Some path\<rparr>)))))))"

definition save_encrypted_keystore_to_path ::
  "ext_lib \<Rightarrow> json_crate \<Rightarrow> ini_crate \<Rightarrow> machine \<Rightarrow> bytes \<Rightarrow> Keystore \<Rightarrow> path \<Rightarrow> disk \<Rightarrow> (string, unit) result \<times> disk" where
  "save_encrypted_keystore_to_path L J I E nonce k path =
     encrypt_and_write L J I nonce k path (derive_system_specific_key L E)"

definition load_encrypted_keystore_from_path ::
  "ext_lib \<Rightarrow> json_crate \<Rightarrow> ini_crate \<Rightarrow> machine \<Rightarrow> disk \<Rightarrow> path \<Rightarrow> (string, Keystore) result" where
  "load_encrypted_keystore_from_path L J I E d path =
     read_decrypt_parse L J I d path (derive_system_specific_key L E)"

end
