(* ===== verification/MasterKeyDll.thy ===== *)
theory MasterKeyDll
  imports Keystore Passwords
begin

text \<open>
  The exports on the master key (\<open>fish_11_dll/src/dll_interface/fish11_masterkey.rs\<close>), the
  password change (\<open>master_key/password_change.rs\<close>) and the encrypted configuration file
  (\<open>config/encrypted_file_storage.rs\<close>).  Two statics hold keys: \<open>KEY_SYSTEM\<close> of the core and
  \<open>MASTER_KEY\<close> of the DLL.  Some saves of the keystore are compiled in debug builds only,
  which \<open>p_debug\<close> says.  \<open>None\<close> is a panic, which ends the process.
\<close>

section \<open>State\<close>

record platform =
  p_lib :: ext_lib
  p_argon :: argon_lib
  p_json :: json_crate
  p_ini :: ini_crate
  p_unicode :: unicode
  p_env :: machine
  p_debug :: bool

text \<open>What one call draws: a salt, the bytes of a new keystore, the nonce of its file.\<close>

record draws =
  d_salt :: string
  d_bytes :: bytes
  d_nonce :: bytes

record key_world =
  KEY_SYSTEM :: KeySystemState
  MASTER_KEY :: "bytes option"
  NONCE_MANAGER :: NonceManager
  w_disk :: disk

definition world_start :: "disk \<Rightarrow> key_world" where
  "world_start d = \<lparr>KEY_SYSTEM = KEY_SYSTEM_INIT, MASTER_KEY = None, NONCE_MANAGER = nonce_manager_new, w_disk = d\<rparr>"

text \<open>\<open>format!("{:x}")\<close> of a digest.\<close>

definition hex_char :: "nat \<Rightarrow> char" where
  "hex_char n = ''0123456789abcdef'' ! n"

definition lower_hex :: "bytes \<Rightarrow> string" where
  "lower_hex bs = concat (map (\<lambda>b. [hex_char (unat b div 16), hex_char (unat b mod 16)]) bs)"

definition key_verifier :: "ext_lib \<Rightarrow> bytes \<Rightarrow> string" where
  "key_verifier L key = lower_hex (sha256 L key)"

definition world_load :: "platform \<Rightarrow> key_world \<Rightarrow> (string, Keystore) result" where
  "world_load P w = load_keystore (p_lib P) (p_json P) (p_ini P) (p_env P) (w_disk w)"

text \<open>A failed save is only logged.\<close>

definition world_save :: "platform \<Rightarrow> draws \<Rightarrow> Keystore \<Rightarrow> key_world \<Rightarrow> key_world" where
  "world_save P d k w =
     w\<lparr>w_disk := snd (save_keystore (p_lib P) (p_json P) (p_ini P) (p_env P) (d_nonce d) k (w_disk w))\<rparr>"

section \<open>Changing the password\<close>

datatype PasswordChangeError =
    CurrentPasswordIncorrect
  | NewPasswordTooWeak string
  | EncryptionFailed string
  | DecryptionFailed string

fun change_error_display :: "PasswordChangeError \<Rightarrow> string" where
  "change_error_display CurrentPasswordIncorrect = ''Current password is incorrect''"
| "change_error_display (NewPasswordTooWeak msg) = ''New password is too weak: '' @ msg"
| "change_error_display (EncryptionFailed msg) = ''Encryption failed: '' @ msg"
| "change_error_display (DecryptionFailed msg) = ''Decryption failed: '' @ msg"

definition change_master_password ::
  "platform \<Rightarrow> string \<Rightarrow> string \<Rightarrow> string \<Rightarrow> string \<Rightarrow> string option \<Rightarrow> (PasswordChangeError, string) result option" where
  "change_master_password P generated current_password current_salt new_password verifier =
     (case validate_password_strength (p_unicode P) new_password of
        None \<Rightarrow> None
      | Some (Inl e) \<Rightarrow> Some (Inl (NewPasswordTooWeak e))
      | Some (Inr _) \<Rightarrow>
          (let checked =
             (case verifier of
                None \<Rightarrow> Inr ()
              | Some v \<Rightarrow>
                  (case derive_master_key_with_salt (p_argon P) generated current_password (Some current_salt) of
                     Inl _ \<Rightarrow> Inl CurrentPasswordIncorrect
                   | Inr (derived_key, _) \<Rightarrow>
                       if key_verifier (p_lib P) derived_key \<noteq> v then Inl CurrentPasswordIncorrect else Inr ()))
           in case checked of
                Inl e \<Rightarrow> Some (Inl e)
              | Inr _ \<Rightarrow>
                  (case derive_master_key (p_argon P) generated new_password of
                     Inl e \<Rightarrow> Some (Inl (EncryptionFailed e))
                   | Inr (_, new_salt) \<Rightarrow> Some (Inr new_salt))))"

definition verify_password :: "platform \<Rightarrow> string \<Rightarrow> string \<Rightarrow> bool" where
  "verify_password P generated password = (case derive_master_key (p_argon P) generated password of Inr _ \<Rightarrow> True | Inl _ \<Rightarrow> False)"

section \<open>The exports\<close>

definition weak_password :: "string \<Rightarrow> string \<Rightarrow> DllError" where
  "weak_password param e = InvalidInput param (''Password validation failed: '' @ e)"

definition FiSH11_MasterKeyInit ::
  "platform \<Rightarrow> draws \<Rightarrow> string \<Rightarrow> key_world \<Rightarrow> ((DllError, string) result \<times> key_world) option" where
  "FiSH11_MasterKeyInit P d input w =
     (if input = [] then Some (Inl (MissingParameter ''password''), w)
      else
        (case validate_password_strength (p_unicode P) input of
           None \<Rightarrow> None
         | Some (Inl e) \<Rightarrow> Some (Inl (weak_password ''password'' e), w)
         | Some (Inr _) \<Rightarrow>
             (case derive_master_key (p_argon P) (d_salt d) input of
                Inl e \<Rightarrow> Some (Inl (InvalidInput ''password'' (''Failed to derive master key: '' @ e)), w)
              | Inr (key, salt) \<Rightarrow>
                  (let w1 = w\<lparr>KEY_SYSTEM := initialize_key_system (p_lib P) input (as_bytes salt) (KEY_SYSTEM w)\<rparr>;
                       k = set_password_verifier (key_verifier (p_lib P) key)
                             (set_master_salt salt (keystore_new (p_lib P) (d_bytes d)))
                   in Some (Inr ''1'', world_save P d k w1)))))"

text \<open>Without a keystore that loads: the key goes to \<open>MASTER_KEY\<close>, the new keystore has no
  verifier and reaches the disk in debug builds only.\<close>

definition unlock_first_time ::
  "platform \<Rightarrow> draws \<Rightarrow> string \<Rightarrow> key_world \<Rightarrow> ((DllError, string) result \<times> key_world) option" where
  "unlock_first_time P d input w =
     (case validate_password_strength (p_unicode P) input of
        None \<Rightarrow> None
      | Some (Inl e) \<Rightarrow> Some (Inl (weak_password ''password'' e), w)
      | Some (Inr _) \<Rightarrow>
          (case derive_master_key (p_argon P) (d_salt d) input of
             Inl e \<Rightarrow> Some (Inl (InvalidInput ''password'' (''Failed to derive master key: '' @ e)), w)
           | Inr (key, salt) \<Rightarrow>
               (let w1 = w\<lparr>MASTER_KEY := Some key\<rparr>;
                    k = set_master_salt salt (keystore_new (p_lib P) (d_bytes d))
                in Some (Inr ''1'', if p_debug P then world_save P d k w1 else w1))))"

definition FiSH11_MasterKeyUnlock ::
  "platform \<Rightarrow> draws \<Rightarrow> string \<Rightarrow> key_world \<Rightarrow> ((DllError, string) result \<times> key_world) option" where
  "FiSH11_MasterKeyUnlock P d input w =
     (if input = [] then Some (Inl (MissingParameter ''password''), w)
      else
        (case world_load P w of
           Inl _ \<Rightarrow> unlock_first_time P d input w
         | Inr keystore \<Rightarrow>
             (case get_master_salt keystore of
                None \<Rightarrow> Some (Inl (InvalidInput ''keystore'' ''No master salt found in keystore''), w)
              | Some salt \<Rightarrow>
                  (case derive_master_key_with_salt (p_argon P) (d_salt d) input (Some salt) of
                     Inl e \<Rightarrow> Some (Inl (InvalidInput ''password'' (''Failed to derive master key: '' @ e)), w)
                   | Inr (key, _) \<Rightarrow>
                       (case get_password_verifier keystore of
                          Some verifier \<Rightarrow>
                            if key_verifier (p_lib P) key \<noteq> verifier
                            then Some (Inl (InvalidInput ''password'' ''Incorrect password''), w)
                            else Some (Inr ''1'', w\<lparr>MASTER_KEY := Some key\<rparr>)
                        | None \<Rightarrow> Some (Inr ''1'', w\<lparr>MASTER_KEY := Some key\<rparr>))))))"

definition FiSH11_MasterKeyLock :: "key_world \<Rightarrow> (DllError, string) result \<times> key_world" where
  "FiSH11_MasterKeyLock w = (Inr ''1'', w\<lparr>KEY_SYSTEM := lock_key_system (KEY_SYSTEM w)\<rparr>)"

definition FiSH11_MasterKeyChangePassword ::
  "platform \<Rightarrow> draws \<Rightarrow> string \<Rightarrow> key_world \<Rightarrow> ((DllError, string) result \<times> key_world) option" where
  "FiSH11_MasterKeyChangePassword P d input w =
     (case splitn_char 2 (CHR '' '') input of
        first # second # _ \<Rightarrow>
          (let old_password = trim first; new_password = trim second in
           if old_password = [] then Some (Inl (MissingParameter ''old_password''), w)
           else if new_password = [] then Some (Inl (MissingParameter ''new_password''), w)
           else
             (case validate_password_strength (p_unicode P) new_password of
                None \<Rightarrow> None
              | Some (Inl e) \<Rightarrow> Some (Inl (weak_password ''new_password'' e), w)
              | Some (Inr _) \<Rightarrow>
                  (case world_load P w of
                     Inl _ \<Rightarrow> Some (Inl (Internal ''Failed to load keystore - master key may not be initialized''), w)
                   | Inr keystore \<Rightarrow>
                       (case get_master_salt keystore of
                          None \<Rightarrow> Some (Inl (Internal ''No master salt found in keystore''), w)
                        | Some current_salt \<Rightarrow>
                            (case change_master_password P (d_salt d) old_password current_salt new_password
                                    (get_password_verifier keystore) of
                               None \<Rightarrow> None
                             | Some (Inl e) \<Rightarrow>
                                 Some (Inl (InvalidInput ''old_password'' (''Password change failed: '' @ change_error_display e)), w)
                             | Some (Inr new_salt) \<Rightarrow>
                                 (case derive_master_key_with_salt (p_argon P) (d_salt d) new_password (Some new_salt) of
                                    Inl e \<Rightarrow>
                                      Some (Inl (InvalidInput ''new_password'' (''Failed to derive new master key: '' @ e)), w)
                                  | Inr (new_key, _) \<Rightarrow>
                                      (let w1 = w\<lparr>MASTER_KEY := Some new_key\<rparr>;
                                           k = set_password_verifier (key_verifier (p_lib P) new_key)
                                                 (set_master_salt new_salt (keystore_new (p_lib P) (d_bytes d)))
                                       in Some (Inr ''1'', if p_debug P then world_save P d k w1 else w1))))))))
      | _ \<Rightarrow> Some (Inl (InvalidInput ''input'' ''expected format: <old_password> <new_password>''), w))"

definition FiSH11_MasterKeyStatus :: "key_world \<Rightarrow> (DllError, string) result" where
  "FiSH11_MasterKeyStatus w = Inr (if is_key_system_unlocked (KEY_SYSTEM w) then ''unlocked'' else ''locked'')"

definition FiSH11_MasterKeyIsUnlocked :: "key_world \<Rightarrow> (DllError, string) result" where
  "FiSH11_MasterKeyIsUnlocked w = Inr (if is_key_system_unlocked (KEY_SYSTEM w) then ''1'' else ''0'')"

definition is_master_key_unlocked :: "key_world \<Rightarrow> bool" where
  "is_master_key_unlocked w = (MASTER_KEY w \<noteq> None)"

definition get_master_key_from_memory :: "key_world \<Rightarrow> bytes option" where
  "get_master_key_from_memory w = MASTER_KEY w"

section \<open>The encrypted configuration file\<close>

definition config_encrypted :: "disk \<Rightarrow> path \<Rightarrow> (FishError, bool) result" where
  "config_encrypted d config_path =
     (case hm_get (dk_files d) config_path of
        None \<Rightarrow> Inr False
      | Some bs \<Rightarrow>
          (case from_utf8 bs of
             None \<Rightarrow> Inl (FE_ConfigError ''Failed to read config file: stream did not contain valid UTF-8'')
           | Some content \<Rightarrow> Inr (starts_with ENCRYPTED_CONFIG_HEADER content)))"

definition unlock_first :: string where
  "unlock_first = ''master key not unlocked. Use FiSH11_MasterKeyUnlock first.''"

text \<open>\<open>now\<close> is what a configuration that the file does not date takes.\<close>

definition load_encrypted_config_from_file :: "platform \<Rightarrow> nat \<Rightarrow> string \<Rightarrow> key_world \<Rightarrow> (FishError, FishConfig) result option" where
  "load_encrypted_config_from_file P now content w =
     (let lines = str_lines content in
      if lines = [] \<or> \<not> starts_with ENCRYPTED_CONFIG_HEADER (hd lines) then Some (Inl (FE_ConfigError ''Invalid encrypted config header''))
      else if length lines < 2 then Some (Inl (FE_ConfigError ''Encrypted config file is malformed''))
      else
        (case b64_dec (p_lib P) (lines ! 1) of
           Inl e \<Rightarrow> Some (Inl (FE_ConfigError (''Failed to decode encrypted data: '' @ e)))
         | Inr encrypted_bytes \<Rightarrow>
             (case blob_from_bytes encrypted_bytes of
                None \<Rightarrow> Some (Inl (FE_ConfigError ''Failed to parse encrypted blob''))
              | Some encrypted_blob \<Rightarrow>
                  (case get_master_key_from_memory w of
                     None \<Rightarrow> Some (Inl (FE_ConfigError (''Encrypted config detected but '' @ unlock_first)))
                   | Some master_key \<Rightarrow>
                       (case derive_config_kek (p_lib P) master_key of
                          None \<Rightarrow> None
                        | Some config_kek \<Rightarrow>
                            Some
                             (case decrypt_data (p_lib P) encrypted_blob config_kek of
                                Inl e \<Rightarrow> Inl (FE_ConfigError (''Failed to decrypt config: '' @ e))
                              | Inr decrypted_bytes \<Rightarrow>
                                  (case from_utf8 decrypted_bytes of
                                     None \<Rightarrow> Inl (FE_ConfigError ''Failed to convert decrypted data to string'')
                                   | Some decrypted_content \<Rightarrow>
                                       (case ini_parse (p_ini P) decrypted_content of
                                          Inl e \<Rightarrow> Inl (FE_ConfigError (''Failed to parse decrypted INI content: '' @ e))
                                        | Inr ini \<Rightarrow> Inr (ini_to_config now ini)))))))))"

text \<open>A file that is not encrypted is loaded as \<open>load_config\<close> does, which reads no state then.\<close>

definition load_encrypted_config ::
  "platform \<Rightarrow> nat \<Rightarrow> store \<Rightarrow> path \<Rightarrow> key_world \<Rightarrow> (FishError, FishConfig) result option" where
  "load_encrypted_config P now st config_path w =
     (case hm_get (dk_files (w_disk w)) config_path of
        None \<Rightarrow> Some (Inr (fish_config_new now))
      | Some bs \<Rightarrow>
          (case config_encrypted (w_disk w) config_path of
             Inl e \<Rightarrow> Some (Inl e)
           | Inr True \<Rightarrow> load_encrypted_config_from_file P now (str_of bs) w
           | Inr False \<Rightarrow> Some (fst (load_config (p_lib P) (p_ini P) [] now (from_utf8 bs) st))))"

definition save_encrypted_config ::
  "platform \<Rightarrow> FishConfig \<Rightarrow> path \<Rightarrow> key_world \<Rightarrow> ((FishError, unit) result \<times> key_world) option" where
  "save_encrypted_config P config config_path w =
     (let ini_string = ini_text (p_ini P) (config_to_ini config) in
      case get_master_key_from_memory w of
        None \<Rightarrow> Some (Inl (FE_ConfigError (''Cannot save encrypted config: '' @ unlock_first)), w)
      | Some master_key \<Rightarrow>
          (case derive_config_kek (p_lib P) master_key of
             None \<Rightarrow> None
           | Some config_kek \<Rightarrow>
               Some
                (case encrypt_data (p_lib P) (as_bytes ini_string) config_kek ''config'' 0 (NONCE_MANAGER w) of
                   (Inl e, m) \<Rightarrow> (Inl (FE_ConfigError (''Encryption failed: '' @ e)), w\<lparr>NONCE_MANAGER := m\<rparr>)
                 | (Inr blob, m) \<Rightarrow>
                     (case fs_write config_path
                             (as_bytes (ENCRYPTED_CONFIG_HEADER @ [CHR 0x0A] @ b64_enc (p_lib P) (blob_to_bytes blob) @ [CHR 0x0A]))
                             (w_disk w) of
                        (Inl e, _) \<Rightarrow> (Inl (FE_ConfigError (''Failed to write encrypted config: '' @ e)), w\<lparr>NONCE_MANAGER := m\<rparr>)
                      | (Inr _, d) \<Rightarrow> (Inr (), w\<lparr>NONCE_MANAGER := m, w_disk := d\<rparr>)))))"

end
