(* ===== verification/MasterKeyFacts.thy ===== *)
theory MasterKeyFacts
  imports MasterKey
begin

text \<open>
  What the master key layer guarantees: nonces of one process do not repeat, encrypted
  configurations and values are read back, and what is the same again after a restart.
\<close>

section \<open>Nonces of one process\<close>

text \<open>The requests of a process, one key identifier after the other.\<close>

fun draw :: "string list \<Rightarrow> NonceManager \<Rightarrow> (string, bytes \<times> u64) result list" where
  "draw [] m = []"
| "draw (k # ks) m = (let (r, m') = get_next_nonce k m in r # draw ks m')"

text \<open>After \<open>h k\<close> requests for \<open>k\<close> the counter stands there and no used nonce is beyond it.\<close>

definition drawn :: "(string \<Rightarrow> nat) \<Rightarrow> NonceManager \<Rightarrow> bool" where
  "drawn h m \<longleftrightarrow> (\<forall>k. get_counter k m = word_of_nat (h k) \<and>
     (\<forall>u. hm_get (used_nonces m) k = Some u \<longrightarrow> (\<forall>n \<in> set u. unat n \<le> h k)))"

lemma drawn_new: "drawn (\<lambda>_. 0) nonce_manager_new"
  by (simp add: drawn_def nonce_manager_new_def get_counter_def)

lemma drawn_step:
  assumes "drawn h m" "h k + 1 < 2 ^ 64"
  shows "\<exists>m'. get_next_nonce k m = (Inr (counter_nonce (word_of_nat (h k + 1)), word_of_nat (h k + 1)), m') \<and>
    drawn (h(k := h k + 1)) m'"
proof -
  define c :: u64 where "c = word_of_nat (h k + 1)"
  define used where "used = (case hm_get (used_nonces m) k of Some u \<Rightarrow> u | None \<Rightarrow> [])"
  have "get_counter k m + 1 = c" using assms by (simp add: c_def drawn_def)
  moreover have "unat c = h k + 1" using assms(2) unfolding c_def by (subst unat_of_nat) simp
  ultimately have c: "get_counter k m + 1 = c" "unat c = h k + 1" by blast+
  have u: "n \<in> set used \<Longrightarrow> unat n \<le> h k" for n
    using assms(1) by (cases "hm_get (used_nonces m) k") (auto simp: used_def drawn_def)
  have new: "c \<notin> set used" using u [of c] c(2) by auto
  define used' where "used' = (if 10000 < length (c # used) then filter (\<lambda>n. c - 10000 < n) (c # used) else c # used)"
  have m': "get_next_nonce k m = (Inr (counter_nonce c, c),
      m\<lparr>counters := hm_insert k c (counters m), used_nonces := hm_insert k used' (hm_insert k used (used_nonces m))\<rparr>)"
    "set used' \<subseteq> insert c (set used)"
    using new unfolding get_next_nonce_def Let_def used_def [symmetric] c(1) by (auto simp: used'_def)
  have "unat n \<le> h k + 1" if "n \<in> set used'" for n
    using that m'(2) u [of n] c(2) by fastforce
  moreover have "get_counter k' m = word_of_nat (h k')" for k' using assms(1) by (simp add: drawn_def)
  ultimately have "drawn (h(k := h k + 1))
      (m\<lparr>counters := hm_insert k c (counters m), used_nonces := hm_insert k used' (hm_insert k used (used_nonces m))\<rparr>)"
    using assms(1) by (auto simp: drawn_def get_counter_def c_def)
  then show ?thesis using m'(1) unfolding c_def by blast
qed

lemma draw_counts:
  assumes "drawn h m" "\<And>k. h k + length ks < 2 ^ 64"
  shows "length (draw ks m) = length ks \<and> (\<forall>i < length ks. draw ks m ! i =
    (let c = word_of_nat (h (ks ! i) + count_list (take (Suc i) ks) (ks ! i)) in Inr (counter_nonce c, c)))"
  using assms
proof (induction ks arbitrary: h m)
  case (Cons k ks)
  have b: "h k + 1 < 2 ^ 64" using Cons.prems(2) [of k] by simp
  obtain m' where m': "get_next_nonce k m = (Inr (counter_nonce (word_of_nat (h k + 1)), word_of_nat (h k + 1)), m')"
    "drawn (h(k := h k + 1)) m'"
    using drawn_step [OF Cons.prems(1) b] by blast
  have IH: "length (draw ks m') = length ks \<and> (\<forall>i < length ks. draw ks m' ! i =
    (let c = word_of_nat ((h(k := h k + 1)) (ks ! i) + count_list (take (Suc i) ks) (ks ! i)) in Inr (counter_nonce c, c)))"
  proof (rule Cons.IH [OF m'(2)])
    show "(h(k := h k + 1)) k' + length ks < 2 ^ 64" for k'
      using Cons.prems(2) [of k'] Cons.prems(2) [of k] by simp
  qed
  show ?case
  proof (intro conjI allI impI)
    fix i assume i: "i < length (k # ks)"
    show "draw (k # ks) m ! i = (let c = word_of_nat (h ((k # ks) ! i) + count_list (take (Suc i) (k # ks)) ((k # ks) ! i))
      in Inr (counter_nonce c, c))"
    proof (cases i)
      case (Suc j)
      then show ?thesis using IH i by (auto simp: m'(1) Let_def add_ac)
    qed (simp add: m'(1) Let_def add.commute)
  qed (use IH in \<open>simp add: m'(1)\<close>)
qed simp

lemma count_take_less:
  assumes "i < j" "j < length ks" "ks ! i = ks ! j"
  shows "count_list (take (Suc i) ks) (ks ! i) < count_list (take (Suc j) ks) (ks ! j)"
proof -
  have "take j ks = take (Suc i) ks @ drop (Suc i) (take j ks)"
    using assms by (metis Suc_leI append_take_drop_id min.absorb1 take_take)
  then have "count_list (take (Suc i) ks) x \<le> count_list (take j ks) x" for x
    by (metis count_list_append le_add1)
  then have "count_list (take (Suc i) ks) (ks ! i) \<le> count_list (take j ks) (ks ! i)" .
  moreover have "count_list (take (Suc j) ks) (ks ! j) = Suc (count_list (take j ks) (ks ! j))"
    using assms(2) by (simp add: take_Suc_conv_app_nth)
  ultimately show ?thesis using assms(3) by simp
qed

text \<open>C21: in one process the nonces asked for one key identifier are 1, 2, 3 and so on, whatever
  the other requests are, none of the requests fails, and no nonce comes twice for a key.\<close>

theorem nonces_never_repeat:
  assumes "length ks < 2 ^ 64"
  shows "\<exists>cs. draw ks nonce_manager_new = map (\<lambda>c. Inr (counter_nonce c, c)) cs \<and>
    (\<forall>i < length ks. cs ! i = word_of_nat (count_list (take (Suc i) ks) (ks ! i))) \<and>
    distinct (zip ks (map counter_nonce cs))"
proof -
  define cs :: "u64 list" where "cs = map (\<lambda>i. word_of_nat (count_list (take (Suc i) ks) (ks ! i))) [0..<length ks]"
  have d: "draw ks nonce_manager_new = map (\<lambda>c. Inr (counter_nonce c, c)) cs"
    using draw_counts [OF drawn_new, of ks] assms by (intro nth_equalityI) (simp_all add: cs_def Let_def)
  have n: "cs ! i = word_of_nat (count_list (take (Suc i) ks) (ks ! i))" "unat (cs ! i) = count_list (take (Suc i) ks) (ks ! i)"
    if "i < length ks" for i
  proof -
    show "cs ! i = word_of_nat (count_list (take (Suc i) ks) (ks ! i))" using that by (simp add: cs_def)
    moreover have "count_list (take (Suc i) ks) (ks ! i) < 2 ^ 64"
      using count_le_length [of "take (Suc i) ks" "ks ! i"] assms by (auto intro: le_less_trans)
    ultimately show "unat (cs ! i) = count_list (take (Suc i) ks) (ks ! i)" by (simp add: unat_of_nat)
  qed
  have ne: "(ks ! i, counter_nonce (cs ! i)) \<noteq> (ks ! j, counter_nonce (cs ! j))" if "i < j" "j < length ks" for i j
    using count_take_less [of i j ks] n(2) [of i] n(2) [of j] that by auto
  have "distinct (zip ks (map counter_nonce cs))"
    unfolding distinct_conv_nth using ne by (auto simp: cs_def neq_iff) (metis ne)+
  then show ?thesis using d n(1) by blast
qed

lemma nonces_never_repeat_witness:
  "\<exists>cs. draw [''config'', ''log'', ''config''] nonce_manager_new = map (\<lambda>c. Inr (counter_nonce c, c)) cs \<and>
    cs ! 2 = 2 \<and> distinct (zip [''config'', ''log'', ''config''] (map counter_nonce cs))"
proof -
  obtain cs where "draw [''config'', ''log'', ''config''] nonce_manager_new = map (\<lambda>c. Inr (counter_nonce c, c)) cs"
    "\<forall>i < 3. cs ! i = word_of_nat (count_list (take (Suc i) [''config'', ''log'', ''config'']) ([''config'', ''log'', ''config''] ! i))"
    "distinct (zip [''config'', ''log'', ''config''] (map counter_nonce cs))"
    using nonces_never_repeat [of "[''config'', ''log'', ''config'']"] by auto
  moreover have "count_list (take (Suc 2) [''config'', ''log'', ''config'']) ([''config'', ''log'', ''config''] ! 2) = 2"
    by code_simp
  ultimately show ?thesis by fastforce
qed

section \<open>Encrypted configurations\<close>

lemma blob_read: "blob_from_bytes (blob_to_bytes b) = Some b"
  using u64_range [of "eb_nonce_counter b"] u32_range [of "eb_generation b"]
  by (simp add: blob_from_bytes_def blob_to_bytes_def numeral_eq_Suc [of "num.Bit1 num.One"])

text \<open>The file around a blob.\<close>

definition framed :: "ext_lib \<Rightarrow> EncryptedBlob \<Rightarrow> string" where
  "framed L b = ENCRYPTED_CONFIG_HEADER @ CHR 0x0A # b64_enc L (blob_to_bytes b) @ [CHR 0x0A]"

lemma encrypt_config_data_framed:
  assumes "lib_ok L" "get_next_nonce ''config'' m = (Inr (nonce, counter), m')" "length nonce = 12"
  obtains kek c where "derive_config_kek L k = Some kek" "length kek = 32" "cseal L kek nonce (as_bytes data) = Some c"
    "copen L kek nonce c = Some (as_bytes data)"
    "encrypt_config_data L data k m = Some (Inr (as_bytes (framed L (blob_new 0 counter c))), m')"
proof -
  obtain kek where kek: "derive_config_kek L k = Some kek" "length kek = 32"
    using derive_subkey_some [of L k "''config''"] assms(1) by (auto simp: derive_config_kek_def lib_ok_def)
  obtain c where c: "cseal L kek nonce (as_bytes data) = Some c" "copen L kek nonce c = Some (as_bytes data)"
    using caead_seal [of L kek nonce "as_bytes data"] kek(2) assms(1,3) by (auto simp: lib_ok_def)
  show ?thesis
    by (rule that [OF kek c]) (simp add: encrypt_config_data_def kek(1) encrypt_data_def assms(2) c(1) framed_def)
qed

lemma framed_facts:
  assumes "lib_ok L"
  shows "from_utf8 (as_bytes (framed L b)) = Some (framed L b)"
    "str_lines (framed L b) = [ENCRYPTED_CONFIG_HEADER, b64_enc L (blob_to_bytes b)]"
proof -
  have g: "list_all graphic (b64_enc L (blob_to_bytes b))" using assms by (auto simp: lib_ok_def b64_graphic)
  have nl: "utf8_valid (as_bytes [CHR 0x0A])" by (rule ascii_valid) simp
  have "utf8_valid (as_bytes ENCRYPTED_CONFIG_HEADER @ as_bytes [CHR 0x0A] @ as_bytes (b64_enc L (blob_to_bytes b)) @ as_bytes [CHR 0x0A])"
    using utf8_valid_ascii [OF header_facts(4)] graphic_valid [OF g] nl by (intro utf8_valid_append)
  then have "utf8_valid (as_bytes (framed L b))" by (simp add: framed_def as_bytes_def)
  then show "from_utf8 (as_bytes (framed L b)) = Some (framed L b)" by (simp add: from_utf8_def)
  show "str_lines (framed L b) = [ENCRYPTED_CONFIG_HEADER, b64_enc L (blob_to_bytes b)]"
    unfolding framed_def using graphic_no_breaks [OF g] header_facts(1,2) by (intro two_lines) auto
qed

text \<open>a configuration encrypted under a master key is recognised as encrypted and decrypts
  to the same text under that key, as long as the nonce manager hands out a nonce; the
  nonce manager afterwards is the one after that nonce.\<close>

theorem encrypted_config_roundtrip:
  assumes "lib_ok L" "utf8_valid (as_bytes data)" "get_next_nonce ''config'' m = (Inr (nonce, counter), m')"
  shows "\<exists>file. encrypt_config_data L data k m = Some (Inr file, m') \<and> is_encrypted_config file \<and>
    decrypt_config_data L file k = Some (Inr data)"
proof -
  have n: "nonce = counter_nonce counter"
    using assms(3) by (auto simp: get_next_nonce_def Let_def split: if_splits)
  obtain kek c where e: "derive_config_kek L k = Some kek" "copen L kek nonce c = Some (as_bytes data)"
    "encrypt_config_data L data k m = Some (Inr (as_bytes (framed L (blob_new 0 counter c))), m')"
    by (rule encrypt_config_data_framed [OF assms(1,3)]) (auto simp: n)
  have "decrypt_config_data L (as_bytes (framed L (blob_new 0 counter c))) k = Some (Inr data)"
    using assms(1) e(2) n
    by (simp add: decrypt_config_data_def framed_facts [OF assms(1)] header_facts(3) e(1) blob_read decrypt_data_def
        lib_ok_def b64_roundtrip blob_new_def from_utf8_def [of "as_bytes data"] assms(2))
  moreover have "is_encrypted_config (as_bytes (framed L (blob_new 0 counter c)))"
    by (simp add: is_encrypted_config_def framed_facts [OF assms(1)] header_facts(3))
  ultimately show ?thesis using e(3) by blast
qed

lemma first_nonce:
  "\<exists>m'. get_next_nonce k nonce_manager_new = (Inr (counter_nonce 1, 1), m')"
  using drawn_step [OF drawn_new, of k] by auto

lemma encrypted_config_roundtrip_witness:
  "\<exists>file m'. encrypt_config_data ref_lib ''[FiSH11]'' (replicate 32 1) nonce_manager_new = Some (Inr file, m') \<and>
    decrypt_config_data ref_lib file (replicate 32 1) = Some (Inr ''[FiSH11]'')"
proof -
  have u: "utf8_valid (as_bytes ''[FiSH11]'')" by (rule graphic_valid) code_simp
  obtain m' where "get_next_nonce ''config'' nonce_manager_new = (Inr (counter_nonce 1, 1), m')" using first_nonce by blast
  from encrypted_config_roundtrip [OF ref_lib_ok u this] show ?thesis by blast
qed

text \<open>C26: two processes that save a configuration under one master password use the same key
  with the same nonce for their first file, whatever the configurations are: every process
  counts from one, and the counter is not stored.\<close>

theorem first_nonce_of_every_process:
  assumes "lib_ok L"
  shows "\<exists>kek. \<forall>data. \<exists>c m'. cseal L kek (counter_nonce 1) (as_bytes data) = Some c \<and>
    encrypt_config_data L data k nonce_manager_new =
      Some (Inr (as_bytes (ENCRYPTED_CONFIG_HEADER @ CHR 0x0A # b64_enc L (blob_to_bytes (blob_new 0 1 c)) @ [CHR 0x0A])), m')"
proof -
  obtain m' where m': "get_next_nonce ''config'' nonce_manager_new = (Inr (counter_nonce 1, 1), m')" using first_nonce by blast
  obtain kek where kek: "derive_config_kek L k = Some kek"
    using derive_subkey_some [of L k "''config''"] assms by (auto simp: derive_config_kek_def lib_ok_def)
  have "\<exists>c m'. cseal L kek (counter_nonce 1) (as_bytes data) = Some c \<and>
    encrypt_config_data L data k nonce_manager_new = Some (Inr (as_bytes (framed L (blob_new 0 1 c))), m')" for data
    by (rule encrypt_config_data_framed [OF assms m', of k data]) (use kek in auto)
  then show ?thesis unfolding framed_def by blast
qed

lemma first_nonce_of_every_process_witness:
  "\<exists>kek. \<forall>data. \<exists>c m'. cseal ref_lib kek (counter_nonce 1) (as_bytes data) = Some c \<and>
    encrypt_config_data ref_lib data (replicate 32 5) nonce_manager_new =
      Some (Inr (as_bytes (ENCRYPTED_CONFIG_HEADER @ CHR 0x0A # b64_enc ref_lib (blob_to_bytes (blob_new 0 1 c)) @ [CHR 0x0A])), m')"
  by (rule first_nonce_of_every_process [OF ref_lib_ok])

section \<open>The key system\<close>

text \<open>a text encrypted with the configuration key of one session is read with the key of
  any later session opened with the same password and salt, also after the keys were
  rotated: rotating derives the same key again.\<close>

theorem config_text_outlives_session:
  assumes "lib_ok L" "length nonce = 12" "utf8_valid (as_bytes text)"
  shows "\<exists>ck enc. get_config_key (initialize_key_system L password salt s) = Some ck \<and>
    encrypt_config L nonce ck text = Inr enc \<and>
    (\<forall>s'. get_config_key (rotate_all_keys L (initialize_key_system L password salt (lock_key_system s'))) = Some ck) \<and>
    decrypt_config L ck enc = Inr text"
proof -
  define ck where "ck = config_key_from_master L (master_key_new L password salt)"
  have "length (ck_key_material ck) = 32"
    using assms(1) by (simp add: ck_def config_key_from_master_def mk_derive_subkey_def lib_ok_def hkdf_law_def)
  then obtain c where c: "cseal L (ck_key_material ck) nonce (as_bytes text) = Some c"
    "copen L (ck_key_material ck) nonce c = Some (as_bytes text)"
    using caead_seal [of L "ck_key_material ck" nonce "as_bytes text"] assms(1,2) by (auto simp: lib_ok_def)
  have "decrypt_config L ck (b64_enc L (nonce @ c)) = Inr text"
    using assms c(2) by (simp add: decrypt_config_def lib_ok_def b64_roundtrip from_utf8_lossy_valid)
  then show ?thesis
    by (auto simp: get_config_key_def initialize_key_system_def rotate_all_keys_def ck_def [symmetric] Let_def
        encrypt_config_def c(1))
qed

lemma config_text_outlives_session_witness:
  "\<exists>ck enc. get_config_key (initialize_key_system ref_lib ''pw'' [1] KEY_SYSTEM_INIT) = Some ck \<and>
    encrypt_config ref_lib (replicate 12 3) ck ''text'' = Inr enc \<and> decrypt_config ref_lib ck enc = Inr ''text''"
proof -
  have u: "utf8_valid (as_bytes ''text'')" by (rule graphic_valid) code_simp
  from config_text_outlives_session [OF ref_lib_ok _ u, of "replicate 12 3" "''pw''" "[1]" KEY_SYSTEM_INIT]
  show ?thesis by auto
qed

end
