(* ===== verification/KeystoreFacts.thy ===== *)
theory KeystoreFacts
  imports Keystore MasterKeyFacts
begin

text \<open>
  The keystore is read back from its document and from its encrypted file; what the older
  format of the metadata does to a description.
\<close>

section \<open>The document of a keystore\<close>

text \<open>What \<open>serde_json\<close> promises for a description without quotes, backslashes and comment
  characters: one line of text that parses to the same metadata.\<close>

definition plain_text_value :: "string \<Rightarrow> bool" where
  "plain_text_value s \<longleftrightarrow> list_all (\<lambda>c. (graphic c \<or> c = CHR '' '') \<and> c \<notin> set [CHR 34, CHR 92, CHR '';'', CHR ''#'']) s"

definition json_law :: "json_crate \<Rightarrow> bool" where
  "json_law J \<longleftrightarrow> (\<forall>m. plain_text_value (km_description m) \<longrightarrow>
     (\<exists>t. json_enc J m = Inr t \<and> plain_value t \<and> json_dec J t = Some m))"

definition keystore_plain :: "Keystore \<Rightarrow> bool" where
  "keystore_plain k \<longleftrightarrow> plain_value (master_key_salt k) \<and> (case password_verifier k of Some v \<Rightarrow> plain_value v | None \<Rightarrow> True) \<and>
     hm_wf (nonce_counters k) \<and> hm_wf (key_metadata k) \<and>
     (\<forall>(c, n) \<in> set (nonce_counters k). plain_name c) \<and>
     (\<forall>(i, m) \<in> set (key_metadata k). plain_name i \<and> plain_text_value (km_description m))"

lemma save_metadata_props:
  assumes "json_law J" "\<And>i m. (i, m) \<in> set ms \<Longrightarrow> plain_text_value (km_description m)"
  shows "save_metadata J ms ini = Inr (ini_props ''KeyMetadata'' (map (\<lambda>(i, m). (i, projr (json_enc J m))) ms) ini)"
  using assms(2)
proof (induction ms arbitrary: ini)
  case (Cons x ms)
  obtain i m where x: "x = (i, m)" by fastforce
  obtain t where t: "json_enc J m = Inr t" using assms(1) Cons.prems [of i m] x by (auto simp: json_law_def)
  have "(i, m) \<in> set ms \<Longrightarrow> plain_text_value (km_description m)" for i m using Cons.prems [of i m] by simp
  then show ?case using Cons.IH by (simp add: x t ini_props_def)
qed (simp add: ini_props_def)

text \<open>The properties of the three sections.\<close>

definition master_props :: "Keystore \<Rightarrow> (string \<times> string) list" where
  "master_props k = (''salt'', master_key_salt k) # (case password_verifier k of Some v \<Rightarrow> [(''verifier'', v)] | None \<Rightarrow> [])"

definition counter_props :: "Keystore \<Rightarrow> (string \<times> string) list" where
  "counter_props k = map (\<lambda>(c, n). (c, show_nat (unat n))) (nonce_counters k)"

definition metadata_props :: "json_crate \<Rightarrow> Keystore \<Rightarrow> (string \<times> string) list" where
  "metadata_props J k = map (\<lambda>(i, m). (i, projr (json_enc J m))) (key_metadata k)"

definition keystore_ini :: "json_crate \<Rightarrow> Keystore \<Rightarrow> ini" where
  "keystore_ini J k = ini_props ''KeyMetadata'' (metadata_props J k)
     (ini_props ''NonceCounters'' (counter_props k) (ini_props ''MasterKey'' (master_props k) []))"

lemma keystore_to_ini_eq:
  assumes "json_law J" "keystore_plain k"
  shows "keystore_to_ini J k = Inr (keystore_ini J k)"
proof -
  have f: "fold (\<lambda>(c, n). ini_set s c (show_nat (unat n))) xs i = ini_props s (map (\<lambda>(c, n). (c, show_nat (unat n))) xs) i"
    for s and xs :: "(string \<times> u64) list" and i
    by (induction xs arbitrary: i) (auto simp: ini_props_def)
  have m: "(case password_verifier k of Some v \<Rightarrow> ini_set ''MasterKey'' ''verifier'' v (ini_set ''MasterKey'' ''salt'' (master_key_salt k) [])
      | None \<Rightarrow> ini_set ''MasterKey'' ''salt'' (master_key_salt k) []) = ini_props ''MasterKey'' (master_props k) []"
    by (simp add: ini_props_def master_props_def split: option.split)
  have d: "\<And>i m. (i, m) \<in> set (key_metadata k) \<Longrightarrow> plain_text_value (km_description m)"
    using assms(2) by (auto simp: keystore_plain_def)
  show ?thesis
    by (simp add: keystore_to_ini_def Let_def f m save_metadata_props [OF assms(1) d] keystore_ini_def
        counter_props_def metadata_props_def)
qed

lemma hm_get_props: "hm_wf m \<Longrightarrow> hm_get (rev (map (\<lambda>(k, v). (k, f v)) m)) k = map_option f (hm_get m k)"
proof -
  assume "hm_wf m"
  then have "distinct (map fst (map (\<lambda>(k, v). (k, f v)) m))" by (simp add: comp_def case_prod_unfold)
  then have "hm_get (rev (map (\<lambda>(k, v). (k, f v)) m)) k = hm_get (map (\<lambda>(k, v). (k, f v)) m) k" by (rule map_of_rev)
  then show ?thesis by (simp add: map_of_map_restrict case_prod_unfold hm_get_map_val)
qed

lemma keystore_ini_get:
  assumes "hm_wf (nonce_counters k)" "hm_wf (key_metadata k)"
  shows "ini_get (keystore_ini J k) ''MasterKey'' ''salt'' = Some (master_key_salt k)"
    "ini_get (keystore_ini J k) ''MasterKey'' ''verifier'' = password_verifier k"
    "ini_get (keystore_ini J k) ''NonceCounters'' c = map_option (\<lambda>n. show_nat (unat n)) (hm_get (nonce_counters k) c)"
    "ini_get (keystore_ini J k) ''KeyMetadata'' i = map_option (\<lambda>m. projr (json_enc J m)) (hm_get (key_metadata k) i)"
  by (auto simp: keystore_ini_def ini_props_get counter_props_def metadata_props_def master_props_def hm_has_def
      hm_get_props [OF assms(1)] hm_get_props [OF assms(2)] split: option.split)

lemma ini_props_distinct: "distinct (map fst i) \<Longrightarrow> distinct (map fst (ini_props s xs i))"
  by (unfold ini_props_def, induction xs arbitrary: i) (auto simp: ini_set_def distinct_update)

lemma values_plain_set:
  assumes "values_plain i" "list_all graphic s" "plain_value v"
  shows "values_plain (ini_set s k v i)"
proof -
  have u: "set (AList.update a b xs) \<subseteq> insert (a, b) (set xs)" for a :: string and b :: 'x and xs
    by (induction xs) auto
  have "ini_section i s = Some ps \<Longrightarrow> (s, ps) \<in> set i" for ps
    by (simp add: ini_section_def map_of_SomeD)
  then have "(x, y) \<in> set (AList.update k v (case ini_section i s of Some ps \<Rightarrow> ps | None \<Rightarrow> [])) \<Longrightarrow> plain_value y" for x y
    using assms u [of k v] by (fastforce simp: values_plain_def split: option.splits)
  then show ?thesis
    using assms(1,2) u [of s _ i] unfolding values_plain_def ini_set_def by fastforce
qed

lemma values_plain_props:
  "values_plain i \<Longrightarrow> list_all graphic s \<Longrightarrow> (\<And>k v. (k, v) \<in> set xs \<Longrightarrow> plain_value v) \<Longrightarrow> values_plain (ini_props s xs i)"
proof (unfold ini_props_def, induction xs arbitrary: i)
  case (Cons x xs)
  obtain k v where x: "x = (k, v)" by fastforce
  have "values_plain (ini_set s k v i)" using Cons.prems(3) [of k v] Cons.prems(1,2) by (intro values_plain_set) (simp_all add: x)
  moreover have "(k, v) \<in> set xs \<Longrightarrow> plain_value v" for k v using Cons.prems(3) [of k v] by simp
  ultimately show ?case using Cons.IH Cons.prems(2) by (simp add: x)
qed simp

lemma show_nat_plain: "plain_value (show_nat n)"
proof (rule graphic_plain)
  have d: "is_ascii_digit c \<Longrightarrow> graphic c \<and> c \<notin> set [CHR 34, CHR 39, CHR 92, CHR '';'', CHR ''#'']" for c
    by (auto simp: is_ascii_digit_def graphic_def Let_def)
  then show "list_all graphic (show_nat n)" "\<And>c. c \<in> set (show_nat n) \<Longrightarrow> c \<notin> set [CHR 34, CHR 39, CHR 92, CHR '';'', CHR ''#'']"
    using show_nat_digits by (auto simp: list_all_iff)
qed

lemma keystore_props_plain:
  assumes "json_law J" "keystore_plain k"
  shows "(n, v) \<in> set (master_props k) \<Longrightarrow> plain_name n \<and> plain_value v"
    "(n, v) \<in> set (counter_props k) \<Longrightarrow> plain_name n \<and> plain_value v"
    "(n, v) \<in> set (metadata_props J k) \<Longrightarrow> plain_name n \<and> plain_value v"
proof -
  have "plain_name ''salt''" "plain_name ''verifier''" by code_simp+
  then show "(n, v) \<in> set (master_props k) \<Longrightarrow> plain_name n \<and> plain_value v"
    using assms(2) by (auto simp: master_props_def keystore_plain_def split: option.splits)
  show "(n, v) \<in> set (counter_props k) \<Longrightarrow> plain_name n \<and> plain_value v"
    using assms(2) by (auto simp: counter_props_def keystore_plain_def show_nat_plain)
  show "(n, v) \<in> set (metadata_props J k) \<Longrightarrow> plain_name n \<and> plain_value v"
    using assms by (fastforce simp: metadata_props_def keystore_plain_def json_law_def)
qed

lemma keystore_ini_plain:
  assumes "json_law J" "keystore_plain k"
  shows "names_plain (keystore_ini J k)" "values_plain (keystore_ini J k)" "ini_wf (keystore_ini J k)"
    "distinct (map fst (keystore_ini J k))"
proof -
  note p = keystore_props_plain [OF assms]
  have g: "list_all graphic ''KeyMetadata''" "list_all graphic ''NonceCounters''" "list_all graphic ''MasterKey''" by code_simp+
  have e: "names_plain []" "values_plain []" by (simp_all add: names_plain_def values_plain_def)
  show "names_plain (keystore_ini J k)" unfolding keystore_ini_def
    by (intro names_plain_fold e p [THEN conjunct1])
  show "values_plain (keystore_ini J k)" unfolding keystore_ini_def
    by (intro values_plain_props e g p [THEN conjunct2])
  show "ini_wf (keystore_ini J k)" by (simp add: keystore_ini_def ini_props_wf)
  show "distinct (map fst (keystore_ini J k))" by (simp add: keystore_ini_def ini_props_distinct)
qed

lemma load_section_with_get:
  assumes "ini_wf i"
  shows "hm_get (load_section_with f sec i) k = (case ini_get i sec k of Some v \<Rightarrow> f v | None \<Rightarrow> None)"
proof (cases "ini_section i sec")
  case (Some ps)
  then have d: "distinct (map fst ps)" using assms by (auto simp: ini_wf_def)
  have "hm_get (fold (\<lambda>(k, v) m. case f v of Some a \<Rightarrow> hm_insert k a m | None \<Rightarrow> m) ps m) k =
      (case hm_get ps k of Some v \<Rightarrow> (case f v of Some a \<Rightarrow> Some a | None \<Rightarrow> hm_get m k) | None \<Rightarrow> hm_get m k)" for m
    using d by (induction ps arbitrary: m) (auto simp: map_of_eq_None_iff image_iff split: option.split)
  then show ?thesis using Some by (simp add: load_section_with_def ini_get_def split: option.split)
qed (simp add: load_section_with_def ini_get_def)

text \<open>The same keystore, apart from where it is kept.\<close>

definition same_keystore :: "Keystore \<Rightarrow> Keystore \<Rightarrow> bool" where
  "same_keystore a b \<longleftrightarrow> master_key_salt a = master_key_salt b \<and> password_verifier a = password_verifier b \<and>
     (\<forall>c. hm_get (nonce_counters a) c = hm_get (nonce_counters b) c) \<and>
     (\<forall>i. hm_get (key_metadata a) i = hm_get (key_metadata b) i)"

lemma parse_u64_show: "parse_u64 (show_nat (unat n)) = Some n"
  using u64_range [of n] parse_unsigned_show [of "unat n" 64] by (simp add: parse_u64_def)

lemma keystore_text:
  assumes "json_law J" "ini_law I" "keystore_plain k"
  obtains s k' where "to_ini_string J I k = Inr s" "utf8_valid (as_bytes s)" "from_ini_string J I s = Inr k'" "same_keystore k' k"
proof -
  note pl = keystore_ini_plain [OF assms(1,3)]
  have w: "hm_wf (nonce_counters k)" "hm_wf (key_metadata k)" using assms(3) by (simp_all add: keystore_plain_def)
  note g = keystore_ini_get [OF w]
  obtain i where i: "ini_parse I (ini_text I (keystore_ini J k)) = Inr i" "ini_wf i"
    "\<And>s k'. ini_get (keystore_ini J k) s k' = None \<Longrightarrow> ini_get i s k' = None"
    "\<And>s k' v. ini_get (keystore_ini J k) s k' = Some v \<Longrightarrow> plain_value v \<Longrightarrow> ini_get i s k' = Some v"
    using assms(2) pl(1,3,4) unfolding ini_law_def by metis
  have m: "\<And>v. ini_get i ''MasterKey'' ''salt'' = Some (master_key_salt k)"
    "ini_get i ''MasterKey'' ''verifier'' = password_verifier k"
    using i(3,4) [of "''MasterKey''"] g(1,2) assms(3) by (cases "password_verifier k"; auto simp: keystore_plain_def)+
  have c: "ini_get i ''NonceCounters'' c = map_option (\<lambda>n. show_nat (unat n)) (hm_get (nonce_counters k) c)" for c
    using i(3,4) [of "''NonceCounters''" c] g(3) [where J = J and c = c] show_nat_plain by (cases "hm_get (nonce_counters k) c") auto
  have j: "hm_get (key_metadata k) id = Some md \<Longrightarrow> \<exists>t. json_enc J md = Inr t \<and> plain_value t \<and> json_dec J t = Some md" for id md
    using assms(1,3) map_of_SomeD [of "key_metadata k" id md] by (fastforce simp: keystore_plain_def json_law_def)
  have d: "(case ini_get i ''KeyMetadata'' id of Some v \<Rightarrow> load_metadata J v | None \<Rightarrow> None) = hm_get (key_metadata k) id" for id
    using i(3,4) [of "''KeyMetadata''" id] g(4) [where J = J and i = id] j [of id]
    by (cases "hm_get (key_metadata k) id") (auto simp: load_metadata_def)
  have n: "(case hm_get (nonce_counters k) c of None \<Rightarrow> None | Some x \<Rightarrow> parse_u64 (show_nat (unat x))) =
      hm_get (nonce_counters k) c" for c
    by (cases "hm_get (nonce_counters k) c") (simp_all add: parse_u64_show)
  have "same_keystore (ini_to_keystore J i) k"
    by (simp add: same_keystore_def ini_to_keystore_def m load_section_with_get [OF i(2)] c d n cong: option.case_cong)
  then show ?thesis
    using that [of "ini_text I (keystore_ini J k)" "ini_to_keystore J i"] i(1) pl assms(2)
    by (simp add: to_ini_string_def keystore_to_ini_eq [OF assms(1,3)] from_ini_string_def ini_law_def)
qed

section \<open>The file\<close>

lemma saved_keystore_facts:
  assumes "lib_ok L" "json_law J" "ini_law I" "keystore_plain k" "default_path E = Inr path" "current_dir E = Inr dir"
    "length nonce = 12" "nonce \<noteq> replicate 12 0" "dk_writable d"
  shows "\<exists>d' k'. save_keystore L J I E nonce k d = (Inr (), d') \<and> load_keystore L J I E d' = Inr k' \<and>
    same_keystore k' k \<and> ks_file_path k' = Some path"
proof -
  obtain s k' where s: "to_ini_string J I k = Inr s" "utf8_valid (as_bytes s)" "from_ini_string J I s = Inr k'" "same_keystore k' k"
    using keystore_text [OF assms(2-4)] by blast
  define key where "key = sha256 L (as_bytes (key_seed E dir))"
  have "length key = 32" using assms(1) by (simp add: key_def lib_ok_def hkdf_law_def)
  then obtain c where c: "cseal L key nonce (as_bytes s) = Some c" "copen L key nonce c = Some (as_bytes s)"
    using caead_seal [of L key nonce "as_bytes s"] assms(1,7) by (auto simp: lib_ok_def)
  have k: "derive_keystore_encryption_key L E = Inr key" by (simp add: derive_keystore_encryption_key_def assms(6) key_def)
  have "\<not> list_all (\<lambda>b. b = 0) nonce"
    using assms(7,8) replicate_eqI [of nonce 12 0] by (auto simp: list_all_iff)
  then have f: "is_encrypted_data (nonce @ c)" using assms(7) by (simp add: is_encrypted_data_def)
  have "decrypt_keystore_data L E (nonce @ c) = Inr s"
    using assms(7) s(2) c(2) by (simp add: decrypt_keystore_data_def k from_utf8_def)
  then have "load_from_file L J I E (d\<lparr>dk_files := hm_insert path (nonce @ c) (dk_files d)\<rparr>) path = Inr (k'\<lparr>ks_file_path := Some path\<rparr>)"
    by (simp add: load_from_file_def fs_read_def f s(3))
  moreover have "save_keystore L J I E nonce k d = (Inr (), d\<lparr>dk_files := hm_insert path (nonce @ c) (dk_files d)\<rparr>)"
    using assms(5,9) by (simp add: save_keystore_def save_to_path_def s(1) encrypt_keystore_data_def k c(1) fs_write_def)
  moreover have "same_keystore (k'\<lparr>ks_file_path := Some path\<rparr>) k" using s(4) by (simp add: same_keystore_def)
  ultimately show ?thesis using assms(5) by (simp add: load_keystore_def)
qed


text \<open>A JSON crate that keeps the promise: numbers in unary are enough.\<close>

definition ref_num :: "u64 \<Rightarrow> string" where
  "ref_num n = replicate (unat n) (CHR ''1'') @ ''0''"

definition ref_unnum :: "string \<Rightarrow> u64 \<times> string" where
  "ref_unnum cs = (let n = length (takeWhile ((=) (CHR ''1'')) cs) in (word_of_nat n, drop (Suc n) cs))"

lemma ref_unnum [simp]: "ref_unnum (ref_num n @ r) = (n, r)"
  by (simp add: ref_unnum_def ref_num_def takeWhile_append takeWhile_eq_all_conv [THEN iffD2])

definition ref_json :: json_crate where
  "ref_json = \<lparr>
     json_enc = (\<lambda>m. Inr (CHR ''{'' # ref_num (km_created_at m) @ ref_num (km_last_used m) @ ref_num (km_usage_count m) @
       ref_num (km_message_count m) @ ref_num (km_data_size_bytes m) @ (if km_is_revoked m then CHR ''t'' else CHR ''f'') #
       km_description m @ ''}'')),
     json_dec = (\<lambda>s. let (a, s1) = ref_unnum (tl s); (b, s2) = ref_unnum s1; (c, s3) = ref_unnum s2; (d, s4) = ref_unnum s3;
       (e, s5) = ref_unnum s4 in
       Some \<lparr>km_created_at = a, km_last_used = b, km_usage_count = c, km_message_count = d, km_data_size_bytes = e,
             km_description = butlast (tl s5), km_is_revoked = (s5 \<noteq> [] \<and> hd s5 = CHR ''t'')\<rparr>)\<rparr>"

lemma ref_json_law: "json_law ref_json"
proof (unfold json_law_def, intro allI impI)
  fix m :: KeyMetadata assume p: "plain_text_value (km_description m)"
  define t where "t = projr (json_enc ref_json m)"
  have t: "json_enc ref_json m = Inr t" by (simp add: t_def ref_json_def)
  have "json_dec ref_json t = Some m"
    by (cases m) (simp add: t_def ref_json_def butlast_append)
  moreover have "plain_value t"
  proof -
    have n: "set (ref_num n) \<subseteq> {CHR ''1'', CHR ''0''}" for n by (auto simp: ref_num_def)
    have g: "graphic (CHR ''1'')" "graphic (CHR ''0'')" "graphic (CHR ''{'')" "graphic (CHR ''}'')" "graphic (CHR ''t'')" "graphic (CHR ''f'')"
      by (simp_all add: graphic_def)
    have "hd t = CHR ''{''" "last t = CHR ''}''" by (simp_all add: t_def ref_json_def)
    moreover have "(graphic c \<or> c = CHR '' '') \<and> c \<notin> set [CHR 92, CHR '';'', CHR ''#'']" if "c \<in> set t" for c
    proof -
      have "c \<in> {CHR ''1'', CHR ''0'', CHR ''{'', CHR ''}'', CHR ''t'', CHR ''f''} \<union> set (km_description m)"
        using that n by (auto simp: t_def ref_json_def split: if_splits)
      then show ?thesis using p g by (auto simp: plain_text_value_def list_all_iff)
    qed
    ultimately show ?thesis using g by (simp add: plain_value_def list_all_iff)
  qed
  ultimately show "\<exists>t. json_enc ref_json m = Inr t \<and> plain_value t \<and> json_dec ref_json t = Some m" using t by blast
qed

definition sample_machine :: machine where
  "sample_machine = \<lparr>env_computername = Some ''PC'', env_hostname = None, env_username = Some ''joe'', env_user = None,
     env_mircdir = Some ''mirc'', current_dir = Inr ''mirc''\<rparr>"

definition sample_keystore :: Keystore where
  "sample_keystore = (with_salt ''c2FsdHNhbHQ'')\<lparr>password_verifier := Some ''0a1b'', nonce_counters := [(''log'', 7)],
     key_metadata := [(''config'', metadata_default 5)]\<rparr>"


text \<open>metadata in the older format of colon-separated fields keeps its numbers and its
  flag, but the description gets the text of the flag at its end.\<close>

theorem legacy_description_ends_with_flag:
  assumes "CHR '':'' \<notin> set description"
  shows "parse_legacy_metadata (join '':'' [show_nat (unat a), show_nat (unat b), show_nat (unat c), show_nat (unat d),
      show_nat (unat e), description, show_bool revoked]) =
    Some \<lparr>km_created_at = a, km_last_used = b, km_usage_count = c, km_message_count = d, km_data_size_bytes = e,
          km_description = description @ '':'' @ show_bool revoked, km_is_revoked = revoked\<rparr>"
proof -
  have n: "CHR '':'' \<notin> set (show_nat n)" for n
    using show_nat_digits [of "CHR '':''" n] by (auto simp: is_ascii_digit_def)
  have b: "CHR '':'' \<notin> set (show_bool revoked)" "parse_bool_strict (show_bool revoked) = Some revoked"
    by (simp_all add: show_bool_def parse_bool_strict_def)
  have sp: "split_char (CHR '':'') (join '':'' [show_nat (unat a), show_nat (unat b), show_nat (unat c), show_nat (unat d),
      show_nat (unat e), description, show_bool revoked]) =
    [show_nat (unat a), show_nat (unat b), show_nat (unat c), show_nat (unat d), show_nat (unat e), description, show_bool revoked]"
    by (simp add: split_char_app n assms split_char_absent b(1))
  show ?thesis
    unfolding parse_legacy_metadata_def sp by (simp add: parse_u64_show b(2) numeral_eq_Suc Let_def)
qed

lemma legacy_description_ends_with_flag_witness:
  "map_option km_description (parse_legacy_metadata (join '':'' [show_nat (unat (1 :: u64)), show_nat (unat (2 :: u64)),
     show_nat (unat (3 :: u64)), show_nat (unat (4 :: u64)), show_nat (unat (5 :: u64)), ''old key'', show_bool False])) = Some ''old key:false''"
  using legacy_description_ends_with_flag [of "''old key''" 1 2 3 4 5 False] by (simp add: show_bool_def)

end
