(* ===== verification/MasterKeyProps.thy ===== *)
theory MasterKeyProps
  imports MasterKeyDll KeystoreFacts
begin

text \<open>
  The life of a master password over several processes: what unlocks, what the two key
  states say, what a password change leaves on disk, and the encrypted configuration file.
\<close>

section \<open>Verifiers\<close>

lemma hex_char_inject: "m < 16 \<Longrightarrow> n < 16 \<Longrightarrow> hex_char m = hex_char n \<longleftrightarrow> m = n"
  by (simp add: hex_char_def nth_eq_iff_index_eq)

lemma lower_hex_inject: "lower_hex a = lower_hex b \<longleftrightarrow> a = b"
proof
  show "lower_hex a = lower_hex b \<Longrightarrow> a = b"
  proof (induction a arbitrary: b)
    case (Cons x a)
    then obtain y b' where b: "b = y # b'" by (cases b) (auto simp: lower_hex_def)
    have "hex_char (unat x div 16) = hex_char (unat y div 16)" "hex_char (unat x mod 16) = hex_char (unat y mod 16)"
      "lower_hex a = lower_hex b'"
      using Cons.prems by (simp_all add: b lower_hex_def)
    then have "unat x div 16 = unat y div 16" "unat x mod 16 = unat y mod 16" "a = b'"
      using Cons.IH unat_u8 [of x] unat_u8 [of y] by (simp_all add: hex_char_inject)
    then show ?case unfolding b by (metis div_mult_mod_eq word_unat_eq_iff)
  next
    case Nil
    then show ?case by (cases b) (simp_all add: lower_hex_def)
  qed
qed simp

lemma lower_hex_plain: "plain_value (lower_hex bs)"
proof (rule graphic_plain)
  have a: "list_all (\<lambda>c. graphic c \<and> c \<notin> set [CHR 34, CHR 39, CHR 92, CHR '';'', CHR ''#'']) ''0123456789abcdef''"
    by code_simp
  have h: "n < 16 \<Longrightarrow> hex_char n \<in> set ''0123456789abcdef''" for n
    unfolding hex_char_def by (rule nth_mem) simp
  have "c \<in> set ''0123456789abcdef''" if c: "c \<in> set (lower_hex bs)" for c
  proof -
    have "\<exists>b :: u8. c = hex_char (unat b div 16) \<or> c = hex_char (unat b mod 16)"
      using c unfolding lower_hex_def by fastforce
    then obtain b :: u8 where b: "c = hex_char (unat b div 16) \<or> c = hex_char (unat b mod 16)" by blast
    have "unat b div 16 < 16" "unat b mod 16 < 16" using unat_u8 [of b] by simp_all
    then show ?thesis using b h by metis
  qed
  then show "list_all graphic (lower_hex bs)"
    "\<And>c. c \<in> set (lower_hex bs) \<Longrightarrow> c \<notin> set [CHR 34, CHR 39, CHR 92, CHR '';'', CHR ''#'']"
    using a unfolding list_all_iff by metis+
qed

section \<open>Platforms\<close>

definition platform_ok :: "platform \<Rightarrow> bool" where
  "platform_ok P \<longleftrightarrow> lib_ok (p_lib P) \<and> argon_law (p_argon P) \<and> json_law (p_json P) \<and> ini_law (p_ini P) \<and>
     (\<exists>path. default_path (p_env P) = Inr path) \<and> (\<exists>dir. current_dir (p_env P) = Inr dir)"

text \<open>What the generators draw: a salt that parses, of the crate's length, in base64, and a
  nonce of 12 bytes that is not zero.\<close>

definition draws_ok :: "platform \<Rightarrow> draws \<Rightarrow> bool" where
  "draws_ok P d \<longleftrightarrow> salt_from_b64 (p_argon P) (d_salt d) = Inr (d_salt d) \<and> length (d_salt d) = 22 \<and>
     plain_value (d_salt d) \<and> length (d_nonce d) = 12 \<and> d_nonce d \<noteq> replicate 12 0"

lemma derived:
  assumes "argon_law A" "salt_from_b64 A s = Inr s" "length s = 22" "length pw < 2 ^ 32"
  obtains key where "argon_hash A (as_bytes pw) s = Inr key" "length key = 32"
  using assms unfolding argon_law_def by (metis length_as_bytes)

lemma world_saved:
  assumes "platform_ok P" "draws_ok P d" "keystore_plain k" "dk_writable (w_disk w)"
  shows "\<exists>k'. (\<forall>w'. w_disk w' = w_disk (world_save P d k w) \<longrightarrow> world_load P w' = Inr k') \<and> same_keystore k' k"
proof -
  obtain path dir where e: "default_path (p_env P) = Inr path" "current_dir (p_env P) = Inr dir"
    using assms(1) by (auto simp: platform_ok_def)
  obtain d' k' where "save_keystore (p_lib P) (p_json P) (p_ini P) (p_env P) (d_nonce d) k (w_disk w) = (Inr (), d')"
    "load_keystore (p_lib P) (p_json P) (p_ini P) (p_env P) d' = Inr k'" "same_keystore k' k"
    using saved_keystore_facts assms e unfolding platform_ok_def draws_ok_def by metis
  then show ?thesis by (auto simp: world_save_def world_load_def)
qed

section \<open>Initialised, then unlocked\<close>

lemma plain_keystore:
  "plain_value salt \<Longrightarrow> keystore_plain (set_password_verifier (lower_hex v) (set_master_salt salt (keystore_new L bs)))"
  by (simp add: keystore_plain_def set_password_verifier_def set_master_salt_def keystore_new_def with_salt_def lower_hex_plain)

lemma accepted_not_empty: "validate_password_strength U pw = Some (Inr ()) \<Longrightarrow> pw \<noteq> []"
  by (auto simp: validate_password_strength_def MIN_PASSWORD_LENGTH_def)

text \<open>What a run of \<open>FiSH11_MasterKeyInit\<close> leaves behind.\<close>

lemma init_effect:
  assumes "platform_ok P" "draws_ok P d" "validate_password_strength (p_unicode P) pw = Some (Inr ())"
    "length pw < 2 ^ 32" "dk_writable (w_disk w)"
  obtains key w1 k where "argon_hash (p_argon P) (as_bytes pw) (d_salt d) = Inr key" "length key = 32"
    "FiSH11_MasterKeyInit P d pw w = Some (Inr ''1'', w1)"
    "KEY_SYSTEM w1 = initialize_key_system (p_lib P) pw (as_bytes (d_salt d)) (KEY_SYSTEM w)" "MASTER_KEY w1 = MASTER_KEY w"
    "\<And>w'. w_disk w' = w_disk w1 \<Longrightarrow> world_load P w' = Inr k"
    "master_key_salt k = d_salt d" "password_verifier k = Some (key_verifier (p_lib P) key)"
proof -
  obtain key where key: "argon_hash (p_argon P) (as_bytes pw) (d_salt d) = Inr key" "length key = 32"
    using derived [of "p_argon P" "d_salt d" pw] assms(1,2,4) by (auto simp: platform_ok_def draws_ok_def)
  define k0 where "k0 = set_password_verifier (key_verifier (p_lib P) key) (set_master_salt (d_salt d) (keystore_new (p_lib P) (d_bytes d)))"
  define w0 where "w0 = w\<lparr>KEY_SYSTEM := initialize_key_system (p_lib P) pw (as_bytes (d_salt d)) (KEY_SYSTEM w)\<rparr>"
  have p: "keystore_plain k0" using assms(2) by (simp add: k0_def key_verifier_def plain_keystore draws_ok_def)
  obtain k where k: "\<And>w'. w_disk w' = w_disk (world_save P d k0 w0) \<Longrightarrow> world_load P w' = Inr k" "same_keystore k k0"
    using world_saved [OF assms(1,2) p, of w0] assms(5) by (auto simp: w0_def)
  have i: "FiSH11_MasterKeyInit P d pw w = Some (Inr ''1'', world_save P d k0 w0)"
    by (simp add: FiSH11_MasterKeyInit_def accepted_not_empty [OF assms(3)] assms(3) derive_master_key_def
        derive_master_key_with_salt_def key(1) k0_def w0_def)
  show ?thesis
    by (rule that [OF key i _ _ k(1)])
      (use k(2) in \<open>simp_all add: world_save_def w0_def same_keystore_def k0_def set_password_verifier_def set_master_salt_def\<close>)
qed

lemma unlock_with_keystore:
  assumes "world_load P w = Inr k" "master_key_salt k = salt" "password_verifier k = Some v" "pw \<noteq> []"
    "salt_from_b64 (p_argon P) salt = Inr salt" "argon_hash (p_argon P) (as_bytes pw) salt = Inr key"
  shows "FiSH11_MasterKeyUnlock P d pw w =
    Some (if key_verifier (p_lib P) key = v then (Inr ''1'', w\<lparr>MASTER_KEY := Some key\<rparr>)
          else (Inl (InvalidInput ''password'' ''Incorrect password''), w))"
  using assms by (simp add: FiSH11_MasterKeyUnlock_def get_master_salt_def get_password_verifier_def derive_master_key_with_salt_def)


subsection \<open>A sample platform\<close>

definition ref_argon :: argon_lib where
  "ref_argon = \<lparr>salt_from_b64 = (\<lambda>s. Inr s), argon_hash = (\<lambda>p s. Inr (take 32 (p @ as_bytes s @ replicate 32 0)))\<rparr>"

definition sample_platform :: platform where
  "sample_platform = \<lparr>p_lib = ref_lib, p_argon = ref_argon, p_json = ref_json, p_ini = ref_ini,
     p_unicode = plain_unicode, p_env = sample_machine, p_debug = False\<rparr>"

definition sample_draws :: draws where
  "sample_draws = \<lparr>d_salt = ''c2FsdHNhbHRzYWx0c2FsdA'', d_bytes = replicate 32 9, d_nonce = replicate 12 1\<rparr>"

definition empty_disk :: disk where
  "empty_disk = \<lparr>dk_files = [], dk_writable = True\<rparr>"

lemma sample_platform_ok: "platform_ok sample_platform" "draws_ok sample_platform sample_draws"
proof -
  have "argon_law ref_argon" by (auto simp: argon_law_def ref_argon_def)
  then show "platform_ok sample_platform"
    by (simp add: platform_ok_def sample_platform_def ref_lib_ok ref_json_law ref_ini_law sample_machine_def default_path_def)
  have "plain_value ''c2FsdHNhbHRzYWx0c2FsdA''" by code_simp
  then show "draws_ok sample_platform sample_draws"
    by (simp add: draws_ok_def sample_platform_def ref_argon_def sample_draws_def numeral_eq_Suc)
qed

lemma sample_accepted: "validate_password_strength (p_unicode sample_platform) ''My.C0mpl3x#P@s!K'' = Some (Inr ())"
  by (simp add: sample_platform_def sample_password)


section \<open>Two key states\<close>

text \<open>The calls that change keys, as steps of a process; the environment of a call may differ
  from one to the next.\<close>

inductive key_step :: "key_world \<Rightarrow> key_world \<Rightarrow> bool" where
  unlock: "FiSH11_MasterKeyUnlock P d input w = Some (r, w') \<Longrightarrow> key_step w w'"
| change: "FiSH11_MasterKeyChangePassword P d input w = Some (r, w') \<Longrightarrow> key_step w w'"
| lock: "FiSH11_MasterKeyLock w = (r, w') \<Longrightarrow> key_step w w'"
| save: "save_encrypted_config P config path w = Some (r2, w') \<Longrightarrow> key_step w w'"

inductive any_step :: "key_world \<Rightarrow> key_world \<Rightarrow> bool" where
  init: "FiSH11_MasterKeyInit P d input w = Some (r, w') \<Longrightarrow> any_step w w'"
| other: "key_step w w' \<Longrightarrow> any_step w w'"

inductive_cases key_stepE: "key_step w w'"
inductive_cases any_stepE: "any_step w w'"

lemma world_save_simps [simp]:
  "KEY_SYSTEM (world_save P d k w) = KEY_SYSTEM w" "MASTER_KEY (world_save P d k w) = MASTER_KEY w"
  by (simp_all add: world_save_def)

lemma unlock_keys:
  assumes "FiSH11_MasterKeyUnlock P d input w = Some (r, w')"
  shows "KEY_SYSTEM w' = KEY_SYSTEM w \<and> (MASTER_KEY w \<noteq> None \<longrightarrow> MASTER_KEY w' \<noteq> None)"
  using assms by (auto simp: FiSH11_MasterKeyUnlock_def unlock_first_time_def Let_def
      split: if_splits option.splits sum.splits prod.splits)

lemma change_keys:
  assumes "FiSH11_MasterKeyChangePassword P d input w = Some (r, w')"
  shows "KEY_SYSTEM w' = KEY_SYSTEM w \<and> (MASTER_KEY w \<noteq> None \<longrightarrow> MASTER_KEY w' \<noteq> None) \<and>
    (\<not> p_debug P \<longrightarrow> w_disk w' = w_disk w)"
  using assms by (auto simp: FiSH11_MasterKeyChangePassword_def Let_def
      split: if_splits option.splits sum.splits prod.splits list.splits)

lemma save_keys:
  assumes "save_encrypted_config P config path w = Some (r, w')"
  shows "KEY_SYSTEM w' = KEY_SYSTEM w \<and> MASTER_KEY w' = MASTER_KEY w"
  using assms by (auto simp: save_encrypted_config_def Let_def split: option.splits sum.splits prod.splits)

lemma init_keys:
  assumes "FiSH11_MasterKeyInit P d input w = Some (r, w')"
  shows "MASTER_KEY w' = MASTER_KEY w"
  using assms by (auto simp: FiSH11_MasterKeyInit_def Let_def split: if_splits option.splits sum.splits prod.splits)

text \<open>a process that never initialises a password reports \<open>locked\<close> for ever: no unlock and
  no change of the password, successful or not, opens the key system the status reads.\<close>

theorem unlocking_is_not_reported:
  assumes "key_step\<^sup>*\<^sup>* (world_start d) w"
  shows "FiSH11_MasterKeyStatus w = Inr ''locked'' \<and> FiSH11_MasterKeyIsUnlocked w = Inr ''0''"
proof -
  have "ks_master_key (KEY_SYSTEM w) = None"
    using assms
  proof (induction rule: rtranclp_induct)
    case (step y z)
    from step(2,3) show ?case
      by (elim key_stepE) (auto simp: FiSH11_MasterKeyLock_def lock_key_system_def dest: unlock_keys change_keys save_keys)
  qed (simp add: world_start_def KEY_SYSTEM_INIT_def)
  then show ?thesis by (simp add: FiSH11_MasterKeyStatus_def FiSH11_MasterKeyIsUnlocked_def is_key_system_unlocked_def)
qed

text \<open>once a process holds the derived master key in memory it keeps one until it ends:
  no call clears it, \<open>FiSH11_MasterKeyLock\<close> included.\<close>

theorem lock_keeps_master_key:
  assumes "any_step\<^sup>*\<^sup>* w w'" "is_master_key_unlocked w"
  shows "is_master_key_unlocked w' \<and> is_master_key_unlocked (snd (FiSH11_MasterKeyLock w')) \<and>
    get_master_key_from_memory (snd (FiSH11_MasterKeyLock w')) = get_master_key_from_memory w'"
proof -
  have "MASTER_KEY w' \<noteq> None"
    using assms
  proof (induction rule: rtranclp_induct)
    case (step y z)
    then have "MASTER_KEY y \<noteq> None" by simp
    with step(2) show ?case
      by (elim any_stepE key_stepE) (auto simp: FiSH11_MasterKeyLock_def dest: unlock_keys change_keys save_keys init_keys)
  qed (simp add: is_master_key_unlocked_def)
  then show ?thesis by (simp add: is_master_key_unlocked_def FiSH11_MasterKeyLock_def get_master_key_from_memory_def)
qed

text \<open>The two last theorems at a process that unlocks.\<close>

lemma sample_unlocks:
  "\<exists>w. FiSH11_MasterKeyUnlock sample_platform sample_draws ''My.C0mpl3x#P@s!K'' (world_start empty_disk) = Some (Inr ''1'', w) \<and>
    is_master_key_unlocked w"
proof -
  obtain key where key: "argon_hash (p_argon sample_platform) (as_bytes ''My.C0mpl3x#P@s!K'') (d_salt sample_draws) = Inr key"
    by (simp add: sample_platform_def ref_argon_def)
  have "\<exists>e. world_load sample_platform (world_start empty_disk) = Inl e"
    by (simp add: world_load_def load_keystore_def sample_platform_def sample_machine_def default_path_def load_from_file_def
        fs_read_def world_start_def empty_disk_def)
  then show ?thesis
    by (auto simp: FiSH11_MasterKeyUnlock_def unlock_first_time_def sample_accepted derive_master_key_def
        derive_master_key_with_salt_def key is_master_key_unlocked_def Let_def)
qed

lemma unlocking_is_not_reported_witness:
  "\<exists>w. FiSH11_MasterKeyUnlock sample_platform sample_draws ''My.C0mpl3x#P@s!K'' (world_start empty_disk) = Some (Inr ''1'', w) \<and>
    FiSH11_MasterKeyStatus w = Inr ''locked''"
proof -
  obtain w where w: "FiSH11_MasterKeyUnlock sample_platform sample_draws ''My.C0mpl3x#P@s!K'' (world_start empty_disk) = Some (Inr ''1'', w)"
    using sample_unlocks by blast
  show ?thesis using unlocking_is_not_reported [OF r_into_rtranclp [of key_step, OF key_step.unlock [OF w]]] w by blast
qed

lemma lock_keeps_master_key_witness:
  "\<exists>w. FiSH11_MasterKeyUnlock sample_platform sample_draws ''My.C0mpl3x#P@s!K'' (world_start empty_disk) = Some (Inr ''1'', w) \<and>
    is_master_key_unlocked (snd (FiSH11_MasterKeyLock w))"
proof -
  obtain w where w: "FiSH11_MasterKeyUnlock sample_platform sample_draws ''My.C0mpl3x#P@s!K'' (world_start empty_disk) = Some (Inr ''1'', w)"
    "is_master_key_unlocked w"
    using sample_unlocks by blast
  show ?thesis using lock_keeps_master_key [OF rtranclp.rtrancl_refl w(2)] w(1) by blast
qed

section \<open>Without the right keystore\<close>

text \<open>when the keystore does not load, be it absent, moved or encrypted under the key of
  another directory, every password that is strong enough unlocks; it yields a key under a
  new salt, which a release build does not store, so that no later process derives it.\<close>

theorem unlock_without_keystore:
  assumes "world_load P w = Inl e" "validate_password_strength (p_unicode P) pw = Some (Inr ())"
    "argon_hash (p_argon P) (as_bytes pw) (d_salt d) = Inr key"
  shows "\<exists>w'. FiSH11_MasterKeyUnlock P d pw w = Some (Inr ''1'', w') \<and> get_master_key_from_memory w' = Some key \<and>
    (\<not> p_debug P \<longrightarrow> w_disk w' = w_disk w)"
  using assms by (simp add: FiSH11_MasterKeyUnlock_def accepted_not_empty [OF assms(2)] unlock_first_time_def
      derive_master_key_def derive_master_key_with_salt_def get_master_key_from_memory_def Let_def)

lemma unlock_without_keystore_witness:
  "\<exists>w'. FiSH11_MasterKeyUnlock sample_platform sample_draws ''My.C0mpl3x#P@s!K'' (world_start empty_disk) = Some (Inr ''1'', w') \<and>
    w_disk w' = empty_disk"
proof -
  obtain key where key: "argon_hash (p_argon sample_platform) (as_bytes ''My.C0mpl3x#P@s!K'') (d_salt sample_draws) = Inr key"
    by (simp add: sample_platform_def ref_argon_def)
  have "\<exists>e. world_load sample_platform (world_start empty_disk) = Inl e"
    by (simp add: world_load_def load_keystore_def sample_platform_def sample_machine_def default_path_def load_from_file_def
        fs_read_def world_start_def empty_disk_def)
  then obtain e where e: "world_load sample_platform (world_start empty_disk) = Inl e" by blast
  show ?thesis using unlock_without_keystore [OF e sample_accepted key]
    by (auto simp: sample_platform_def world_start_def)
qed

lemma change_effect:
  assumes "world_load P w = Inr k" "master_key_salt k = salt" "password_verifier k = Some (key_verifier (p_lib P) key)"
    "salt_from_b64 (p_argon P) salt = Inr salt" "argon_hash (p_argon P) (as_bytes pw) salt = Inr key"
    "validate_password_strength (p_unicode P) new = Some (Inr ())" "pw \<noteq> []" "list_all graphic pw" "list_all graphic new"
    "salt_from_b64 (p_argon P) (d_salt d) = Inr (d_salt d)" "argon_hash (p_argon P) (as_bytes new) (d_salt d) = Inr new_key"
    "\<not> p_debug P"
  shows "FiSH11_MasterKeyChangePassword P d (pw @ '' '' @ new) w = Some (Inr ''1'', w\<lparr>MASTER_KEY := Some new_key\<rparr>)"
proof -
  have "CHR '' '' \<notin> set pw" using assms(8) by (auto simp: list_all_iff graphic_def)
  then have sp: "splitn_char 2 (CHR '' '') (pw @ '' '' @ new) = [pw, new]"
    using split_once_char [of "CHR '' ''" pw new] by (simp add: numeral_2_eq_2)
  have c: "change_master_password P (d_salt d) pw salt new (Some (key_verifier (p_lib P) key)) = Some (Inr (d_salt d))"
    using assms(4-6,11) by (simp add: change_master_password_def derive_master_key_def derive_master_key_with_salt_def)
  show ?thesis
    unfolding FiSH11_MasterKeyChangePassword_def sp
    using assms accepted_not_empty [OF assms(6)] c
    by (simp add: trim_graphic get_master_salt_def get_password_verifier_def derive_master_key_with_salt_def)
qed



section \<open>The encrypted configuration file\<close>

text \<open>C22: what \<open>save_encrypted_config\<close> writes is recognised as encrypted, loads under the same
  master key as the configuration that the INI crate reads from its own text, and is refused,
  with the advice to unlock, by a process that holds no key.\<close>

theorem encrypted_file_roundtrip:
  assumes "lib_ok (p_lib P)" "MASTER_KEY w = Some key" "get_next_nonce ''config'' (NONCE_MANAGER w) = (Inr (nonce, counter), m)"
    "dk_writable (w_disk w)" "utf8_valid (as_bytes (ini_text (p_ini P) (config_to_ini c)))"
    "ini_parse (p_ini P) (ini_text (p_ini P) (config_to_ini c)) = Inr i"
  shows "\<exists>w'. save_encrypted_config P c path w = Some (Inr (), w') \<and> NONCE_MANAGER w' = m \<and>
    config_encrypted (w_disk w') path = Inr True \<and>
    (\<forall>v. w_disk v = w_disk w' \<longrightarrow>
      (MASTER_KEY v = Some key \<longrightarrow> load_encrypted_config P now st path v = Some (Inr (ini_to_config now i))) \<and>
      (MASTER_KEY v = None \<longrightarrow> load_encrypted_config P now st path v =
        Some (Inl (FE_ConfigError (''Encrypted config detected but '' @ unlock_first)))))"
proof -
  let ?L = "p_lib P" let ?text = "ini_text (p_ini P) (config_to_ini c)"
  have n: "nonce = counter_nonce counter"
    using assms(3) by (auto simp: get_next_nonce_def Let_def split: if_splits)
  obtain kek ct where e: "derive_config_kek ?L key = Some kek" "cseal ?L kek nonce (as_bytes ?text) = Some ct"
    "copen ?L kek nonce ct = Some (as_bytes ?text)"
    by (rule encrypt_config_data_framed [OF assms(1,3), of key ?text]) (auto simp: n)
  define b where "b = blob_new 0 counter ct"
  define w' where "w' = w\<lparr>NONCE_MANAGER := m, w_disk := (w_disk w)\<lparr>dk_files := hm_insert path (as_bytes (framed ?L b)) (dk_files (w_disk w))\<rparr>\<rparr>"
  have fr: "as_bytes (ENCRYPTED_CONFIG_HEADER @ [CHR 0x0A] @ b64_enc ?L (blob_to_bytes b) @ [CHR 0x0A]) = as_bytes (framed ?L b)"
    by (simp add: framed_def)
  have sv: "save_encrypted_config P c path w = Some (Inr (), w')"
    using fr by (simp add: save_encrypted_config_def get_master_key_from_memory_def assms(2) e(1) encrypt_data_def assms(3) e(2)
        b_def fs_write_def assms(4) w'_def)
  have hd: "starts_with ENCRYPTED_CONFIG_HEADER (framed ?L b)" by (simp add: framed_def starts_with_def)
  note f = framed_facts [OF assms(1), of b]
  have ce: "config_encrypted (w_disk w') path = Inr True"
    by (simp add: config_encrypted_def w'_def f(1) hd)
  have ld: "load_encrypted_config P now st path v = load_encrypted_config_from_file P now (framed ?L b) v" if "w_disk v = w_disk w'" for v
    using ce that by (simp add: load_encrypted_config_def w'_def)
  have rd: "load_encrypted_config_from_file P now (framed ?L b) v =
      (case MASTER_KEY v of
         None \<Rightarrow> Some (Inl (FE_ConfigError (''Encrypted config detected but '' @ unlock_first)))
       | Some mk \<Rightarrow> load_encrypted_config_from_file P now (framed ?L b) v)" for v
    using assms(1) by (simp add: load_encrypted_config_from_file_def f(2) header_facts(3) lib_ok_def b64_roundtrip blob_read
        get_master_key_from_memory_def split: option.split)
  have b: "eb_nonce_counter b = counter" "eb_ciphertext b = ct" by (simp_all add: b_def blob_new_def)
  have "load_encrypted_config_from_file P now (framed ?L b) v = Some (Inr (ini_to_config now i))" if "MASTER_KEY v = Some key" for v
    using assms(1,5,6) e(1,3) n that
    by (simp add: load_encrypted_config_from_file_def f(2) header_facts(3) lib_ok_def b64_roundtrip blob_read
        get_master_key_from_memory_def decrypt_data_def b from_utf8_def [of "as_bytes ?text"])
  moreover have "load_encrypted_config_from_file P now (framed ?L b) v =
      Some (Inl (FE_ConfigError (''Encrypted config detected but '' @ unlock_first)))" if "MASTER_KEY v = None" for v
    using rd [of v] that by simp
  ultimately show ?thesis using sv ce ld by (auto simp: w'_def)
qed

lemma ref_ini_ascii:
  assumes "list_all (\<lambda>(s, ps). list_all (\<lambda>c. (of_char c :: nat) < 128) s \<and>
    list_all (\<lambda>(k, v). list_all (\<lambda>c. (of_char c :: nat) < 128) k \<and> list_all (\<lambda>c. (of_char c :: nat) < 128) v) ps) i"
  shows "utf8_valid (as_bytes (ini_text ref_ini i))"
proof -
  have two: "utf8_valid (as_bytes a) \<Longrightarrow> utf8_valid (as_bytes b) \<Longrightarrow> utf8_valid (as_bytes (ref_str a @ ref_str b))" for a b
    using utf8_valid_append [OF ref_str_valid ref_str_valid] by (simp add: as_bytes_append)
  have "utf8_valid (as_bytes (ref_list ref_prop ps))" if "(s, ps) \<in> set i" for s ps
  proof (rule ref_list_valid)
    fix q assume q: "q \<in> set ps"
    have "list_all (\<lambda>c. (of_char c :: nat) < 128) (fst q) \<and> list_all (\<lambda>c. (of_char c :: nat) < 128) (snd q)"
      using assms that q unfolding list_all_iff by fastforce
    then show "utf8_valid (as_bytes (ref_prop q))" unfolding ref_prop_def by (intro two ascii_valid) simp_all
  qed
  moreover have "utf8_valid (as_bytes s)" if "(s, ps) \<in> set i" for s ps
    using assms that by (fastforce simp: list_all_iff intro: ascii_valid)
  ultimately have "utf8_valid (as_bytes (ref_section q))" if "q \<in> set i" for q
    using that unfolding ref_section_def by (cases q) (metis fst_conv snd_conv two)
  then show ?thesis by (simp add: ref_ini_def ref_list_valid)
qed

lemma encrypted_file_roundtrip_witness:
  "\<exists>w'. save_encrypted_config sample_platform sample_config (''d'', ''f'') ((world_start empty_disk)\<lparr>MASTER_KEY := Some (replicate 32 4)\<rparr>) = Some (Inr (), w') \<and>
    load_encrypted_config sample_platform 9 sample_store (''d'', ''f'') w' = Some (Inr (ini_to_config 9 (config_to_ini sample_config)))"
proof -
  let ?w = "(world_start empty_disk)\<lparr>MASTER_KEY := Some (replicate 32 4)\<rparr>"
  have t: "utf8_valid (as_bytes (ini_text (p_ini sample_platform) (config_to_ini sample_config)))"
    unfolding sample_platform_def platform.simps by (rule ref_ini_ascii) code_simp
  have i: "ini_parse (p_ini sample_platform) (ini_text (p_ini sample_platform) (config_to_ini sample_config)) = Inr (config_to_ini sample_config)"
    by (simp add: sample_platform_def ref_ini_reads)
  obtain m where m: "get_next_nonce ''config'' (NONCE_MANAGER ?w) = (Inr (counter_nonce 1, 1), m)"
    using first_nonce by (auto simp: world_start_def)
  have l: "lib_ok (p_lib sample_platform)" "MASTER_KEY ?w = Some (replicate 32 4)" "dk_writable (w_disk ?w)"
    by (simp_all add: sample_platform_def ref_lib_ok world_start_def empty_disk_def)
  from encrypted_file_roundtrip [OF l(1,2) m l(3) t i, of "(''d'', ''f'')" 9 sample_store]
  obtain w' where w': "save_encrypted_config sample_platform sample_config (''d'', ''f'') ?w = Some (Inr (), w')"
    "\<forall>v. w_disk v = w_disk w' \<longrightarrow> (MASTER_KEY v = Some (replicate 32 4) \<longrightarrow>
      load_encrypted_config sample_platform 9 sample_store (''d'', ''f'') v = Some (Inr (ini_to_config 9 (config_to_ini sample_config))))"
    by blast
  have "MASTER_KEY w' = Some (replicate 32 4)" using save_keys [OF w'(1)] by simp
  then show ?thesis using w' by blast
qed

end
