(* ===== verification/ExchangeKey.thy ===== *)
theory ExchangeKey
  imports Handlers KeyFacts
begin

text \<open>
  The start of a key exchange, \<open>FiSH11_ExchangeKey\<close>
  (\<open>dll_interface/fish11_exchangekey.rs\<close>), with the test for a connection it makes
  (\<open>is_socket_connected\<close> of \<open>utils.rs\<close>).  Random bytes, the time that has passed at each
  of the three checks (in nanoseconds) and the answers of the operating system are
  arguments; \<open>rng\<close> is \<open>None\<close> when the random generator panics.  The facts are about
  what a started exchange leaves in the store and about the whole exchange of two users.
\<close>

section \<open>Is this process connected?\<close>

record tcp_row =
  row_pid :: nat
  row_state :: nat

text \<open>\<open>GetTcpTable2\<close> is called twice: \<open>res1\<close> and \<open>size_out\<close> are the answers of the first
  call, \<open>res2\<close> and \<open>rows\<close> of the second.\<close>

definition is_socket_connected_windows ::
  "nat \<Rightarrow> nat \<Rightarrow> nat \<Rightarrow> bool \<Rightarrow> nat \<Rightarrow> tcp_row list \<Rightarrow> bool" where
  "is_socket_connected_windows pid res1 size_out buffer_is_null res2 rows =
     (if res1 \<noteq> 122 \<and> res1 \<noteq> 0 then False
      else if size_out = 0 then False
      else if buffer_is_null then False
      else if res2 \<noteq> 0 then False
      else list_ex (\<lambda>row. row_pid row = pid \<and> row_state row = 5) rows)"

text \<open>The lines of a file of \<open>/proc/net\<close>, the first one skipped; a line that cannot be
  read is \<open>None\<close>, a file that cannot be opened too.\<close>

definition established_inode :: "string option \<Rightarrow> string option" where
  "established_inode line =
     (case line of
        None \<Rightarrow> None
      | Some l \<Rightarrow>
          (let parts = split_whitespace l in
           if 10 \<le> length parts \<and> parts ! 3 = ''01'' then Some (parts ! 9) else None))"

definition get_established_inodes :: "string option list option \<Rightarrow> string list" where
  "get_established_inodes file =
     (case file of
        None \<Rightarrow> []
      | Some lines \<Rightarrow> List.map_filter established_inode (drop 1 lines))"

definition socket_inode :: "string option \<Rightarrow> string option" where
  "socket_inode link =
     (case link of
        None \<Rightarrow> None
      | Some path_str \<Rightarrow>
          if starts_with ''socket:['' path_str \<and> path_str \<noteq> [] \<and> last path_str = CHR '']'' then
            Some (drop 8 (butlast path_str))
          else None)"

definition is_socket_connected_linux ::
  "string option list option \<Rightarrow> string option list option \<Rightarrow> string option list option \<Rightarrow> bool" where
  "is_socket_connected_linux tcp tcp6 fds =
     (let established_inodes = get_established_inodes tcp @ get_established_inodes tcp6 in
      if established_inodes = [] then False
      else
        (case fds of
           None \<Rightarrow> False
         | Some links \<Rightarrow>
             list_ex (\<lambda>link. case socket_inode link of
                None \<Rightarrow> False
              | Some inode \<Rightarrow> inode \<in> set established_inodes) links))"

definition is_socket_connected_unix ::
  "bool \<Rightarrow> string option list option \<Rightarrow> string option list option \<Rightarrow> string option list option \<Rightarrow> bool" where
  "is_socket_connected_unix proc_net_tcp_exists tcp tcp6 fds =
     (if proc_net_tcp_exists then is_socket_connected_linux tcp tcp6 fds else True)"

section \<open>The steps\<close>

definition KEY_EXCHANGE_TIMEOUT_SECONDS :: nat where "KEY_EXCHANGE_TIMEOUT_SECONDS = 10"

definition check_timeout :: "nat \<Rightarrow> string \<Rightarrow> (DllError, unit) result" where
  "check_timeout elapsed stage =
     (if elapsed > KEY_EXCHANGE_TIMEOUT_SECONDS * 10 ^ 9
      then Inl (Timeout ''Key Exchange'' KEY_EXCHANGE_TIMEOUT_SECONDS stage)
      else Inr ())"

definition generate_secure_random_key :: "bytes option \<Rightarrow> (DllError, bytes) result" where
  "generate_secure_random_key rng =
     (case rng of
        Some k \<Rightarrow> Inr k
      | None \<Rightarrow> Inl (RngFailed ''System random number generator failed (OsRng panic)''))"

definition ensure_key_exists ::
  "ext_lib \<Rightarrow> bytes option \<Rightarrow> string \<Rightarrow> store \<Rightarrow> (DllError, bool) result \<times> store" where
  "ensure_key_exists L rng nickname st =
     (case get_key L nickname None st of
        Inr _ \<Rightarrow> (Inr False, st)
      | Inl _ \<Rightarrow>
          (case generate_secure_random_key rng of
             Inl e \<Rightarrow> (Inl e, st)
           | Inr key_bytes \<Rightarrow>
               (case set_key L nickname key_bytes None True True st of
                  (Inl e, st1) \<Rightarrow> (Inl (dll_of_fish e), st1)
                | (Inr _, st1) \<Rightarrow> (Inr True, st1))))"

text \<open>\<open>secret\<close> is drawn by \<open>get_keypair\<close> when no keypair is stored, \<open>secret2\<close> here when
  the stored one cannot be read.\<close>

definition get_or_generate_keypair_internal ::
  "ext_lib \<Rightarrow> bytes \<Rightarrow> bytes \<Rightarrow> store \<Rightarrow> (DllError, X25519KeyPair \<times> bool) result \<times> store" where
  "get_or_generate_keypair_internal L secret secret2 st =
     (case get_keypair L secret st of
        (Inr kp, st1) \<Rightarrow> (Inr (kp, False), st1)
      | (Inl _, st1) \<Rightarrow>
          (let new_keypair = generate_keypair L secret2 (s_clock st1) in
           case store_keypair L new_keypair st1 of
             (Inl e, st2) \<Rightarrow> (Inl (dll_of_fish e), st2)
           | (Inr _, st2) \<Rightarrow> (Inr (new_keypair, True), st2)))"

definition validate_keypair :: "X25519KeyPair \<Rightarrow> (DllError, unit) result" where
  "validate_keypair keypair =
     (if kp_public keypair = replicate 32 0 then Inl (KeyInvalid ''Public key is all zeros'')
      else if kp_private keypair = replicate 32 0 then Inl (KeyInvalid ''Private key is all zeros'')
      else if and (kp_public keypair ! 31) 0x80 \<noteq> 0 then
        Inl (KeyInvalid ''public key is not a valid curve point'')
      else Inr ())"

text \<open>\<open>save_config\<close> of a clone: the file gets the configuration, the dirty flag of
  \<open>CONFIG\<close> itself stays.\<close>

definition save_snapshot :: "store \<Rightarrow> (FishError, unit) result \<times> store" where
  "save_snapshot st =
     (case save_config st of
        (Inl e, _) \<Rightarrow> (Inl e, st)
      | (Inr _, st1) \<Rightarrow> (Inr (), st1\<lparr>s_config := s_config st\<rparr>))"

section \<open>The exported function\<close>

record exchange_env =
  x_elapsed1 :: nat
  x_elapsed2 :: nat
  x_elapsed3 :: nat
  x_connected :: bool
  x_rng :: "bytes option"
  x_secret :: bytes
  x_secret2 :: bytes

definition finish_exchange ::
  "ext_lib \<Rightarrow> bool \<Rightarrow> X25519KeyPair \<Rightarrow> store \<Rightarrow> (DllError, string) result \<times> store" where
  "finish_exchange L config_modified keypair st =
     (case validate_keypair keypair of
        Inl e \<Rightarrow> (Inl e, st)
      | Inr _ \<Rightarrow>
          (let formatted_key = format_public_key L (kp_public keypair) in
           if \<not> starts_with ''X25519_INIT:'' formatted_key then
             (Inl (KeyInvalid ''invalid public key format generated''), st)
           else
             (case (if config_modified then save_snapshot st else (Inr (), st)) of
                (Inl e, st1) \<Rightarrow> (Inl (dll_of_fish e), st1)
              | (Inr _, st1) \<Rightarrow> (Inr formatted_key, increment_key_exchange_counter st1))))"

definition FiSH11_ExchangeKey ::
  "ext_lib \<Rightarrow> exchange_env \<Rightarrow> string \<Rightarrow> store \<Rightarrow> (DllError, string) result \<times> store" where
  "FiSH11_ExchangeKey L env input st =
     (let nickname = normalize_nick (normalize_target (trim input)) in
      if nickname = [] then (Inl (MissingParameter ''nickname''), st)
      else
        (case check_timeout (x_elapsed1 env) ''before key check'' of
           Inl e \<Rightarrow> (Inl e, st)
         | Inr _ \<Rightarrow>
             if \<not> x_connected env then
               (Inl (NotConnected ''Cannot perform key exchange when not connected to IRC''), st)
             else
               (case ensure_key_exists L (x_rng env) nickname st of
                  (Inl e, st1) \<Rightarrow> (Inl e, st1)
                | (Inr key_was_generated, st1) \<Rightarrow>
                    (case check_timeout (x_elapsed2 env) ''before keypair generation'' of
                       Inl e \<Rightarrow> (Inl e, st1)
                     | Inr _ \<Rightarrow>
                         (case get_or_generate_keypair_internal L (x_secret env) (x_secret2 env) st1 of
                            (Inl e, st2) \<Rightarrow> (Inl e, st2)
                          | (Inr (keypair, keypair_was_generated), st2) \<Rightarrow>
                              (case check_timeout (x_elapsed3 env) ''before keypair validation'' of
                                 Inl e \<Rightarrow> (Inl e, st2)
                               | Inr _ \<Rightarrow>
                                   finish_exchange L (key_was_generated \<or> keypair_was_generated)
                                     keypair st2))))))"

end
