(* ===== verification/ExchangeFacts.thy ===== *)
theory ExchangeFacts
  imports ExchangeKey EngineFacts
begin

text \<open>
  Facts about a started exchange: what \<open>FiSH11_ExchangeKey\<close> answers and leaves behind,
  and the complete exchange of two users, from the two tokens to an encrypted message.
\<close>

section \<open>Our keypair across the operations of an exchange\<close>

definition own_keys :: "store \<Rightarrow> string option \<times> string option \<times> string option" where
  "own_keys st = (c_our_private_key (s_config st), c_our_public_key (s_config st),
     c_keypair_creation_time (s_config st))"

text \<open>What no operation of an exchange changes.\<close>

definition same_frame :: "store \<Rightarrow> store \<Rightarrow> bool" where
  "same_frame st st' \<longleftrightarrow> s_clock st' = s_clock st \<and> s_network st' = s_network st \<and>
     c_fish11 (s_config st') = c_fish11 (s_config st) \<and> s_disk_ok st' = s_disk_ok st"

lemma same_frame_refl [simp]: "same_frame st st"
  by (simp add: same_frame_def)

lemma same_frame_trans: "same_frame a b \<Longrightarrow> same_frame b c \<Longrightarrow> same_frame a c"
  by (simp add: same_frame_def)

lemma own_keys_persist [simp]: "own_keys (persist c st) =
    (c_our_private_key c, c_our_public_key c, c_keypair_creation_time c)"
  by (simp add: own_keys_def)

lemma set_key_frame:
  assumes "set_key L n k net ow x st = (r, st')"
  shows "same_frame st st'" "own_keys st' = own_keys st"
proof -
  obtain r1 c where rc: "set_key_entry L st n k net ow x (mark_dirty (s_config st)) = (r1, c)"
    by force
  have c: "own_keys (persist c st) = own_keys st" "same_frame st (persist c st)"
    using set_key_entry_cases [OF rc] by (auto simp: own_keys_def same_frame_def)
  consider "st' = st" | "st' = persist c st"
    | a b where "st' = snd (set_network_for_nick a b (persist c st))"
  proof (cases "case net of Some net \<Rightarrow> validate_network_name net | None \<Rightarrow> Inr ()")
    case (Inl e)
    then show thesis using assms that(1) by (simp add: set_key_def)
  next
    case (Inr u)
    show thesis
    proof (cases r1)
      case (Inl e)
      then show thesis using assms Inr that(2) by (simp add: set_key_def with_config_mut_set_entry [OF rc])
    next
      case (Inr v)
      then have "(r, st') = set_network_for_nick (normalize_nick n)
          (resolve_network_name_simple (persist c st) net) (persist c st)"
        using assms \<open>_ = Inr u\<close> by (simp add: set_key_def with_config_mut_set_entry [OF rc])
      then have "st' = snd (set_network_for_nick (normalize_nick n)
          (resolve_network_name_simple (persist c st) net) (persist c st))" by (metis snd_conv)
      then show thesis by (rule that(3))
    qed
  qed
  then have "same_frame st st' \<and> own_keys st' = own_keys st"
  proof cases
    case 3
    then show ?thesis using c by (simp add: set_network_persist same_frame_def own_keys_def)
  qed (use c in simp_all)
  then show "same_frame st st'" "own_keys st' = own_keys st" by simp_all
qed

lemma ensure_key_frame:
  assumes "ensure_key_exists L rng n st = (r, st')"
  shows "same_frame st st'" "own_keys st' = own_keys st"
  using assms set_key_frame
  by (auto simp: ensure_key_exists_def split: sum.splits prod.splits)

lemma keypair_read_cong:
  "own_keys st' = own_keys st \<Longrightarrow> get_keypair_internal L now (s_config st') = get_keypair_internal L now (s_config st)"
  by (rule get_keypair_internal_cong) (simp_all add: own_keys_def)

text \<open>A stored keypair that belongs together.\<close>

definition keypair_sound :: "ext_lib \<Rightarrow> store \<Rightarrow> bool" where
  "keypair_sound L st \<longleftrightarrow>
     (\<forall>kp. get_keypair_internal L (s_clock st) (s_config st) = Inr (Some kp) \<longrightarrow>
        kp_public kp = dh_pub L (kp_private kp))"

definition clock_ok :: "store \<Rightarrow> bool" where
  "clock_ok st \<longleftrightarrow> 0 \<le> s_clock st \<and> s_clock st < 253402300800"

lemma generated_keypair_read:
  assumes "lib_ok L" "length secret = 32" "clock_ok st"
    "store_keypair L (generate_keypair L secret (s_clock st)) st = (r, st')"
  shows "r = Inr ()" "same_frame st st'"
    "get_keypair_internal L (s_clock st') (s_config st') = Inr (Some (generate_keypair L secret (s_clock st)))"
proof -
  have len: "length (dh_pub L secret) = 32" using assms(1,2) by (simp add: lib_ok_def dh_law_def)
  have "rfc_parse L (rfc_fmt L (s_clock st)) = Some (s_clock st)"
    using assms(1,3) by (simp add: lib_ok_def date_law_def clock_ok_def)
  moreover have eq: "r = Inr ()" "st' = persist ((mark_dirty (s_config st))\<lparr>
        c_our_private_key := Some (base64_encode L secret),
        c_our_public_key := Some (base64_encode L (dh_pub L secret)),
        c_keypair_creation_time := Some (rfc_fmt L (s_clock st))\<rparr>) st"
    using assms(4) by (simp_all add: store_keypair_persist generate_keypair_def)
  ultimately show "r = Inr ()" "same_frame st st'"
    "get_keypair_internal L (s_clock st') (s_config st') = Inr (Some (generate_keypair L secret (s_clock st)))"
    using assms(1,2) len by (simp_all add: get_keypair_internal_def generate_keypair_def lib_ok_def same_frame_def)
qed

lemma keypair_step:
  assumes "lib_ok L" "length secret = 32" "length secret2 = 32" "clock_ok st" "keypair_sound L st"
    "get_or_generate_keypair_internal L secret secret2 st = (Inr (kp, b), st')"
  shows "same_frame st st' \<and> get_keypair_internal L (s_clock st') (s_config st') = Inr (Some kp) \<and>
    kp_public kp = dh_pub L (kp_private kp) \<and> c_entries (s_config st') = c_entries (s_config st) \<and>
    c_nick_networks (s_config st') = c_nick_networks (s_config st)"
proof -
  obtain r st1 where g: "get_keypair L secret st = (r, st1)" by force
  have disk: "s_disk_ok st1 = s_disk_ok st"
    using g by (auto simp: get_keypair_def store_keypair_persist Let_def split: sum.splits option.splits)
  note same = get_keypair_same [OF g] disk
  show ?thesis
  proof (cases r)
    case (Inr kp')
    then have eq: "kp' = kp" "st1 = st'"
      using assms(6) g by (auto simp: get_or_generate_keypair_internal_def)
    have read: "get_keypair_internal L (s_clock st') (s_config st') = Inr (Some kp)"
      using get_keypair_then_internal [OF assms(1,2) _ _ g [unfolded Inr eq]] assms(4) by (simp add: clock_ok_def)
    have "kp_public kp = dh_pub L (kp_private kp)"
      using assms(5) g Inr eq
      by (auto simp: get_keypair_def with_config_def keypair_sound_def generate_keypair_def store_keypair_persist
          Let_def split: sum.splits option.splits)
    then show ?thesis using read same eq by (simp add: same_frame_def)
  next
    case (Inl e)
    obtain r2 st2 where s: "store_keypair L (generate_keypair L secret2 (s_clock st1)) st1 = (r2, st2)" by force
    have c1: "clock_ok st1" using assms(4) same by (simp add: clock_ok_def)
    note gen = generated_keypair_read [OF assms(1,3) c1 s]
    have eq: "kp = generate_keypair L secret2 (s_clock st1)" "st' = st2"
      using assms(6) g Inl s gen(1) by (auto simp: get_or_generate_keypair_internal_def Let_def)
    have ent: "c_entries (s_config st2) = c_entries (s_config st1)"
      "c_nick_networks (s_config st2) = c_nick_networks (s_config st1)"
      using s by (auto simp: store_keypair_persist)
    show ?thesis using gen(2,3) same ent unfolding eq by (simp add: same_frame_def generate_keypair_def)
  qed
qed

section \<open>What a started exchange leaves\<close>

text \<open>The network a nickname's key is stored for is the one it is looked up on: there is
  a current network, or the nickname is mapped to none or to \<open>default\<close>.\<close>

definition settled :: "store \<Rightarrow> string \<Rightarrow> bool" where
  "settled st n \<longleftrightarrow> s_network st \<noteq> None \<or>
     hm_get (c_nick_networks (s_config st)) n \<in> {None, Some ''default''}"

lemma settled_set_key:
  assumes "set_key L n k None ow x st = (Inr (), st')" "settled st m"
  shows "settled st' m"
  using assms(2) set_key_effect(2,9) [OF assms(1)]
  by (cases "m = normalize_nick n")
    (auto simp: settled_def resolve_network_name_simple_def get_current_network_def split: option.splits)

lemma ensure_key_settled:
  assumes "ensure_key_exists L rng n st = (r, st')" "settled st m" "r = Inr b"
  shows "settled st' m"
  using assms settled_set_key by (auto simp: ensure_key_exists_def split: sum.splits prod.splits)

lemma finish_frame:
  assumes "finish_exchange L b kp st = (r, st')"
  shows "same_frame st st'" "own_keys st' = own_keys st"
    "c_entries (s_config st') = c_entries (s_config st)"
    "c_nick_networks (s_config st') = c_nick_networks (s_config st)"
proof -
  obtain m where m: "\<And>s. increment_key_exchange_counter s = persist ((mark_dirty (s_config s))\<lparr>c_metrics := m s\<rparr>) s"
    using counters_persist(3) by metis
  have keep: "same_frame s (increment_key_exchange_counter s)" "own_keys (increment_key_exchange_counter s) = own_keys s"
    "c_entries (s_config (increment_key_exchange_counter s)) = c_entries (s_config s)"
    "c_nick_networks (s_config (increment_key_exchange_counter s)) = c_nick_networks (s_config s)" for s
    by (simp_all add: m same_frame_def own_keys_def)
  have snap: "save_snapshot st = (q, s) \<Longrightarrow> \<exists>d. s = st\<lparr>s_disk := d\<rparr>" for q s
    by (cases "s_disk_ok st") (auto simp: save_snapshot_def save_config_def intro: exI [of _ "s_disk st"])
  consider "st' = st" | s d where "s = st\<lparr>s_disk := d\<rparr>" "st' = s \<or> st' = increment_key_exchange_counter s"
    | "st' = increment_key_exchange_counter st"
    using assms snap
    by (auto simp: finish_exchange_def Let_def split: sum.splits if_splits prod.splits)
  then have "same_frame st st' \<and> own_keys st' = own_keys st \<and> c_entries (s_config st') = c_entries (s_config st) \<and>
      c_nick_networks (s_config st') = c_nick_networks (s_config st)"
  proof cases
    case 2
    then have "same_frame st s" "own_keys s = own_keys st" "s_config s = s_config st"
      by (simp_all add: same_frame_def own_keys_def)
    then show ?thesis using 2(2) keep [of s] by (auto intro: same_frame_trans)
  qed (use keep in auto)
  then show "same_frame st st'" "own_keys st' = own_keys st"
    "c_entries (s_config st') = c_entries (s_config st)"
    "c_nick_networks (s_config st') = c_nick_networks (s_config st)" by simp_all
qed

definition env_ok :: "exchange_env \<Rightarrow> bool" where
  "env_ok env \<longleftrightarrow> length (x_secret env) = 32 \<and> length (x_secret2 env) = 32"

text \<open>A successful call went through every step.\<close>

lemma exchange_steps:
  assumes "FiSH11_ExchangeKey L env input st = (Inr tok, st')"
  obtains kg st1 kp pg st2 where
    "ensure_key_exists L (x_rng env) (normalize_nick (normalize_target (trim input))) st = (Inr kg, st1)"
    "get_or_generate_keypair_internal L (x_secret env) (x_secret2 env) st1 = (Inr (kp, pg), st2)"
    "finish_exchange L (kg \<or> pg) kp st2 = (Inr tok, st')" "tok = format_public_key L (kp_public kp)"
    "validate_keypair kp = Inr ()" "x_connected env"
proof -
  obtain kg st1 kp pg st2 where s:
    "ensure_key_exists L (x_rng env) (normalize_nick (normalize_target (trim input))) st = (Inr kg, st1)"
    "get_or_generate_keypair_internal L (x_secret env) (x_secret2 env) st1 = (Inr (kp, pg), st2)"
    "finish_exchange L (kg \<or> pg) kp st2 = (Inr tok, st')" "x_connected env"
    using assms by (auto simp: FiSH11_ExchangeKey_def Let_def split: if_splits sum.splits prod.splits)
  have "tok = format_public_key L (kp_public kp) \<and> validate_keypair kp = Inr ()"
    using s(3) by (auto simp: finish_exchange_def Let_def split: if_splits sum.splits prod.splits)
  then show thesis using s that by blast
qed

lemma exchange_ok:
  assumes "lib_ok L" "env_ok env" "clock_ok st" "keypair_sound L st"
    "FiSH11_ExchangeKey L env input st = (Inr tok, st')"
  shows "\<exists>kp. tok = format_public_key L (kp_public kp) \<and> kp_public kp = dh_pub L (kp_private kp) \<and>
    length (kp_private kp) = 32 \<and> length (kp_public kp) = 32 \<and>
    (\<forall>secret. get_keypair L secret st' = (Inr kp, st')) \<and> same_frame st st' \<and>
    (\<forall>m. settled st m \<longrightarrow> settled st' m)"
proof -
  obtain kg st1 kp pg st2 where s:
    "ensure_key_exists L (x_rng env) (normalize_nick (normalize_target (trim input))) st = (Inr kg, st1)"
    "get_or_generate_keypair_internal L (x_secret env) (x_secret2 env) st1 = (Inr (kp, pg), st2)"
    "finish_exchange L (kg \<or> pg) kp st2 = (Inr tok, st')" "tok = format_public_key L (kp_public kp)"
    using exchange_steps [OF assms(5)] by metis
  note e = ensure_key_frame [OF s(1)] and f = finish_frame [OF s(3)]
  have c1: "clock_ok st1" using e(1) assms(3) by (simp add: clock_ok_def same_frame_def)
  have k1: "keypair_sound L st1"
    using assms(4) e keypair_read_cong [OF e(2)] by (simp add: keypair_sound_def same_frame_def)
  have k: "same_frame st1 st2 \<and> get_keypair_internal L (s_clock st2) (s_config st2) = Inr (Some kp) \<and>
    kp_public kp = dh_pub L (kp_private kp) \<and> c_entries (s_config st2) = c_entries (s_config st1) \<and>
    c_nick_networks (s_config st2) = c_nick_networks (s_config st1)"
    using keypair_step [OF assms(1) _ _ c1 k1 s(2)] assms(2) by (simp add: env_ok_def)
  have read: "get_keypair_internal L (s_clock st') (s_config st') = Inr (Some kp)"
  proof -
    have "s_clock st' = s_clock st2" using f(1) by (simp add: same_frame_def)
    then show ?thesis using k keypair_read_cong [OF f(2)] by simp
  qed
  have "settled st' m" if "settled st m" for m
    using ensure_key_settled [OF s(1) that refl] k f(1,4) by (simp add: settled_def same_frame_def)
  moreover have "same_frame st st'" using e(1) k f(1) same_frame_trans by blast
  ultimately show ?thesis
    using k s(4) read get_keypair_internal_lengths [OF read] by (auto simp: get_keypair_def with_config_def)
qed

section \<open>The answer of the other side\<close>

definition good_nick :: "string \<Rightarrow> bool" where
  "good_nick n \<longleftrightarrow> n \<noteq> [] \<and> list_all graphic n \<and> normalize_nick n = n \<and> normalize_target n = n \<and>
     \<not> looks_like_token n \<and> \<not> is_chan_prefixed n"

lemma format_graphic: "b64_law L \<Longrightarrow> list_all graphic (format_public_key L k)"
  using b64_graphic [of L k] by (simp add: format_public_key_def base64_encode_def X25519_PREFIX_def graphic_def)

lemma trim_two_words:
  assumes "n \<noteq> []" "list_all graphic n" "t \<noteq> []" "list_all graphic t"
  shows "trim (n @ CHR '' '' # t) = n @ CHR '' '' # t"
proof (rule trim_id)
  show "ws_len (n @ CHR '' '' # t) = 0" using assms by (cases n) (auto simp: ws_len_graphic)
  obtain t' c where "t = t' @ [c]" using assms(3) by (cases t rule: rev_cases) auto
  then show "ws_len_rev (rev (n @ CHR '' '' # t)) = 0" using assms(4) by (simp add: ws_len_rev_graphic)
qed

lemma two_words:
  assumes "n \<noteq> []" "list_all graphic n" "t \<noteq> []" "list_all graphic t"
  shows "split_whitespace (trim (n @ CHR '' '' # t)) = [n, t]"
proof -
  have "take_word t = (t, [])" if "list_all graphic t" for t
    using that by (induction t) (auto simp: ws_len_graphic)
  moreover have "trim_start t = t" using assms(3,4) by (cases t) (auto simp: trim_start_id ws_len_graphic)
  moreover have "split_whitespace [] = []" by (subst split_whitespace.simps) (simp add: trim_start_id)
  ultimately have "split_whitespace t = [t]" using assms(3,4) by (subst split_whitespace.simps) simp
  then show ?thesis using split_whitespace_word [OF assms(1,2), of t] by (simp add: trim_two_words [OF assms])
qed

text \<open>The storing step of \<open>FiSH11_ProcessPublicKey\<close>: store, or overwrite a duplicate.\<close>

definition store_new :: "ext_lib \<Rightarrow> string \<Rightarrow> bytes \<Rightarrow> store \<Rightarrow> (FishError, unit) result \<times> store" where
  "store_new L n s st =
     (case set_key L n s None False True st of
        (Inr _, a) \<Rightarrow> (Inr (), a)
      | (Inl e, a) \<Rightarrow>
          (case e of FE_DuplicateEntry _ \<Rightarrow> set_key L n s None True True a | _ \<Rightarrow> (Inl e, a)))"

lemma store_or_replace:
  assumes "store_new L n s st1 = (store_result, st2)"
  shows "store_result = Inr () \<and> (\<exists>st0 ow. set_key L n s None ow True st0 = (Inr (), st2) \<and>
     same_frame st1 st0 \<and> (\<forall>m. settled st1 m \<longrightarrow> settled st0 m))"
proof -
  obtain r1 a where k: "set_key L n s None False True st1 = (r1, a)" by force
  show ?thesis
  proof (cases r1)
    case (Inr u)
    then show ?thesis using assms k by (auto simp: store_new_def intro!: exI [of _ st1] exI [of _ False])
  next
    case (Inl e)
    then obtain d where e: "e = FE_DuplicateEntry d" and a: "a = persist (mark_dirty (s_config st1)) st1"
      using set_key_errors [of L n s None False True st1 e a] k by (auto simp: net_ok_def)
    have "fst (set_key L n s None True True a) = Inr ()"
      by (rule set_key_overwrites) (simp add: net_ok_def)
    moreover have "(store_result, st2) = set_key L n s None True True a" using assms k Inl e by (simp add: store_new_def)
    moreover have "same_frame st1 a" "\<And>m. settled st1 m \<Longrightarrow> settled a m"
      by (simp_all add: a same_frame_def settled_def)
    ultimately show ?thesis by (metis fst_conv)
  qed
qed

lemma process_ok:
  assumes "lib_ok L" "good_nick n" "get_keypair L secret st = (Inr kp, st)"
    "validate_public_key their = Inr ()" "length their = 32"
    "compute_shared_secret L (kp_private kp) their = Inr s"
    "FiSH11_ProcessPublicKey L secret (n @ CHR '' '' # format_public_key L their) st = (r, st')"
  shows "r = Inr ''1'' \<and> (\<exists>st0 ow. set_key L n s None ow True st0 = (Inr (), st') \<and>
     same_frame st st0 \<and> (\<forall>m. settled st m \<longrightarrow> settled st0 m))"
proof -
  let ?t = "format_public_key L their"
  have b: "b64_law L" using assms(1) by (simp add: lib_ok_def)
  have t: "?t \<noteq> []" "list_all graphic ?t" "looks_like_token ?t"
    using format_graphic [OF b] by (simp_all add: format_public_key_def X25519_PREFIX_def looks_like_token_def)
  have n: "n \<noteq> []" "list_all graphic n" "\<not> looks_like_token n" "normalize_nick n = n"
    using assms(2) by (simp_all add: good_nick_def)
  have parts: "split_whitespace (trim (n @ CHR '' '' # ?t)) = [n, ?t]" by (rule two_words [OF n(1,2) t(1,2)])
  have tr: "trim ?t = ?t" using t(2) by (rule trim_graphic)
  have fmt: "extract_public_key L ?t = Inr their"
    using assms(4,5) b
    by (simp add: extract_public_key_def format_public_key_def constant_time_compare_def as_bytes_take
        base64_encode_def b64_roundtrip base64_decode_def)
  have two: "(length [n, ?t] < 2) = False" "last [n, ?t] = ?t" by simp_all
  have run: "FiSH11_ProcessPublicKey L secret (n @ CHR '' '' # ?t) st =
      (let (store_result, st2) = store_new L n s st
       in case store_result of
            Inr _ \<Rightarrow> (Inr ''1'', st2)
          | Inl e \<Rightarrow>
              (case e of
                 FE_DuplicateEntry nick \<Rightarrow>
                   (Inl (KeyInvalid (''key for '' @ nick @
                      '' already exists and couldn'' @ [CHR 0x27] @ ''t be updated'')), st2)
               | _ \<Rightarrow> (Inl (ConfigMalformed (''error storing key: '' @ fish_display e)), st2)))"
    unfolding FiSH11_ProcessPublicKey_def parts store_new_def
    by (simp only: Let_def two list.sel if_False if_True prod.case n t(3) tr fmt assms(3,4,6) sum.case not_True_eq_False
        not_False_eq_True simp_thms less_numeral_extra t(1))
  obtain sr st2 where x: "store_new L n s st = (sr, st2)" by force
  note st = store_or_replace [OF x]
  have "(r, st') = (Inr ''1'', st2)"
    using assms(7) st unfolding run x by simp
  then show ?thesis using st by simp
qed

section \<open>Reading the key back\<close>

text \<open>A configured lifetime within the limits of \<open>set_configured_key_ttl\<close>.\<close>

definition live_ttl :: "store \<Rightarrow> bool" where
  "live_ttl st \<longleftrightarrow> 3600 \<le> raw_ttl (s_config st) \<and> raw_ttl (s_config st) \<le> 604800"

lemma settled_slot:
  "settled st n \<Longrightarrow> normalize_nick n = n \<Longrightarrow> slot st n None = entry_name n (resolve_network_name_simple st None)"
  by (auto simp: settled_def slot_def resolve_network_name_def resolve_network_name_simple_def get_current_network_def
      get_network_for_nick_internal_def split: option.splits)

lemma fresh_key_read:
  assumes "lib_ok L" "normalize_nick n = n" "live_ttl s" "length key = 32" "0 \<le> t0" "t0 < 253402300800"
    "hm_get (c_entries (s_config s)) (entry_name n net) =
       Some \<lparr>e_key = Some (base64_encode L key), e_date = Some (date_fmt L t0), e_is_exchange = Some True\<rparr>"
    "hm_get (c_nick_networks (s_config s)) n = Some net" "resolve_network_name_simple s None = net"
    "t0 \<le> s_clock s" "s_clock s < t0 + raw_ttl (s_config s) + 300"
  shows "get_key L n None s = Inr key"
    "get_private_key L n s = (Inr key, persist (mark_dirty (s_config s)) s)"
proof -
  let ?e = "\<lparr>e_key = Some (base64_encode L key), e_date = Some (date_fmt L t0), e_is_exchange = Some True\<rparr>"
  have date: "date_parse L (date_fmt L t0) = Some t0"
    using aead_law_ok(5) [OF assms(1)] assms(5,6) by (simp add: date_law_def)
  have ttl: "raw_ttl (s_config s) = (case f_key_ttl (c_fish11 (s_config s)) of Some t \<Rightarrow> t | None \<Rightarrow> 86400)"
    by (simp add: raw_ttl_def)
  have i: "i64 (raw_ttl (s_config s) + 300) = raw_ttl (s_config s) + 300"
    "i64 (raw_ttl (s_config s) + 300 - (s_clock s - t0)) = raw_ttl (s_config s) + 300 - (s_clock s - t0)"
    using assms(3,10,11) by (auto intro!: i64_id simp: live_ttl_def)
  have fresh: "check_expiration L (s_clock s) (s_config s) ?e n = Inr ()"
    using assms(11) by (simp add: check_expiration_def date KEY_EXPIRY_GRACE_PERIOD_def ttl [symmetric] i Let_def)
  have same: "check_expiration L (s_clock s) c ?e n = Inr ()" if "c_fish11 c = c_fish11 (s_config s)" for c
    using fresh by (simp only: check_expiration_def that)
  have read: "get_key L n None x = Inr key"
    if "s_config x = c" "c_entries c = c_entries (s_config s)" "c_nick_networks c = c_nick_networks (s_config s)"
      "c_fish11 c = c_fish11 (s_config s)" "s_clock x = s_clock s" for x c
    using same [OF that(4)] assms(1,2,7,8) that
    by (simp add: get_key_def with_config_def get_key_internal_def own_network_def get_network_for_nick_internal_def
        usable_key_def Let_def lib_ok_def)
  show "get_key L n None s = Inr key" by (rule read [OF refl]) simp_all
  have cfg: "get_configured_key_ttl s = raw_ttl (s_config s)"
    using assms(3) by (simp add: get_configured_key_ttl_def with_config_def raw_ttl_def live_ttl_def Let_def)
  have "check_key_expiry L n None s = (Inr (), persist (mark_dirty (s_config s)) s)"
    unfolding check_key_expiry_def Let_def cfg assms(2,9)
    by (subst with_config_mut_persist [of _ _ "Inr False" "mark_dirty (s_config s)"])
      (use assms(11) in \<open>auto simp: assms(7) date KEY_EXPIRY_GRACE_PERIOD_def\<close>)
  moreover have "get_key L n None (persist (mark_dirty (s_config s)) s) = Inr key"
    by (rule read [OF refl]) simp_all
  ultimately show "get_private_key L n s = (Inr key, persist (mark_dirty (s_config s)) s)"
    using assms(4) by (simp add: get_private_key_def)
qed

lemma exchanged_key_read:
  assumes "lib_ok L" "normalize_nick n = n" "settled st n" "clock_ok st" "live_ttl st" "length key = 32"
    "set_key L n key None ow True st = (Inr (), st0)"
    "same_frame st0 st'" "c_entries (s_config st') = c_entries (s_config st0)"
    "c_nick_networks (s_config st') = c_nick_networks (s_config st0)"
    "s_clock st \<le> t" "t < s_clock st + raw_ttl (s_config st) + 300"
  shows "get_key L n None (st'\<lparr>s_clock := t\<rparr>) = Inr key"
    "get_private_key L n (st'\<lparr>s_clock := t\<rparr>) =
       (Inr key, persist (mark_dirty (s_config st')) (st'\<lparr>s_clock := t\<rparr>))"
proof -
  let ?net = "resolve_network_name_simple st None"
  note eff = set_key_effect [OF assms(7)]
  have fr: "c_fish11 (s_config st') = c_fish11 (s_config st)" "s_network st' = s_network st"
    using assms(8) eff by (simp_all add: same_frame_def)
  have "hm_get (c_entries (s_config st')) (entry_name n ?net) =
      Some \<lparr>e_key = Some (base64_encode L key), e_date = Some (date_fmt L (s_clock st)), e_is_exchange = Some True\<rparr>"
    by (simp add: assms(9) eff settled_slot [OF assms(3,2)] new_entry_def)
  moreover have "hm_get (c_nick_networks (s_config st')) n = Some ?net" by (simp add: assms(10) eff assms(2))
  moreover have "resolve_network_name_simple (st'\<lparr>s_clock := t\<rparr>) None = ?net"
    by (simp add: resolve_network_name_simple_def get_current_network_def fr cong: option.case_cong)
  moreover have "raw_ttl (s_config st') = raw_ttl (s_config st)" by (simp add: raw_ttl_def fr)
  ultimately show "get_key L n None (st'\<lparr>s_clock := t\<rparr>) = Inr key"
    "get_private_key L n (st'\<lparr>s_clock := t\<rparr>) =
       (Inr key, persist (mark_dirty (s_config st')) (st'\<lparr>s_clock := t\<rparr>))"
    using fresh_key_read [OF assms(1,2) _ assms(6), of "st'\<lparr>s_clock := t\<rparr>" "s_clock st" ?net] assms(4,5,11,12)
    by (simp_all add: clock_ok_def live_ttl_def)
qed

text \<open>A private message under a key both sides have.\<close>

lemma private_message_read:
  assumes "lib_ok L" "length nonce = 24" "utf8_valid (as_bytes m)" "m \<noteq> []" "length m \<le> 4096"
    "good_nick nA" "good_nick nB" "length key = 32"
    "get_private_key L nB stA = (Inr key, stA1)" "get_private_key L nA stB = (Inr key, stB1)"
  shows "\<exists>c stA' stB'. FiSH11_EncryptMsg L nonce (nB @ CHR '' '' # m) stA = (Inr (''+FiSH '' @ c), stA') \<and>
    FiSH11_DecryptMsg L (nA @ CHR '' '' # ''+FiSH '' @ c) stB = Some (Inr m, stB')"
proof -
  have g: "n \<noteq> [] \<and> CHR '' '' \<notin> set n \<and> normalize_target n = n \<and> normalize_nick n = n \<and> \<not> is_chan_prefixed n"
    if "good_nick n" for n
    using that graphic_no_space by (simp add: good_nick_def)
  have a: "nA \<noteq> []" "CHR '' '' \<notin> set nA" "normalize_target nA = nA" "normalize_nick nA = nA" "\<not> is_chan_prefixed nA"
    and b: "nB \<noteq> []" "CHR '' '' \<notin> set nB" "normalize_target nB = nB" "normalize_nick nB = nB" "\<not> is_chan_prefixed nB"
    using g [OF assms(6)] g [OF assms(7)] by simp_all
  obtain c where c: "encrypt_message L nonce key m None stA1 = (Inr c, increment_encryption_counter stA1)"
    "\<And>st1. decrypt_message False L key c None st1 = Some (Inr m, increment_decryption_counter st1)"
    using encrypt_then_decrypt [OF assms(1,8,2,4,5,3), of None stA1] by auto
  obtain ct where ct: "c = base64_encode L (nonce @ ct)"
    using encrypt_message_Inr [OF c(1)] by blast
  have "nonce @ ct \<noteq> []" using assms(2) by auto
  then have t: "trim (''+FiSH '' @ c) = ''+FiSH '' @ c"
    using trim_fish [OF aead_law_ok(2) [OF assms(1)], of "nonce @ ct"] unfolding ct by blast
  have s: "strip_prefix ''+FiSH '' (''+FiSH '' @ c) = Some c" by (rule strip_prefix_append)
  have pn: "normalize_private_target nA = Inr nA" "normalize_private_target nB = Inr nB"
    using a b by (simp_all add: normalize_private_target_def)
  have "FiSH11_EncryptMsg L nonce (nB @ CHR '' '' # m) stA = (Inr (''+FiSH '' @ c),
      increment_encryption_counter (increment_encryption_counter stA1))"
    using b c(1) pn assms(9) by (simp add: FiSH11_EncryptMsg_def parse_input_parts [OF b(2,3,1) assms(4)] Let_def)
  moreover have "FiSH11_DecryptMsg L (nA @ CHR '' '' # ''+FiSH '' @ c) stB =
      Some (Inr m, increment_decryption_counter (increment_decryption_counter stB1))"
    using a c(2) pn assms(10) parse_input_parts [OF a(2,3,1), of "''+FiSH '' @ c"] t s
    by (simp add: FiSH11_DecryptMsg_def decrypt_unlocked_Some Let_def)
  ultimately show ?thesis by blast
qed

section \<open>The whole exchange\<close>

text \<open>The result of one side: its keypair answers the other side's token, and the key
  that both compute is stored for the other nickname.\<close>

lemma exchange_side:
  assumes "lib_ok L" "good_nick n" "kp_public kp = dh_pub L (kp_private kp)"
    "\<forall>secret. get_keypair L secret st = (Inr kp, st)"
    "validate_public_key their = Inr ()" "length their = 32"
    "FiSH11_ProcessPublicKey L secret (n @ CHR '' '' # format_public_key L their) st = (r, st')"
  shows "\<exists>s. compute_shared_secret L (kp_private kp) their = Inr s \<and> length s = 32 \<and> r = Inr ''1'' \<and>
    (\<exists>st0 ow. set_key L n s None ow True st0 = (Inr (), st') \<and> same_frame st st0 \<and>
       (\<forall>m. settled st m \<longrightarrow> settled st0 m))"
proof -
  have h: "hkdf_law L" using assms(1) by (rule aead_law_ok)
  obtain s where s: "hkdf L (as_bytes ''FiSH11-KDF'') (dh_mul L (kp_private kp) their) (as_bytes ''EncryptionKey'') 32 = Some s"
      "length s = 32"
    by (rule hkdf_out [OF h, of 32 "as_bytes ''FiSH11-KDF''" "dh_mul L (kp_private kp) their" "as_bytes ''EncryptionKey''"]) auto
  have c: "compute_shared_secret L (kp_private kp) their = Inr s"
    using s assms(5) by (simp add: compute_shared_secret_def)
  show ?thesis
    using process_ok [OF assms(1,2) spec [OF assms(4)] assms(5,6) c assms(7)] c s(2) by blast
qed

definition exchange_ready :: "ext_lib \<Rightarrow> exchange_env \<Rightarrow> string \<Rightarrow> store \<Rightarrow> bool" where
  "exchange_ready L env n st \<longleftrightarrow> env_ok env \<and> clock_ok st \<and> live_ttl st \<and> keypair_sound L st \<and>
     good_nick n \<and> settled st n"

lemma exchange_agrees:
  assumes "lib_ok L" "exchange_ready L envA nB stA" "exchange_ready L envB nA stB"
    "FiSH11_ExchangeKey L envA inA stA = (Inr tokA, stA1)"
    "FiSH11_ExchangeKey L envB inB stB = (Inr tokB, stB1)"
    "is_valid_public_key_format L tokA" "is_valid_public_key_format L tokB"
    "FiSH11_ProcessPublicKey L sA (nB @ CHR '' '' # tokB) stA1 = (rA, stA2)"
    "FiSH11_ProcessPublicKey L sB (nA @ CHR '' '' # tokA) stB1 = (rB, stB2)"
  shows "rA = Inr ''1'' \<and> rB = Inr ''1'' \<and> (\<exists>s a oa b ob. length s = 32 \<and>
    set_key L nB s None oa True a = (Inr (), stA2) \<and> same_frame stA a \<and> settled a nB \<and>
    set_key L nA s None ob True b = (Inr (), stB2) \<and> same_frame stB b \<and> settled b nA)"
proof -
  have rA: "env_ok envA" "clock_ok stA" "keypair_sound L stA" "good_nick nB" "settled stA nB"
    and rB: "env_ok envB" "clock_ok stB" "keypair_sound L stB" "good_nick nA" "settled stB nA"
    using assms(2,3) by (simp_all add: exchange_ready_def)
  obtain kA where A: "tokA = format_public_key L (kp_public kA)" "kp_public kA = dh_pub L (kp_private kA)"
    "length (kp_public kA) = 32" "\<forall>secret. get_keypair L secret stA1 = (Inr kA, stA1)" "same_frame stA stA1"
    "settled stA1 nB"
    using exchange_ok [OF assms(1) rA(1-3) assms(4)] rA(5) by blast
  obtain kB where B: "tokB = format_public_key L (kp_public kB)" "kp_public kB = dh_pub L (kp_private kB)"
    "length (kp_public kB) = 32" "\<forall>secret. get_keypair L secret stB1 = (Inr kB, stB1)" "same_frame stB stB1"
    "settled stB1 nA"
    using exchange_ok [OF assms(1) rB(1-3) assms(5)] rB(5) by blast
  have b64: "b64_law L" using assms(1) by (rule aead_law_ok)
  have valid: "validate_public_key k = Inr ()"
    if "is_valid_public_key_format L (format_public_key L k)" "length k = 32" for k
    using that b64 by (cases "validate_public_key k") (auto simp: is_valid_public_key_format_def format_public_key_def)
  have v: "validate_public_key (kp_public kA) = Inr ()" "validate_public_key (kp_public kB) = Inr ()"
    using valid assms(6,7) A(1,3) B(1,3) by simp_all
  obtain s where sA: "compute_shared_secret L (kp_private kA) (kp_public kB) = Inr s" "length s = 32" "rA = Inr ''1''"
    "\<exists>a oa. set_key L nB s None oa True a = (Inr (), stA2) \<and> same_frame stA1 a \<and> (\<forall>m. settled stA1 m \<longrightarrow> settled a m)"
    using exchange_side [OF assms(1) rA(4) A(2,4) v(2) B(3) assms(8) [unfolded B(1)]] by blast
  obtain s' where sB: "compute_shared_secret L (kp_private kB) (kp_public kA) = Inr s'" "rB = Inr ''1''"
    "\<exists>b ob. set_key L nA s' None ob True b = (Inr (), stB2) \<and> same_frame stB1 b \<and> (\<forall>m. settled stB1 m \<longrightarrow> settled b m)"
    using exchange_side [OF assms(1) rB(4) B(2,4) v(1) A(3) assms(9) [unfolded A(1)]] by blast
  have "dh_mul L (kp_private kB) (dh_pub L (kp_private kA)) = dh_mul L (kp_private kA) (dh_pub L (kp_private kB))"
    using aead_law_ok(4) [OF assms(1)] by (simp add: dh_law_def)
  then have "s' = s" using sA(1) sB(1) v by (simp add: compute_shared_secret_def A(2) B(2))
  then show ?thesis
    using sA sB A(5,6) B(5,6) same_frame_trans by blast
qed


definition sample_env :: "bytes \<Rightarrow> exchange_env" where
  "sample_env secret = \<lparr>x_elapsed1 = 0, x_elapsed2 = 0, x_elapsed3 = 0, x_connected = True,
     x_rng = Some (replicate 32 3), x_secret = secret, x_secret2 = secret\<rparr>"

lemma sample_nicks: "good_nick ''bob''" "good_nick ''alice''"
  "normalize_nick (normalize_target (trim ''bob'')) = ''bob''"
  "normalize_nick (normalize_target (trim ''alice'')) = ''alice''"
  by code_simp+

lemma sample_exchange:
  assumes "length k = 32" "and (k ! 31) 0x80 = 0" "k \<noteq> replicate 32 0"
    "normalize_nick (normalize_target (trim n)) = n" "n \<noteq> []"
  shows "\<exists>st'. FiSH11_ExchangeKey ref_lib (sample_env k) n sample_store = (Inr (format_public_key ref_lib k), st')"
proof -
  obtain b st1 where e: "ensure_key_exists ref_lib (Some (replicate 32 3)) n sample_store = (Inr b, st1)"
  proof -
    obtain r st1 where k: "set_key ref_lib n (replicate 32 3) None True True sample_store = (r, st1)" by force
    have "r = Inr ()"
      using set_key_overwrites [of None ref_lib n "replicate 32 3" True sample_store] k by (simp add: net_ok_def)
    then show thesis using that k
      by (cases "get_key ref_lib n None sample_store")
        (auto simp: ensure_key_exists_def generate_secure_random_key_def)
  qed
  note f = ensure_key_frame [OF e]
  have none: "get_keypair_internal ref_lib (s_clock st1) (s_config st1) = Inr None"
    using keypair_read_cong [OF f(2)] by (simp add: get_keypair_internal_def sample_store_def fish_config_new_def)
  then obtain st2 where k: "get_or_generate_keypair_internal ref_lib k k st1 =
      (Inr (generate_keypair ref_lib k (s_clock st1), False), st2)"
    by (auto simp: get_or_generate_keypair_internal_def get_keypair_def with_config_def store_keypair_persist Let_def)
  have ok: "s_disk_ok st2"
  proof -
    have "clock_ok st1" using f(1) by (simp add: clock_ok_def same_frame_def sample_store_facts)
    moreover have "keypair_sound ref_lib st1" using none by (simp add: keypair_sound_def)
    ultimately show ?thesis using keypair_step [OF _ assms(1,1) _ _ k] f(1)
      by (simp add: same_frame_def sample_store_facts)
  qed
  have v: "validate_keypair (generate_keypair ref_lib k (s_clock st1)) = Inr ()"
    using assms(1-3) by (simp add: validate_keypair_def generate_keypair_def ref_simps)
  obtain st3 where s: "save_snapshot st2 = (Inr (), st3)"
    using ok by (auto simp: save_snapshot_def save_config_def)
  have sw: "starts_with ''X25519_INIT:'' (format_public_key ref_lib k)"
    by (simp add: format_public_key_def X25519_PREFIX_def)
  have pub: "kp_public (generate_keypair ref_lib k (s_clock st1)) = k" by (simp add: generate_keypair_def ref_simps)
  show ?thesis
    using e k v s sw assms(4,5)
    by (simp add: FiSH11_ExchangeKey_def sample_env_def check_timeout_def Let_def finish_exchange_def pub)
qed

lemma sample_ready:
  assumes "length k = 32" "good_nick n"
  shows "exchange_ready ref_lib (sample_env k) n sample_store"
  using assms
  by (simp add: exchange_ready_def env_ok_def sample_env_def clock_ok_def live_ttl_def settled_def sample_store_facts
      keypair_sound_def get_keypair_internal_def)
    (simp add: sample_store_def fish_config_new_def)

lemma sample_token: "length k = 32 \<Longrightarrow> validate_public_key k = Inr () \<Longrightarrow>
  is_valid_public_key_format ref_lib (format_public_key ref_lib k)"
  by (simp add: is_valid_public_key_format_def format_public_key_def lib_ok_def [symmetric] aead_law_ok(2))


section \<open>The placeholder key\<close>

lemma keypair_step_frame:
  assumes "get_or_generate_keypair_internal L secret secret2 st = (r, st')"
  shows "same_frame st st'" "c_entries (s_config st') = c_entries (s_config st)"
    "c_nick_networks (s_config st') = c_nick_networks (s_config st)"
proof -
  obtain r1 st1 where g: "get_keypair L secret st = (r1, st1)" by force
  have "s_disk_ok st1 = s_disk_ok st"
    using g by (auto simp: get_keypair_def store_keypair_persist Let_def split: sum.splits option.splits)
  then have same: "same_frame st st1" "c_entries (s_config st1) = c_entries (s_config st)"
    "c_nick_networks (s_config st1) = c_nick_networks (s_config st)"
    using get_keypair_same [OF g] by (simp_all add: same_frame_def)
  have "same_frame st1 st' \<and> c_entries (s_config st') = c_entries (s_config st1) \<and>
      c_nick_networks (s_config st') = c_nick_networks (s_config st1)"
    using assms g
    by (cases r1) (auto simp: get_or_generate_keypair_internal_def store_keypair_persist Let_def same_frame_def)
  then show "same_frame st st'" "c_entries (s_config st') = c_entries (s_config st)"
    "c_nick_networks (s_config st') = c_nick_networks (s_config st)"
    using same same_frame_trans by auto
qed

text \<open>What the steps after \<open>ensure_key_exists\<close> leave alone, however far they get.\<close>

lemma exchange_after_key:
  assumes "FiSH11_ExchangeKey L env input st = (r, st')"
    "ensure_key_exists L (x_rng env) (normalize_nick (normalize_target (trim input))) st = (Inr kg, st1)"
    "normalize_nick (normalize_target (trim input)) \<noteq> []" "x_elapsed1 env \<le> 10 * 10 ^ 9" "x_connected env"
  shows "same_frame st1 st' \<and> c_entries (s_config st') = c_entries (s_config st1) \<and>
    c_nick_networks (s_config st') = c_nick_networks (s_config st1)"
proof -
  have t1: "check_timeout (x_elapsed1 env) ''before key check'' = Inr ()"
    using assms(4) by (simp add: check_timeout_def KEY_EXCHANGE_TIMEOUT_SECONDS_def)
  obtain q st2 where k: "get_or_generate_keypair_internal L (x_secret env) (x_secret2 env) st1 = (q, st2)" by force
  consider "st' = st1" | "st' = st2" | b kp where "finish_exchange L b kp st2 = (r, st')"
    using assms t1 k
    by (auto simp: FiSH11_ExchangeKey_def Let_def split: if_splits sum.splits prod.splits)
  then show ?thesis
  proof cases
    case 3
    then show ?thesis using finish_frame [OF 3] keypair_step_frame [OF k] same_frame_trans by auto
  qed (use keypair_step_frame [OF k] in auto)
qed

text \<open>C9: when the key of a nickname cannot be read, the start of an exchange stores
  random bytes as its key on the current network before anything is agreed with the other
  side, whatever the call goes on to answer and whatever the current network's entry held:
  from then on messages to the nickname are sealed under bytes nobody else has.\<close>

theorem exchange_stores_placeholder:
  assumes "lib_ok L" "clock_ok st" "live_ttl st" "x_rng env = Some k" "length k = 32"
    "n = normalize_nick (normalize_target (trim input))" "n \<noteq> []" "normalize_nick n = n"
    "s_network st = Some net" "get_key L n None st = Inl e"
    "x_connected env" "x_elapsed1 env \<le> 10 * 10 ^ 9"
    "FiSH11_ExchangeKey L env input st = (r, st')"
  shows "get_key L n (Some net) st' = Inr k \<and> get_key L n None st' = Inr k \<and>
    fst (get_private_key L n st') = Inr k"
proof -
  obtain b st1 where s: "set_key L n k None True True st = (b, st1)" by force
  have b: "b = Inr ()"
    using set_key_overwrites [of None L n k True st] s by (simp add: net_ok_def)
  then have "ensure_key_exists L (x_rng env) (normalize_nick (normalize_target (trim input))) st = (Inr True, st1)"
    using assms(4,6,10) s by (simp add: ensure_key_exists_def generate_secure_random_key_def)
  from exchange_after_key [OF assms(13) this _ assms(12,11)] assms(6,7)
  have f: "same_frame st1 st'" "c_entries (s_config st') = c_entries (s_config st1)"
    "c_nick_networks (s_config st') = c_nick_networks (s_config st1)" by simp_all
  have st: "settled st n" by (simp add: settled_def assms(9))
  have clk: "s_clock st1 = s_clock st" "s_clock st' = s_clock st" "s_network st' = Some net"
    using set_key_frame [OF s] f(1) assms(9) by (simp_all add: same_frame_def)
  have lt: "s_clock st < s_clock st + raw_ttl (s_config st) + 300" using assms(3) by (simp add: live_ttl_def)
  have same: "st'\<lparr>s_clock := s_clock st\<rparr> = st'" using clk(2) by simp
  note r = exchanged_key_read [OF assms(1,8) st assms(2,3,5) s [unfolded b] f order_refl lt, unfolded same]
  have m: "hm_get (c_nick_networks (s_config st')) n = Some net"
    using set_key_effect(2) [OF s [unfolded b]] f(3) assms(8,9)
    by (simp add: resolve_network_name_simple_def get_current_network_def)
  have "get_key L n (Some net) st' = Inr k"
    using r(1) m assms(8)
    by (simp add: get_key_def with_config_def get_key_internal_def own_network_def get_network_for_nick_internal_def)
  then show ?thesis using r by simp
qed

text \<open>A user with a working key on the current network, whose nickname was last used on
  another one, loses the key.\<close>

definition moved_store :: store where
  "moved_store = sample_store\<lparr>s_network := Some ''net'', s_config := (s_config sample_store)\<lparr>
     c_entries := [(''bob@net'', \<lparr>e_key = Some (base64_encode ref_lib (replicate 32 7)), e_date = None,
                                  e_is_exchange = Some False\<rparr>)],
     c_nick_networks := [(''bob'', ''other'')]\<rparr>\<rparr>"

lemma moved_store_reads:
  "get_key ref_lib ''bob'' (Some ''net'') moved_store = Inr (replicate 32 7)"
  "\<exists>e. get_key ref_lib ''bob'' None moved_store = Inl e"
proof -
  have n: "normalize_nick ''bob'' = ''bob''" by code_simp
  have e: "entry_name ''bob'' ''net'' = ''bob@net''" "entry_name ''bob'' ''other'' \<noteq> ''bob@net''" by code_simp+
  show "get_key ref_lib ''bob'' (Some ''net'') moved_store = Inr (replicate 32 7)"
    by (simp add: get_key_def with_config_def get_key_internal_def own_network_def n e moved_store_def
        usable_key_def check_expiration_def aead_law_ok(2) Let_def)
  show "\<exists>e. get_key ref_lib ''bob'' None moved_store = Inl e"
    by (simp add: get_key_def with_config_def get_key_internal_def own_network_def n e moved_store_def
        get_network_for_nick_internal_def Let_def)
qed

lemma exchange_stores_placeholder_witness:
  "\<exists>r st'. get_key ref_lib ''bob'' (Some ''net'') moved_store = Inr (replicate 32 7) \<and>
     FiSH11_ExchangeKey ref_lib (sample_env (replicate 32 9)) ''bob'' moved_store = (r, st') \<and>
     get_key ref_lib ''bob'' (Some ''net'') st' = Inr (replicate 32 3)"
proof -
  obtain e where e: "get_key ref_lib ''bob'' None moved_store = Inl e" using moved_store_reads(2) by blast
  obtain r st' where x: "FiSH11_ExchangeKey ref_lib (sample_env (replicate 32 9)) ''bob'' moved_store = (r, st')"
    by force
  have n: "normalize_nick ''bob'' = ''bob''" by code_simp
  have "clock_ok moved_store" "live_ttl moved_store" "s_network moved_store = Some ''net''"
    using sample_store_facts(1,2) by (simp_all add: clock_ok_def live_ttl_def moved_store_def raw_ttl_def)
  then show ?thesis
    using exchange_stores_placeholder [OF _ _ _ _ _ _ _ n _ e _ _ x, of "replicate 32 3" "''net''"]
      sample_nicks(3) moved_store_reads(1) x
    by (auto simp: sample_env_def)
qed

section \<open>Refusals\<close>

text \<open>Without a nickname, in time or without a connection the call changes nothing; a
  later refusal for time leaves the placeholder.\<close>

lemma exchange_refused:
  "normalize_nick (normalize_target (trim input)) = [] \<Longrightarrow>
     FiSH11_ExchangeKey L env input st = (Inl (MissingParameter ''nickname''), st)"
  "normalize_nick (normalize_target (trim input)) \<noteq> [] \<Longrightarrow> 10 * 10 ^ 9 < x_elapsed1 env \<Longrightarrow>
     FiSH11_ExchangeKey L env input st = (Inl (Timeout ''Key Exchange'' 10 ''before key check''), st)"
  "normalize_nick (normalize_target (trim input)) \<noteq> [] \<Longrightarrow> x_elapsed1 env \<le> 10 * 10 ^ 9 \<Longrightarrow> \<not> x_connected env \<Longrightarrow>
     FiSH11_ExchangeKey L env input st =
       (Inl (NotConnected ''Cannot perform key exchange when not connected to IRC''), st)"
  by (simp_all add: FiSH11_ExchangeKey_def check_timeout_def KEY_EXCHANGE_TIMEOUT_SECONDS_def Let_def)

lemma list_ex_Some:
  "list_ex (\<lambda>x. case f x of None \<Rightarrow> False | Some i \<Rightarrow> i \<in> S) xs \<longleftrightarrow> (\<exists>i. Some i \<in> f ` set xs \<and> i \<in> S)"
proof (induction xs)
  case (Cons x xs)
  then show ?case by (cases "f x") auto
qed simp

text \<open>On Linux the process counts as connected exactly when one of its sockets is in the
  tables as established.\<close>

lemma connected_linux:
  "is_socket_connected_linux tcp tcp6 (Some links) \<longleftrightarrow>
     (\<exists>i. Some i \<in> socket_inode ` set links \<and>
        i \<in> set (get_established_inodes tcp @ get_established_inodes tcp6))"
proof (cases "get_established_inodes tcp @ get_established_inodes tcp6 = []")
  case True
  then show ?thesis unfolding is_socket_connected_linux_def Let_def by simp
next
  case False
  then show ?thesis
    unfolding is_socket_connected_linux_def Let_def
    by (simp only: if_False option.case list_ex_Some)
qed

end
