(* ===== verification/Exports.thy ===== *)
theory Exports
  imports ConfigFile Handlers Settings Passwords
begin

text \<open>
  The remaining exported functions of \<open>dll_interface/\<close>: the \<open>INI_*\<close> access to the
  settings (\<open>ini_types.rs\<close>), plaintext topics (\<open>fish11_settopic.rs\<close>), key generation,
  listings and statistics, the channel key switches, the version and build texts of
  \<open>globals.rs\<close>, the configuration path, and the signed timestamps of
  \<open>config/timestamp_signing.rs\<close>.  As in \<open>Handlers\<close>, a function of the macro
  \<open>dll_function_identifier!\<close> takes the text of its caller; the topic functions take the
  caller's buffer themselves.
\<close>

section \<open>Settings by name\<close>

definition parse_i32 :: "string \<Rightarrow> int option" where
  "parse_i32 s =
     (case s of [] \<Rightarrow> None
      | c # t \<Rightarrow>
        if c = CHR ''-'' then
          (case parse_digits t of None \<Rightarrow> None | Some n \<Rightarrow> if n \<le> 2 ^ 31 then Some (- int n) else None)
        else (case parse_digits (if c = CHR ''+'' then t else s) of
                None \<Rightarrow> None | Some n \<Rightarrow> if n < 2 ^ 31 then Some (int n) else None))"

text \<open>The key and what follows the first space.\<close>

definition ini_parts :: "string \<Rightarrow> string \<times> string option" where
  "ini_parts input =
     (case splitn_char 2 (CHR '' '') input of
        [k, v] \<Rightarrow> (trim k, Some (trim v))
      | k # _ \<Rightarrow> (trim k, None)
      | [] \<Rightarrow> ([], None))"

definition bool_default :: "string option \<Rightarrow> bool" where
  "bool_default d =
     (case d of None \<Rightarrow> False
      | Some s \<Rightarrow>
          if s = [] then False
          else if to_lowercase s = ''true'' then True
          else if to_lowercase s = ''false'' then False
          else (case parse_i32 s of Some v \<Rightarrow> v \<noteq> 0 | None \<Rightarrow> False))"

definition INI_GetBool :: "string \<Rightarrow> store \<Rightarrow> (DllError, string) result" where
  "INI_GetBool input st =
     (let (key, def) = ini_parts input in
      if key = [] then Inl (MissingParameter ''key'')
      else
        (let config = get_fish11_config st; k = to_lowercase key;
             value = (if k = ''process_incoming'' then f_process_incoming config
                      else if k = ''process_outgoing'' then f_process_outgoing config
                      else if k = ''encrypt_notice'' then f_encrypt_notice config
                      else if k = ''encrypt_action'' then f_encrypt_action config
                      else if k = ''no_fish10_legacy'' then f_no_fish10_legacy config
                      else if k = ''fish_prefix'' then f_fish_prefix config
                      else bool_default def)
         in Inr (if value then ''1'' else ''0'')))"

definition INI_GetString :: "string \<Rightarrow> store \<Rightarrow> (DllError, string) result" where
  "INI_GetString input st =
     (let (key, def) = ini_parts input in
      if key = [] then Inl (MissingParameter ''key'')
      else
        (let config = get_fish11_config st; k = to_lowercase key in
         Inr (if k = ''plain_prefix'' then f_plain_prefix config
              else if k = ''mark_encrypted'' then f_mark_encrypted config
              else if k = ''encryption_prefix'' then f_encryption_prefix config
              else (case def of Some d \<Rightarrow> d | None \<Rightarrow> []))))"

definition INI_GetInt :: "string \<Rightarrow> store \<Rightarrow> (DllError, string) result" where
  "INI_GetInt input st =
     (let (key, def) = ini_parts input in
      if key = [] then Inl (MissingParameter ''key'')
      else
        (let config = get_fish11_config st;
             default_value = (case def of None \<Rightarrow> 0
                | Some s \<Rightarrow> if s = [] then 0 else (case parse_i32 s of Some v \<Rightarrow> v | None \<Rightarrow> 0))
         in Inr (show_int (if to_lowercase key = ''mark_position'' then uint (f_mark_position config)
                           else default_value))))"

definition ini_saved :: "string \<Rightarrow> (FishError, unit) result \<times> store \<Rightarrow> (DllError, string) result \<times> store" where
  "ini_saved key saved =
     (case saved of
        (Inl e, st1) \<Rightarrow> (Inl (dll_of_fish e), st1)
      | (Inr _, st1) \<Rightarrow> (Inr (''Configuration key '' @ quoted key @ '' set successfully''), st1))"

definition INI_SetString :: "string \<Rightarrow> store \<Rightarrow> (DllError, string) result \<times> store" where
  "INI_SetString input st =
     (let (key, v) = ini_parts input in
      if key = [] then (Inl (MissingParameter ''key''), st)
      else
        (let value = (case v of Some x \<Rightarrow> x | None \<Rightarrow> []); config = get_fish11_config st; k = to_lowercase key;
             config1 = (if k = ''plain_prefix'' then config\<lparr>f_plain_prefix := value\<rparr>
                        else if k = ''mark_encrypted'' then config\<lparr>f_mark_encrypted := value\<rparr>
                        else if k = ''encryption_prefix'' then config\<lparr>f_encryption_prefix := value\<rparr>
                        else config)
         in ini_saved key (update_fish11_config config1 st)))"

definition INI_SetInt :: "string \<Rightarrow> store \<Rightarrow> (DllError, string) result \<times> store" where
  "INI_SetInt input st =
     (let (key, v) = ini_parts input in
      if key = [] then (Inl (MissingParameter ''key''), st)
      else
        (case parse_i32 (case v of Some x \<Rightarrow> x | None \<Rightarrow> []) of
           None \<Rightarrow> (Inl (InvalidInput ''value'' ''expected integer value''), st)
         | Some value \<Rightarrow>
             (let config = get_fish11_config st; k = to_lowercase key;
                  config1 = (if k = ''mark_position'' then config\<lparr>f_mark_position := word_of_int value\<rparr>
                             else if k = ''process_incoming'' then config\<lparr>f_process_incoming := (value \<noteq> 0)\<rparr>
                             else if k = ''process_outgoing'' then config\<lparr>f_process_outgoing := (value \<noteq> 0)\<rparr>
                             else if k = ''encrypt_notice'' then config\<lparr>f_encrypt_notice := (value \<noteq> 0)\<rparr>
                             else if k = ''encrypt_action'' then config\<lparr>f_encrypt_action := (value \<noteq> 0)\<rparr>
                             else if k = ''no_fish10_legacy'' then config\<lparr>f_no_fish10_legacy := (value \<noteq> 0)\<rparr>
                             else if k = ''fish_prefix'' then config\<lparr>f_fish_prefix := (value \<noteq> 0)\<rparr>
                             else config)
              in ini_saved key (update_fish11_config config1 st))))"

definition FiSH11_SetEncryptionPrefix :: "string \<Rightarrow> store \<Rightarrow> (DllError, string) result \<times> store" where
  "FiSH11_SetEncryptionPrefix prefix st =
     (if prefix = [] then (Inl (MissingParameter ''prefix''), st)
      else
        (case update_fish11_config ((get_fish11_config st)\<lparr>f_encryption_prefix := prefix\<rparr>) st of
           (Inl e, st1) \<Rightarrow> (Inl (dll_of_fish e), st1)
         | (Inr _, st1) \<Rightarrow> (Inr ''Encryption prefix set successfully'', st1)))"

definition parse_switch :: "string \<Rightarrow> bool option" where
  "parse_switch s =
     (let v = to_lowercase s in
      if v \<in> set [''1'', ''true'', ''yes'', ''on''] then Some True
      else if v \<in> set [''0'', ''false'', ''no'', ''off''] then Some False
      else None)"

definition FiSH11_SetFishPrefix :: "string \<Rightarrow> store \<Rightarrow> (DllError, string) result \<times> store" where
  "FiSH11_SetFishPrefix value_str st =
     (if value_str = [] then (Inl (MissingParameter ''value''), st)
      else
        (case parse_switch value_str of
           None \<Rightarrow> (Inl (InvalidInput ''value'' ''expected 1/true/yes/on or 0/false/no/off''), st)
         | Some fish_prefix \<Rightarrow>
             (case update_fish11_config ((get_fish11_config st)\<lparr>f_fish_prefix := fish_prefix\<rparr>) st of
                (Inl e, st1) \<Rightarrow> (Inl (dll_of_fish e), st1)
              | (Inr _, st1) \<Rightarrow>
                  (Inr (''Fish prefix set to '' @ (if fish_prefix then ''enabled'' else ''disabled'')), st1))))"

section \<open>Topics\<close>

text \<open>What follows the inner function of the three topic functions: its text goes to the
  caller's buffer with the code 1, an error as any other.\<close>

definition topic_call ::
  "nat \<Rightarrow> string \<Rightarrow> (string \<Rightarrow> store \<Rightarrow> (DllError, string) result \<times> store) \<Rightarrow> bytes option \<Rightarrow> store
   \<Rightarrow> (int \<times> bytes option) \<times> store" where
  "topic_call buf_size func_name inner data st =
     (if data = None then (to_mirc_response buf_size (NullPointer func_name) data, st)
      else
        (let (r, st1) = (case parse_buffer_input data of
                           Inl e \<Rightarrow> (Inl (dll_of_str e), st)
                         | Inr input \<Rightarrow> inner input st)
         in case r of
              Inl e \<Rightarrow> (to_mirc_response buf_size e data, st1)
            | Inr result \<Rightarrow>
                (case cstring_new result of
                   None \<Rightarrow> (to_mirc_response buf_size (NulByte ''nul byte found in provided data'') data, st1)
                 | Some c \<Rightarrow> ((1, snd (write_cstring_to_buffer data buf_size c)), st1))))"

definition bad_channel :: DllError where
  "bad_channel = InvalidInput ''channel'' ''channel name must start with # or &''"

definition set_topic_inner :: "string \<Rightarrow> store \<Rightarrow> (DllError, string) result \<times> store" where
  "set_topic_inner input st =
     (case splitn_char 2 (CHR '' '') input of
        [a, b] \<Rightarrow>
          (let channel = trim a; topic = trim b in
           if \<not> is_chan_prefixed channel then (Inl bad_channel, st)
           else
             (case with_config_mut (set_topic channel topic) st of
                (Inl e, st1) \<Rightarrow> (Inl (dll_of_fish e), st1)
              | (Inr _, st1) \<Rightarrow> (Inr (''Plaintext topic set for channel: '' @ channel), st1)))
      | _ \<Rightarrow> (Inl (InvalidInput ''input'' ''expected format: <channel> <topic>''), st))"

definition get_topic_inner :: "string \<Rightarrow> store \<Rightarrow> (DllError, string) result \<times> store" where
  "get_topic_inner input st =
     (let channel = trim input in
      if \<not> is_chan_prefixed channel then (Inl bad_channel, st)
      else
        (case with_config (get_topic channel) st of
           Inl e \<Rightarrow> (Inl (dll_of_fish e), st)
         | Inr (Some topic) \<Rightarrow> (Inr topic, st)
         | Inr None \<Rightarrow> (Inr ''No topic found for this channel'', st)))"

definition remove_topic_inner :: "string \<Rightarrow> store \<Rightarrow> (DllError, string) result \<times> store" where
  "remove_topic_inner input st =
     (let channel = trim input in
      if \<not> is_chan_prefixed channel then (Inl bad_channel, st)
      else
        (case with_config_mut (remove_topic channel) st of
           (Inl e, st1) \<Rightarrow> (Inl (dll_of_fish e), st1)
         | (Inr removed, st1) \<Rightarrow>
             (Inr ((if removed then ''Topic removed for channel: '' else ''No topic was found for channel: '') @
                   channel), st1)))"

definition FiSH11_SetTopic :: "nat \<Rightarrow> bytes option \<Rightarrow> store \<Rightarrow> (int \<times> bytes option) \<times> store" where
  "FiSH11_SetTopic buf_size data st = topic_call buf_size ''FiSH11_SetTopic'' set_topic_inner data st"

definition FiSH11_GetTopic :: "nat \<Rightarrow> bytes option \<Rightarrow> store \<Rightarrow> (int \<times> bytes option) \<times> store" where
  "FiSH11_GetTopic buf_size data st = topic_call buf_size ''FiSH11_GetTopic'' get_topic_inner data st"

definition FiSH11_RemoveTopic :: "nat \<Rightarrow> bytes option \<Rightarrow> store \<Rightarrow> (int \<times> bytes option) \<times> store" where
  "FiSH11_RemoveTopic buf_size data st = topic_call buf_size ''FiSH11_RemoveTopic'' remove_topic_inner data st"

section \<open>Keys\<close>

definition FiSH11_GenKey :: "ext_lib \<Rightarrow> bytes \<Rightarrow> string \<Rightarrow> store \<Rightarrow> (DllError, string) result \<times> store" where
  "FiSH11_GenKey L key input st =
     (let parts = splitn_char 2 (CHR '' '') input;
          target_raw = trim (case parts of a # _ \<Rightarrow> a | [] \<Rightarrow> []);
          nickname = normalize_nick (normalize_target target_raw);
          network = (case parts of [_, n] \<Rightarrow> Some (trim n) | _ \<Rightarrow> None)
      in if nickname = [] then (Inl (MissingParameter ''nickname''), st)
         else
           (case set_key L nickname key network False False st of
              (Inl e, st1) \<Rightarrow> (Inl (dll_of_fish e), st1)
            | (Inr _, st1) \<Rightarrow> (Inr (''New key pair generated successfully for '' @ nickname), st1)))"

definition FiSH11_GetKeyTTL :: "ext_lib \<Rightarrow> string \<Rightarrow> store \<Rightarrow> (DllError, string) result" where
  "FiSH11_GetKeyTTL L input st =
     (let nickname = normalize_nick (trim input) in
      if nickname = [] then Inl (MissingParameter ''nickname'')
      else
        (case get_key_ttl L nickname None st of
           Inl e \<Rightarrow> Inl e
         | Inr (Some ttl) \<Rightarrow> Inr (if ttl > 0 then show_int ttl else ''EXPIRED'')
         | Inr None \<Rightarrow> Inr ''NO_TTL''))"

text \<open>\<open>{:<w}\<close>: spaces up to \<open>w\<close> characters.\<close>

definition pad_right :: "nat \<Rightarrow> string \<Rightarrow> string" where
  "pad_right w s = s @ replicate (w - length (chars s)) (CHR '' '')"

definition net_display :: "string \<Rightarrow> string" where
  "net_display network = (if network = [] \<or> network = ''default'' then ''default'' else network)"

definition key_line :: "string \<times> string \<times> string option \<times> string option \<Rightarrow> string" where
  "key_line k =
     (let (nickname, network, _, date) = k;
          start = ''Key: '' @ pad_right 20 nickname @ '' | Network: '' @ pad_right 15 (net_display network)
      in case date of Some date_str \<Rightarrow> start @ '' | Added: '' @ date_str | None \<Rightarrow> start)"

definition FiSH11_FileListKeys :: "store \<Rightarrow> string" where
  "FiSH11_FileListKeys st =
     (let keys = list_keys st in
      if keys = [] then ''FiSH: No keys stored.''
      else join CRLF (''--- FiSH Keys ---'' # map key_line keys @ [''-------------------'']))"

definition item_line :: "string \<times> string \<times> string option \<times> string option \<Rightarrow> string" where
  "item_line k =
     (let (nickname, network, _, date) = k;
          start = ''   '' @ nickname @ '' ('' @ net_display network @ '')''
      in case date of Some date_str \<Rightarrow> start @ '' [Added: '' @ date_str @ '']'' | None \<Rightarrow> start)"

definition FiSH11_FileListKeysItem :: "string \<Rightarrow> store \<Rightarrow> string" where
  "FiSH11_FileListKeysItem input st =
     (let index = (case parse_unsigned 64 (trim input) of Some n \<Rightarrow> n | None \<Rightarrow> 0);
          keys = list_keys st
      in if length keys \<le> index then ''=== End of keys list ===''
         else item_line (keys ! index))"

definition FiSH11_GetEncryptionStats :: "store \<Rightarrow> string" where
  "FiSH11_GetEncryptionStats st =
     (let m = with_config c_metrics st in
      ''Keys: '' @ show_nat (count_keys st) @
      '' | Encryptions: '' @ show_nat (encryption_count m) @
      '' | Decryptions: '' @ show_nat (decryption_count m) @
      '' | Key Exchanges: '' @ show_nat (key_exchange_count m))"

definition safe_display :: "string \<Rightarrow> nat \<Rightarrow> string" where
  "safe_display s max_len =
     map (\<lambda>c. if (0x21 \<le> c \<and> c \<le> 0x7E) \<or> c = 0x20 then char_of c else CHR ''?'') (take max_len (chars s))"

definition FiSH11_TestCrypt ::
  "ext_lib \<Rightarrow> bytes \<Rightarrow> bytes \<Rightarrow> string \<Rightarrow> store \<Rightarrow> (DllError, string) result \<times> store" where
  "FiSH11_TestCrypt L key nonce input st =
     (if input = [] then (Inl (MissingParameter ''message''), st)
      else
        (case encrypt_message L nonce key input None st of
           (Inl e, st1) \<Rightarrow> (Inl (EncryptionFailed ''test encryption'' (fish_display e)), st1)
         | (Inr encrypted, st1) \<Rightarrow>
             (case decrypt_unlocked L key encrypted None st1 of
                (Inl e, st2) \<Rightarrow> (Inl (DecryptionFailed ''test decryption'' (fish_display e)), st2)
              | (Inr decrypted, st2) \<Rightarrow>
                  if decrypted \<noteq> input then
                    (Inl (DecryptionFailed ''verification'' ''decrypted message does not match original''), st2)
                  else
                    (Inr (''[TestCrypt] Original: '' @ safe_display input 100 @
                          '' | Encrypted: '' @ safe_display encrypted 100 @
                          '' | Decrypted: '' @ safe_display decrypted 100), st2))))"

section \<open>Channel keys\<close>

definition bad_channel_name :: DllError where
  "bad_channel_name = InvalidInput ''channel'' ''Channel name must start with # or &''"

definition FiSH11_HasRatchetChannelKey :: "string \<Rightarrow> store \<Rightarrow> (DllError, string) result" where
  "FiSH11_HasRatchetChannelKey channel_name st =
     (if \<not> is_chan_prefixed channel_name then Inl bad_channel_name
      else Inr (if has_ratchet_channel_key channel_name st then ''1'' else ''0''))"

definition FiSH11_RemoveRatchetChannelKey :: "string \<Rightarrow> store \<Rightarrow> (DllError, string) result \<times> store" where
  "FiSH11_RemoveRatchetChannelKey channel_name st =
     (if \<not> is_chan_prefixed channel_name then (Inl bad_channel_name, st)
      else
        (case remove_ratchet_channel_key channel_name st of
           (Inl e, st1) \<Rightarrow> (Inl (dll_of_fish e), st1)
         | (Inr _, st1) \<Rightarrow> (Inr (''Ratchet channel key removed for '' @ channel_name), st1)))"

definition FiSH11_RemoveManualChannelKey :: "string \<Rightarrow> store \<Rightarrow> (DllError, string) result \<times> store" where
  "FiSH11_RemoveManualChannelKey channel_name st =
     (if \<not> is_chan_prefixed channel_name then (Inl bad_channel_name, st)
      else
        (case remove_manual_channel_key channel_name st of
           (Inl e, st1) \<Rightarrow> (Inl (dll_of_fish e), st1)
         | (Inr _, st1) \<Rightarrow> (Inr (''Manual channel key removed for '' @ channel_name), st1)))"

section \<open>Network, directory and version\<close>

definition FiSH11_SetNetwork :: "string \<Rightarrow> store \<Rightarrow> (DllError, string) result \<times> store" where
  "FiSH11_SetNetwork input st =
     (let network_name = trim input in
      if network_name = [] then (Inl (MissingParameter ''network_name''), st)
      else (Inr (''Network set to: '' @ network_name), set_current_network network_name st))"

text \<open>The environment variable \<open>MIRCDIR\<close> beside the answer.\<close>

definition FiSH11_SetMircDir :: "string \<Rightarrow> string option \<Rightarrow> (DllError, string) result \<times> string option" where
  "FiSH11_SetMircDir mirc_dir env =
     (if mirc_dir = [] then (Inl (MissingParameter ''mIRC directory path''), env)
      else (Inr (''FiSH_11 mIRC directory set to: '' @ mirc_dir), Some mirc_dir))"

text \<open>\<open>PathBuf::push\<close> of a relative name.\<close>

definition path_push :: "bool \<Rightarrow> string \<Rightarrow> string \<Rightarrow> string" where
  "path_push windows path name =
     (if path = [] \<or> last path = CHR ''/'' \<or> (windows \<and> last path = CHR 0x5C) then path @ name
      else path @ (if windows then [CHR 0x5C] else ''/'') @ name)"

definition get_config_path :: "bool \<Rightarrow> string option \<Rightarrow> string option \<Rightarrow> (FishError, string) result" where
  "get_config_path windows mircdir current_dir =
     (case mircdir of
        Some path \<Rightarrow>
          if contains ''..'' path then
            Inl (FE_ConfigError ''Invalid config path: potential directory traversal'')
          else Inr (path_push windows path ''fish_11.ini'')
      | None \<Rightarrow>
          Inr (path_push windows (case current_dir of Some dir \<Rightarrow> dir | None \<Rightarrow> []) ''fish_11.ini''))"

definition FiSH11_GetConfigPath :: "bool \<Rightarrow> string option \<Rightarrow> string option \<Rightarrow> (DllError, string) result" where
  "FiSH11_GetConfigPath windows mircdir current_dir = map_err dll_of_fish (get_config_path windows mircdir current_dir)"

text \<open>The build texts, from the timestamp the build system leaves (\<open>N/A\<close> without one).\<close>

definition BUILD_DATE :: "string \<Rightarrow> string" where
  "BUILD_DATE timestamp = (case split_once ''T'' timestamp of Some (date, _) \<Rightarrow> date | None \<Rightarrow> ''N/A'')"

definition strip_Z :: "string \<Rightarrow> string option" where
  "strip_Z s = (if s \<noteq> [] \<and> last s = CHR ''Z'' then Some (butlast s) else None)"

definition BUILD_TIME :: "string \<Rightarrow> string" where
  "BUILD_TIME timestamp =
     (case split_once ''T'' timestamp of
        None \<Rightarrow> ''13:37''
      | Some (_, time_part) \<Rightarrow>
          (case split_once ''.'' time_part of
             Some (time, _) \<Rightarrow> time
           | None \<Rightarrow> (case strip_Z time_part of Some time \<Rightarrow> time | None \<Rightarrow> ''13:37'')))"

definition get_build_number :: "string \<Rightarrow> string" where
  "get_build_number timestamp =
     (case (if timestamp \<noteq> ''N/A'' then split_once ''T'' timestamp else None) of
        None \<Rightarrow> ''00000000000000''
      | Some (date_part, time_part) \<Rightarrow>
          (let date_clean = filter is_ascii_digit date_part;
               time_only = (case split_once ''.'' time_part of
                   Some (t, _) \<Rightarrow> t
                 | None \<Rightarrow> (case strip_Z time_part of Some t \<Rightarrow> t | None \<Rightarrow> time_part));
               time_clean = filter is_ascii_digit time_only
           in if length date_clean = 8 \<and> length time_clean = 6 then date_clean @ time_clean
              else ''00000000000000''))"

definition FiSH11_GetVersion :: "bool \<Rightarrow> string \<Rightarrow> string \<Rightarrow> string" where
  "FiSH11_GetVersion debug version timestamp =
     ''FiSH_11 core dll version '' @ version @ '' (build '' @ get_build_number timestamp @
     '') *** Compiled '' @ BUILD_DATE timestamp @ '' at '' @ BUILD_TIME timestamp @
     ''Z *** Written by [GuY], licensed under the GPL-v3|'' @ (if debug then ''DEBUG'' else ''RELEASE'')"

definition FiSH11_Help :: "string \<Rightarrow> string" where
  "FiSH11_Help crate_version = join CRLF
     [''=== FiSH_11 v'' @ crate_version @ '' - secure chat for IRC ==='',
      ''Written by [GuY], 2025 - licensed under the GPL v3 or above.'',
      [],
      ''Commands:'',
      ''  FiSH11_CoreVersion : show version information'',
      ''  FiSH11_GenKey <nick> : generate a random key'',
      ''  FiSH11_SetKey <nick> <key> : set a key manually'',
      ''  FiSH11_FileGetKey <nick> : get the key for a nickname'',
      ''  FiSH11_FileDelKey <nick> : delete a key'',
      ''  FiSH11_FileListKeys : list all stored keys'',
      ''  FiSH11_EncryptMsg <nick> <message> : encrypt a message'',
      ''  FiSH11_DecryptMsg <nick> <message> : decrypt a message'',
      ''  FiSH11_ExchangeKey <nick> : start key exchange'',
      ''  FiSH11_ProcessPublicKey <nick> <key> : process received key'',
      ''  FiSH11_TestCrypt <message> : test encryption'']"

section \<open>Signed timestamps\<close>

text \<open>\<open>hmac key text\<close> is HMAC-SHA256 of the \<open>hmac\<close> crate.\<close>

definition rsplit_dot :: "string \<Rightarrow> (string \<times> string) option" where
  "rsplit_dot s =
     (if CHR ''.'' \<in> set s
      then Some (rev (tl (dropWhile (\<lambda>c. c \<noteq> CHR ''.'') (rev s))), rev (takeWhile (\<lambda>c. c \<noteq> CHR ''.'') (rev s)))
      else None)"

definition sign_timestamp :: "ext_lib \<Rightarrow> (bytes \<Rightarrow> bytes \<Rightarrow> bytes) \<Rightarrow> string \<Rightarrow> bytes \<Rightarrow> string" where
  "sign_timestamp L hmac timestamp signing_key =
     timestamp @ ''.'' @ base64_encode L (hmac signing_key (as_bytes timestamp))"

definition verify_timestamp ::
  "ext_lib \<Rightarrow> (bytes \<Rightarrow> bytes \<Rightarrow> bytes) \<Rightarrow> string \<Rightarrow> bytes \<Rightarrow> (FishError, string) result" where
  "verify_timestamp L hmac signed_timestamp signing_key =
     (case rsplit_dot signed_timestamp of
        None \<Rightarrow> Inl (FE_CryptoError ''Invalid signed timestamp format: missing delimiter'')
      | Some (timestamp, signature_b64) \<Rightarrow>
          (case base64_decode L signature_b64 of
             Inl e \<Rightarrow> Inl (FE_CryptoError (''Invalid signature base64: '' @ fish_display e))
           | Inr signature \<Rightarrow>
               if length signature \<noteq> 32 then
                 Inl (FE_CryptoError (''Invalid signature length: expected 32 bytes, got '' @
                                      show_nat (length signature)))
               else if signature = hmac signing_key (as_bytes timestamp) then Inr timestamp
               else Inl FE_AuthenticationFailed))"

definition is_signed_timestamp :: "string \<Rightarrow> bool" where
  "is_signed_timestamp s =
     (case rsplit_dot s of
        Some (_, sig_part) \<Rightarrow> 40 \<le> length sig_part \<and> length sig_part \<le> 48
      | None \<Rightarrow> False)"

definition extract_timestamp :: "string \<Rightarrow> string" where
  "extract_timestamp signed_timestamp =
     (case rsplit_dot signed_timestamp of
        Some (timestamp, _) \<Rightarrow> if is_signed_timestamp signed_timestamp then timestamp else signed_timestamp
      | None \<Rightarrow> signed_timestamp)"

end
