(* ===== verification/ExportFacts.thy ===== *)
theory ExportFacts
  imports Exports ExchangeFacts
begin

text \<open>
  Facts about the remaining exports: a setting written by name reads back, an unknown
  name is reported as set, topics through the caller's buffer, signed timestamps, the
  build number, and what the 900-byte cap of results means for an encrypted message.
\<close>

section \<open>Settings by name\<close>

lemma parse_i32_show: "- (2 ^ 31) \<le> i \<Longrightarrow> i < 2 ^ 31 \<Longrightarrow> parse_i32 (show_int i) = Some i"
proof (cases "i < 0")
  case True
  assume "- (2 ^ 31) \<le> i"
  then have "nat (- i) \<le> 2 ^ 31" by simp
  then show ?thesis using True parse_show_nat [of "nat (- i)"]
    by (simp add: parse_i32_def show_int_def)
next
  case False
  assume "i < 2 ^ 31"
  then have "nat i < 2 ^ 31" using False by simp
  then show ?thesis using False show_nat_hd [of "nat i"] parse_show_nat [of "nat i"]
    by (cases "show_nat (nat i)") (auto simp: parse_i32_def show_int_def)
qed

lemma digits_graphic: "list_all graphic (show_nat n)"
  using show_nat_digits [of _ n] by (fastforce simp: list_all_iff graphic_def is_ascii_digit_def Let_def)

lemma show_int_graphic: "list_all graphic (show_int i)"
  using digits_graphic by (simp add: show_int_def graphic_def)

lemma ini_parts_word:
  "list_all graphic k \<Longrightarrow> list_all graphic v \<Longrightarrow> ini_parts (k @ CHR '' '' # v) = (k, Some v)"
proof -
  assume k: "list_all graphic k" and v: "list_all graphic v"
  then have "CHR '' '' \<notin> set k" by (auto simp: list_all_iff graphic_def)
  then show ?thesis using trim_graphic [OF k] trim_graphic [OF v]
    by (simp add: ini_parts_def splitn_2 split_once_char)
qed

lemma ini_parts_single: "list_all graphic k \<Longrightarrow> ini_parts k = (k, None)"
proof -
  assume k: "list_all graphic k"
  then have "CHR '' '' \<notin> set k" by (auto simp: list_all_iff graphic_def)
  then show ?thesis using trim_graphic [OF k]
    by (simp add: ini_parts_def splitn_2 split_once_def find_char_absent)
qed

lemma update_settings: "update_fish11_config s st = (Inr (), persist ((mark_dirty (s_config st))\<lparr>c_fish11 := s\<rparr>) st)"
  unfolding update_fish11_config_def by (rule with_config_mut_persist) (simp_all add: mark_dirty_def)

lemma settings_updated: "get_fish11_config (snd (update_fish11_config s st)) = s"
  by (simp add: update_settings get_fish11_config_def with_config_def)

definition switch_names :: "string list" where
  "switch_names = [''process_incoming'', ''process_outgoing'', ''encrypt_notice'', ''encrypt_action'',
     ''no_fish10_legacy'', ''fish_prefix'']"

definition text_names :: "string list" where
  "text_names = [''plain_prefix'', ''mark_encrypted'', ''encryption_prefix'']"

lemma setting_names_plain:
  "k \<in> set (switch_names @ text_names @ [''mark_position'']) \<Longrightarrow> list_all graphic k \<and> to_lowercase k = k \<and> k \<noteq> []"
proof -
  have "list_all (\<lambda>k. list_all graphic k \<and> to_lowercase k = k \<and> k \<noteq> []) (switch_names @ text_names @ [''mark_position''])"
    by code_simp
  then show "k \<in> set (switch_names @ text_names @ [''mark_position'']) \<Longrightarrow> ?thesis"
    unfolding list_all_iff by (rule bspec)
qed

lemma set_int_result:
  assumes "list_all graphic k" "k \<noteq> []" "- (2 ^ 31) \<le> v" "v < 2 ^ 31"
  shows "fst (INI_SetInt (k @ CHR '' '' # show_int v) st) = Inr (''Configuration key '' @ quoted k @ '' set successfully'')"
  using assms
  by (simp add: INI_SetInt_def ini_parts_word show_int_graphic parse_i32_show ini_saved_def update_settings Let_def)

lemma switch_roundtrip:
  assumes "k \<in> set switch_names" "- (2 ^ 31) \<le> v" "v < 2 ^ 31"
  shows "INI_GetBool k (snd (INI_SetInt (k @ CHR '' '' # show_int v) st)) = Inr (if v \<noteq> 0 then ''1'' else ''0'')"
proof -
  have k: "list_all graphic k" "to_lowercase k = k" "k \<noteq> []"
    using setting_names_plain [of k] assms(1) by simp_all
  have s: "snd (ini_saved k (update_fish11_config s st)) = snd (update_fish11_config s st)" for s
    by (simp add: ini_saved_def update_settings)
  show ?thesis
    using assms(1) unfolding switch_names_def
    by (simp add: INI_SetInt_def INI_GetBool_def ini_parts_word [OF k(1) show_int_graphic] ini_parts_single [OF k(1)]
        parse_i32_show [OF assms(2,3)] k s settings_updated Let_def)
      (elim disjE; simp add: s settings_updated)
qed

lemma position_roundtrip:
  assumes "- (2 ^ 31) \<le> v" "v < 2 ^ 31"
  shows "INI_GetInt ''mark_position'' (snd (INI_SetInt (''mark_position'' @ CHR '' '' # show_int v) st)) =
    Inr (show_int (v mod 256))"
proof -
  have k: "list_all graphic ''mark_position''" "to_lowercase ''mark_position'' = ''mark_position''"
    using setting_names_plain [of "''mark_position''"] by simp_all
  have s: "snd (ini_saved k (update_fish11_config s st)) = snd (update_fish11_config s st)" for k s
    by (simp add: ini_saved_def update_settings)
  show ?thesis
    unfolding INI_SetInt_def INI_GetInt_def ini_parts_word [OF k(1) show_int_graphic] ini_parts_single [OF k(1)]
    by (simp add: parse_i32_show [OF assms] k(2) s settings_updated uint_word_of_int Let_def)
qed

lemma text_roundtrip:
  assumes "k \<in> set text_names" "list_all graphic v"
  shows "INI_GetString k (snd (INI_SetString (k @ CHR '' '' # v) st)) = Inr v"
proof -
  have k: "list_all graphic k" "to_lowercase k = k" "k \<noteq> []"
    using setting_names_plain [of k] assms(1) by simp_all
  have s: "snd (ini_saved k (update_fish11_config s st)) = snd (update_fish11_config s st)" for s
    by (simp add: ini_saved_def update_settings)
  show ?thesis
    using assms(1) unfolding text_names_def
    by (simp add: INI_SetString_def INI_GetString_def ini_parts_word [OF k(1) assms(2)] ini_parts_single [OF k(1)]
        k s settings_updated Let_def)
      (elim disjE; simp add: s settings_updated)
qed

text \<open>A name the settings do not have is answered as set; the settings stay.\<close>

lemma unknown_name_set:
  assumes "list_all graphic k" "k \<noteq> []" "to_lowercase k \<notin> set text_names" "list_all graphic v"
  shows "fst (INI_SetString (k @ CHR '' '' # v) st) = Inr (''Configuration key '' @ quoted k @ '' set successfully'') \<and>
    get_fish11_config (snd (INI_SetString (k @ CHR '' '' # v) st)) = get_fish11_config st \<and>
    INI_GetString k (snd (INI_SetString (k @ CHR '' '' # v) st)) = Inr []"
  using assms(2,3) unfolding text_names_def
  by (simp add: INI_SetString_def INI_GetString_def ini_parts_word [OF assms(1,4)] ini_parts_single [OF assms(1)]
      ini_saved_def update_settings get_fish11_config_def with_config_def Let_def)

section \<open>Signed timestamps\<close>

definition hmac_law :: "(bytes \<Rightarrow> bytes \<Rightarrow> bytes) \<Rightarrow> bool" where
  "hmac_law hmac \<longleftrightarrow> (\<forall>k t. length (hmac k t) = 32)"

lemma rsplit_dot_append:
  "CHR ''.'' \<notin> set b \<Longrightarrow> rsplit_dot (a @ CHR ''.'' # b) = Some (a, b)"
proof -
  assume b: "CHR ''.'' \<notin> set b"
  have p: "x \<noteq> CHR ''.''" if "x \<in> set (rev b)" for x using that b by (metis set_rev)
  have "takeWhile (\<lambda>c. c \<noteq> CHR ''.'') (rev b @ CHR ''.'' # rev a) =
      rev b @ takeWhile (\<lambda>c. c \<noteq> CHR ''.'') (CHR ''.'' # rev a)"
    by (rule takeWhile_append2) (rule p)
  moreover have "dropWhile (\<lambda>c. c \<noteq> CHR ''.'') (rev b @ CHR ''.'' # rev a) =
      dropWhile (\<lambda>c. c \<noteq> CHR ''.'') (CHR ''.'' # rev a)"
    by (rule dropWhile_append2) (rule p)
  ultimately show ?thesis by (simp add: rsplit_dot_def)
qed

lemma rsplit_dot_Some:
  "rsplit_dot s = Some (a, b) \<Longrightarrow> s = a @ CHR ''.'' # b \<and> CHR ''.'' \<notin> set b"
proof -
  let ?P = "\<lambda>c. c \<noteq> CHR ''.''"
  assume r: "rsplit_dot s = Some (a, b)"
  then have d: "CHR ''.'' \<in> set s" and ab: "a = rev (tl (dropWhile ?P (rev s)))" "b = rev (takeWhile ?P (rev s))"
    by (auto simp: rsplit_dot_def split: if_splits)
  have ne: "dropWhile ?P (rev s) \<noteq> []" using d by (auto simp: dropWhile_eq_Nil_conv)
  then have "\<not> ?P (hd (dropWhile ?P (rev s)))" by (rule hd_dropWhile)
  then have "hd (dropWhile ?P (rev s)) = CHR ''.''" by simp
  then have "dropWhile ?P (rev s) = CHR ''.'' # rev a" using ne ab(1) by (metis list.collapse rev_rev_ident)
  then have "rev s = rev b @ CHR ''.'' # rev a" using takeWhile_dropWhile_id [of ?P "rev s"] ab(2) by simp
  then have "s = a @ CHR ''.'' # b" by (metis append.assoc append_Cons append_Nil rev.simps(2) rev_append rev_rev_ident)
  moreover have "CHR ''.'' \<notin> set b" using ab(2) set_takeWhileD [of _ ?P "rev s"] by auto
  ultimately show ?thesis by simp
qed

lemma b64_no_dot: "b64_law L \<Longrightarrow> CHR ''.'' \<notin> set (base64_encode L bs)"
proof -
  assume "b64_law L"
  then obtain t where "b64_enc L bs = t @ replicate (b64_pad (length bs)) (CHR ''='')" "list_all b64_char t"
    unfolding b64_law_def by blast
  moreover have "\<not> b64_char (CHR ''.'')" by code_simp
  ultimately show ?thesis by (auto simp: base64_encode_def list_all_iff)
qed

text \<open>Verification accepts exactly a timestamp followed by a base64 text of its HMAC, and
  a signed timestamp is one of these.\<close>

lemma signed_timestamps:
  assumes "lib_ok L" "hmac_law hmac"
  shows "verify_timestamp L hmac (sign_timestamp L hmac t k) k = Inr t"
    "is_signed_timestamp (sign_timestamp L hmac t k)"
    "extract_timestamp (sign_timestamp L hmac t k) = t"
    "verify_timestamp L hmac s k = Inr u \<longleftrightarrow>
       (\<exists>sg. s = u @ CHR ''.'' # sg \<and> CHR ''.'' \<notin> set sg \<and> base64_decode L sg = Inr (hmac k (as_bytes u)))"
proof -
  have b: "b64_law L" using assms(1) by (simp add: lib_ok_def)
  have len: "length (hmac k x) = 32" for x using assms(2) by (simp add: hmac_law_def)
  have r: "rsplit_dot (sign_timestamp L hmac t k) = Some (t, base64_encode L (hmac k (as_bytes t)))"
    by (simp add: sign_timestamp_def rsplit_dot_append b64_no_dot [OF b])
  have l: "length (base64_encode L (hmac k (as_bytes t))) = 44"
    using b64_length [OF b] by (simp add: base64_encode_def len)
  show "verify_timestamp L hmac (sign_timestamp L hmac t k) k = Inr t" using b by (simp add: verify_timestamp_def r len)
  show i: "is_signed_timestamp (sign_timestamp L hmac t k)" by (simp add: is_signed_timestamp_def r l)
  show "extract_timestamp (sign_timestamp L hmac t k) = t" using i by (simp add: extract_timestamp_def r)
  show "verify_timestamp L hmac s k = Inr u \<longleftrightarrow>
       (\<exists>sg. s = u @ CHR ''.'' # sg \<and> CHR ''.'' \<notin> set sg \<and> base64_decode L sg = Inr (hmac k (as_bytes u)))"
  proof
    assume "verify_timestamp L hmac s k = Inr u"
    then obtain sg where "rsplit_dot s = Some (u, sg)" "base64_decode L sg = Inr (hmac k (as_bytes u))"
      by (auto simp: verify_timestamp_def split: option.splits sum.splits prod.splits if_splits)
    then show "\<exists>sg. s = u @ CHR ''.'' # sg \<and> CHR ''.'' \<notin> set sg \<and> base64_decode L sg = Inr (hmac k (as_bytes u))"
      using rsplit_dot_Some by blast
  next
    assume "\<exists>sg. s = u @ CHR ''.'' # sg \<and> CHR ''.'' \<notin> set sg \<and> base64_decode L sg = Inr (hmac k (as_bytes u))"
    then show "verify_timestamp L hmac s k = Inr u"
      by (auto simp: verify_timestamp_def rsplit_dot_append len)
  qed
qed

lemma build_number_digits: "length (get_build_number ts) = 14 \<and> list_all is_ascii_digit (get_build_number ts)"
proof -
  have z: "list_all is_ascii_digit ''00000000000000''" by code_simp
  have f: "list_all is_ascii_digit (filter is_ascii_digit x)" for x by (simp add: list_all_iff)
  show ?thesis using z f
    by (simp add: get_build_number_def Let_def split: option.split prod.split)
qed

section \<open>Results and the caller's buffer\<close>

lemma written_text:
  assumes "900 \<le> buf_size" "buf_size \<le> length buf" "0 \<notin> set t"
  shows "\<exists>b. write_cstring_to_buffer (Some buf) buf_size t = (Inr (), Some b) \<and> read_cstr b = take 899 t"
proof -
  let ?n = "min (min (length t + 1) buf_size) 900 - 1"
  have n: "take ?n t = take 899 t" using assms(1) by (cases "length t \<le> 899") auto
  have z: "0 \<notin> set (take 899 t)" using assms(3) by (auto dest: in_set_takeD)
  have "write_cstring_to_buffer (Some buf) buf_size t =
      (Inr (), Some (take ?n t @ 0 # drop (min (min (length t + 1) buf_size) 900) buf))"
    using assms(1,2) by (intro write_cstring_shape) auto
  then show ?thesis unfolding n read_cstr_def using takeWhile_nul [OF z] by blast
qed

lemma graphic_text_cstring: "list_all (\<lambda>c. graphic c \<or> c = CHR '' '') s \<Longrightarrow> cstring_new s = Some (as_bytes s) \<and> 0 \<notin> set (as_bytes s)"
proof -
  assume g: "list_all (\<lambda>c. graphic c \<or> c = CHR '' '') s"
  have "byte_of c \<noteq> 0" if "graphic c \<or> c = CHR '' ''" for c
    using that by (auto simp: graphic_def byte_of_def Let_def word_less_nat_alt unat_of_nat unat_eq_zero [symmetric])
  then have "0 \<notin> set (as_bytes s)" using g by (force simp: as_bytes_def list_all_iff)
  then show ?thesis by (simp add: cstring_new_def)
qed

lemma fallback_key_length: "get_channel_key_with_fallback L ch st = (Inr key, st') \<Longrightarrow> length key = 32"
  by (auto simp: get_channel_key_with_fallback_def get_manual_channel_key_def get_channel_key_def with_config_def
      decrypt_channel_key_from_storage_def Let_def
      split: sum.splits prod.splits if_splits option.splits)

lemma encrypt_length:
  assumes "lib_ok L" "encrypt_message L nonce key m ad st = (Inr c, st')" "length key = 32" "length nonce = 24"
  shows "length c = 4 * ((length m + 42) div 3)" "list_all graphic c" "0 < length m" "length m \<le> 4096"
proof -
  obtain ct where ct: "xseal L key nonce (aad_of ad) (as_bytes m) = Some ct" "c = base64_encode L (nonce @ ct)"
      and m: "m \<noteq> []" "length m \<le> MAX_MESSAGE_SIZE"
    using encrypt_message_Inr [OF assms(2)] by blast
  have len: "length ct = length m + 16"
    using aead_seal [OF aead_law_ok(1) [OF assms(1)] assms(3,4), of "aad_of ad" "as_bytes m"] ct(1) by auto
  have b: "b64_law L" using assms(1) by (rule aead_law_ok)
  show "length c = 4 * ((length m + 42) div 3)"
    using b64_length [OF b, of "nonce @ ct"] len assms(4) by (simp add: ct(2) base64_encode_def add.commute)
  show "list_all graphic c" using b64_graphic [OF b] by (simp add: ct(2) base64_encode_def)
  show "0 < length m" "length m \<le> 4096" using m by (simp_all add: MAX_MESSAGE_SIZE_def)
qed

lemma private_key_length: "get_private_key L n st = (Inr key, st') \<Longrightarrow> length key = 32"
  by (auto simp: get_private_key_def split: sum.splits prod.splits if_splits)

lemma EncryptMsg_result:
  assumes "FiSH11_EncryptMsg L nonce input st = (Inr text, st')" "parse_input input = Inr p"
  shows "\<exists>c key ad s s'. text = ''+FiSH '' @ c \<and> length key = 32 \<and>
    encrypt_message L nonce key (pi_message p) ad s = (Inr c, s')"
proof -
  have priv: ?thesis
    if "(case normalize_private_target (pi_target p) of
            Inl e \<Rightarrow> (Inl e, s)
          | Inr nickname \<Rightarrow>
              (case get_private_key L nickname s of
                 (Inl e, st1) \<Rightarrow> (Inl e, st1)
               | (Inr key, st1) \<Rightarrow>
                   (case encrypt_message L nonce key (pi_message p) None st1 of
                      (Inl e, st2) \<Rightarrow>
                        (Inl (EncryptionFailed (''encrypting for '' @ nickname) (fish_display e)), st2)
                    | (Inr encrypted_base64, st2) \<Rightarrow>
                        (Inr (''+FiSH '' @ encrypted_base64), increment_encryption_counter st2)))) =
          (Inr text, st')" for s
  proof (cases "normalize_private_target (pi_target p)")
    case (Inr nickname)
    obtain r1 st1 where g: "get_private_key L nickname s = (r1, st1)" by force
    show ?thesis
    proof (cases r1)
      case (Inr key)
      obtain r2 st2 where e: "encrypt_message L nonce key (pi_message p) None st1 = (r2, st2)" by force
      then show ?thesis
        using that \<open>normalize_private_target (pi_target p) = Inr nickname\<close> g Inr
          private_key_length [OF g [unfolded Inr]]
        by (cases r2) (simp, simp, metis)
    qed (use that g Inr in simp)
  qed (use that in simp)
  show ?thesis
  proof (cases "is_chan_prefixed (pi_target p)")
    case True
    obtain r s where g: "get_channel_key_with_fallback L (pi_target p) st = (r, s)" by force
    show ?thesis
    proof (cases r)
      case (Inl e)
      then show ?thesis using assms True g priv [of s] by (simp add: FiSH11_EncryptMsg_def Let_def)
    next
      case (Inr key)
      have k: "length key = 32" using fallback_key_length g Inr by blast
      obtain r2 s2 where e: "encrypt_message L nonce key (pi_message p) (Some (as_bytes (pi_target p))) s = (r2, s2)"
        by force
      then show ?thesis using assms True g Inr k
        by (cases r2) (simp add: FiSH11_EncryptMsg_def Let_def, simp add: FiSH11_EncryptMsg_def Let_def, metis)
    qed
  next
    case False
    then show ?thesis using assms priv [of st] by (simp add: FiSH11_EncryptMsg_def Let_def)
  qed
qed


text \<open>A text the caller left in its buffer.\<close>

lemma parse_plain_text:
  assumes "trim s = s" "s \<noteq> []" "utf8_valid (as_bytes s)" "0 \<notin> set (as_bytes s)"
  shows "parse_buffer_input (Some (as_bytes s @ 0 # r)) = Inr s" "c_non_empty (Some (as_bytes s @ 0 # r))"
proof -
  have "read_cstr (as_bytes s @ 0 # r) = as_bytes s" using assms(4) by (simp add: read_cstr_def takeWhile_nul)
  moreover have "as_bytes s \<noteq> []" using assms(2) by (simp add: as_bytes_def)
  ultimately show "parse_buffer_input (Some (as_bytes s @ 0 # r)) = Inr s" "c_non_empty (Some (as_bytes s @ 0 # r))"
    using assms(1-3) by (simp_all add: parse_buffer_input_def from_utf8_def c_non_empty_def Let_def)
qed

lemma plain_words_text:
  assumes "n \<noteq> []" "list_all graphic n" "t \<noteq> []" "list_all graphic t"
  shows "parse_buffer_input (Some (as_bytes (n @ CHR '' '' # t) @ 0 # r)) = Inr (n @ CHR '' '' # t)"
    "c_non_empty (Some (as_bytes (n @ CHR '' '' # t) @ 0 # r))"
proof -
  have "list_all (\<lambda>c. (of_char c :: nat) < 128) (n @ CHR '' '' # t)"
    using assms(2,4) by (auto simp: graphic_code list_all_iff)
  then have u: "utf8_valid (as_bytes (n @ CHR '' '' # t))" by (rule ascii_valid)
  have "list_all (\<lambda>c. graphic c \<or> c = CHR '' '') (n @ CHR '' '' # t)"
    using assms(2,4) by (auto simp: list_all_iff)
  from conjunct2 [OF graphic_text_cstring [OF this]]
  show "parse_buffer_input (Some (as_bytes (n @ CHR '' '' # t) @ 0 # r)) = Inr (n @ CHR '' '' # t)"
    "c_non_empty (Some (as_bytes (n @ CHR '' '' # t) @ 0 # r))"
    using parse_plain_text [OF trim_two_words [OF assms] _ u] by simp_all
qed


section \<open>Topics\<close>

lemma topic_answered:
  assumes "900 \<le> buf_size" "buf_size \<le> length buf" "parse_buffer_input (Some buf) = Inr input"
    "inner input st = (Inr r, st1)" "0 \<notin> set (as_bytes r)"
  shows "\<exists>b. topic_call buf_size f inner (Some buf) st = ((1, Some b), st1) \<and> read_cstr b = take 899 (as_bytes r)"
proof -
  obtain b where "write_cstring_to_buffer (Some buf) buf_size (as_bytes r) = (Inr (), Some b)"
    "read_cstr b = take 899 (as_bytes r)"
    using written_text [OF assms(1,2,5)] by blast
  then show ?thesis using assms(3-5) by (simp add: topic_call_def cstring_new_def)
qed

lemma prefixed_lower:
  assumes "is_chan_prefixed ch" "to_lowercase ch2 = to_lowercase ch"
  shows "is_chan_prefixed ch2"
proof -
  have l: "lower_char c = CHR ''#'' \<longleftrightarrow> c = CHR ''#''" "lower_char c = CHR ''&'' \<longleftrightarrow> c = CHR ''&''" for c
    by (simp_all add: char_eq_code of_lower_char)
  have h: "lower_char (CHR ''#'') = CHR ''#''" "lower_char (CHR ''&'') = CHR ''&''" by code_simp+
  show ?thesis using assms
    by (cases ch; cases ch2) (auto simp: is_chan_prefixed_def to_lowercase_def h l)
qed

text \<open>A topic that was set is what any spelling of the channel reads, and nothing after it
  was removed.\<close>

lemma topic_set_get:
  assumes "list_all graphic ch" "is_chan_prefixed ch" "list_all graphic ch2" "to_lowercase ch2 = to_lowercase ch"
    "trim t = t" "t \<noteq> []"
  shows "fst (set_topic_inner (ch @ CHR '' '' # t) st) = Inr (''Plaintext topic set for channel: '' @ ch)"
    "get_topic_inner ch2 (snd (set_topic_inner (ch @ CHR '' '' # t) st)) =
       (Inr t, snd (set_topic_inner (ch @ CHR '' '' # t) st))"
    "fst (get_topic_inner ch2 (snd (remove_topic_inner ch st))) = Inr ''No topic found for this channel''"
proof -
  have c: "is_chan_prefixed ch2" using prefixed_lower [OF assms(2,4)] .
  have sp: "CHR '' '' \<notin> set ch" using assms(1) by (rule graphic_no_space)
  have ne: "ch \<noteq> []" "ch2 \<noteq> []" using assms(2) c by (auto simp: is_chan_prefixed_def)
  have tr: "trim ch = ch" "trim ch2 = ch2" using assms(1,3) by (simp_all add: trim_graphic)
  let ?c = "mark_dirty ((mark_dirty (s_config st))\<lparr>c_topics := hm_insert (to_lowercase ch) t (c_topics (s_config st))\<rparr>)"
  have set: "with_config_mut (set_topic ch t) st = (Inr (), persist ?c st)"
    by (rule with_config_mut_persist) (simp_all add: set_topic_def ne assms(6))
  have s: "set_topic_inner (ch @ CHR '' '' # t) st = (Inr (''Plaintext topic set for channel: '' @ ch), persist ?c st)"
    using assms(2) by (simp add: set_topic_inner_def splitn_2 split_once_char [OF sp] tr assms(5) set)
  show "fst (set_topic_inner (ch @ CHR '' '' # t) st) = Inr (''Plaintext topic set for channel: '' @ ch)"
    "get_topic_inner ch2 (snd (set_topic_inner (ch @ CHR '' '' # t) st)) =
       (Inr t, snd (set_topic_inner (ch @ CHR '' '' # t) st))"
    using c by (simp_all add: s get_topic_inner_def tr with_config_def get_topic_def ne assms(4))
  have rem: "\<exists>b c. with_config_mut (remove_topic ch) st = (Inr b, persist c st) \<and> hm_get (c_topics c) (to_lowercase ch) = None"
  proof (cases "hm_has (c_topics (s_config st)) (to_lowercase ch)")
    case True
    let ?d = "mark_dirty ((mark_dirty (s_config st))\<lparr>c_topics := hm_remove (to_lowercase ch) (c_topics (s_config st))\<rparr>)"
    have "with_config_mut (remove_topic ch) st = (Inr True, persist ?d st)"
      by (rule with_config_mut_persist) (simp_all add: remove_topic_def ne True)
    moreover have "hm_get (c_topics ?d) (to_lowercase ch) = None" by simp
    ultimately show ?thesis by blast
  next
    case False
    have "with_config_mut (remove_topic ch) st = (Inr False, persist (mark_dirty (s_config st)) st)"
      by (rule with_config_mut_persist) (simp_all add: remove_topic_def ne False)
    moreover have "hm_get (c_topics (mark_dirty (s_config st))) (to_lowercase ch) = None"
      using False by (simp add: hm_has_def)
    ultimately show ?thesis by blast
  qed
  then show "fst (get_topic_inner ch2 (snd (remove_topic_inner ch st))) = Inr ''No topic found for this channel''"
    using assms(2) c by (auto simp: remove_topic_inner_def get_topic_inner_def tr with_config_def get_topic_def ne assms(4))
qed

end
