(* ===== verification/Lifecycle.thy ===== *)
theory Lifecycle
  imports Exports
begin

text \<open>
  Loading and unloading of the DLL (\<open>dll_interface/core.rs\<close>) and the size of the caller's
  buffer that follows from it (\<open>get_buffer_size\<close> of \<open>dll_interface/mod.rs\<close>).  \<open>'s\<close> is the
  state of the parts the load initialises; their initialisations and the registration of the
  engine are arguments.  A mutex is never poisoned.
\<close>

record LOADINFO =
  m_version :: u32
  m_hwnd :: nat
  m_keep :: int
  m_unicode :: int
  m_beta :: u32
  m_bytes :: u32
  m_extra :: u32

record 's process =
  p_load_info :: "LOADINFO option"
  p_mirc_buffer_size :: nat
  p_state :: 's

definition DEFAULT_MIRC_BUFFER_SIZE :: nat where "DEFAULT_MIRC_BUFFER_SIZE = 4096"
definition MAX_MIRC_BUFFER_SIZE :: nat where "MAX_MIRC_BUFFER_SIZE = 8192"

definition process_start :: "'s \<Rightarrow> 's process" where
  "process_start s = \<lparr>p_load_info = None, p_mirc_buffer_size = DEFAULT_MIRC_BUFFER_SIZE, p_state = s\<rparr>"

text \<open>\<open>info.m_bytes as usize\<close>, or the global size.\<close>

definition offered_bytes :: "'s process \<Rightarrow> nat" where
  "offered_bytes p = (case p_load_info p of Some info \<Rightarrow> unat (m_bytes info) | None \<Rightarrow> p_mirc_buffer_size p)"

definition get_buffer_size :: "'s process \<Rightarrow> nat" where
  "get_buffer_size p = min (offered_bytes p - 1) MAX_MIRC_BUFFER_SIZE"

definition get_buffer_size_basic :: "'s process \<Rightarrow> nat" where
  "get_buffer_size_basic p =
     (case p_load_info p of Some info \<Rightarrow> unat (m_bytes info) | None \<Rightarrow> 4096) - 1"

definition install_synthetic_loadinfo_for_null_pointer :: "'s process \<Rightarrow> 's process" where
  "install_synthetic_loadinfo_for_null_pointer p =
     p\<lparr>p_load_info := Some \<lparr>m_version = 0, m_hwnd = 0, m_keep = 1, m_unicode = 0, m_beta = 0,
        m_bytes = of_nat (min (p_mirc_buffer_size p) (2 ^ 32 - 1)), m_extra = 0\<rparr>\<rparr>"

text \<open>\<open>LoadDll\<close> gives its code, the caller's structure as it is left, and the process.  The
  legacy system is initialised on Windows only.\<close>

definition LoadDll_dll ::
  "bool \<Rightarrow> ('s \<Rightarrow> 's) \<Rightarrow> ('s \<Rightarrow> 's) \<Rightarrow> LOADINFO option \<Rightarrow> 's process \<Rightarrow> int \<times> LOADINFO option \<times> 's process" where
  "LoadDll_dll windows init_config init_legacy_system load p =
     (let s1 = init_config (p_state p);
          s2 = (if windows then init_legacy_system s1 else s1);
          p1 = p\<lparr>p_state := s2\<rparr>
      in case load of
           Some info \<Rightarrow>
             (let kept = info\<lparr>m_keep := 1\<rparr> in (1, Some kept, p1\<lparr>p_load_info := Some kept\<rparr>))
         | None \<Rightarrow> (1, None, install_synthetic_loadinfo_for_null_pointer p1))"

definition UnloadDll_dll :: "int \<Rightarrow> 's process \<Rightarrow> int \<times> 's process" where
  "UnloadDll_dll timeout p = (0, p\<lparr>p_load_info := None\<rparr>)"

definition DllMain :: "bool \<Rightarrow> ('s \<Rightarrow> 's) \<Rightarrow> nat \<Rightarrow> 's process \<Rightarrow> int \<times> 's process" where
  "DllMain logger_ok register_engine reason p =
     (if reason = 1 \<and> logger_ok then (1, p\<lparr>p_state := register_engine (p_state p)\<rparr>) else (1, p))"

section \<open>Facts\<close>

text \<open>A result never needs more than the caller offered, its NUL included.\<close>

lemma buffer_size_bounds:
  "get_buffer_size p \<le> 8192" "0 < offered_bytes p \<Longrightarrow> get_buffer_size p < offered_bytes p"
  by (simp_all add: get_buffer_size_def MAX_MIRC_BUFFER_SIZE_def)

lemma loaded_buffer_size:
  assumes "LoadDll_dll w f g load p = (r, load', p')"
  shows "r = 1" "load = Some info \<Longrightarrow> get_buffer_size p' = min (unat (m_bytes info) - 1) 8192"
    "load = None \<Longrightarrow> p_mirc_buffer_size p < 2 ^ 32 \<Longrightarrow>
       get_buffer_size p' = min (p_mirc_buffer_size p - 1) 8192"
    "load = None \<Longrightarrow> p_mirc_buffer_size p < 2 ^ 32 \<Longrightarrow> p_load_info p = None \<Longrightarrow> get_buffer_size p' = get_buffer_size p"
  using assms
  by (auto simp: LoadDll_dll_def Let_def get_buffer_size_def offered_bytes_def MAX_MIRC_BUFFER_SIZE_def
      install_synthetic_loadinfo_for_null_pointer_def unat_of_nat split: option.splits)

lemma unloaded_buffer_size: "get_buffer_size (snd (UnloadDll_dll t p)) = min (p_mirc_buffer_size p - 1) 8192"
  by (simp add: UnloadDll_dll_def get_buffer_size_def offered_bytes_def MAX_MIRC_BUFFER_SIZE_def)

end
