(* ===== verification/Cli.thy ===== *)
theory Cli
  imports Lifecycle ExchangeKey
begin

text \<open>
  The command line tool (\<open>fish_11_cli/src/main.rs\<close>, \<open>helpers_cli.rs\<close>).  A run takes the
  arguments and answers the lines \<open>println!\<close> writes, with the state of the library it
  loaded; the progress lines of \<open>info_print!\<close>, the lines on standard error and the
  debug file are left out.  The loaded library is a record of functions over its own state;
  \<open>fish_library\<close> is the one the other theories model.
\<close>

section \<open>Arguments\<close>

definition flag_commands :: "(string \<times> string) list" where
  "flag_commands =
    [(''-h'', ''help''), (''--help'', ''help''), (''-l'', ''list''), (''--list'', ''list''),
     (''-gv'', ''getversion''), (''--getversion'', ''getversion''), (''-gk'', ''genkey''), (''--genkey'', ''genkey''),
     (''-gk2'', ''getkey''), (''--getkey'', ''getkey''), (''-sk'', ''setkey''), (''--setkey'', ''setkey''),
     (''-dk'', ''delkey''), (''--delkey'', ''delkey''), (''-lk'', ''listkeys''), (''--listkeys'', ''listkeys''),
     (''-li'', ''listkeysitem''), (''--listkeysitem'', ''listkeysitem''),
     (''-e'', ''encrypt''), (''--encrypt'', ''encrypt''), (''-d'', ''decrypt''), (''--decrypt'', ''decrypt''),
     (''-tc'', ''testcrypt''), (''--testcrypt'', ''testcrypt''),
     (''-gcp'', ''getconfigpath''), (''--getconfigpath'', ''getconfigpath''),
     (''-sm'', ''setmircdir''), (''--setmircdir'', ''setmircdir''),
     (''-ib'', ''ini_getbool''), (''--ini_getbool'', ''ini_getbool''),
     (''-is'', ''ini_getstring''), (''--ini_getstring'', ''ini_getstring''),
     (''-ii'', ''ini_getint''), (''--ini_getint'', ''ini_getint''),
     (''-ik'', ''initchannelkey''), (''--initchannelkey'', ''initchannelkey''),
     (''-pk'', ''processchannelkey''), (''--processchannelkey'', ''processchannelkey''),
     (''-kt'', ''getkeyttl''), (''--getkeyttl'', ''getkeyttl''),
     (''-rs'', ''getratchetstate''), (''--getratchetstate'', ''getratchetstate''),
     (''-smk'', ''setmanualchannelkey''), (''--setmanualchannelkey'', ''setmanualchannelkey''),
     (''-sn'', ''setnetwork''), (''--setnetwork'', ''setnetwork''),
     (''-kf'', ''getkeyfingerprint''), (''--getkeyfingerprint'', ''getkeyfingerprint''),
     (''-skp'', ''setkeyfromplaintext''), (''--setkeyfromplaintext'', ''setkeyfromplaintext'')]"

definition traversal :: "string \<Rightarrow> bool" where
  "traversal s \<longleftrightarrow> contains (''..'' @ [CHR 0x5C]) s \<or> contains ''../'' s \<or> contains ''%00'' s"

definition validate_argument :: "string \<Rightarrow> (string, unit) result" where
  "validate_argument arg =
     (if CHR 0x00 \<in> set arg then Inl ''Argument contains null byte''
      else if traversal arg then Inl ''Argument contains path traversal sequences''
      else Inr ())"

datatype scan = ScanVersion | ScanInvalid string | ScanArgs bool "string list"

fun scan_args :: "string list \<Rightarrow> bool \<Rightarrow> string list \<Rightarrow> scan" where
  "scan_args [] quiet processed_args = ScanArgs quiet processed_args"
| "scan_args (arg # args) quiet processed_args =
     (if arg = ''-q'' \<or> arg = ''--quiet'' then scan_args args True processed_args
      else if arg = ''--debug'' then scan_args args quiet processed_args
      else if arg = ''-v'' \<or> arg = ''--version'' then ScanVersion
      else
        (case map_of flag_commands arg of
           Some command \<Rightarrow> scan_args args quiet (processed_args @ [command])
         | None \<Rightarrow>
             (case validate_argument arg of
                Inl e \<Rightarrow> ScanInvalid e
              | Inr _ \<Rightarrow> scan_args args quiet (processed_args @ [arg]))))"

section \<open>Validation\<close>

definition validate_input_length :: "string \<Rightarrow> (string, unit) result" where
  "validate_input_length input =
     (if 8192 < length input then
        Inl (''Input too long : '' @ show_nat (length input) @ '' characters (max: '' @ show_nat 8192 @ '')'')
      else Inr ())"

definition bad_control :: "char \<Rightarrow> bool" where
  "bad_control c = (let n = (of_char c :: nat) in
     n \<le> 0x08 \<or> n = 0x0B \<or> n = 0x0C \<or> (0x0E \<le> n \<and> n \<le> 0x1F) \<or> n = 0x7F)"

definition validate_input_content :: "string \<Rightarrow> (string, unit) result" where
  "validate_input_content input =
     (if CHR 0x00 \<in> set input then Inl ''Input contains null byte''
      else if list_ex bad_control input then Inl ''Input contains control characters''
      else Inr ())"

definition validate_user_input :: "string \<Rightarrow> (string, unit) result" where
  "validate_user_input input =
     (case validate_input_length input of
        Inl e \<Rightarrow> Inl e
      | Inr _ \<Rightarrow> validate_input_content input)"

text \<open>\<open>is_control\<close> characters go, but tab and the line ends stay; the C1 controls are two
  bytes.\<close>

fun strip_controls :: "string \<Rightarrow> string" where
  "strip_controls [] = []"
| "strip_controls (c # s) =
     (if (of_char c :: nat) = 194 \<and> (case s of [] \<Rightarrow> False | d # _ \<Rightarrow> 128 \<le> (of_char d :: nat) \<and> (of_char d :: nat) \<le> 159)
      then strip_controls (tl s)
      else if ((of_char c :: nat) < 32 \<or> (of_char c :: nat) = 127) \<and>
              c \<noteq> CHR 0x0A \<and> c \<noteq> CHR 0x0D \<and> c \<noteq> CHR 0x09
      then strip_controls s
      else c # strip_controls s)"

definition sanitize_dll_input :: "string \<Rightarrow> (string, string) result" where
  "sanitize_dll_input input =
     (case validate_user_input input of
        Inl e \<Rightarrow> Inl e
      | Inr _ \<Rightarrow>
          (let sanitized = strip_controls input in
           if CHR 0x00 \<in> set sanitized then Inl ''Input contains null byte'' else Inr sanitized))"

definition validate_command_name :: "unicode \<Rightarrow> string \<Rightarrow> (string, unit) result" where
  "validate_command_name U command =
     (if CHR 0x00 \<in> set command then Inl ''Command contains null byte''
      else if traversal command then Inl ''Command contains path traversal sequences''
      else if list_ex (\<lambda>c. c = CHR ''|'' \<or> c = CHR 0x60 \<or> c = CHR ''&'' \<or> c = CHR '';'') command then
        Inl ''Command contains dangerous shell characters''
      else if \<not> list_all (\<lambda>n.
                 if n < 128 then is_ascii_alpha (char_of n) \<or> is_ascii_digit (char_of n) \<or>
                                 char_of n \<in> set ''_-/.:''
                 else uni_alnum U n) (chars command) then
        Inl ''Command contains invalid characters''
      else Inr ())"

text \<open>Paths: separators are slashes, on Windows backslashes too.\<close>

definition is_sep :: "bool \<Rightarrow> char \<Rightarrow> bool" where
  "is_sep windows c = (c = CHR ''/'' \<or> (windows \<and> c = CHR 0x5C))"

fun path_parts :: "bool \<Rightarrow> string \<Rightarrow> string list" where
  "path_parts windows [] = [[]]"
| "path_parts windows (c # s) =
     (if is_sep windows c then [] # path_parts windows s
      else (case path_parts windows s of p # ps \<Rightarrow> (c # p) # ps | [] \<Rightarrow> [[c]]))"

definition file_name :: "bool \<Rightarrow> string \<Rightarrow> string option" where
  "file_name windows path =
     (case rev (filter (\<lambda>p. p \<noteq> [] \<and> p \<noteq> ''.'') (path_parts windows path)) of
        [] \<Rightarrow> None
      | p # _ \<Rightarrow> if p = ''..'' then None else Some p)"

text \<open>\<open>Path::extension\<close>: what follows the last dot of the file name, if a name precedes it.\<close>

definition path_extension :: "bool \<Rightarrow> string \<Rightarrow> string option" where
  "path_extension windows path =
     (case file_name windows path of
        None \<Rightarrow> None
      | Some name \<Rightarrow>
          (case rsplit_dot name of
             Some (stem, ext) \<Rightarrow> if stem = [] then None else Some ext
           | None \<Rightarrow> None))"

definition validate_dll_path :: "bool \<Rightarrow> string \<Rightarrow> (string, unit) result" where
  "validate_dll_path windows dll_path =
     (if CHR 0x00 \<in> set dll_path then Inl ''DLL path contains null byte''
      else
        (case path_extension windows dll_path of
           Some extension \<Rightarrow>
             (let ext = to_lowercase extension in
              if ext \<noteq> ''dll'' \<and> ext \<noteq> ''so'' then
                Inl (''Invalid file extension: '' @ ext @ '' (expected .dll or .so)'')
              else Inr ())
         | None \<Rightarrow> Inl ''DLL path must have a .dll or .so extension''))"

definition requires :: "string \<Rightarrow> string \<Rightarrow> string" where
  "requires command what = ''Command '' @ quoted command @ '' requires '' @ what"

definition validate_command_args :: "string \<Rightarrow> string list \<Rightarrow> (string, unit) result" where
  "validate_command_args command args =
     (if command \<in> set [''genkey'', ''delkey'', ''getkey'', ''getkeyfingerprint'', ''getkeyttl'', ''setkeyttl'',
                       ''exchangekey'', ''processkey''] then
        if length args < 1 then
          Inl (requires command ''a target (channel or nickname).'' @
               (if command = ''genkey'' \<or> command = ''delkey'' \<or> command = ''getkey'' then
                  CHR 0x0A # ''Tip: if specifying a channel (e.g. #channel) in PowerShell, use quotes ('' @
                  CHR 0x22 # ''#channel'' @ CHR 0x22 # '') to avoid comment treatment.''
                else []))
        else Inr ()
      else if command \<in> set [''setkey'', ''setkeyfromplaintext''] then
        if length args < 2 then Inl (requires command ''a target and a key.'') else Inr ()
      else if command \<in> set [''encrypt'', ''decrypt''] then
        if length args < 2 then Inl (requires command ''a target and a message.'') else Inr ()
      else if command = ''initchannelkey'' then
        if length args < 1 then Inl (requires command ''a channel.'') else Inr ()
      else if command = ''setmanualchannelkey'' then
        if length args < 2 then Inl (requires command ''a channel and a key.'') else Inr ()
      else if command \<in> set [''ini_getbool'', ''ini_getstring'', ''ini_getint''] then
        if length args < 1 then Inl (requires command ''a config key name.'') else Inr ()
      else Inr ())"

section \<open>Calling the library\<close>

text \<open>\<open>d_load\<close> is \<open>LoadDll\<close> when the library exports it; a function takes its data and
  parameter buffers and gives its code with both, or \<open>None\<close> when the call does not return:
  the tool then waits for ever, its timeout only prints a warning.  \<open>d_missing\<close> is the
  error of looking up an absent symbol.\<close>

record 's dll =
  d_load :: "('s \<Rightarrow> 's) option"
  d_fun :: "string \<Rightarrow> (bytes \<Rightarrow> bytes \<Rightarrow> 's \<Rightarrow> ((int \<times> bytes \<times> bytes) \<times> 's) option) option"
  d_missing :: "string \<Rightarrow> string"

definition DLL_BUFFER_SIZE :: nat where "DLL_BUFFER_SIZE = 8192"

definition hex2 :: "u8 \<Rightarrow> string" where
  "hex2 b = (let d = (\<lambda>n. ''0123456789abcdef'' ! n) in [d (unat b div 16), d (unat b mod 16)])"

definition bad_utf8_text :: "string \<Rightarrow> bytes \<Rightarrow> string" where
  "bad_utf8_text which bs =
     ''Function completed but returned invalid UTF-8 data in '' @ which @ '' buffer (length: '' @
     show_nat (length bs) @ '', first bytes as hex: '' @ join '' '' (map hex2 (take 50 bs)) @ '')''"

definition no_output :: "string \<Rightarrow> string" where
  "no_output function_name =
     (if function_name = ''FiSH11_FileListKeys'' then ''FiSH_11 : no keys stored.''
      else ''Function completed but returned no output.'')"

definition result_text :: "string \<Rightarrow> bytes \<Rightarrow> bytes \<Rightarrow> string" where
  "result_text function_name data_buffer parms_buffer =
     (let data = read_cstr data_buffer; parms = read_cstr parms_buffer in
      if data \<noteq> [] then
        (case from_utf8 data of Some s \<Rightarrow> s | None \<Rightarrow> bad_utf8_text ''data'' data)
      else if parms \<noteq> [] then
        (case from_utf8 parms of Some s \<Rightarrow> s | None \<Rightarrow> bad_utf8_text ''parms'' parms)
      else no_output function_name)"

definition call_dll_function ::
  "'s dll \<Rightarrow> string \<Rightarrow> string \<Rightarrow> 's \<Rightarrow> ((string, string) result \<times> 's) option" where
  "call_dll_function D function_name params st =
     (case d_fun D function_name of
        None \<Rightarrow> Some (Inl (d_missing D function_name), st)
      | Some f \<Rightarrow>
          (case cstring_new params of
             None \<Rightarrow> Some (Inl ''nul byte found in provided data'', st)
           | Some c_params \<Rightarrow>
               if DLL_BUFFER_SIZE < length c_params + 1 then
                 Some (Inl (''Parameter size '' @ show_nat (length c_params + 1) @ '' exceeds buffer size '' @
                            show_nat DLL_BUFFER_SIZE), st)
               else
                 (case f (c_params @ replicate (DLL_BUFFER_SIZE - length c_params) 0)
                         (replicate DLL_BUFFER_SIZE 0) st of
                    None \<Rightarrow> None
                  | Some ((result, data, parms), st1) \<Rightarrow>
                      if result = 0 then
                        Some (Inl (''DLL function returned MIRC_HALT (0) '' @ [CHR 0xE2, CHR 0x80, CHR 0x94] @
                                   '' function failed or halted''), st1)
                      else Some (Inr (result_text function_name data parms), st1))))"

section \<open>Lists and help\<close>

definition known_functions :: "string list" where
  "known_functions =
    [''FiSH11_GetVersion'', ''FiSH11_GenKey'', ''FiSH11_FileDelKey'', ''FiSH11_SetKey'', ''FiSH11_FileGetKey'',
     ''FiSH11_FileListKeys'', ''FiSH11_ExchangeKey'', ''FiSH11_ProcessPublicKey'', ''FiSH11_EncryptMsg'',
     ''FiSH11_DecryptMsg'', ''FiSH11_TestCrypt'', ''FiSH11_GetConfigPath'', ''FiSH11_Help'', ''FiSH11_SetMircDir'',
     ''FiSH11_FileListKeysItem'', ''FiSH11_GetKeyFingerprint'', ''INI_GetBool'', ''INI_GetString'', ''INI_GetInt'',
     ''FiSH11_InitChannelKey'', ''FiSH11_ProcessChannelKey'', ''FiSH11_GetKeyTTL'', ''FiSH11_GetRatchetState'',
     ''FiSH11_SetManualChannelKey'', ''FiSH11_SetNetwork'', ''FiSH11_SetKeyFromPlaintext'']"

definition list_exports :: "(string, 's dll) result \<Rightarrow> (string, string list) result" where
  "list_exports loaded =
     (case loaded of
        Inl e \<Rightarrow> Inl (''DLL load failed: '' @ e)
      | Inr D \<Rightarrow>
          Inr ([''Available FiSH_11 functions :'', ''----------------------------''] @
               map (\<lambda>f. if d_fun D f \<noteq> None \<or> d_fun D (''_'' @ f @ ''@24'') \<noteq> None
                        then [CHR 0xE2, CHR 0x9C, CHR 0x93, CHR '' ''] @ f
                        else [CHR 0xE2, CHR 0x9C, CHR 0x97, CHR '' ''] @ f @ '' (not available)'') known_functions @
               [CHR 0x0A # ''Use these function names with the fish_11_cli command.'']))"

record build =
  b_version :: string
  b_timestamp :: string
  b_debug :: bool

definition build_type :: "build \<Rightarrow> string" where
  "build_type B = (if b_debug B then ''debug'' else ''release'')"

definition display_version :: "build \<Rightarrow> string" where
  "display_version B =
     ''FiSH_11_cli '' @ b_version B @ '' (build '' @ get_build_number (b_timestamp B) @ ''-'' @ build_type B @
     '') *** Compiled '' @ BUILD_DATE (b_timestamp B) @ '' at '' @ BUILD_TIME (b_timestamp B) @
     '' *** Written by [GuY], licensed under the GPL-v3 or above''"

definition two_columns :: "string \<Rightarrow> string \<Rightarrow> nat \<Rightarrow> string" where
  "two_columns left right right_start =
     (let left_len = length (chars left) in
      left @ replicate (if left_len < right_start then right_start - left_len else 1) (CHR '' '') @ right)"

definition help_commands :: "string list" where
  "help_commands =
    [''  -h,   --help                 Show this help message'',
     ''  -l,   --list                 List available functions in the DLL'',
     ''  -gv,  --getversion           Get the DLL version'',
     ''  -gk,  --genkey               Generate a new encryption key for a target'',
     ''  -sk,  --setkey               Set a specific key for a target'',
     ''  -gk2, --getkey               Get the key for a target'',
     ''  -dk,  --delkey               Delete a key for a target'',
     ''  -lk,  --listkeys             List all stored keys'',
     ''  -li,  --listkeysitem         List a specific key item'',
     ''  -e,   --encrypt              Encrypt a message'',
     ''  -d,   --decrypt              Decrypt a message'',
     ''  -tc,  --testcrypt            Test encryption/decryption cycle'',
     ''  -gcp, --getconfigpath        Get the configuration file path'',
     ''  -sm,  --setmircdir           Set the mIRC directory'',
     ''  -ib,  --ini_getbool          Get a boolean value from the config file'',
     ''  -is,  --ini_getstring        Get a string value from the config file'',
     ''  -ii,  --ini_getint           Get an integer value from the config file'',
     ''  -ik,  --initchannelkey       Initialize a channel encryption key'',
     ''  -pk,  --processchannelkey    Process a received channel key'',
     ''  -kt,  --getkeyttl            Get the time-to-live for a key'',
     ''  -rs,  --getratchetstate      Get the ratchet state for a channel'',
     ''  -smk, --setmanualchannelkey  Set a manual channel encryption key'',
     ''  -sn,  --setnetwork           Set the current IRC network'',
     ''  -kf,  --getkeyfingerprint    Get the fingerprint of a key'',
     ''  -skp, --setkeyfromplaintext  Set a key from plaintext'']"

definition help_examples :: "string list" where
  "help_examples =
    [''  fish_11_cli fish_11.dll getversion'',
     ''  fish_11_cli fish_11.dll genkey #channel'',
     ''  fish_11_cli fish_11.dll encrypt #channel '' @ [CHR 0x22] @ ''Secret message'' @ [CHR 0x22],
     ''  fish_11_cli fish_11.dll decrypt #channel '' @ [CHR 0x22] @ ''+OK abcdef1234'' @ [CHR 0x22],
     ''  fish_11_cli fish_11.dll listkeys c:'' @ [CHR 0x5C] @ ''path'' @ [CHR 0x5C] @ ''to'' @ [CHR 0x5C] @ ''fish_11.ini'',
     ''  fish_11_cli fish_11.dll ini_getbool process_incoming 1'',
     ''  fish_11_cli fish_11.dll ini_getstring plain_prefix '' @ [CHR 0x22, CHR 0x22],
     ''  fish_11_cli fish_11.dll ini_getint mark_position 0'',
     ''  fish_11_cli fish_11.dll initchannelkey #secret Alice Bob'',
     ''  fish_11_cli fish_11.dll setkeyttl Alice'',
     ''  fish_11_cli fish_11.dll getkeyfingerprint Alice'',
     ''  fish_11_cli fish_11.dll setnetwork EFNet'']"

definition display_help :: "build \<Rightarrow> string list" where
  "display_help B =
     [two_columns (''FiSH_11_cli '' @ b_version B @ '' (build '' @ get_build_number (b_timestamp B) @ '')'')
        ''Written by [GuY], licensed under the GPL-v3 or above'' 45,
      two_columns (''Version '' @ build_type B)
        (''Compiled '' @ BUILD_DATE (b_timestamp B) @ '' at '' @ BUILD_TIME (b_timestamp B) @ '' ZULU'') 45,
      [],
      ''Usage : fish_11_cli [options] <dll_path> <command> [parameters...]'',
      [],
      ''[Options]'',
      ''  -q, --quiet     Minimize output messages (useful for scripts)'',
      ''  -v, --version   Display version information'',
      ''      --debug     Write debug log to fish11_cli_debug.log'',
      [],
      ''<Commands>''] @ help_commands @ [[], ''Examples :''] @ help_examples"

section \<open>The configuration file of \<open>listkeys\<close>\<close>

text \<open>What the file system says of a path: whether it exists and is a file, and the number of
  bytes read or the error of opening or reading it.\<close>

record file_probe =
  fp_exists :: bool
  fp_is_file :: bool
  fp_read :: "(string, nat) result"
  fp_open_error :: "string option"

definition is_safe_path :: "bool \<Rightarrow> string \<Rightarrow> bool" where
  "is_safe_path windows path = (''..'' \<notin> set (path_parts windows path))"

definition validate_config_file :: "bool \<Rightarrow> bool \<Rightarrow> string \<Rightarrow> file_probe \<Rightarrow> string list \<times> bool" where
  "validate_config_file windows quiet file_path F =
     (let say = (\<lambda>m. if quiet then [] else [m]) in
      if \<not> is_safe_path windows file_path then
        (say (''Error : config file path '' @ quoted file_path @ '' contains directory traversal sequences''), False)
      else if \<not> fp_exists F then (say (''Error : config file '' @ quoted file_path @ '' does not exist''), False)
      else if \<not> fp_is_file F then (say (''Error : '' @ quoted file_path @ '' is not a file''), False)
      else
        (case fp_open_error F of
           Some e \<Rightarrow> (say (''Error : cannot open config file '' @ quoted file_path @ '': '' @ e), False)
         | None \<Rightarrow>
             (case fp_read F of
                Inl e \<Rightarrow> (say (''Error : cannot read from config file '' @ quoted file_path @ '': '' @ e), False)
              | Inr _ \<Rightarrow> ([], True))))"

section \<open>The program\<close>

definition function_names :: "(string \<times> string) list" where
  "function_names =
    [(''getversion'', ''FiSH11_GetVersion''), (''genkey'', ''FiSH11_GenKey''), (''delkey'', ''FiSH11_FileDelKey''),
     (''setkey'', ''FiSH11_SetKey''), (''getkey'', ''FiSH11_FileGetKey''), (''listkeys'', ''FiSH11_FileListKeys''),
     (''listfiles'', ''FiSH11_FileListKeys''), (''listkeysitem'', ''FiSH11_FileListKeysItem''),
     (''exchangekey'', ''FiSH11_ExchangeKey''), (''processkey'', ''FiSH11_ProcessPublicKey''),
     (''encrypt'', ''FiSH11_EncryptMsg''), (''decrypt'', ''FiSH11_DecryptMsg''), (''testcrypt'', ''FiSH11_TestCrypt''),
     (''getconfigpath'', ''FiSH11_GetConfigPath''), (''setmircdir'', ''FiSH11_SetMircDir''), (''help'', ''FiSH11_Help''),
     (''ini_getbool'', ''INI_GetBool''), (''ini_getstring'', ''INI_GetString''), (''ini_getint'', ''INI_GetInt''),
     (''initchannelkey'', ''FiSH11_InitChannelKey''), (''processchannelkey'', ''FiSH11_ProcessChannelKey''),
     (''getkeyttl'', ''FiSH11_GetKeyTTL''), (''getratchetstate'', ''FiSH11_GetRatchetState''),
     (''setmanualchannelkey'', ''FiSH11_SetManualChannelKey''), (''setnetwork'', ''FiSH11_SetNetwork''),
     (''getkeyfingerprint'', ''FiSH11_GetKeyFingerprint''), (''setkeyfromplaintext'', ''FiSH11_SetKeyFromPlaintext'')]"

text \<open>\<open>trim_start_matches\<close> of the echo command.\<close>

function strip_echo :: "string \<Rightarrow> string" where
  "strip_echo s = (if starts_with ''/echo -a '' s then strip_echo (drop 9 s) else s)"
  by pat_completeness auto
termination
  by (relation "measure length") (auto simp: starts_with_iff)

primrec list_lines :: "string list \<Rightarrow> bool \<Rightarrow> string list \<times> bool" where
  "list_lines [] displayed = ([], displayed)"
| "list_lines (line # ls) displayed =
     (if starts_with ''/echo -a '' line then
        (let content = strip_echo line in
         if content = ''FiSH Keys :'' \<and> displayed then list_lines ls displayed
         else (let (out, d) = list_lines ls True in (content # out, d)))
      else if trim line \<noteq> [] then (let (out, d) = list_lines ls True in (line # out, d))
      else list_lines ls displayed)"

definition show_list :: "string \<Rightarrow> string list" where
  "show_list output =
     (if output = [] then [''No keys found or empty configuration.'']
      else
        (let (out, displayed) = list_lines (if contains CRLF output then split_str CRLF output
                                            else split_char (CHR 0x0A) output) False
         in out @ (if \<not> displayed then [''Raw output: '' @ output] else [])))"

text \<open>After \<open>FiSH11_GenKey\<close>: the key is fetched and printed.\<close>

definition show_generated :: "bool \<Rightarrow> (string, string) result \<Rightarrow> string list" where
  "show_generated quiet fetched =
     (case fetched of
        Inl e \<Rightarrow> [''Error retrieving generated key: '' @ e]
      | Inr key_output \<Rightarrow>
          if quiet then
            (if contains ''+OK '' key_output \<or> 10 < length key_output then [trim key_output] else [])
          else [''Key: '' @ trim key_output])"

definition first_word :: "string \<Rightarrow> string" where
  "first_word params = (case split_whitespace params of w # _ \<Rightarrow> w | [] \<Rightarrow> params)"

definition run_function ::
  "'s dll \<Rightarrow> bool \<Rightarrow> string \<Rightarrow> string \<Rightarrow> 's \<Rightarrow> (string list \<times> 's) option" where
  "run_function D quiet function_name params st =
     (case call_dll_function D function_name params st of
        None \<Rightarrow> None
      | Some (Inl e, st1) \<Rightarrow>
          Some ([''Error calling function : '' @ e,
                 ''Try using the '' @ quoted ''list'' @ '' command to see available functions.''], st1)
      | Some (Inr output, st1) \<Rightarrow>
          if function_name = ''FiSH11_FileListKeys'' then Some (show_list output, st1)
          else if function_name = ''FiSH11_GenKey'' then
            (case call_dll_function D ''FiSH11_FileGetKey'' (first_word params) st1 of
               None \<Rightarrow> None
             | Some (fetched, st2) \<Rightarrow>
                 Some ((if quiet then [] else [output]) @ show_generated quiet fetched, st2))
          else Some ([if quiet then trim output else output], st1))"

record 's cli_os =
  os_windows :: bool
  os_unicode :: unicode
  os_build :: build
  os_dlopen :: "string \<Rightarrow> (string, 's dll) result"
  os_probe :: "string \<Rightarrow> file_probe"

definition load_and_call :: "'s cli_os \<Rightarrow> bool \<Rightarrow> string list \<Rightarrow> string \<Rightarrow> 's \<Rightarrow> (string list \<times> 's) option" where
  "load_and_call OS quiet processed_args command st =
     (let dll_path = hd processed_args; cmd_args = drop 2 processed_args in
      case os_dlopen OS dll_path of
        Inl e \<Rightarrow>
          Some ([''Failed to load DLL '' @ quoted dll_path @ '' : '' @ e,
                 ''Make sure the DLL exists and is compatible with this version of FiSH_11 CLI.''], st)
      | Inr D \<Rightarrow>
          (let st1 = (case d_load D of Some load_fn \<Rightarrow> load_fn st | None \<Rightarrow> st) in
           case map_of function_names command of
             None \<Rightarrow> Some ((''Unknown command: '' @ command) # display_help (os_build OS), st1)
           | Some function_name \<Rightarrow>
               (case validate_command_args command cmd_args of
                  Inl e \<Rightarrow> Some ([''Error: '' @ e], st1)
                | Inr _ \<Rightarrow>
                    (let warnings =
                       (if function_name = ''FiSH11_FileListKeys'' \<and> cmd_args \<noteq> [] then
                          (let (out, ok) = validate_config_file (os_windows OS) quiet (hd cmd_args)
                                             (os_probe OS (hd cmd_args))
                           in out @ (if \<not> ok \<and> \<not> quiet then
                                       [''Warning : the config file may not be valid or accessible.'',
                                        ''Continuing with the operation, but it may fail.''] else []))
                        else [])
                     in case (if cmd_args \<noteq> [] then sanitize_dll_input (join '' '' cmd_args) else Inr []) of
                          Inl e \<Rightarrow> Some (warnings @ [''Error: Invalid input - '' @ e], st1)
                        | Inr params \<Rightarrow>
                            map_option (\<lambda>(out, st2). (warnings @ out, st2))
                              (run_function D quiet function_name params st1)))))"

definition cli_main :: "'s cli_os \<Rightarrow> string list \<Rightarrow> 's \<Rightarrow> (string list \<times> 's) option" where
  "cli_main OS args st =
     (if args = [] then Some (display_help (os_build OS), st)
      else
        (case scan_args args False [] of
           ScanVersion \<Rightarrow> Some ([display_version (os_build OS)], st)
         | ScanInvalid e \<Rightarrow> Some ([''Invalid argument: '' @ e], st)
         | ScanArgs quiet processed_args \<Rightarrow>
             if processed_args = [] \<or> hd processed_args = ''help'' then Some (display_help (os_build OS), st)
             else if length processed_args < 2 then
               Some (''Error : missing required arguments'' # display_help (os_build OS), st)
             else
               (let command = to_lowercase (processed_args ! 1) in
                case validate_command_name (os_unicode OS) command of
                  Inl e \<Rightarrow> Some ([''Invalid command: '' @ e], st)
                | Inr _ \<Rightarrow>
                    if command = ''help'' then Some (display_help (os_build OS), st)
                    else if command = ''list'' then
                      (case list_exports (os_dlopen OS (hd processed_args)) of
                         Inr out \<Rightarrow> Some (out, st)
                       | Inl e \<Rightarrow> Some ([''Error listing exports: '' @ e], st))
                    else
                      (case validate_dll_path (os_windows OS) (hd processed_args) of
                         Inl e \<Rightarrow> Some ([''Invalid DLL path: '' @ e], st)
                       | Inr _ \<Rightarrow> load_and_call OS quiet processed_args command st))))"

declare strip_echo.simps [simp del]

section \<open>The modelled library\<close>

text \<open>Random bytes of one run, and the answers of its environment.\<close>

record run_env =
  v_key :: bytes
  v_nonce :: bytes
  v_nonces :: "nat \<Rightarrow> bytes"
  v_secret :: bytes
  v_exchange :: exchange_env
  v_windows :: bool
  v_current_dir :: "string option"
  v_build :: build

type_synonym fish_state = "store \<times> string option"
type_synonym export_body = "string \<Rightarrow> fish_state \<Rightarrow> ((DllError, string) result \<times> fish_state) option"

definition on_store :: "(string \<Rightarrow> store \<Rightarrow> (DllError, string) result \<times> store) \<Rightarrow> export_body" where
  "on_store f input s = Some (let (r, st) = f input (fst s) in (r, (st, snd s)))"

definition on_store_wait :: "(string \<Rightarrow> store \<Rightarrow> ((DllError, string) result \<times> store) option) \<Rightarrow> export_body" where
  "on_store_wait f input s = map_option (\<lambda>(r, st). (r, (st, snd s))) (f input (fst s))"

definition reading :: "(string \<Rightarrow> store \<Rightarrow> (DllError, string) result) \<Rightarrow> export_body" where
  "reading f input s = Some (f input (fst s), s)"

definition set_dir :: export_body where
  "set_dir input s = Some (let (r, env) = FiSH11_SetMircDir input (snd s) in (r, (fst s, env)))"

text \<open>The bodies behind the exported names, and those that read no input.\<close>

definition fish_exports :: "ext_lib \<Rightarrow> run_env \<Rightarrow> (string \<times> export_body) list" where
  "fish_exports L V =
    [(''FiSH11_GenKey'', on_store (FiSH11_GenKey L (v_key V))),
     (''FiSH11_FileDelKey'', on_store FiSH11_FileDelKey),
     (''FiSH11_SetKey'', on_store (FiSH11_SetKey L)),
     (''FiSH11_FileGetKey'', on_store (FiSH11_FileGetKey L)),
     (''FiSH11_FileListKeysItem'', reading (\<lambda>i st. Inr (FiSH11_FileListKeysItem i st))),
     (''FiSH11_ExchangeKey'', on_store (FiSH11_ExchangeKey L (v_exchange V))),
     (''FiSH11_ProcessPublicKey'', on_store (FiSH11_ProcessPublicKey L (v_secret V))),
     (''FiSH11_EncryptMsg'', on_store (FiSH11_EncryptMsg L (v_nonce V))),
     (''FiSH11_DecryptMsg'', on_store_wait (FiSH11_DecryptMsg L)),
     (''FiSH11_TestCrypt'', on_store (FiSH11_TestCrypt L (v_key V) (v_nonce V))),
     (''FiSH11_SetMircDir'', set_dir),
     (''INI_GetBool'', reading INI_GetBool),
     (''INI_GetString'', reading INI_GetString),
     (''INI_GetInt'', reading INI_GetInt),
     (''FiSH11_InitChannelKey'', on_store (FiSH11_InitChannelKey L (v_key V) (v_nonces V))),
     (''FiSH11_ProcessChannelKey'', on_store (FiSH11_ProcessChannelKey L)),
     (''FiSH11_GetKeyTTL'', reading (FiSH11_GetKeyTTL L)),
     (''FiSH11_GetRatchetState'', reading FiSH11_GetRatchetState),
     (''FiSH11_SetManualChannelKey'', on_store (FiSH11_SetManualChannelKey L (v_nonce V) (v_secret V))),
     (''FiSH11_SetNetwork'', on_store FiSH11_SetNetwork),
     (''FiSH11_GetKeyFingerprint'', on_store (FiSH11_GetKeyFingerprint L)),
     (''FiSH11_SetKeyFromPlaintext'', on_store (FiSH11_SetKeyFromPlaintext L))]"

definition fish_answers :: "run_env \<Rightarrow> (string \<times> (fish_state \<Rightarrow> (DllError, string) result)) list" where
  "fish_answers V =
    [(''FiSH11_GetVersion'', \<lambda>s. Inr (FiSH11_GetVersion (b_debug (v_build V)) (b_version (v_build V))
                                     (b_timestamp (v_build V)))),
     (''FiSH11_FileListKeys'', \<lambda>s. Inr (FiSH11_FileListKeys (fst s))),
     (''FiSH11_GetConfigPath'', \<lambda>s. FiSH11_GetConfigPath (v_windows V) (snd s) (v_current_dir V)),
     (''FiSH11_Help'', \<lambda>s. Inr (FiSH11_Help (b_version (v_build V))))]"

text \<open>The macro's call: the input when the body reads one, the body, the answer in \<open>data\<close>.\<close>

definition dll_answer :: "nat \<Rightarrow> (DllError, string) result \<Rightarrow> bytes \<Rightarrow> int \<times> bytes" where
  "dll_answer buf_size r data =
     (let (code, out) = (case r of
          Inl e \<Rightarrow> to_mirc_response buf_size e (Some data)
        | Inr text \<Rightarrow>
            (case cstring_new text of
               None \<Rightarrow> to_mirc_response buf_size (NulByte ''nul byte found in provided data'') (Some data)
             | Some c \<Rightarrow> (MIRC_IDENTIFIER, snd (write_cstring_to_buffer (Some data) buf_size c))))
      in (code, case out of Some d \<Rightarrow> d | None \<Rightarrow> data))"

definition export_fn ::
  "export_body \<Rightarrow> bytes \<Rightarrow> bytes \<Rightarrow> fish_state process \<Rightarrow> ((int \<times> bytes \<times> bytes) \<times> fish_state process) option" where
  "export_fn body data parms p =
     (let input_ptr = (if c_non_empty (Some parms) then Some parms
                       else if c_non_empty (Some data) then Some data else Some parms)
      in case (case parse_buffer_input input_ptr of
                 Inl e \<Rightarrow> Some (Inl (dll_of_str e), p_state p)
               | Inr input \<Rightarrow> body input (p_state p)) of
           None \<Rightarrow> None
         | Some (r, s) \<Rightarrow>
             (let (code, out) = dll_answer (get_buffer_size p) r data
              in Some ((code, out, parms), p\<lparr>p_state := s\<rparr>)))"

definition answer_fn ::
  "(fish_state \<Rightarrow> (DllError, string) result) \<Rightarrow> bytes \<Rightarrow> bytes \<Rightarrow> fish_state process
   \<Rightarrow> ((int \<times> bytes \<times> bytes) \<times> fish_state process) option" where
  "answer_fn f data parms p =
     (let (code, out) = dll_answer (get_buffer_size p) (f (p_state p)) data in Some ((code, out, parms), p))"

text \<open>\<open>LoadDll\<close> gets a buffer of \<open>DLL_BUFFER_SIZE\<close> bytes; the state of a run is what the
  load's initialisations make of the files.\<close>

definition cli_loadinfo :: LOADINFO where
  "cli_loadinfo = \<lparr>m_version = 0x00370007, m_hwnd = 0, m_keep = 1, m_unicode = 0, m_beta = 0,
     m_bytes = of_nat DLL_BUFFER_SIZE, m_extra = 0\<rparr>"

definition fish_library :: "ext_lib \<Rightarrow> run_env \<Rightarrow> fish_state process dll" where
  "fish_library L V =
     \<lparr>d_load = Some (\<lambda>p. snd (snd (LoadDll_dll (v_windows V) id id (Some cli_loadinfo) p))),
      d_fun = (\<lambda>name. case map_of (fish_exports L V) name of
                 Some body \<Rightarrow> Some (export_fn body)
               | None \<Rightarrow> map_option answer_fn (map_of (fish_answers V) name)),
      d_missing = (\<lambda>name. ''GetProcAddress failed'')\<rparr>"

end
