(* ===== verification/CliFacts.thy ===== *)
theory CliFacts
  imports Cli ExportFacts
begin

text \<open>
  Facts about the command line tool over the modelled library: how a command reaches its
  function and what of the answer is printed, an encrypted message read back through two
  runs, and answers of the library that the tool takes for results.
\<close>

section \<open>Texts\<close>

definition printable :: "char \<Rightarrow> bool" where
  "printable c \<longleftrightarrow> graphic c \<or> c = CHR '' ''"

definition cli_text :: "string \<Rightarrow> bool" where
  "cli_text s \<longleftrightarrow> list_all printable s \<and> s \<noteq> [] \<and> graphic (hd s) \<and> graphic (last s)"

lemma printable_code: "printable c \<Longrightarrow> 32 \<le> (of_char c :: nat) \<and> (of_char c :: nat) \<le> 126"
  by (auto simp: printable_def graphic_def Let_def)

lemma graphic_printable: "list_all graphic s \<Longrightarrow> list_all printable s"
  by (simp add: list_all_iff printable_def)

lemma printable_valid:
  assumes "list_all printable s"
  shows "utf8_valid (as_bytes s)" "cstring_new s = Some (as_bytes s)" "0 \<notin> set (as_bytes s)"
    "from_utf8 (as_bytes s) = Some s"
proof -
  have "list_all (\<lambda>c. (of_char c :: nat) < 128) s"
    using assms printable_code by (fastforce simp: list_all_iff)
  then show v: "utf8_valid (as_bytes s)" by (rule ascii_valid)
  then show "from_utf8 (as_bytes s) = Some s" by (simp add: from_utf8_def)
  have "list_all (\<lambda>c. graphic c \<or> c = CHR '' '') s" using assms by (simp add: list_all_iff printable_def)
  from graphic_text_cstring [OF this] show "cstring_new s = Some (as_bytes s)" "0 \<notin> set (as_bytes s)" by simp_all
qed

lemma cli_text_trim: "cli_text s \<Longrightarrow> trim s = s"
proof -
  assume s: "cli_text s"
  then have "ws_len s = 0" by (cases s) (simp_all add: cli_text_def ws_len_graphic)
  moreover have "ws_len_rev (rev s) = 0"
    using s by (cases s rule: rev_cases) (simp_all add: cli_text_def ws_len_rev_graphic)
  ultimately show ?thesis by (rule trim_id)
qed

lemma cli_textD: "cli_text s \<Longrightarrow> list_all printable s \<and> s \<noteq> []"
  by (simp add: cli_text_def)

lemma graphic_cli_text: "list_all graphic s \<Longrightarrow> s \<noteq> [] \<Longrightarrow> cli_text s"
  using graphic_printable [of s] by (simp add: cli_text_def list_all_iff)

lemma cli_text_append: "cli_text a \<Longrightarrow> cli_text b \<Longrightarrow> cli_text (a @ CHR '' '' # b)"
  by (simp add: cli_text_def printable_def)

section \<open>Arguments\<close>

definition cli_arg :: "string \<Rightarrow> bool" where
  "cli_arg a \<longleftrightarrow> list_all printable a \<and> \<not> traversal a \<and>
     a \<notin> set [''-q'', ''--quiet'', ''--debug'', ''-v'', ''--version''] \<and> map_of flag_commands a = None"

lemma printable_not:
  "list_all printable s \<Longrightarrow> \<not> printable c \<Longrightarrow> c \<notin> set s"
  by (auto simp: list_all_iff)

lemma not_printable: "\<not> printable (CHR 0x00)"
  by code_simp

lemma validate_cli_arg: "cli_arg a \<Longrightarrow> validate_argument a = Inr ()"
  using printable_not [OF _ not_printable] by (simp add: validate_argument_def cli_arg_def)

lemma scan_cli_args: "list_all cli_arg args \<Longrightarrow> scan_args args quiet acc = ScanArgs quiet (acc @ args)"
proof (induction args arbitrary: acc)
  case (Cons a args)
  then have "cli_arg a" by simp
  then show ?case using Cons validate_cli_arg [OF \<open>cli_arg a\<close>] by (simp add: cli_arg_def)
qed simp

lemma printable_control: "printable c \<Longrightarrow> \<not> bad_control c"
  using printable_code [of c] by (auto simp: bad_control_def Let_def)

lemma strip_printable: "list_all printable s \<Longrightarrow> strip_controls s = s"
proof (induction s)
  case (Cons c s)
  then show ?case using printable_code [of c] by simp
qed simp

lemma sanitize_printable:
  "list_all printable s \<Longrightarrow> length s \<le> 8192 \<Longrightarrow> sanitize_dll_input s = Inr s"
proof -
  assume s: "list_all printable s" "length s \<le> 8192"
  then have "\<not> list_ex bad_control s" "CHR 0x00 \<notin> set s"
    using printable_control printable_not [OF s(1) not_printable] by (auto simp: list_all_iff list_ex_iff)
  then show ?thesis using s
    by (simp add: sanitize_dll_input_def validate_user_input_def validate_input_length_def
        validate_input_content_def strip_printable)
qed

lemma help_is_no_dll: "validate_dll_path w dll = Inr () \<Longrightarrow> dll \<noteq> ''help''"
proof -
  have "validate_dll_path True ''help'' = Inl ''DLL path must have a .dll or .so extension''"
    "validate_dll_path False ''help'' = Inl ''DLL path must have a .dll or .so extension''"
    by code_simp+
  then have "\<exists>e. validate_dll_path w ''help'' = Inl e" by (cases w) auto
  then show "validate_dll_path w dll = Inr () \<Longrightarrow> dll \<noteq> ''help''" by auto
qed

lemma contains_first: "contains (d # p) s \<Longrightarrow> d \<in> set s"
  by (induction s) (auto simp: contains_def split: if_splits)

lemma no_traversal: "CHR ''.'' \<notin> set s \<Longrightarrow> CHR ''%'' \<notin> set s \<Longrightarrow> \<not> traversal s"
proof -
  assume d: "CHR ''.'' \<notin> set s" and p: "CHR ''%'' \<notin> set s"
  have "\<not> contains (''..'' @ [CHR 0x5C]) s" unfolding append_Cons by (rule contrapos_nn [OF d contains_first])
  moreover have "\<not> contains ''../'' s" by (rule contrapos_nn [OF d contains_first])
  moreover have "\<not> contains ''%00'' s" by (rule contrapos_nn [OF p contains_first])
  ultimately show ?thesis unfolding traversal_def by (simp only: simp_thms)
qed

definition word_char :: "char \<Rightarrow> bool" where
  "word_char c \<longleftrightarrow> is_ascii_alpha c \<or> c = CHR ''_''"

lemma word_command:
  assumes "list_all word_char cmd"
  shows "validate_command_name U cmd = Inr ()"
proof -
  have no: "d \<notin> set cmd" if "\<not> word_char d" for d
    using assms that by (auto simp: list_all_iff)
  have bad: "\<not> word_char (CHR ''.'')" "\<not> word_char (CHR ''%'')" "\<not> word_char (CHR 0x00)"
    "\<not> word_char (CHR ''|'')" "\<not> word_char (CHR 0x60)" "\<not> word_char (CHR ''&'')" "\<not> word_char (CHR '';'')"
    by code_simp+
  have t: "\<not> traversal cmd"
    using no [OF bad(1)] no [OF bad(2)] by (rule no_traversal)
  have c: "(of_char c :: nat) < 128" "is_ascii_char c" if "word_char c" for c
    using that by (auto simp: word_char_def is_ascii_alpha_def is_ascii_char_def Let_def)
  have "list_all is_ascii_char cmd" using assms c(2) by (simp add: list_all_iff)
  then have ch: "chars cmd = map (of_char :: char \<Rightarrow> nat) cmd" by (rule ascii_chars)
  have v: "list_all (\<lambda>n. if n < 128 then is_ascii_alpha (char_of n) \<or> is_ascii_digit (char_of n) \<or>
      char_of n \<in> set ''_-/.:'' else uni_alnum U n) (chars cmd)"
    unfolding ch list_all_iff
  proof
    fix n :: nat assume "n \<in> set (map of_char cmd)"
    then obtain c where "c \<in> set cmd" "n = of_char c" by auto
    then have "word_char c" "n < 128" "char_of n = c" using assms c by (auto simp: list_all_iff)
    then show "if n < 128 then is_ascii_alpha (char_of n) \<or> is_ascii_digit (char_of n) \<or>
        char_of n \<in> set ''_-/.:'' else uni_alnum U n" by (auto simp: word_char_def)
  qed
  have s: "\<not> list_ex (\<lambda>c. c = CHR ''|'' \<or> c = CHR 0x60 \<or> c = CHR ''&'' \<or> c = CHR '';'') cmd"
    using no [OF bad(4)] no [OF bad(5)] no [OF bad(6)] no [OF bad(7)] unfolding list_ex_iff by blast
  show ?thesis unfolding validate_command_name_def
    by (simp only: no [OF bad(3)] t s v if_False not_True_eq_False)
qed

lemma command_plain:
  assumes "(cmd, f) \<in> set function_names"
  shows "cli_arg cmd \<and> to_lowercase cmd = cmd \<and> validate_command_name U cmd = Inr () \<and> cmd \<noteq> ''list''"
proof -
  have all: "list_all (\<lambda>(cmd, f). P cmd) function_names \<Longrightarrow> P cmd" for P
    unfolding list_all_iff by (drule bspec [OF _ assms]) simp
  have A: "list_all (\<lambda>(cmd, f). cli_arg cmd) function_names" by code_simp
  have B: "list_all (\<lambda>(cmd, f). to_lowercase cmd = cmd \<and> cmd \<noteq> ''list'') function_names" by code_simp
  have C: "list_all (\<lambda>(cmd, f). list_all word_char cmd) function_names" by code_simp
  show ?thesis using all [OF A] all [OF B] word_command [OF all [OF C]] by blast
qed

section \<open>A run\<close>

definition loaded :: "fish_state process \<Rightarrow> fish_state process" where
  "loaded p = p\<lparr>p_load_info := Some cli_loadinfo\<rparr>"

lemma loaded_facts: "p_state (loaded p) = p_state p" "get_buffer_size (loaded p) = 8191"
  by (simp_all add: loaded_def get_buffer_size_def offered_bytes_def cli_loadinfo_def DLL_BUFFER_SIZE_def
      MAX_MIRC_BUFFER_SIZE_def)

definition fish_os :: "'s cli_os \<Rightarrow> string \<Rightarrow> 's dll \<Rightarrow> bool" where
  "fish_os OS dll D \<longleftrightarrow> os_dlopen OS dll = Inr D \<and> validate_dll_path (os_windows OS) dll = Inr () \<and> cli_arg dll"

text \<open>A quiet run with plain arguments is one call of the command's function.\<close>

lemma quiet_run:
  assumes "fish_os OS dll (fish_library L V)" "map_of function_names cmd = Some f" "cmd \<noteq> ''help''"
    "f \<noteq> ''FiSH11_FileListKeys''" "list_all cli_arg args" "args \<noteq> []" "validate_command_args cmd args = Inr ()"
    "length (join '' '' args) \<le> 8192" "list_all printable (join '' '' args)"
  shows "cli_main OS (''-q'' # dll # cmd # args) p =
    run_function (fish_library L V) True f (join '' '' args) (loaded p)"
proof -
  note c = command_plain [OF map_of_SomeD [OF assms(2)]]
  have d: "os_dlopen OS dll = Inr (fish_library L V)" "validate_dll_path (os_windows OS) dll = Inr ()" "cli_arg dll"
    using assms(1) by (simp_all add: fish_os_def)
  have "scan_args (dll # cmd # args) True [] = ScanArgs True (dll # cmd # args)"
    using scan_cli_args [of "dll # cmd # args" True "[]"] d(3) c assms(5) by simp
  then have s: "scan_args (''-q'' # dll # cmd # args) False [] = ScanArgs True (dll # cmd # args)" by simp
  have load: "(case d_load (fish_library L V) of Some load_fn \<Rightarrow> load_fn p | None \<Rightarrow> p) = loaded p"
    by (simp add: fish_library_def LoadDll_dll_def Let_def loaded_def cli_loadinfo_def)
  have "load_and_call OS True (dll # cmd # args) cmd p = run_function (fish_library L V) True f (join '' '' args) (loaded p)"
    using assms(2,4,6,7) d(1) load sanitize_printable [OF assms(9,8)]
    by (simp add: load_and_call_def Let_def option.map_id)
  then show ?thesis
    using s c d assms(3) help_is_no_dll [OF d(2)]
    by (simp add: cli_main_def Let_def)
qed

text \<open>What a caller reads of an answer: the text or the text of the error.\<close>

definition answer_text :: "(DllError, string) result \<Rightarrow> string" where
  "answer_text r = (case r of Inl e \<Rightarrow> dll_display e | Inr t \<Rightarrow> t)"

definition shown :: "(DllError, string) result \<Rightarrow> bool" where
  "shown r \<longleftrightarrow> list_all printable (answer_text r) \<and> answer_text r \<noteq> [] \<and>
     (case r of Inl e \<Rightarrow> \<not> is_null_pointer e \<and> expired_nick e = None \<and> \<not> halts_mirc e | Inr _ \<Rightarrow> True)"

lemma dll_answer_shown:
  assumes "shown r" "length data = 8192"
  shows "\<exists>code out. dll_answer 8191 r data = (code, out) \<and> code \<noteq> 0 \<and>
    read_cstr out = as_bytes (take 899 (answer_text r))"
proof -
  note p = printable_valid [of "answer_text r"]
  have t: "list_all printable (answer_text r)" using assms by (simp add: shown_def)
  obtain b where b: "write_cstring_to_buffer (Some data) 8191 (as_bytes (answer_text r)) = (Inr (), Some b)"
    "read_cstr b = take 899 (as_bytes (answer_text r))"
    using written_text [of 8191 data "as_bytes (answer_text r)"] p(3) [OF t] assms(2) by auto
  have "read_cstr b = as_bytes (take 899 (answer_text r))" using b(2) by (simp add: as_bytes_def take_map)
  then show ?thesis using assms(1) b(1) p(2) [OF t]
    by (cases r) (auto simp: dll_answer_def shown_def answer_text_def to_mirc_response_def MIRC_COMMAND_def
        MIRC_IDENTIFIER_def Let_def)
qed

lemma take_printable: "list_all printable s \<Longrightarrow> list_all printable (take n s)"
  by (auto simp: list_all_iff dest: in_set_takeD)

lemma fish_call:
  assumes "map_of (fish_exports L V) f = Some body" "cli_text params" "length params \<le> 8191"
    "body params (p_state p) = Some (r, s)" "shown r" "get_buffer_size p = 8191"
  shows "call_dll_function (fish_library L V) f params p = Some (Inr (take 899 (answer_text r)), p\<lparr>p_state := s\<rparr>)"
proof -
  have p: "list_all printable params" "params \<noteq> []" "trim params = params"
    using assms(2) cli_textD cli_text_trim by auto
  have "replicate (8192 - length params) 0 = 0 # replicate (8191 - length params) (0 :: u8)"
    using assms(3) by (simp add: Suc_diff_le flip: replicate_Suc)
  then have c: "parse_buffer_input (Some (as_bytes params @ replicate (8192 - length params) 0)) = Inr params"
    "c_non_empty (Some (as_bytes params @ replicate (8192 - length params) 0))"
    using parse_plain_text [OF p(3,2) printable_valid(1,3) [OF p(1)]] by metis+
  have e: "\<not> c_non_empty (Some (replicate 8192 0))" by (simp add: c_non_empty_def read_cstr_def)
  obtain code out where a: "dll_answer 8191 r (as_bytes params @ replicate (8192 - length params) 0) = (code, out)" "code \<noteq> 0"
    "read_cstr out = as_bytes (take 899 (answer_text r))"
    using dll_answer_shown [OF assms(5), of "as_bytes params @ replicate (8192 - length params) 0"] assms(3)
    by (auto simp: as_bytes_def)
  have t: "list_all printable (answer_text r)" "answer_text r \<noteq> []" using assms(5) by (simp_all add: shown_def)
  have "result_text f out parms = take 899 (answer_text r)" for parms
    using t printable_valid(4) [OF take_printable [OF t(1)], of 899] by (simp add: result_text_def a(3) Let_def as_bytes_def)
  moreover have "d_fun (fish_library L V) f = Some (export_fn body)" by (simp add: fish_library_def assms(1))
  moreover have "length (as_bytes params) = length params" by (simp add: as_bytes_def)
  ultimately show ?thesis
    using printable_valid(2) [OF p(1)] assms(3,4) a(1,2) c e
    by (simp add: call_dll_function_def export_fn_def DLL_BUFFER_SIZE_def assms(6) Let_def)
qed

text \<open>A quiet run of a command that neither lists nor generates keys.\<close>

lemma quiet_answer:
  assumes "fish_os OS dll (fish_library L V)" "map_of function_names cmd = Some f" "cmd \<noteq> ''help''"
    "f \<noteq> ''FiSH11_FileListKeys''" "f \<noteq> ''FiSH11_GenKey''" "list_all cli_arg args" "args \<noteq> []"
    "validate_command_args cmd args = Inr ()" "length (join '' '' args) \<le> 8191" "cli_text (join '' '' args)"
    "map_of (fish_exports L V) f = Some body" "body (join '' '' args) (p_state p) = Some (r, s)" "shown r"
  shows "cli_main OS (''-q'' # dll # cmd # args) p =
    Some ([trim (take 899 (answer_text r))], (loaded p)\<lparr>p_state := s\<rparr>)"
proof -
  have "cli_main OS (''-q'' # dll # cmd # args) p = run_function (fish_library L V) True f (join '' '' args) (loaded p)"
    using quiet_run assms(1-4,6-10) cli_textD by simp
  also have "\<dots> = Some ([trim (take 899 (answer_text r))], (loaded p)\<lparr>p_state := s\<rparr>)"
    using fish_call [OF assms(11,10,9) _ assms(13), of "loaded p" s] assms(4,5,12)
    by (simp add: loaded_facts run_function_def)
  finally show ?thesis .
qed

section \<open>Messages\<close>

lemma option_dash:
  assumes "list_all printable a" "\<not> traversal a" "hd a \<noteq> CHR ''-''"
  shows "cli_arg a"
proof -
  have f: "list_all (\<lambda>(f, c). hd f = CHR ''-'') flag_commands" by code_simp
  have "map_of flag_commands a = None"
  proof (cases "map_of flag_commands a")
    case (Some c)
    from bspec [OF f [unfolded list_all_iff] map_of_SomeD [OF Some]] show ?thesis using assms(3) by simp
  qed
  moreover have "list_all (\<lambda>f. hd f = CHR ''-'') [''-q'', ''--quiet'', ''--debug'', ''-v'', ''--version'']" by code_simp
  then have "a \<notin> set [''-q'', ''--quiet'', ''--debug'', ''-v'', ''--version'']"
    unfolding list_all_iff using assms(3) by (rule_tac notI) (drule (1) bspec, drule (1) notE)
  ultimately show ?thesis using assms(1,2) unfolding cli_arg_def by (simp only: simp_thms)
qed

lemma sealed_text_arg:
  assumes "b64_law L" "bs \<noteq> []"
  shows "cli_arg (''+FiSH '' @ base64_encode L bs)" "cli_text (''+FiSH '' @ base64_encode L bs)"
proof -
  obtain t where t: "b64_enc L bs = t @ replicate (b64_pad (length bs)) (CHR ''='')" "list_all b64_char t"
    using assms(1) unfolding b64_law_def by blast
  moreover have "\<not> b64_char (CHR ''.'')" "\<not> b64_char (CHR ''%'')" by code_simp+
  ultimately have no: "CHR ''.'' \<notin> set (''+FiSH '' @ base64_encode L bs)" "CHR ''%'' \<notin> set (''+FiSH '' @ base64_encode L bs)"
    by (auto simp: base64_encode_def list_all_iff)
  have "\<not> traversal (''+FiSH '' @ base64_encode L bs)" using no by (rule no_traversal)
  moreover have g: "list_all graphic (base64_encode L bs)" using b64_graphic [OF assms(1)] by (simp add: base64_encode_def)
  then have p: "list_all printable (''+FiSH '' @ base64_encode L bs)"
    using graphic_printable by (simp add: printable_def graphic_def)
  ultimately show "cli_arg (''+FiSH '' @ base64_encode L bs)" by (intro option_dash) simp_all
  have "0 < length bs" using assms(2) by simp
  then have "0 < length (base64_encode L bs)" unfolding base64_encode_def b64_length [OF assms(1)] by linarith
  then have "base64_encode L bs \<noteq> []" by simp
  then show "cli_text (''+FiSH '' @ base64_encode L bs)" using p g
    by (simp add: cli_text_def graphic_def list_all_iff)
qed

definition cli_target :: "string \<Rightarrow> bool" where
  "cli_target t \<longleftrightarrow> cli_arg t \<and> list_all graphic t \<and> t \<noteq> [] \<and> length t \<le> 1000 \<and> normalize_target t = t"

lemma join_target: "ws \<noteq> [] \<Longrightarrow> join '' '' (t # ws) = t @ CHR '' '' # join '' '' ws"
  by (cases ws) simp_all

lemma message_command:
  "map_of function_names ''encrypt'' = Some ''FiSH11_EncryptMsg''" "map_of function_names ''decrypt'' = Some ''FiSH11_DecryptMsg''"
  "map_of (fish_exports L V) ''FiSH11_EncryptMsg'' = Some (on_store (FiSH11_EncryptMsg L (v_nonce V)))"
  "map_of (fish_exports L V) ''FiSH11_DecryptMsg'' = Some (on_store_wait (FiSH11_DecryptMsg L))"
  by (simp_all add: function_names_def fish_exports_def)

lemma message_args:
  "args \<noteq> [] \<Longrightarrow> validate_command_args ''encrypt'' (t # args) = Inr ()"
  "args \<noteq> [] \<Longrightarrow> validate_command_args ''decrypt'' (t # args) = Inr ()"
  by (cases args; simp add: validate_command_args_def)+

lemma sealed_length:
  assumes "lib_ok L" "length nonce = 24" "cli_target t" "m \<noteq> []" "length m \<le> 629"
    "FiSH11_EncryptMsg L nonce (t @ CHR '' '' # m) st = (Inr text, st')"
  shows "cli_arg text \<and> cli_text text \<and> length text \<le> 899"
proof -
  have t: "CHR '' '' \<notin> set t" "normalize_target t = t" "t \<noteq> []"
    using assms(3) graphic_no_space by (simp_all add: cli_target_def)
  obtain c key ad s s' where e: "text = ''+FiSH '' @ c" "length key = 32" "encrypt_message L nonce key m ad s = (Inr c, s')"
    using EncryptMsg_result [OF assms(6) parse_input_parts [OF t assms(4)]] by auto
  obtain ct where ct: "c = base64_encode L (nonce @ ct)" using encrypt_message_Inr [OF e(3)] by blast
  have "nonce @ ct \<noteq> []" using assms(2) by auto
  from sealed_text_arg [OF aead_law_ok(2) [OF assms(1)] this] have a: "cli_arg text" "cli_text text"
    by (simp_all add: e(1) ct)
  have "length text = 6 + 4 * ((length m + 42) div 3)"
    using encrypt_length(1) [OF assms(1) e(3,2) assms(2)] by (simp add: e(1))
  moreover have "(length m + 42) div 3 \<le> (629 + 42) div 3" using assms(5) by (intro div_le_mono) simp
  ultimately show ?thesis using a by simp
qed

lemma cli_run_encrypt:
  assumes "lib_ok L" "length (v_nonce V) = 24" "fish_os OS dll (fish_library L V)" "cli_target t"
    "list_all cli_arg ws" "ws \<noteq> []" "cli_text (join '' '' ws)" "length (join '' '' ws) \<le> 629"
    "FiSH11_EncryptMsg L (v_nonce V) (t @ CHR '' '' # join '' '' ws) (fst (p_state p)) = (Inr text, st')"
  shows "cli_main OS (''-q'' # dll # ''encrypt'' # t # ws) p =
    Some ([text], (loaded p)\<lparr>p_state := (st', snd (p_state p))\<rparr>)"
proof -
  have t: "cli_arg t" "cli_text t" "length t \<le> 1000"
    using assms(4) graphic_cli_text by (simp_all add: cli_target_def)
  have j: "join '' '' (t # ws) = t @ CHR '' '' # join '' '' ws" using join_target [OF assms(6)] .
  have m: "join '' '' ws \<noteq> []" using assms(7) by (simp add: cli_text_def)
  note sealed = sealed_length [OF assms(1,2,4) m assms(8,9)]
  have b: "on_store (FiSH11_EncryptMsg L (v_nonce V)) (join '' '' (t # ws)) (p_state p) =
      Some (Inr text, (st', snd (p_state p)))"
    by (simp only: on_store_def j assms(9) Let_def prod.case)
  have s: "shown (Inr text)" using sealed cli_textD by (simp add: shown_def answer_text_def)
  have len: "length (join '' '' (t # ws)) \<le> 8191" using t(3) assms(8) by (simp only: j) simp
  have whole: "cli_text (join '' '' (t # ws))" unfolding j using cli_text_append [OF t(2) assms(7)] .
  have all: "list_all cli_arg (t # ws)" using t(1) assms(5) by simp
  have "cli_main OS (''-q'' # dll # ''encrypt'' # t # ws) p =
      Some ([trim (take 899 (answer_text (Inr text)))], (loaded p)\<lparr>p_state := (st', snd (p_state p))\<rparr>)"
    by (rule quiet_answer [OF assms(3) message_command(1) _ _ _ all _ message_args(1) [OF assms(6)] len whole message_command(3) b s])
      simp_all
  then show ?thesis using sealed cli_text_trim by (simp add: answer_text_def)
qed

lemma cli_run_decrypt:
  assumes "fish_os OS dll (fish_library L V)" "cli_target t" "cli_arg text" "cli_text text" "length text \<le> 899"
    "cli_text m" "length m \<le> 899"
    "FiSH11_DecryptMsg L (t @ CHR '' '' # text) (fst (p_state p)) = Some (Inr m, st')"
  shows "cli_main OS [''-q'', dll, ''decrypt'', t, text] p =
    Some ([m], (loaded p)\<lparr>p_state := (st', snd (p_state p))\<rparr>)"
proof -
  have t: "cli_arg t" "cli_text t" "length t \<le> 1000"
    using assms(2) graphic_cli_text by (simp_all add: cli_target_def)
  have j: "join '' '' [t, text] = t @ CHR '' '' # text" by simp
  have b: "on_store_wait (FiSH11_DecryptMsg L) (join '' '' [t, text]) (p_state p) = Some (Inr m, (st', snd (p_state p)))"
    by (simp only: on_store_wait_def j assms(8) option.map prod.case)
  have s: "shown (Inr m)" using assms(6) cli_textD by (simp add: shown_def answer_text_def)
  have len: "length (join '' '' [t, text]) \<le> 8191" using t(3) assms(5) by (simp only: j) simp
  have whole: "cli_text (join '' '' [t, text])" unfolding j using cli_text_append [OF t(2) assms(4)] .
  have all: "list_all cli_arg [t, text]" using t(1) assms(3) by simp
  have "cli_main OS (''-q'' # dll # ''decrypt'' # [t, text]) p =
      Some ([trim (take 899 (answer_text (Inr m)))], (loaded p)\<lparr>p_state := (st', snd (p_state p))\<rparr>)"
    by (rule quiet_answer [OF assms(1) message_command(2) _ _ _ all _ message_args(2) len whole message_command(4) b s])
      simp_all
  then show ?thesis using assms(6,7) cli_text_trim by (simp add: answer_text_def)
qed

text \<open>Two stores that hold one key for a channel, or for each other's nickname.\<close>

definition share_key :: "ext_lib \<Rightarrow> string \<Rightarrow> store \<Rightarrow> string \<Rightarrow> store \<Rightarrow> bool" where
  "share_key L tA stA tB stB \<longleftrightarrow>
     (is_chan_prefixed tA \<and> tB = tA \<and> no_manual stA tA \<and> no_manual stB tA \<and>
        (\<exists>key. get_channel_key tA stA = Inr key \<and> get_channel_key tA stB = Inr key)) \<or>
     (good_nick tA \<and> good_nick tB \<and>
        (\<exists>key sA sB. length key = 32 \<and> get_private_key L tA stA = (Inr key, sA) \<and>
           get_private_key L tB stB = (Inr key, sB)))"

lemma share_key_messages:
  assumes "lib_ok L" "length nonce = 24" "share_key L tA stA tB stB" "cli_target tA"
    "utf8_valid (as_bytes m)" "m \<noteq> []" "length m \<le> 4096"
  shows "\<exists>c stA' stB'. FiSH11_EncryptMsg L nonce (tA @ CHR '' '' # m) stA = (Inr (''+FiSH '' @ c), stA') \<and>
    FiSH11_DecryptMsg L (tB @ CHR '' '' # ''+FiSH '' @ c) stB = Some (Inr m, stB')"
proof -
  have t: "CHR '' '' \<notin> set tA" "normalize_target tA = tA"
    using assms(4) graphic_no_space by (simp_all add: cli_target_def)
  from assms(3) consider
    (chan) key where "is_chan_prefixed tA" "tB = tA" "no_manual stA tA" "no_manual stB tA"
      "get_channel_key tA stA = Inr key" "get_channel_key tA stB = Inr key"
  | (nick) key sA sB where "good_nick tA" "good_nick tB" "length key = 32"
      "get_private_key L tA stA = (Inr key, sA)" "get_private_key L tB stB = (Inr key, sB)"
    unfolding share_key_def by blast
  then show ?thesis
  proof cases
    case chan
    show ?thesis
      using channel_message_core [OF assms(1,2,5,6,7) t chan(1,5,3,6,4)] by (simp only: chan(2))
  next
    case nick
    show ?thesis using private_message_read [OF assms(1,2,5,6,7) nick(2,1,3,4,5)] .
  qed
qed


section \<open>Answers taken for results\<close>

lemma join_2: "join '' '' [a, b] = a @ CHR '' '' # b" by simp

text \<open>\<open>setkey <target> <key>\<close>, which the tool's own check of the arguments and the help
  of the library ask for, never sets a key: the library wants a network first, refuses, and
  the tool prints the refusal as it prints a result.\<close>

theorem cli_setkey_refused:
  assumes "fish_os OS dll (fish_library L V)" "cli_arg t" "list_all graphic t" "t \<noteq> []"
    "cli_arg k" "list_all graphic k" "k \<noteq> []" "length t + length k \<le> 8000"
  shows "validate_command_args ''setkey'' [t, k] = Inr () \<and>
    cli_main OS [''-q'', dll, ''setkey'', t, k] p =
      Some ([''invalid input for '' @ quoted ''input'' @
        '': expected format: <network> <target> <base64_key> (target = nickname or channel)''], loaded p)"
proof -
  let ?e = "InvalidInput ''input'' ''expected format: <network> <target> <base64_key> (target = nickname or channel)''"
  let ?m = "''invalid input for '' @ quoted ''input'' @
    '': expected format: <network> <target> <base64_key> (target = nickname or channel)''"
  have v: "validate_command_args ''setkey'' [t, k] = Inr ()" by (simp add: validate_command_args_def)
  have sp: "CHR '' '' \<notin> set t" "CHR '' '' \<notin> set k" using assms(3,6) graphic_no_space by simp_all
  have "splitn_char 3 (CHR '' '') (t @ CHR '' '' # k) = [t, k]"
    using sp(2) by (simp add: numeral_3_eq_3 split_once_char [OF sp(1)])
      (simp add: split_once_def find_char_absent)
  then have f: "FiSH11_SetKey L (join '' '' [t, k]) st = (Inl ?e, st)" for st
    unfolding join_2 FiSH11_SetKey_def by simp
  have b: "on_store (FiSH11_SetKey L) (join '' '' [t, k]) (p_state p) = Some (Inl ?e, p_state p)"
    unfolding on_store_def f by simp
  have d: "answer_text (Inl ?e) = ?m" by (simp add: answer_text_def)
  have c: "cli_text ?m" "length ?m \<le> 899" by code_simp+
  have s: "shown (Inl ?e)"
    using cli_textD [OF c(1)] unfolding shown_def d by (simp add: is_null_pointer_def expired_nick_def halts_mirc_def)
  have fn: "map_of function_names ''setkey'' = Some ''FiSH11_SetKey''"
    "map_of (fish_exports L V) ''FiSH11_SetKey'' = Some (on_store (FiSH11_SetKey L))"
    by (simp_all add: function_names_def fish_exports_def)
  have whole: "cli_text (join '' '' [t, k])" unfolding join_2
    using cli_text_append graphic_cli_text assms(3,4,6,7) by blast
  have len: "length (join '' '' [t, k]) \<le> 8191" unfolding join_2 using assms(8) by simp
  have all: "list_all cli_arg [t, k]" using assms(2,5) by simp
  have "cli_main OS (''-q'' # dll # ''setkey'' # [t, k]) p =
      Some ([trim (take 899 (answer_text (Inl ?e)))], (loaded p)\<lparr>p_state := p_state p\<rparr>)"
    by (rule quiet_answer [OF assms(1) fn(1) _ _ _ all _ v len whole fn(2) b s]) simp_all
  moreover have "trim (take 899 ?m) = ?m" using c cli_text_trim by simp
  ultimately show ?thesis using v unfolding d by (simp add: loaded_def)
qed

text \<open>A single word.\<close>

lemma split_single: "w \<noteq> [] \<Longrightarrow> list_all graphic w \<Longrightarrow> split_whitespace w = [w]"
proof -
  assume w: "w \<noteq> []" "list_all graphic w"
  have "take_word w = (w, [])" if "list_all graphic w" for w
    using that by (induction w) (simp_all add: ws_len_graphic)
  moreover have "trim_start w = w" using w by (cases w) (auto simp: trim_start_id ws_len_graphic)
  moreover have "split_whitespace [] = []" by (subst split_whitespace.simps) (simp add: trim_start_id)
  ultimately show ?thesis using w by (subst split_whitespace.simps) simp
qed

text \<open>A key stored under the name of a channel is not a key of the channel.\<close>

lemma channel_entry_apart:
  assumes "set_key L ch k None ow x st = (Inr (), st')" "is_chan_prefixed ch" "normalize_nick ch = ch"
    "no_manual st ch" "hm_get (c_channel_keys (s_config st)) (to_lowercase ch) = None"
  shows "get_channel_key_with_fallback L ch st' = (Inl (KeyNotFound (''No key found for channel: '' @ ch)), st')"
proof -
  have lower: "to_lowercase ch = ch" using to_lowercase_normalize_nick [of ch] assms(3) by simp
  have "\<exists>c r. ch = c # r \<and> (c = CHR ''#'' \<or> c = CHR ''&'')"
    using assms(2) by (cases ch) (auto simp: is_chan_prefixed_def starts_with_def)
  then have "slot st ch None \<noteq> manual_entry_key (to_lowercase ch)"
    using assms(3) by (auto simp: slot_def entry_name_def manual_entry_key_def)
  then have "no_manual st' ch"
    using assms(4) set_key_effect(1) [OF assms(1)] by (simp add: no_manual_def)
  moreover have "get_channel_key ch st' = Inl (FE_KeyNotFound (''No key found for channel: '' @ ch))"
    using assms(2,5) set_key_effect(5) [OF assms(1)]
    by (simp add: get_channel_key_def with_config_def lower Let_def)
  ultimately show ?thesis by (simp add: channel_key_used)
qed

text \<open>C40: \<open>genkey\<close> with a channel, the example of the tool's own help, stores a key under the
  channel's name, which is not the key of the channel; the tool then asks for the channel's
  key and, since any answer of more than ten bytes counts as a key, a quiet run prints the
  error text as the generated key and nothing else.\<close>

theorem cli_genkey_prints_error:
  assumes "fish_os OS dll (fish_library L V)" "cli_target ch" "length ch \<le> 500" "is_chan_prefixed ch" "normalize_nick ch = ch"
    "no_manual (fst (p_state p)) ch" "hm_get (c_channel_keys (s_config (fst (p_state p)))) ch = None"
    "set_key L ch (v_key V) None False False (fst (p_state p)) = (Inr (), st')"
  shows "cli_main OS [''-q'', dll, ''genkey'', ch] p =
    Some ([''no encryption key found for '' @ quoted (''No key found for channel: '' @ ch)],
      (loaded p)\<lparr>p_state := (st', snd (p_state p))\<rparr>)"
proof -
  let ?e = "KeyNotFound (''No key found for channel: '' @ ch)"
  let ?ok = "''New key pair generated successfully for '' @ ch"
  let ?m = "''no encryption key found for '' @ quoted (''No key found for channel: '' @ ch)"
  let ?p = "(loaded p)\<lparr>p_state := (st', snd (p_state p))\<rparr>"
  have t: "cli_arg ch" "list_all graphic ch" "ch \<noteq> []" "normalize_target ch = ch" and txt': "cli_text ch"
    using assms(2) graphic_cli_text by (simp_all add: cli_target_def)
  have lower: "to_lowercase ch = ch" using to_lowercase_normalize_nick [of ch] assms(5) by simp
  have trim: "trim ch = ch" using trim_graphic [OF t(2)] by simp
  have sp: "CHR '' '' \<notin> set ch" using t(2) graphic_no_space by simp
  have one: "splitn_char 2 (CHR '' '') ch = [ch]"
    by (simp add: splitn_2) (simp add: split_once_def find_char_absent [OF sp])
  have gen: "on_store (FiSH11_GenKey L (v_key V)) ch (p_state (loaded p)) = Some (Inr ?ok, (st', snd (p_state p)))"
    using assms(5,8) t(3,4) by (simp add: on_store_def FiSH11_GenKey_def one trim loaded_facts Let_def)
  have fb: "get_channel_key_with_fallback L ch st' = (Inl ?e, st')"
    using channel_entry_apart [OF assms(8,4,5,6)] assms(7) by (simp add: lower)
  have get: "on_store (FiSH11_FileGetKey L) ch (p_state ?p) = Some (Inl ?e, (st', snd (p_state p)))"
    using assms(4,5) t(3,4) by (simp add: on_store_def FiSH11_FileGetKey_def trim fb Let_def)
  have pc: "list_all printable ch" using t(2) by (rule graphic_printable)
  have lit: "list_all printable ''New key pair generated successfully for ''" "list_all printable ''no encryption key found for ''"
    "list_all printable ''No key found for channel: ''" "printable (CHR 0x27)" by code_simp+
  have s1: "shown (Inr ?ok)" unfolding shown_def answer_text_def
    by (simp only: sum.case list_all_append pc lit(1) append_is_Nil_conv t(3) simp_thms)
  have pm: "list_all printable ?m" using pc lit(2,3,4)
    unfolding quoted_def list_all_append by (simp only: list.pred_inject)
  have s2: "shown (Inl ?e)"
    using pm by (simp add: shown_def answer_text_def is_null_pointer_def expired_nick_def halts_mirc_def)
  have len: "length ch \<le> 8191" "length ?m \<le> 899" using assms(3) by (simp_all add: quoted_def)
  have fn: "map_of function_names ''genkey'' = Some ''FiSH11_GenKey''"
    "map_of (fish_exports L V) ''FiSH11_GenKey'' = Some (on_store (FiSH11_GenKey L (v_key V)))"
    "map_of (fish_exports L V) ''FiSH11_FileGetKey'' = Some (on_store (FiSH11_FileGetKey L))"
    by (simp_all add: function_names_def fish_exports_def)
  have v: "validate_command_args ''genkey'' [ch] = Inr ()" by (simp add: validate_command_args_def)
  have run: "cli_main OS (''-q'' # dll # ''genkey'' # [ch]) p = run_function (fish_library L V) True ''FiSH11_GenKey'' (join '' '' [ch]) (loaded p)"
    by (rule quiet_run [OF assms(1) fn(1) _ _ _ _ v]) (use t(1) len(1) pc in simp_all)
  have c1: "call_dll_function (fish_library L V) ''FiSH11_GenKey'' ch (loaded p) = Some (Inr (take 899 ?ok), ?p)"
    using fish_call [OF fn(2) txt' len(1) gen s1 loaded_facts(2)] by (simp add: answer_text_def)
  have b2: "get_buffer_size ?p = 8191" using loaded_facts(2) [of p] by (simp add: get_buffer_size_def offered_bytes_def loaded_def)
  have c2: "call_dll_function (fish_library L V) ''FiSH11_FileGetKey'' ch ?p = Some (Inr ?m, ?p)"
    using fish_call [OF fn(3) txt' len(1) get s2 b2] len(2) by (simp add: answer_text_def)
  have "cli_text ?m" using pm by (simp add: cli_text_def quoted_def graphic_def)
  then have "trim ?m = ?m" by (rule cli_text_trim)
  moreover have "10 < length ?m" by simp
  moreover have "first_word ch = ch" using split_single [OF t(3,2)] by (simp add: first_word_def)
  ultimately show ?thesis unfolding run
    by (simp add: run_function_def c1 c2 show_generated_def)
qed

text \<open>The machine of the examples: the library is \<open>fish.dll\<close>.\<close>

definition sample_run :: run_env where
  "sample_run = \<lparr>v_key = replicate 32 4, v_nonce = replicate 24 5, v_nonces = (\<lambda>i. replicate 24 6),
     v_secret = replicate 32 8, v_exchange = sample_env (replicate 32 9), v_windows = True, v_current_dir = None,
     v_build = \<lparr>b_version = ''1'', b_timestamp = ''N/A'', b_debug = False\<rparr>\<rparr>"

definition sample_os :: "fish_state process cli_os" where
  "sample_os = \<lparr>os_windows = True, os_unicode = plain_unicode, os_build = v_build sample_run,
     os_dlopen = (\<lambda>f. Inr (fish_library ref_lib sample_run)),
     os_probe = (\<lambda>f. \<lparr>fp_exists = False, fp_is_file = False, fp_read = Inr 0, fp_open_error = None\<rparr>)\<rparr>"

lemma sample_os_ok: "fish_os sample_os ''fish.dll'' (fish_library ref_lib sample_run)"
proof -
  have "validate_dll_path True ''fish.dll'' = Inr ()" "cli_arg ''fish.dll''" by code_simp+
  then show ?thesis by (simp add: fish_os_def sample_os_def)
qed


lemma cli_setkey_refused_witness:
  "cli_main sample_os [''-q'', ''fish.dll'', ''setkey'', ''bob'', ''c2VjcmV0''] (process_start (sample_store, None)) =
     Some ([''invalid input for '' @ quoted ''input'' @
        '': expected format: <network> <target> <base64_key> (target = nickname or channel)''],
       loaded (process_start (sample_store, None)))"
proof -
  have a: "cli_arg ''bob''" "list_all graphic ''bob''" "cli_arg ''c2VjcmV0''" "list_all graphic ''c2VjcmV0''" by code_simp+
  show ?thesis
    using conjunct2 [OF cli_setkey_refused [OF sample_os_ok a(1,2) _ a(3,4)]] by simp
qed

lemma cli_genkey_prints_error_witness:
  "\<exists>p'. cli_main sample_os [''-q'', ''fish.dll'', ''genkey'', ''#fish''] (process_start (sample_store, None)) =
     Some ([''no encryption key found for '' @ quoted ''No key found for channel: #fish''], p')"
proof -
  have t: "cli_target ''#fish''" "normalize_nick ''#fish'' = ''#fish''" by code_simp+
  obtain st' where s: "set_key ref_lib ''#fish'' (v_key sample_run) None False False sample_store = (Inr (), st')"
  proof -
    obtain r c where rc: "set_key_entry ref_lib sample_store ''#fish'' (v_key sample_run) None False False
        (mark_dirty (s_config sample_store)) = (r, c)" by force
    then have "r = Inr ()" by (auto simp: set_key_entry_def sample_store_facts mark_dirty_def Let_def)
    then have "fst (set_key ref_lib ''#fish'' (v_key sample_run) None False False sample_store) = Inr ()"
      by (simp add: set_key_def with_config_mut_set_entry [OF rc] set_network_persist)
    then show thesis using that by (cases "set_key ref_lib ''#fish'' (v_key sample_run) None False False sample_store") simp
  qed
  have st: "fst (p_state (process_start (sample_store, None))) = sample_store" by (simp add: process_start_def)
  have m: "no_manual (fst (p_state (process_start (sample_store, None)))) ''#fish''"
    "hm_get (c_channel_keys (s_config (fst (p_state (process_start (sample_store, None)))))) ''#fish'' = None"
    by (simp_all add: st no_manual_def sample_store_facts)
  show ?thesis
    using cli_genkey_prints_error [OF sample_os_ok t(1) _ fish_target(3) t(2) m, of st'] s by (simp add: st)
qed

end
