(* ===== verification/Logging.thy ===== *)
theory Logging
  imports Cli
begin

text \<open>
  The logger of \<open>fish_11_core/src/logging/\<close>: levels (the \<open>log\<close> crate's), filters and profiles, masking, the
  format of a record, and the file writer with its rotation of full files.  The disk is a map
  from paths to contents; the descriptor of the open file follows a rename, as the operating
  system's does.  Failures of the operating system, elapsed times, the time stamp and the
  regular expressions are arguments.  One thread logs, so every \<open>try_lock\<close> succeeds.
\<close>

section \<open>Levels\<close>

datatype Level = Lv_Error | Lv_Warn | Lv_Info | Lv_Debug | Lv_Trace

datatype LevelFilter = Off | Upto Level

primrec level_num :: "Level \<Rightarrow> nat" where
  "level_num Lv_Error = 1" | "level_num Lv_Warn = 2" | "level_num Lv_Info = 3"
| "level_num Lv_Debug = 4" | "level_num Lv_Trace = 5"

primrec filter_num :: "LevelFilter \<Rightarrow> nat" where
  "filter_num Off = 0" | "filter_num (Upto l) = level_num l"

lemma level_num_inj: "level_num a = level_num b \<Longrightarrow> a = b"
  by (cases a; cases b) simp_all

lemma level_num_pos [simp]: "level_num l \<noteq> 0"
  by (cases l) simp_all

text \<open>\<open>log\<close>'s order: the more severe, the smaller.\<close>

instantiation Level :: linorder
begin

definition less_eq_Level :: "Level \<Rightarrow> Level \<Rightarrow> bool" where "a \<le> b \<longleftrightarrow> level_num a \<le> level_num b"
definition less_Level :: "Level \<Rightarrow> Level \<Rightarrow> bool" where "a < b \<longleftrightarrow> level_num a < level_num b"

instance
  by standard (auto simp: less_eq_Level_def less_Level_def intro: level_num_inj)

end

instantiation LevelFilter :: linorder
begin

definition less_eq_LevelFilter :: "LevelFilter \<Rightarrow> LevelFilter \<Rightarrow> bool" where
  "a \<le> b \<longleftrightarrow> filter_num a \<le> filter_num b"
definition less_LevelFilter :: "LevelFilter \<Rightarrow> LevelFilter \<Rightarrow> bool" where
  "a < b \<longleftrightarrow> filter_num a < filter_num b"

instance
proof
  fix a b :: LevelFilter
  show "a \<le> b \<Longrightarrow> b \<le> a \<Longrightarrow> a = b"
    by (cases a; cases b) (auto simp: less_eq_LevelFilter_def intro: level_num_inj)
qed (auto simp: less_eq_LevelFilter_def less_LevelFilter_def)

end

primrec level_name :: "Level \<Rightarrow> string" where
  "level_name Lv_Error = ''ERROR''" | "level_name Lv_Warn = ''WARN''" | "level_name Lv_Info = ''INFO''"
| "level_name Lv_Debug = ''DEBUG''" | "level_name Lv_Trace = ''TRACE''"

section \<open>Configuration\<close>

datatype LoggingProfile = Profile_Core | Profile_Inject | Profile_Dll

record LogConfig =
  lc_level :: LevelFilter
  lc_file_path :: string
  lc_max_file_size :: nat
  lc_max_files :: nat
  lc_console_output :: bool
  lc_console_level :: LevelFilter
  lc_enable_context :: bool
  lc_mask_sensitive :: bool
  lc_structured_logs :: bool
  lc_enable_metrics :: bool
  lc_include_target :: bool
  lc_include_source_location :: bool

definition default_log_level :: "bool \<Rightarrow> LevelFilter" where
  "default_log_level debug = Upto (if debug then Lv_Debug else Lv_Info)"

definition default_console_level :: "bool \<Rightarrow> LevelFilter" where
  "default_console_level debug = Upto (if debug then Lv_Debug else Lv_Warn)"

definition log_config_default :: "bool \<Rightarrow> LogConfig" where
  "log_config_default debug =
     \<lparr>lc_level = default_log_level debug, lc_file_path = ''fish_11.log'', lc_max_file_size = 10 * 1024 * 1024,
      lc_max_files = 5, lc_console_output = debug, lc_console_level = default_console_level debug,
      lc_enable_context = True, lc_mask_sensitive = True, lc_structured_logs = False, lc_enable_metrics = True,
      lc_include_target = True, lc_include_source_location = False\<rparr>"

definition for_inject :: LogConfig where
  "for_inject =
     \<lparr>lc_level = Upto Lv_Trace, lc_file_path = ''fish11_inject.log'', lc_max_file_size = 10 * 1024 * 1024,
      lc_max_files = 3, lc_console_output = False, lc_console_level = Off,
      lc_enable_context = False, lc_mask_sensitive = False, lc_structured_logs = False, lc_enable_metrics = False,
      lc_include_target = False, lc_include_source_location = True\<rparr>"

definition for_dll :: LogConfig where
  "for_dll =
     \<lparr>lc_level = Upto Lv_Debug, lc_file_path = ''fish_11_dll.log'', lc_max_file_size = 10 * 1024 * 1024,
      lc_max_files = 5, lc_console_output = False, lc_console_level = Off,
      lc_enable_context = False, lc_mask_sensitive = False, lc_structured_logs = False, lc_enable_metrics = False,
      lc_include_target = False, lc_include_source_location = True\<rparr>"

fun for_profile :: "bool \<Rightarrow> LoggingProfile \<Rightarrow> LogConfig" where
  "for_profile debug Profile_Core = log_config_default debug"
| "for_profile debug Profile_Inject = for_inject"
| "for_profile debug Profile_Dll = for_dll"

text \<open>\<open>date\<close> is the day as \<open>%Y-%m-%d\<close>; the requested level is ignored.\<close>

definition get_log_file_path :: "bool \<Rightarrow> string \<Rightarrow> string option \<Rightarrow> string" where
  "get_log_file_path windows date current_dir =
     (let log_filename = ''fish_11_dll_'' @ date @ ''.log'' in
      case current_dir of Some dir \<Rightarrow> path_push windows dir log_filename | None \<Rightarrow> log_filename)"

definition build_dll_log_config :: "bool \<Rightarrow> string \<Rightarrow> string option \<Rightarrow> LevelFilter \<Rightarrow> LogConfig" where
  "build_dll_log_config windows date current_dir level =
     for_dll\<lparr>lc_file_path := get_log_file_path windows date current_dir, lc_level := Upto Lv_Debug\<rparr>"

section \<open>Filters\<close>

record LogFilter =
  lf_min_level :: LevelFilter
  lf_modules :: "string list"
  lf_exclude_modules :: "string list"

definition log_filter_new :: "LevelFilter \<Rightarrow> LogFilter" where
  "log_filter_new min_level = \<lparr>lf_min_level = min_level, lf_modules = [], lf_exclude_modules = []\<rparr>"

definition include_module :: "string \<Rightarrow> LogFilter \<Rightarrow> LogFilter" where
  "include_module m f = f\<lparr>lf_modules := lf_modules f @ [m]\<rparr>"

definition exclude_module :: "string \<Rightarrow> LogFilter \<Rightarrow> LogFilter" where
  "exclude_module m f = f\<lparr>lf_exclude_modules := lf_exclude_modules f @ [m]\<rparr>"

definition should_log :: "LogFilter \<Rightarrow> Level \<Rightarrow> string \<Rightarrow> bool" where
  "should_log f level target =
     (if level_num level < filter_num (lf_min_level f) then False
      else if list_ex (\<lambda>excluded. starts_with excluded target) (lf_exclude_modules f) then False
      else if lf_modules f \<noteq> [] then list_ex (\<lambda>included. starts_with included target) (lf_modules f)
      else True)"

section \<open>Masking and format\<close>

text \<open>\<open>replace_all\<close> of the three patterns: the first with the replacement as a function of the
  match, the last with it as a function of the first group.\<close>

record regexes =
  re_x25519 :: "(string \<Rightarrow> string) \<Rightarrow> string \<Rightarrow> string"
  re_ip :: "string \<Rightarrow> string \<Rightarrow> string"
  re_key :: "(string option \<Rightarrow> string) \<Rightarrow> string \<Rightarrow> string"

definition trim_end_eq :: "string \<Rightarrow> string" where
  "trim_end_eq s = rev (dropWhile (\<lambda>c. c = CHR ''='') (rev s))"

definition is_valid_base64 :: "string \<Rightarrow> bool" where
  "is_valid_base64 input =
     (let base64_chars = trim_end_eq input in
      if length base64_chars \<noteq> 43 \<and> length base64_chars \<noteq> 44 then False
      else list_all (\<lambda>c. is_ascii_alpha c \<or> is_ascii_digit c \<or> c = CHR ''+'' \<or> c = CHR ''/'') base64_chars)"

definition mask_x25519_keys :: "regexes \<Rightarrow> string \<Rightarrow> string" where
  "mask_x25519_keys R input =
     re_x25519 R (\<lambda>matched. if is_valid_base64 matched then ''X25519_KEY_REDACTED'' else matched) input"

definition mask_ip_addresses :: "regexes \<Rightarrow> string \<Rightarrow> string" where
  "mask_ip_addresses R input = re_ip R ''IP_REDACTED'' input"

definition mask_potential_keys :: "regexes \<Rightarrow> string \<Rightarrow> string" where
  "mask_potential_keys R input =
     re_key R (\<lambda>group. case group of Some prefix \<Rightarrow> prefix @ ''REDACTED_VALUE'' | None \<Rightarrow> ''REDACTED_KEY_VALUE'') input"

definition mask_sensitive_data :: "regexes \<Rightarrow> string \<Rightarrow> string" where
  "mask_sensitive_data R input = mask_potential_keys R (mask_ip_addresses R (mask_x25519_keys R input))"

record log_record =
  r_args :: string
  r_level :: Level
  r_target :: string
  r_file :: "string option"
  r_line :: "nat option"

definition add_context :: "string \<Rightarrow> string \<times> string \<Rightarrow> string" where
  "add_context message context = ''[CTX:'' @ fst context @ '':'' @ snd context @ ''] '' @ message"

definition format_record :: "regexes \<Rightarrow> string \<Rightarrow> log_record \<Rightarrow> string \<times> string \<Rightarrow> LogConfig \<Rightarrow> string" where
  "format_record R timestamp r context config =
     (let m0 = r_args r;
          m1 = (if lc_mask_sensitive config then mask_sensitive_data R m0 else m0);
          message = (if lc_enable_context config then add_context m1 context else m1);
          metadata = [level_name (r_level r)] @
            (if lc_include_target config then [r_target r] else []) @
            (if lc_include_source_location config
             then [(case r_file r of Some f \<Rightarrow> f | None \<Rightarrow> ''<unknown>'') @ '':'' @
                   show_nat (case r_line r of Some n \<Rightarrow> n | None \<Rightarrow> 0)] else [])
      in ''['' @ timestamp @ ''] '' @ join '' '' (map (\<lambda>s. ''['' @ s @ '']'') metadata) @ '' '' @ message @ [CHR 0x0A])"

section \<open>The file writer\<close>

text \<open>Paths name a file: they do not end with a separator.\<close>

definition extension_split :: "bool \<Rightarrow> string \<Rightarrow> string \<times> string option" where
  "extension_split windows path =
     (case rsplit_dot path of
        Some (a, e) \<Rightarrow>
          if a = [] \<or> is_sep windows (last a) \<or> list_ex (is_sep windows) e then (path, None) else (a, Some e)
      | None \<Rightarrow> (path, None))"

definition with_extension :: "bool \<Rightarrow> string \<Rightarrow> string \<Rightarrow> string" where
  "with_extension windows path ext =
     (let stem = fst (extension_split windows path) in if ext = [] then stem else stem @ ''.'' @ ext)"

definition backup_path :: "bool \<Rightarrow> string \<Rightarrow> nat \<Rightarrow> string" where
  "backup_path windows path i =
     (let ext = (case snd (extension_split windows path) of Some e \<Rightarrow> e | None \<Rightarrow> []) in
      with_extension windows path (ext @ ''.'' @ show_nat i))"

definition lock_path :: "bool \<Rightarrow> string \<Rightarrow> string" where
  "lock_path windows path = with_extension windows path ''rotating.lock''"

datatype LogError = InitializationFailed | WriteError string | IoError string | MutexPoisoned | WriteTimeout
  | FlushTimeout | ConfigurationError string

primrec log_error_display :: "LogError \<Rightarrow> string" where
  "log_error_display InitializationFailed = ''Logger initialization failed''"
| "log_error_display (WriteError e) = ''Write error: '' @ e"
| "log_error_display (IoError e) = ''IO error: '' @ e"
| "log_error_display MutexPoisoned = ''Mutex poisoned''"
| "log_error_display WriteTimeout = ''Write timeout''"
| "log_error_display FlushTimeout = ''Flush timeout''"
| "log_error_display (ConfigurationError msg) = ''Configuration error: '' @ msg"

text \<open>A call of the operating system may fail with a text.  \<open>le_lock_age\<close> is the age of the
  lock file in nanoseconds, where it can be told, at the two places that ask for it.\<close>

datatype io_op = Io_Open string | Io_Create string | Io_Remove string | Io_Rename string string
  | Io_Write | Io_Flush | Io_Metadata string

record log_env =
  le_windows :: bool
  le_fail :: "io_op \<Rightarrow> string option"
  le_lock_age :: "nat option"
  le_lock_age_again :: "nat option"
  le_in_time :: bool
  le_again_in_time :: bool
  le_pid :: string

text \<open>The writer with the disk: \<open>fw_handle\<close> is the path under which the open file is found,
  \<open>None\<close> once it is removed; \<open>fw_pending\<close> is the content of the \<open>BufWriter\<close>.  Sizes stay
  below \<open>2 ^ 64\<close>.\<close>

record FileWriter =
  fw_path :: string
  fw_max_size :: nat
  fw_max_files :: nat
  fw_current_size :: nat
  fw_pending :: bytes
  fw_handle :: "string option"
  fw_files :: "(string, bytes) hmap"

definition io :: "log_env \<Rightarrow> io_op \<Rightarrow> (string, unit) result" where
  "io E op = (case le_fail E op of Some e \<Rightarrow> Inl e | None \<Rightarrow> Inr ())"

definition fw_exists :: "string \<Rightarrow> FileWriter \<Rightarrow> bool" where
  "fw_exists path W = hm_has (fw_files W) path"

definition content :: "FileWriter \<Rightarrow> string \<Rightarrow> bytes" where
  "content W path = (case hm_get (fw_files W) path of Some c \<Rightarrow> c | None \<Rightarrow> [])"

definition fs_open :: "log_env \<Rightarrow> string \<Rightarrow> FileWriter \<Rightarrow> (string, unit) result \<times> FileWriter" where
  "fs_open E path W =
     (case io E (Io_Open path) of
        Inl e \<Rightarrow> (Inl e, W)
      | Inr _ \<Rightarrow> (Inr (), if fw_exists path W then W else W\<lparr>fw_files := hm_insert path [] (fw_files W)\<rparr>))"

definition fs_remove :: "log_env \<Rightarrow> string \<Rightarrow> FileWriter \<Rightarrow> (string, unit) result \<times> FileWriter" where
  "fs_remove E path W =
     (case io E (Io_Remove path) of
        Inl e \<Rightarrow> (Inl e, W)
      | Inr _ \<Rightarrow> (Inr (), W\<lparr>fw_files := hm_remove path (fw_files W),
                          fw_handle := (if fw_handle W = Some path then None else fw_handle W)\<rparr>))"

definition fs_rename :: "log_env \<Rightarrow> string \<Rightarrow> string \<Rightarrow> FileWriter \<Rightarrow> (string, unit) result \<times> FileWriter" where
  "fs_rename E old new W =
     (case io E (Io_Rename old new) of
        Inl e \<Rightarrow> (Inl e, W)
      | Inr _ \<Rightarrow> (Inr (), W\<lparr>fw_files := hm_insert new (content W old) (hm_remove old (fw_files W)),
                          fw_handle := (if fw_handle W = Some old then Some new else fw_handle W)\<rparr>))"

definition fw_flush :: "log_env \<Rightarrow> FileWriter \<Rightarrow> (LogError, unit) result \<times> FileWriter" where
  "fw_flush E W =
     (case io E Io_Flush of
        Inl e \<Rightarrow> (Inl (WriteError e), W)
      | Inr _ \<Rightarrow> (Inr (), W\<lparr>fw_pending := [],
            fw_files := (case fw_handle W of
               Some path \<Rightarrow> hm_insert path (content W path @ fw_pending W) (fw_files W)
             | None \<Rightarrow> fw_files W)\<rparr>))"

definition file_writer_new ::
  "log_env \<Rightarrow> string \<Rightarrow> nat \<Rightarrow> nat \<Rightarrow> (string, bytes) hmap \<Rightarrow> (LogError, FileWriter) result" where
  "file_writer_new E path max_size max_files files =
     (let W = \<lparr>fw_path = path, fw_max_size = max_size, fw_max_files = max_files, fw_current_size = 0,
               fw_pending = [], fw_handle = Some path, fw_files = files\<rparr> in
      case fs_open E path W of
        (Inl e, _) \<Rightarrow> Inl (IoError e)
      | (Inr _, W1) \<Rightarrow>
          Inr (W1\<lparr>fw_current_size := (if is_ok (io E (Io_Metadata path)) then length (content W1 path) else 0)\<rparr>))"

definition LOCK_STALE :: nat where "LOCK_STALE = 300 * 10 ^ 9"

definition stale :: "nat option \<Rightarrow> bool" where
  "stale age = (case age of Some elapsed \<Rightarrow> LOCK_STALE < elapsed | None \<Rightarrow> False)"

definition cleanup_stale_lock_files :: "log_env \<Rightarrow> FileWriter \<Rightarrow> (LogError, unit) result \<times> FileWriter" where
  "cleanup_stale_lock_files E W =
     (let lock = lock_path (le_windows E) (fw_path W) in
      if fw_exists lock W \<and> is_ok (io E (Io_Metadata lock)) \<and> stale (le_lock_age E) then
        (case fs_remove E lock W of
           (Inl e, W1) \<Rightarrow> (Inl (IoError (''Failed to cleanup stale lock '' @ lock @ '': '' @ e)), W1)
         | (Inr _, W1) \<Rightarrow> (Inr (), W1))
      else (Inr (), W))"

text \<open>The move of one backup to the next number, and the loop over them from the last.\<close>

definition move_file :: "log_env \<Rightarrow> string \<Rightarrow> string \<Rightarrow> string \<Rightarrow> FileWriter \<Rightarrow> (LogError, unit) result \<times> FileWriter" where
  "move_file E what old new W =
     (case (if fw_exists new W then fs_remove E new W else (Inr (), W)) of
        (Inl e, W1) \<Rightarrow> (Inl (IoError (''Failed to remove '' @ what @ new @ '': '' @ e)), W1)
      | (Inr _, W1) \<Rightarrow>
          (case fs_rename E old new W1 of
             (Inl e, W2) \<Rightarrow> (Inl (IoError (''Failed to rename '' @ old @ '' to '' @ new @ '': '' @ e)), W2)
           | (Inr _, W2) \<Rightarrow> (Inr (), W2)))"

primrec shift_backups :: "log_env \<Rightarrow> nat \<Rightarrow> FileWriter \<Rightarrow> (LogError, unit) result \<times> FileWriter" where
  "shift_backups E 0 W = (Inr (), W)"
| "shift_backups E (Suc n) W =
     (let b = backup_path (le_windows E) (fw_path W) in
      case (if fw_exists (b (Suc n)) W then move_file E [] (b (Suc n)) (b (Suc n + 1)) W else (Inr (), W)) of
        (Inl e, W1) \<Rightarrow> (Inl e, W1)
      | (Inr _, W1) \<Rightarrow> shift_backups E n W1)"

text \<open>What \<open>rotate_files\<close> does while it holds the lock file.\<close>

definition rotate_locked :: "log_env \<Rightarrow> FileWriter \<Rightarrow> (LogError, unit) result \<times> FileWriter" where
  "rotate_locked E W =
     (let path = fw_path W in
      case fw_flush E W of
        (Inl e, W1) \<Rightarrow> (Inl e, W1)
      | (Inr _, W1) \<Rightarrow>
          if \<not> is_ok (io E (Io_Metadata path)) \<or> \<not> fw_exists path W1 then (Inr (), W1)
          else if length (content W1 path) \<le> fw_max_size W1 then (Inr (), W1)
          else
            (case shift_backups E (fw_max_files W1) W1 of
               (Inl e, W2) \<Rightarrow> (Inl e, W2)
             | (Inr _, W2) \<Rightarrow>
                 (case move_file E ''existing backup '' path (backup_path (le_windows E) path 1) W2 of
                    (Inl e, W3) \<Rightarrow> (Inl e, W3)
                  | (Inr _, W3) \<Rightarrow>
                      (case fs_open E path W3 of
                         (Inl e, W4) \<Rightarrow> (Inl (IoError e), W4)
                       | (Inr _, W4) \<Rightarrow> (Inr (), W4\<lparr>fw_handle := Some path, fw_current_size := 0\<rparr>)))))"

text \<open>The guard removes the lock file whatever happened.\<close>

definition unlock :: "log_env \<Rightarrow> (LogError, unit) result \<times> FileWriter \<Rightarrow> (LogError, unit) result \<times> FileWriter" where
  "unlock E rW = (let (r, W) = rW in (r, snd (fs_remove E (lock_path (le_windows E) (fw_path W)) W)))"

definition rotate_files :: "log_env \<Rightarrow> FileWriter \<Rightarrow> (LogError, unit) result \<times> FileWriter" where
  "rotate_files E W =
     (case cleanup_stale_lock_files E W of
        (Inl e, W1) \<Rightarrow> (Inl e, W1)
      | (Inr _, W1) \<Rightarrow>
          (let lock = lock_path (le_windows E) (fw_path W1) in
           case io E (Io_Create lock) of
             Inl e \<Rightarrow> (Inl (IoError e), W1)
           | Inr _ \<Rightarrow>
               if fw_exists lock W1 then
                 (if is_ok (io E (Io_Metadata lock)) \<and> stale (le_lock_age_again E) then
                    (let (r, W2) = fs_remove E lock W1 in
                     if fw_exists lock W2 then (Inl (IoError ''file exists''), W2)
                     else (Inr (), W2\<lparr>fw_files := hm_insert lock [] (fw_files W2)\<rparr>))
                  else (Inr (), W1))
               else
                 unlock E (rotate_locked E
                   (W1\<lparr>fw_files := hm_insert lock (as_bytes (le_pid E @ [CHR 0x0A])) (fw_files W1)\<rparr>))))"

definition write_formatted :: "log_env \<Rightarrow> bytes \<Rightarrow> FileWriter \<Rightarrow> (LogError, unit) result \<times> FileWriter" where
  "write_formatted E formatted W =
     (case io E Io_Write of
        Inl e \<Rightarrow> (Inl (WriteError e), W)
      | Inr _ \<Rightarrow>
          (Inr (), snd (fw_flush E (W\<lparr>fw_pending := fw_pending W @ formatted,
                                      fw_current_size := fw_current_size W + length formatted\<rparr>))))"

definition write_record :: "log_env \<Rightarrow> bytes \<Rightarrow> FileWriter \<Rightarrow> (LogError, unit) result \<times> FileWriter" where
  "write_record E formatted W =
     (if \<not> le_in_time E then (Inl WriteTimeout, W)
      else if fw_max_size W < length formatted + fw_current_size W then
        (case rotate_files E W of
           (Inl e, W1) \<Rightarrow> (Inl e, W1)
         | (Inr _, W1) \<Rightarrow>
             if \<not> le_again_in_time E then (Inl WriteTimeout, W1) else write_formatted E formatted W1)
      else write_formatted E formatted W)"

section \<open>The logger\<close>

text \<open>The console is the text written to it; an error of the file keeps the record from the
  console.\<close>

record UnifiedLogger =
  ul_file :: "FileWriter option"
  ul_console :: "LevelFilter option"
  ul_config :: LogConfig
  ul_output :: string

definition unified_logger_new ::
  "log_env \<Rightarrow> LogConfig \<Rightarrow> (string, bytes) hmap \<Rightarrow> (LogError, UnifiedLogger) result" where
  "unified_logger_new E config files =
     (let finish = (\<lambda>file_writer. Inr
            \<lparr>ul_file = file_writer,
             ul_console = (if lc_console_output config then Some (lc_console_level config) else None),
             ul_config = config, ul_output = []\<rparr>) in
      if lc_file_path config \<noteq> [] then
        (case file_writer_new E (lc_file_path config) (lc_max_file_size config) (lc_max_files config) files of
           Inl e \<Rightarrow> Inl e
         | Inr W \<Rightarrow> finish (Some W))
      else finish None)"

definition console_write :: "LevelFilter \<Rightarrow> Level \<Rightarrow> string \<Rightarrow> string" where
  "console_write console level formatted = (if Upto level \<le> console then formatted else [])"

definition try_log_with_context ::
  "log_env \<Rightarrow> regexes \<Rightarrow> string \<Rightarrow> log_record \<Rightarrow> string \<times> string \<Rightarrow> UnifiedLogger
   \<Rightarrow> (LogError, unit) result \<times> UnifiedLogger" where
  "try_log_with_context E R timestamp r context U =
     (let formatted = format_record R timestamp r context (ul_config U);
          (written, U1) = (case ul_file U of
             Some W \<Rightarrow> (let (res, W1) = write_record E (as_bytes formatted) W in (res, U\<lparr>ul_file := Some W1\<rparr>))
           | None \<Rightarrow> (Inr (), U))
      in case written of
           Inl e \<Rightarrow> (Inl e, U1)
         | Inr _ \<Rightarrow>
             (Inr (), (case ul_console U1 of
                Some console \<Rightarrow>
                  if Upto (r_level r) \<le> lc_console_level (ul_config U1)
                  then U1\<lparr>ul_output := ul_output U1 @ console_write console (r_level r) formatted\<rparr> else U1
              | None \<Rightarrow> U1)))"

definition log_enabled :: "LogConfig \<Rightarrow> Level \<Rightarrow> bool" where
  "log_enabled config level = (Upto level \<le> lc_level config)"

definition logger_log ::
  "log_env \<Rightarrow> regexes \<Rightarrow> string \<Rightarrow> log_record \<Rightarrow> (string \<times> string) option \<Rightarrow> UnifiedLogger \<Rightarrow> UnifiedLogger" where
  "logger_log E R timestamp r context U =
     (if log_enabled (ul_config U) (r_level r) then
        snd (try_log_with_context E R timestamp r
               (case context of Some c \<Rightarrow> c | None \<Rightarrow> (''unknown'', ''unknown'')) U)
      else U)"

text \<open>The process: the logger given to the \<open>log\<close> crate, which takes one only, its maximal level, and
  the context of the thread.  A logger that is refused has already created its file.\<close>

record log_process =
  lp_logger :: "UnifiedLogger option"
  lp_initialized :: bool
  lp_max_level :: LevelFilter
  lp_context :: "(string \<times> string) option"

definition init_logging ::
  "log_env \<Rightarrow> LogConfig \<Rightarrow> (string, bytes) hmap \<Rightarrow> log_process \<Rightarrow> (LogError, unit) result \<times> log_process" where
  "init_logging E config files P =
     (if lp_initialized P then (Inr (), P)
      else
        (case unified_logger_new E config files of
           Inl e \<Rightarrow> (Inl e, P)
         | Inr logger \<Rightarrow>
             (case lp_logger P of
                Some _ \<Rightarrow> (Inl InitializationFailed, P)
              | None \<Rightarrow> (Inr (), P\<lparr>lp_logger := Some logger, lp_max_level := lc_level config, lp_initialized := True\<rparr>))))"

definition init_logging_for_profile ::
  "log_env \<Rightarrow> bool \<Rightarrow> LoggingProfile \<Rightarrow> (string, bytes) hmap \<Rightarrow> log_process \<Rightarrow> (LogError, unit) result \<times> log_process" where
  "init_logging_for_profile E debug profile files P = init_logging E (for_profile debug profile) files P"

definition with_log_context :: "string \<times> string \<Rightarrow> (log_process \<Rightarrow> 'a \<times> log_process) \<Rightarrow> log_process \<Rightarrow> 'a \<times> log_process" where
  "with_log_context context f P =
     (let (r, P1) = f (P\<lparr>lp_context := Some context\<rparr>) in (r, P1\<lparr>lp_context := None\<rparr>))"

text \<open>The macros of the \<open>log\<close> crate look at the maximal level before they ask the logger.\<close>

definition log_macro :: "log_env \<Rightarrow> regexes \<Rightarrow> string \<Rightarrow> log_record \<Rightarrow> log_process \<Rightarrow> log_process" where
  "log_macro E R timestamp r P =
     (if Upto (r_level r) \<le> lp_max_level P
      then P\<lparr>lp_logger := map_option (logger_log E R timestamp r (lp_context P)) (lp_logger P)\<rparr>
      else P)"

end
