(* ===== verification/LogFacts.thy ===== *)
theory LogFacts
  imports Logging ExportFacts
begin

text \<open>
  Facts about the logger: the names of a log and its backups differ, the rotation moves every
  backup by one number and loses at most the last, and a sequence of records refines a single
  text of which only an old part is lost.
\<close>

section \<open>Names\<close>

lemma extension_split_path:
  "extension_split w p = (s, None) \<Longrightarrow> s = p"
  "extension_split w p = (s, Some e) \<Longrightarrow> p = s @ CHR ''.'' # e \<and> CHR ''.'' \<notin> set e"
  by (auto simp: extension_split_def dest: rsplit_dot_Some split: option.splits prod.splits if_splits)

lemma show_nat_inj: "show_nat a = show_nat b \<Longrightarrow> a = b"
  using parse_show_nat by (metis option.inject)

definition path_parts_of :: "bool \<Rightarrow> string \<Rightarrow> string \<times> string" where
  "path_parts_of w p = (fst (extension_split w p), case snd (extension_split w p) of Some e \<Rightarrow> e | None \<Rightarrow> [])"

lemma names:
  assumes "path_parts_of w p = (s, e)"
  shows "backup_path w p i = s @ CHR ''.'' # e @ CHR ''.'' # show_nat i"
    "lock_path w p = s @ CHR ''.'' # ''rotating.lock''"
    "p = s \<or> (p = s @ CHR ''.'' # e \<and> CHR ''.'' \<notin> set e)"
proof -
  have s: "fst (extension_split w p) = s" and e: "(case snd (extension_split w p) of Some e \<Rightarrow> e | None \<Rightarrow> []) = e"
    using assms by (simp_all add: path_parts_of_def)
  show "backup_path w p i = s @ CHR ''.'' # e @ CHR ''.'' # show_nat i"
    unfolding backup_path_def Let_def e with_extension_def s by simp
  show "lock_path w p = s @ CHR ''.'' # ''rotating.lock''"
    unfolding lock_path_def with_extension_def Let_def s by simp
  show "p = s \<or> (p = s @ CHR ''.'' # e \<and> CHR ''.'' \<notin> set e)"
    using s e extension_split_path [of w p] by (cases "extension_split w p"; cases "snd (extension_split w p)") auto
qed

lemma backup_inj: "backup_path w p i = backup_path w p j \<longleftrightarrow> i = j"
proof -
  obtain s e where se: "path_parts_of w p = (s, e)" by force
  show ?thesis unfolding names(1) [OF se] using show_nat_inj by auto
qed

lemma backup_not_path: "backup_path w p i \<noteq> p"
proof -
  obtain s e where se: "path_parts_of w p = (s, e)" by force
  have "length p < length (backup_path w p i)" using names(3) [OF se] unfolding names(1) [OF se] by auto
  then show ?thesis by (metis less_irrefl)
qed

lemma backup_not_lock: "backup_path w p i \<noteq> lock_path w p"
proof -
  obtain s e where se: "path_parts_of w p = (s, e)" by force
  have d: "show_nat i \<noteq> []" "last (show_nat i) \<noteq> CHR ''k''"
  proof -
    show ne: "show_nat i \<noteq> []" by (rule show_nat_not_Nil)
    show "last (show_nat i) \<noteq> CHR ''k''"
      using show_nat_digits [of "last (show_nat i)" i] ne by (auto simp: is_ascii_digit_def)
  qed
  have "last (backup_path w p i) = last (show_nat i)" unfolding names(1) [OF se] using d(1) by simp
  moreover have "last (lock_path w p) = CHR ''k''" unfolding names(2) [OF se] by simp
  ultimately show ?thesis using d(2) by metis
qed

lemma path_not_lock: "p \<noteq> lock_path w p"
proof -
  obtain s e where se: "path_parts_of w p = (s, e)" by force
  have "CHR ''.'' \<in> set ''rotating.lock''" by simp
  then show ?thesis using names(3) [OF se] unfolding names(2) [OF se] by auto
qed

section \<open>One rotation\<close>

text \<open>Nothing fails and no time runs out.\<close>

definition calm :: "log_env \<Rightarrow> bool" where
  "calm E \<longleftrightarrow> le_fail E = (\<lambda>_. None) \<and> le_in_time E \<and> le_again_in_time E"

lemma calm_io [simp]: "calm E \<Longrightarrow> io E op = Inr ()"
  by (simp add: calm_def io_def)

text \<open>The disk as a function.\<close>

abbreviation at :: "FileWriter \<Rightarrow> string \<Rightarrow> bytes option" where
  "at W q \<equiv> hm_get (fw_files W) q"

lemma content_at: "content W q = (case at W q of Some c \<Rightarrow> c | None \<Rightarrow> [])"
  by (simp add: content_def)

lemma exists_at: "fw_exists q W \<longleftrightarrow> at W q \<noteq> None"
  by (simp add: fw_exists_def hm_has_def)

lemma move_file_calm:
  assumes "calm E" "fw_handle W \<noteq> Some new" "old \<noteq> new"
  shows "\<exists>fs. move_file E what old new W =
      (Inr (), W\<lparr>fw_files := fs, fw_handle := (if fw_handle W = Some old then Some new else fw_handle W)\<rparr>) \<and>
    (\<forall>q. hm_get fs q = (if q = new then Some (content W old) else if q = old then None else at W q))"
  using assms
  by (cases "fw_exists new W") (auto simp: move_file_def fs_remove_def fs_rename_def content_def)

lemma shift_backups_calm:
  assumes "calm E" "\<And>i. fw_handle W \<noteq> Some (backup_path (le_windows E) (fw_path W) i)"
  shows "\<exists>fs. shift_backups E n W = (Inr (), W\<lparr>fw_files := fs\<rparr>) \<and>
    (\<forall>q. (\<forall>i. 1 \<le> i \<and> i \<le> n + 1 \<longrightarrow> q \<noteq> backup_path (le_windows E) (fw_path W) i) \<longrightarrow> hm_get fs q = at W q) \<and>
    (\<forall>i. 1 \<le> i \<and> i < n \<longrightarrow>
       hm_get fs (backup_path (le_windows E) (fw_path W) (i + 1)) = at W (backup_path (le_windows E) (fw_path W) i)) \<and>
    (0 < n \<longrightarrow> hm_get fs (backup_path (le_windows E) (fw_path W) 1) = None \<and>
       hm_get fs (backup_path (le_windows E) (fw_path W) (n + 1)) =
         (case at W (backup_path (le_windows E) (fw_path W) n) of
            Some c \<Rightarrow> Some c | None \<Rightarrow> at W (backup_path (le_windows E) (fw_path W) (n + 1))))"
  using assms
proof (induction n arbitrary: W)
  case 0
  have "shift_backups E 0 W = (Inr (), W\<lparr>fw_files := fw_files W\<rparr>)" by simp
  then show ?case by blast
next
  case (Suc n)
  let ?b = "backup_path (le_windows E) (fw_path W)"
  obtain fs1 where m: "(if fw_exists (?b (Suc n)) W then move_file E [] (?b (Suc n)) (?b (Suc n + 1)) W else (Inr (), W)) =
      (Inr (), W\<lparr>fw_files := fs1\<rparr>)"
    and q1: "hm_get fs1 q = (if fw_exists (?b (Suc n)) W then
        (if q = ?b (Suc n + 1) then at W (?b (Suc n)) else if q = ?b (Suc n) then None else at W q) else at W q)" for q
  proof (cases "fw_exists (?b (Suc n)) W")
    case True
    have "fw_handle W \<noteq> Some (?b (Suc n + 1))" "?b (Suc n) \<noteq> ?b (Suc n + 1)" using Suc.prems(2) by (simp_all add: backup_inj)
    from move_file_calm [OF Suc.prems(1) this, of "[]"] True Suc.prems(2) show thesis
      using that by (auto simp: content_at exists_at)
  next
    case False
    then show thesis using that [of "fw_files W"] by simp
  qed
  let ?W = "W\<lparr>fw_files := fs1\<rparr>"
  have h: "\<And>i. fw_handle ?W \<noteq> Some (backup_path (le_windows E) (fw_path ?W) i)" using Suc.prems(2) by simp
  have path: "fw_path ?W = fw_path W" "fw_files ?W = fs1" by simp_all
  obtain fs where r: "shift_backups E n ?W = (Inr (), ?W\<lparr>fw_files := fs\<rparr>)"
    and o': "\<forall>q. (\<forall>i. 1 \<le> i \<and> i \<le> n + 1 \<longrightarrow> q \<noteq> ?b i) \<longrightarrow> hm_get fs q = hm_get fs1 q"
    and s: "\<forall>i. 1 \<le> i \<and> i < n \<longrightarrow> hm_get fs (?b (i + 1)) = hm_get fs1 (?b i)"
    and t: "0 < n \<longrightarrow> hm_get fs (?b 1) = None \<and> hm_get fs (?b (n + 1)) =
         (case hm_get fs1 (?b n) of Some c \<Rightarrow> Some c | None \<Rightarrow> hm_get fs1 (?b (n + 1)))"
    using Suc.IH [OF Suc.prems(1) h] unfolding path by (elim exE conjE) (rule that)
  note o = o' [rule_format]
  have free: "hm_get fs1 (?b (n + 1)) = None" using q1 [of "?b (n + 1)"] by (simp add: exists_at backup_inj)
  have low: "hm_get fs1 (?b i) = at W (?b i)" if "i \<le> n" for i using q1 [of "?b i"] that by (simp add: backup_inj)
  have top: "hm_get fs (?b (n + 2)) = hm_get fs1 (?b (n + 2))" by (rule o) (auto simp: backup_inj)
  have new: "hm_get fs1 (?b (n + 2)) = (case at W (?b (n + 1)) of Some c \<Rightarrow> Some c | None \<Rightarrow> at W (?b (n + 2)))"
    using q1 [of "?b (n + 2)"] by (auto simp: exists_at split: option.split)
  have run: "shift_backups E (Suc n) W = (Inr (), W\<lparr>fw_files := fs\<rparr>)" using m r by (simp add: Let_def)
  have other: "hm_get fs q = at W q" if "\<And>i. 1 \<le> i \<Longrightarrow> i \<le> Suc n + 1 \<Longrightarrow> q \<noteq> ?b i" for q
  proof -
    have "hm_get fs q = hm_get fs1 q" by (rule o) (use that in auto)
    then show ?thesis using q1 [of q] that [of "Suc n"] that [of "Suc n + 1"] by simp
  qed
  have moved: "hm_get fs (?b (i + 1)) = at W (?b i)" if "1 \<le> i" "i < Suc n" for i
  proof (cases "i < n")
    case True
    then show ?thesis using s low [of i] that by simp
  next
    case False
    then have i: "i = n" "0 < n" using that by auto
    then show ?thesis using t free low [of n] by (simp split: option.splits)
  qed
  have first: "hm_get fs (?b 1) = None"
  proof (cases "n = 0")
    case True
    have "snd (shift_backups E n ?W) = ?W" using True by simp
    then have "?W = ?W\<lparr>fw_files := fs\<rparr>" using r by simp
    then have "fw_files ?W = fw_files (?W\<lparr>fw_files := fs\<rparr>)" by (rule arg_cong)
    then have "fs = fs1" by simp
    then show ?thesis using free True by simp
  qed (use t in simp)
  have last: "hm_get fs (?b (Suc n + 1)) = (case at W (?b (Suc n)) of Some c \<Rightarrow> Some c | None \<Rightarrow> at W (?b (Suc n + 1)))"
    using top new unfolding add_2_eq_Suc' Suc_eq_plus1 [symmetric] by simp
  show ?case
    by (rule exI [of _ fs], intro conjI allI impI) (use run other moved first last in auto)
qed

text \<open>The text of a log: its backups from the oldest, then the current file.\<close>

definition log_text :: "bool \<Rightarrow> FileWriter \<Rightarrow> bytes" where
  "log_text w W = concat (map (\<lambda>i. content W (backup_path w (fw_path W) i)) (rev [1..<fw_max_files W + 2])) @
     content W (fw_path W)"

text \<open>What holds between two records, none longer than \<open>M\<close>.\<close>

definition writer_ok :: "bool \<Rightarrow> nat \<Rightarrow> FileWriter \<Rightarrow> bool" where
  "writer_ok w M W \<longleftrightarrow>
     fw_handle W = Some (fw_path W) \<and> fw_pending W = [] \<and> at W (fw_path W) \<noteq> None \<and>
     fw_current_size W = length (content W (fw_path W)) \<and> fw_current_size W \<le> fw_max_size W + M \<and>
     at W (lock_path w (fw_path W)) = None \<and>
     (\<forall>i \<in> {1..fw_max_files W + 1}. case at W (backup_path w (fw_path W) i) of
        Some c \<Rightarrow> fw_max_size W < length c \<and> length c \<le> fw_max_size W + M | None \<Rightarrow> True) \<and>
     (\<forall>i \<in> {1..fw_max_files W}. at W (backup_path w (fw_path W) (i + 1)) \<noteq> None \<longrightarrow>
        at W (backup_path w (fw_path W) i) \<noteq> None)"

lemma writer_okD:
  assumes "writer_ok w M W"
  shows "fw_handle W = Some (fw_path W)" "fw_pending W = []" "at W (fw_path W) = Some (content W (fw_path W))"
    "fw_current_size W = length (content W (fw_path W))" "fw_current_size W \<le> fw_max_size W + M"
    "at W (lock_path w (fw_path W)) = None"
    "\<And>i c. 1 \<le> i \<Longrightarrow> i \<le> fw_max_files W + 1 \<Longrightarrow> at W (backup_path w (fw_path W) i) = Some c \<Longrightarrow>
       fw_max_size W < length c \<and> length c \<le> fw_max_size W + M"
    "\<And>i. 1 \<le> i \<Longrightarrow> i \<le> fw_max_files W \<Longrightarrow> at W (backup_path w (fw_path W) (i + 1)) \<noteq> None \<Longrightarrow>
       at W (backup_path w (fw_path W) i) \<noteq> None"
  using assms by (auto simp: writer_ok_def content_at split: option.splits)

lemmas name_facts = backup_inj backup_not_path backup_not_path [symmetric] backup_not_lock backup_not_lock [symmetric]
  path_not_lock path_not_lock [symmetric]

lemma flush_calm:
  assumes "calm E" "fw_handle W = Some p"
  shows "fw_flush E W = (Inr (), W\<lparr>fw_pending := [], fw_files := hm_insert p (content W p @ fw_pending W) (fw_files W)\<rparr>)"
  using assms by (simp add: fw_flush_def)

text \<open>The part of \<open>rotate_files\<close> under the lock, for a file past its limit.\<close>

lemma rotate_locked_full:
  assumes c: "calm E" and h: "fw_handle W = Some (fw_path W)" and pe: "fw_pending W = []"
    and p: "at W (fw_path W) = Some t" and big: "fw_max_size W < length t"
  shows "\<exists>fs. rotate_locked E W = (Inr (), W\<lparr>fw_files := fs, fw_current_size := 0\<rparr>) \<and>
    hm_get fs (fw_path W) = Some [] \<and> hm_get fs (backup_path (le_windows E) (fw_path W) 1) = Some t \<and>
    hm_get fs (lock_path (le_windows E) (fw_path W)) = at W (lock_path (le_windows E) (fw_path W)) \<and>
    (\<forall>i. 1 \<le> i \<and> i \<le> fw_max_files W \<longrightarrow> hm_get fs (backup_path (le_windows E) (fw_path W) (i + 1)) =
       (if i = fw_max_files W \<and> at W (backup_path (le_windows E) (fw_path W) i) = None
        then at W (backup_path (le_windows E) (fw_path W) (i + 1)) else at W (backup_path (le_windows E) (fw_path W) i)))"
proof -
  let ?p = "fw_path W" and ?n = "fw_max_files W" and ?l = "lock_path (le_windows E) (fw_path W)"
  let ?b = "backup_path (le_windows E) (fw_path W)"
  define W1 where "W1 = W\<lparr>fw_pending := [], fw_files := hm_insert ?p t (fw_files W)\<rparr>"
  have W1: "fw_handle W1 = Some ?p" "fw_path W1 = ?p" "fw_max_files W1 = ?n" "at W1 q = at W q" "content W1 ?p = t" for q
    using p h by (simp_all add: W1_def content_at)
  have fl: "fw_flush E W = (Inr (), W1)" using flush_calm [OF c h] pe p by (simp add: W1_def content_at)
  have nb: "\<And>i. fw_handle W1 \<noteq> Some (backup_path (le_windows E) (fw_path W1) i)"
    using W1(1,2) by (simp add: name_facts)
  obtain fs1 where r1: "shift_backups E ?n W1 = (Inr (), W1\<lparr>fw_files := fs1\<rparr>)"
    and o': "\<forall>q. (\<forall>i. 1 \<le> i \<and> i \<le> ?n + 1 \<longrightarrow> q \<noteq> ?b i) \<longrightarrow> hm_get fs1 q = at W q"
    and s: "\<forall>i. 1 \<le> i \<and> i < ?n \<longrightarrow> hm_get fs1 (?b (i + 1)) = at W (?b i)"
    and t: "0 < ?n \<longrightarrow> hm_get fs1 (?b 1) = None \<and> hm_get fs1 (?b (?n + 1)) =
         (case at W (?b ?n) of Some c \<Rightarrow> Some c | None \<Rightarrow> at W (?b (?n + 1)))"
    using shift_backups_calm [OF c nb, of ?n] unfolding W1(2,4) by (elim exE conjE) (rule that)
  define W2 where "W2 = W1\<lparr>fw_files := fs1\<rparr>"
  have p2: "at W2 ?p = Some t" "content W2 ?p = t" using o' p by (simp_all add: W2_def content_at name_facts)
  have h2: "fw_handle W2 = Some ?p" using W1(1) by (simp add: W2_def)
  have h2': "fw_handle W2 \<noteq> Some (?b 1)" and ne: "?p \<noteq> ?b 1" using h2 by (simp_all add: name_facts)
  obtain fs2 where r2: "move_file E ''existing backup '' ?p (?b 1) W2 =
      (Inr (), W2\<lparr>fw_files := fs2, fw_handle := Some (?b 1)\<rparr>)"
    and g: "\<forall>q. hm_get fs2 q = (if q = ?b 1 then Some t else if q = ?p then None else at W2 q)"
    using move_file_calm [OF c h2' ne, of "''existing backup ''"] unfolding h2 p2 if_P [OF refl]
    by (elim exE conjE) (rule that)
  let ?fs = "hm_insert ?p [] fs2"
  have "rotate_locked E W = (Inr (), W\<lparr>fw_files := ?fs, fw_current_size := 0\<rparr>)"
  proof -
    have "fw_exists ?p W1" "fw_max_size W1 = fw_max_size W" using p by (simp_all add: exists_at W1(4)) (simp add: W1_def)
    moreover have "\<not> hm_has fs2 ?p" using g ne by (simp add: hm_has_def)
    ultimately show ?thesis
      using big pe h unfolding rotate_locked_def Let_def fl
      by (simp add: c W1(5) W1(3) r1) (simp add: c W1_def fs_open_def fw_exists_def
          r2 [unfolded W2_def W1_def, simplified])
  qed
  moreover have "hm_get ?fs ?l = at W ?l" using g o' by (simp add: W2_def name_facts)
  moreover have "hm_get ?fs (?b (i + 1)) = (if i = ?n \<and> at W (?b i) = None then at W (?b (i + 1)) else at W (?b i))"
    if "1 \<le> i" "i \<le> ?n" for i
  proof -
    have "hm_get ?fs (?b (i + 1)) = hm_get fs1 (?b (i + 1))" using g that by (simp add: W2_def name_facts)
    then show ?thesis using s t that by (cases "i = ?n") (auto split: option.splits)
  qed
  ultimately show ?thesis using g ne by (intro exI [of _ ?fs]) (simp add: name_facts)
qed

lemma rotate_locked_small:
  assumes c: "calm E" and h: "fw_handle W = Some (fw_path W)" and pe: "fw_pending W = []"
    and p: "at W (fw_path W) = Some t" and small: "length t \<le> fw_max_size W"
  shows "rotate_locked E W = (Inr (), W\<lparr>fw_files := hm_insert (fw_path W) t (fw_files W)\<rparr>)"
  using small pe p unfolding rotate_locked_def Let_def flush_calm [OF c h]
  by (simp add: c content_at exists_at)

text \<open>A rotation as seen on the names of the log.\<close>

lemma rotate_calm:
  assumes c: "calm E" and ok: "writer_ok (le_windows E) M W"
  shows "\<exists>fs n. rotate_files E W = (Inr (), W\<lparr>fw_files := fs, fw_current_size := n\<rparr>) \<and>
    hm_get fs (lock_path (le_windows E) (fw_path W)) = None \<and>
    (if fw_current_size W \<le> fw_max_size W
     then n = fw_current_size W \<and> (\<forall>q. q \<noteq> lock_path (le_windows E) (fw_path W) \<longrightarrow> hm_get fs q = at W q)
     else n = 0 \<and> hm_get fs (fw_path W) = Some [] \<and>
       hm_get fs (backup_path (le_windows E) (fw_path W) 1) = at W (fw_path W) \<and>
       (\<forall>i. 1 \<le> i \<and> i \<le> fw_max_files W \<longrightarrow>
          hm_get fs (backup_path (le_windows E) (fw_path W) (i + 1)) = at W (backup_path (le_windows E) (fw_path W) i)))"
proof -
  let ?p = "fw_path W" and ?l = "lock_path (le_windows E) (fw_path W)" and ?t = "content W (fw_path W)"
  let ?b = "backup_path (le_windows E) (fw_path W)"
  define W1 where "W1 = W\<lparr>fw_files := hm_insert ?l (as_bytes (le_pid E @ [CHR 0x0A])) (fw_files W)\<rparr>"
  note D = writer_okD [OF ok]
  have nl: "\<not> fw_exists ?l W" using D(6) by (simp add: exists_at)
  have run: "rotate_files E W = unlock E (rotate_locked E W1)"
    unfolding rotate_files_def cleanup_stale_lock_files_def Let_def using nl by (simp add: c W1_def)
  have W1: "fw_handle W1 = Some (fw_path W1)" "fw_pending W1 = []" "at W1 (fw_path W1) = Some ?t" "fw_path W1 = ?p"
    "fw_max_files W1 = fw_max_files W" "fw_max_size W1 = fw_max_size W" "at W1 (?b i) = at W (?b i)" for i
    using D(1,2,3) by (simp_all add: W1_def name_facts)
  show ?thesis
  proof (cases "length ?t \<le> fw_max_size W")
    case True
    have "rotate_locked E W1 = (Inr (), W1\<lparr>fw_files := hm_insert ?p ?t (fw_files W1)\<rparr>)"
      using rotate_locked_small [OF c W1(1-3)] True W1(4,6) by simp
    then have "rotate_files E W = (Inr (), W\<lparr>fw_files := hm_remove ?l (hm_insert ?p ?t (fw_files W1)),
        fw_current_size := fw_current_size W\<rparr>)"
      unfolding run using D(1) by (simp add: unlock_def fs_remove_def c W1_def name_facts)
    then show ?thesis using True D(3,4)
      by (intro exI conjI) (assumption, auto simp: W1_def)
  next
    case False
    then have big: "fw_max_size W1 < length ?t" using W1(6) by simp
    obtain fs where r: "rotate_locked E W1 = (Inr (), W1\<lparr>fw_files := fs, fw_current_size := 0\<rparr>)"
      and f: "hm_get fs ?p = Some []" "hm_get fs (?b 1) = Some ?t"
      and s: "\<forall>i. 1 \<le> i \<and> i \<le> fw_max_files W \<longrightarrow> hm_get fs (?b (i + 1)) =
       (if i = fw_max_files W \<and> at W (?b i) = None then at W (?b (i + 1)) else at W (?b i))"
      using rotate_locked_full [OF c W1(1-3) big] unfolding W1(4,5,7) by (elim exE conjE) (rule that)
    have m: "hm_get fs (?b (i + 1)) = at W (?b i)" if "1 \<le> i" "i \<le> fw_max_files W" for i
      using s D(8) [of i] that by (cases "at W (?b (i + 1))") auto
    have "rotate_files E W = (Inr (), W\<lparr>fw_files := hm_remove ?l fs, fw_current_size := 0\<rparr>)"
      unfolding run r using D(1) by (simp add: unlock_def fs_remove_def c W1_def name_facts)
    then show ?thesis using False D(3,4) f m
      by (intro exI conjI) (assumption, auto simp: name_facts)
  qed
qed

lemma concat_long:
  "(\<And>x. x \<in> set xs \<Longrightarrow> k \<le> length (f x)) \<Longrightarrow> length xs * k \<le> length (concat (map f xs))"
  by (induction xs) (auto intro: add_mono)

lemma concat_short:
  "(\<And>x. x \<in> set xs \<Longrightarrow> length (f x) \<le> k) \<Longrightarrow> length (concat (map f xs)) \<le> length xs * k"
  by (induction xs) (auto intro: add_mono)

lemma log_text_split:
  "log_text w W = content W (backup_path w (fw_path W) (fw_max_files W + 1)) @
     concat (map (\<lambda>i. content W (backup_path w (fw_path W) i)) (rev [1..<fw_max_files W + 1])) @ content W (fw_path W)"
  by (simp add: log_text_def)

lemma log_text_first:
  "log_text w W = concat (map (\<lambda>i. content W (backup_path w (fw_path W) (i + 1))) (rev [1..<fw_max_files W + 1])) @
     content W (backup_path w (fw_path W) 1) @ content W (fw_path W)"
proof -
  have "[1..<fw_max_files W + 2] = 1 # map Suc [1..<fw_max_files W + 1]"
    by (simp add: map_Suc_upt upt_conv_Cons del: upt_Suc)
  then show ?thesis unfolding log_text_def by (simp add: rev_map comp_def)
qed

lemma log_text_short:
  assumes "writer_ok w M W"
  shows "length (log_text w W) \<le> (fw_max_files W + 2) * (fw_max_size W + M)"
proof -
  note D = writer_okD [OF assms]
  have "length (concat (map (\<lambda>i. content W (backup_path w (fw_path W) i)) (rev [1..<fw_max_files W + 2]))) \<le>
      length (rev [1..<fw_max_files W + 2]) * (fw_max_size W + M)"
    by (rule concat_short) (use D(7) in \<open>fastforce simp: content_at split: option.splits\<close>)
  then show ?thesis using D(4,5) unfolding log_text_def by (simp del: upt_Suc)
qed

lemma write_calm:
  assumes "calm E" "writer_ok w M W"
  shows "\<exists>fs. write_formatted E r W =
      (Inr (), W\<lparr>fw_files := fs, fw_current_size := fw_current_size W + length r\<rparr>) \<and>
    (\<forall>q. hm_get fs q = (if q = fw_path W then Some (content W q @ r) else at W q))"
proof -
  note D = writer_okD [OF assms(2)]
  have "write_formatted E r W = (Inr (), W\<lparr>fw_files := hm_insert (fw_path W) (content W (fw_path W) @ r) (fw_files W),
      fw_current_size := fw_current_size W + length r\<rparr>)"
    using assms(1) D(1,2) by (simp add: write_formatted_def fw_flush_def content_def)
  then show ?thesis by (intro exI conjI) (assumption, simp)
qed

text \<open>A writer whose file became the first backup.\<close>

lemma backups_below:
  assumes "writer_ok w M W" "at W (backup_path w (fw_path W) (fw_max_files W + 1)) \<noteq> None"
    "1 \<le> i" "i \<le> fw_max_files W + 1"
  shows "at W (backup_path w (fw_path W) i) \<noteq> None"
  using assms(4,2,3)
proof (induction rule: inc_induct)
  case (step k)
  then show ?case using writer_okD(8) [OF assms(1), of k] by simp
qed simp

lemma rotated:
  fixes W W1 :: FileWriter and w :: bool
  defines "b \<equiv> backup_path w (fw_path W)"
  assumes ok: "writer_ok w M W" and big: "fw_max_size W < fw_current_size W"
    and S: "fw_path W1 = fw_path W" "fw_max_files W1 = fw_max_files W" "fw_max_size W1 = fw_max_size W"
      "fw_handle W1 = Some (fw_path W)" "fw_pending W1 = []" "fw_current_size W1 = 0"
    and l: "at W1 (lock_path w (fw_path W)) = None" and e: "at W1 (fw_path W) = Some []" "at W1 (b 1) = at W (fw_path W)"
    and m: "\<And>i. 1 \<le> i \<Longrightarrow> i \<le> fw_max_files W \<Longrightarrow> at W1 (b (i + 1)) = at W (b i)"
  shows "writer_ok w M W1" "log_text w W = content W (b (fw_max_files W + 1)) @ log_text w W1"
    "content W (b (fw_max_files W + 1)) \<noteq> [] \<Longrightarrow> (fw_max_files W + 1) * (fw_max_size W + 1) \<le> length (log_text w W1)"
proof -
  let ?n = "fw_max_files W"
  note D = writer_okD [OF ok, folded b_def]
  have sizes: "fw_max_size W < length c \<and> length c \<le> fw_max_size W + M" if "1 \<le> i" "i \<le> ?n + 1" "at W1 (b i) = Some c" for i c
  proof (cases "i = 1")
    case True
    then show ?thesis using that e(2) D(3,4,5) big by simp
  next
    case False
    then show ?thesis using m [of "i - 1"] D(7) [of "i - 1" c] that by simp
  qed
  have closed: "at W1 (b i) \<noteq> None" if "1 \<le> i" "i \<le> ?n" "at W1 (b (i + 1)) \<noteq> None" for i
  proof (cases "i = 1")
    case True
    then show ?thesis using e(2) D(3) by simp
  next
    case False
    then show ?thesis using m [of "i - 1"] m [of i] D(8) [of "i - 1"] that by simp
  qed
  show ok1: "writer_ok w M W1"
    unfolding writer_ok_def S b_def [symmetric] using l e(1) sizes closed
    by (auto simp: content_at split: option.split)
  have eq: "map (\<lambda>i. content W1 (b (i + 1))) (rev [1..<?n + 1]) = map (\<lambda>i. content W (b i)) (rev [1..<?n + 1])"
    using m by (simp add: content_at del: upt_Suc)
  show "log_text w W = content W (b (?n + 1)) @ log_text w W1"
    unfolding log_text_split [of w W] log_text_first [of w W1] S b_def [symmetric] eq using e by (simp add: content_at del: upt_Suc)
  assume "content W (b (?n + 1)) \<noteq> []"
  then have "at W (b (?n + 1)) \<noteq> None" by (auto simp: content_at split: option.splits)
  then have all: "at W (b i) \<noteq> None" if "1 \<le> i" "i \<le> ?n + 1" for i
    using backups_below [OF ok, folded b_def] that by blast
  have "fw_max_size W + 1 \<le> length (content W1 (b i))" if "1 \<le> i" "i \<le> ?n + 1" for i
  proof -
    have "at W1 (b i) \<noteq> None"
      using m [of "i - 1"] all [of "i - 1"] e(2) D(3) that by (cases "i = 1") simp_all
    then show ?thesis using sizes [OF that] by (auto simp: content_at)
  qed
  then have "length (rev [1..<?n + 2]) * (fw_max_size W + 1) \<le>
      length (concat (map (\<lambda>i. content W1 (b i)) (rev [1..<?n + 2])))"
    by (intro concat_long) auto
  then show "(?n + 1) * (fw_max_size W + 1) \<le> length (log_text w W1)"
    unfolding log_text_def S b_def [symmetric] by (simp del: upt_Suc)
qed

text \<open>The rotation before a record, where its size calls for one.\<close>

lemma rotate_step:
  assumes c: "calm E" and ok: "writer_ok w M W" and w: "le_windows E = w" and len: "length r \<le> M"
  shows "\<exists>W1 dropped. (if fw_max_size W < length r + fw_current_size W then rotate_files E W else (Inr (), W)) = (Inr (), W1) \<and>
    writer_ok w M W1 \<and> fw_current_size W1 + length r \<le> fw_max_size W + M \<and> fw_path W1 = fw_path W \<and>
    fw_max_files W1 = fw_max_files W \<and> fw_max_size W1 = fw_max_size W \<and> log_text w W = dropped @ log_text w W1 \<and>
    (dropped \<noteq> [] \<longrightarrow> (fw_max_files W + 1) * (fw_max_size W + 1) \<le> length (log_text w W1))"
proof (cases "fw_max_size W < length r + fw_current_size W")
  case False
  then show ?thesis using ok by (intro exI [of _ W] exI [of _ "[]"]) auto
next
  case over: True
  let ?b = "backup_path w (fw_path W)" and ?l = "lock_path w (fw_path W)"
  note D = writer_okD [OF ok]
  obtain fs n where run: "rotate_files E W = (Inr (), W\<lparr>fw_files := fs, fw_current_size := n\<rparr>)" and l: "hm_get fs ?l = None"
    and q: "if fw_current_size W \<le> fw_max_size W
       then n = fw_current_size W \<and> (\<forall>q. q \<noteq> ?l \<longrightarrow> hm_get fs q = at W q)
       else n = 0 \<and> hm_get fs (fw_path W) = Some [] \<and> hm_get fs (?b 1) = at W (fw_path W) \<and>
         (\<forall>i. 1 \<le> i \<and> i \<le> fw_max_files W \<longrightarrow> hm_get fs (?b (i + 1)) = at W (?b i))"
    using rotate_calm [OF c ok [folded w]] unfolding w by (elim exE conjE) (rule that)
  define W1 where "W1 = W\<lparr>fw_files := fs, fw_current_size := n\<rparr>"
  have S: "fw_path W1 = fw_path W" "fw_max_files W1 = fw_max_files W" "fw_max_size W1 = fw_max_size W"
    "fw_handle W1 = Some (fw_path W)" "fw_pending W1 = []" "fw_current_size W1 = n" "at W1 x = hm_get fs x" for x
    using D(1,2) by (simp_all add: W1_def)
  show ?thesis
  proof (cases "fw_current_size W \<le> fw_max_size W")
    case True
    then have e: "at W1 (fw_path W) = at W (fw_path W)" "at W1 (?b i) = at W (?b i)" "n = fw_current_size W" for i
      using q S(7) by (simp_all add: name_facts)
    have "log_text w W1 = log_text w W" unfolding log_text_def S(1-6) content_at e ..
    moreover have "writer_ok w M W1"
      using ok l unfolding writer_ok_def S(1-6) content_at e S(7) [of ?l] by simp
    ultimately show ?thesis using run over S(1-6) e(3) True len unfolding W1_def [symmetric]
      by (intro exI [of _ W1] exI [of _ "[]"]) simp
  next
    case False
    then have n: "n = 0" and e: "at W1 (fw_path W) = Some []" "at W1 (?b 1) = at W (fw_path W)"
      and m: "\<And>i. 1 \<le> i \<Longrightarrow> i \<le> fw_max_files W \<Longrightarrow> at W1 (?b (i + 1)) = at W (?b i)"
      and big: "fw_max_size W < fw_current_size W" and l1: "at W1 ?l = None" using q S(7) l by simp_all
    note R = rotated [OF ok big S(1-5) S(6) [unfolded n] l1 e m]
    show ?thesis
      using run over S(1-6) n len R unfolding W1_def [symmetric]
      by (intro exI [of _ W1] exI [of _ "content W (?b (fw_max_files W + 1))"]) simp
  qed
qed

text \<open>One record: a writer in order stays so, and its text grows by the record; what it loses
  at the old end it loses only when every backup is there.\<close>

lemma write_step:
  assumes c: "calm E" and ok: "writer_ok w M W" and w: "le_windows E = w" and len: "length r \<le> M"
  shows "\<exists>W' dropped. write_record E r W = (Inr (), W') \<and> writer_ok w M W' \<and> fw_path W' = fw_path W \<and>
    fw_max_files W' = fw_max_files W \<and> fw_max_size W' = fw_max_size W \<and>
    log_text w W @ r = dropped @ log_text w W' \<and>
    (dropped \<noteq> [] \<longrightarrow> (fw_max_files W + 1) * (fw_max_size W + 1) \<le> length (log_text w W'))"
proof -
  obtain W1 dropped where run: "(if fw_max_size W < length r + fw_current_size W then rotate_files E W else (Inr (), W)) = (Inr (), W1)"
    and ok1: "writer_ok w M W1" and size: "fw_current_size W1 + length r \<le> fw_max_size W + M"
    and S: "fw_path W1 = fw_path W" "fw_max_files W1 = fw_max_files W" "fw_max_size W1 = fw_max_size W"
    and t: "log_text w W = dropped @ log_text w W1"
    and d: "dropped \<noteq> [] \<longrightarrow> (fw_max_files W + 1) * (fw_max_size W + 1) \<le> length (log_text w W1)"
    using rotate_step [OF assms] by (elim exE conjE) (rule that)
  obtain fs where w1: "write_formatted E r W1 = (Inr (), W1\<lparr>fw_files := fs, fw_current_size := fw_current_size W1 + length r\<rparr>)"
    and q: "\<forall>q. hm_get fs q = (if q = fw_path W1 then Some (content W1 q @ r) else at W1 q)"
    using write_calm [OF c ok1, of r] by (elim exE conjE) (rule that)
  define W2 where "W2 = W1\<lparr>fw_files := fs, fw_current_size := fw_current_size W1 + length r\<rparr>"
  have S2: "fw_path W2 = fw_path W1" "fw_max_files W2 = fw_max_files W1" "fw_max_size W2 = fw_max_size W1"
    "fw_handle W2 = fw_handle W1" "fw_pending W2 = fw_pending W1" "fw_current_size W2 = fw_current_size W1 + length r"
    by (simp_all add: W2_def)
  have e: "at W2 (fw_path W1) = Some (content W1 (fw_path W1) @ r)" "at W2 (backup_path w (fw_path W1) i) = at W1 (backup_path w (fw_path W1) i)"
    "at W2 (lock_path w (fw_path W1)) = at W1 (lock_path w (fw_path W1))" for i
    using q by (simp_all add: W2_def name_facts)
  have "write_record E r W = (Inr (), W2)"
    using run w1 c unfolding write_record_def W2_def by (auto simp: calm_def split: if_splits)
  moreover have "writer_ok w M W2"
    using writer_okD [OF ok1] ok1 size S unfolding writer_ok_def S2 e content_at by simp
  moreover have "log_text w W2 = log_text w W1 @ r"
    unfolding log_text_def S2 content_at e using writer_okD(3) [OF ok1] by (simp add: content_at)
  ultimately show ?thesis using S S2 t d by (intro exI [of _ W2] exI [of _ dropped]) auto
qed

text \<open>The limit is looked at on the file as it was: a record after which the file is longer is
  still written to it.\<close>

lemma record_before_rotation:
  assumes "calm E" "writer_ok (le_windows E) M W" "fw_current_size W \<le> fw_max_size W"
  shows "\<exists>W'. write_record E r W = (Inr (), W') \<and> fw_current_size W' = fw_current_size W + length r \<and>
    content W' (fw_path W) = content W (fw_path W) @ r"
proof -
  obtain W1 where run: "(if fw_max_size W < length r + fw_current_size W then rotate_files E W else (Inr (), W)) = (Inr (), W1)"
    and W1: "fw_current_size W1 = fw_current_size W" "fw_path W1 = fw_path W" "content W1 (fw_path W) = content W (fw_path W)"
    and ok1: "writer_ok (le_windows E) (M + length r) W1"
  proof -
    have big: "writer_ok (le_windows E) (M + length r) W"
      using assms(2) by (fastforce simp: writer_ok_def split: option.splits)
    from rotate_step [OF assms(1) big refl, of r] obtain W1 where
      r1: "(if fw_max_size W < length r + fw_current_size W then rotate_files E W else (Inr (), W)) = (Inr (), W1)"
      and ok1: "writer_ok (le_windows E) (M + length r) W1" by auto
    have "fw_current_size W1 = fw_current_size W \<and> fw_path W1 = fw_path W \<and> content W1 (fw_path W) = content W (fw_path W)"
      using rotate_calm [OF assms(1,2)] assms(3) r1 by (auto simp: content_at name_facts split: if_splits)
    then show thesis using that r1 ok1 by blast
  qed
  show ?thesis
    using run W1 write_calm [OF assms(1) ok1, of r] assms(1) unfolding write_record_def
    by (auto simp: calm_def content_at split: if_splits)
qed

text \<open>The order of \<open>LogFilter\<close> is the other way round than the logger's.\<close>

lemma filters_disagree:
  "should_log (log_filter_new (Upto m)) l target \<longleftrightarrow> m \<le> l"
  "log_enabled (config\<lparr>lc_level := Upto m\<rparr>) l \<longleftrightarrow> l \<le> m"
  by (auto simp: should_log_def log_filter_new_def log_enabled_def less_eq_Level_def less_eq_LevelFilter_def)

section \<open>The logger\<close>

type_synonym log_call = "log_env \<times> string \<times> log_record \<times> (string \<times> string) option"

definition call_text :: "regexes \<Rightarrow> LogConfig \<Rightarrow> log_call \<Rightarrow> bytes" where
  "call_text R config call = (let (E, timestamp, r, context) = call in
     if log_enabled config (r_level r)
     then as_bytes (format_record R timestamp r (case context of Some c \<Rightarrow> c | None \<Rightarrow> (''unknown'', ''unknown'')) config)
     else [])"

primrec log_all :: "regexes \<Rightarrow> log_call list \<Rightarrow> UnifiedLogger \<Rightarrow> UnifiedLogger" where
  "log_all R [] U = U"
| "log_all R (call # calls) U = (let (E, timestamp, r, context) = call in
     log_all R calls (logger_log E R timestamp r context U))"

definition logger_ok :: "bool \<Rightarrow> nat \<Rightarrow> LogConfig \<Rightarrow> FileWriter \<Rightarrow> UnifiedLogger \<Rightarrow> bool" where
  "logger_ok w M config W U \<longleftrightarrow> ul_file U = Some W \<and> ul_config U = config \<and> writer_ok w M W \<and>
     fw_max_size W = lc_max_file_size config \<and> fw_max_files W = lc_max_files config"

lemma logger_step:
  assumes ok: "logger_ok w M config W U" and c: "calm E" "le_windows E = w"
    and len: "length (call_text R config (E, timestamp, r, context)) \<le> M"
  shows "\<exists>W' dropped. logger_ok w M config W' (logger_log E R timestamp r context U) \<and>
    log_text w W @ call_text R config (E, timestamp, r, context) = dropped @ log_text w W' \<and>
    (dropped \<noteq> [] \<longrightarrow> (lc_max_files config + 1) * (lc_max_file_size config + 1) \<le> length (log_text w W'))"
proof (cases "log_enabled config (r_level r)")
  case False
  then show ?thesis using ok
    by (intro exI [of _ W] exI [of _ "[]"]) (simp add: logger_ok_def logger_log_def call_text_def)
next
  case True
  let ?t = "call_text R config (E, timestamp, r, context)"
  have W: "ul_file U = Some W" "ul_config U = config" "writer_ok w M W" "fw_max_size W = lc_max_file_size config"
    "fw_max_files W = lc_max_files config" using ok by (simp_all add: logger_ok_def)
  obtain W' dropped where st: "write_record E ?t W = (Inr (), W')" "writer_ok w M W'" "fw_max_files W' = fw_max_files W"
      "fw_max_size W' = fw_max_size W" "log_text w W @ ?t = dropped @ log_text w W'"
      "dropped \<noteq> [] \<longrightarrow> (fw_max_files W + 1) * (fw_max_size W + 1) \<le> length (log_text w W')"
    using write_step [OF c(1) W(3) c(2) len] by (elim exE conjE) (rule that)
  have "ul_file (logger_log E R timestamp r context U) = Some W' \<and> ul_config (logger_log E R timestamp r context U) = config"
    using st(1) True W(1,2) unfolding logger_log_def try_log_with_context_def call_text_def Let_def prod.case
    by (simp split: option.splits)
  then show ?thesis using st W unfolding logger_ok_def by (intro exI [of _ W'] exI [of _ dropped]) simp
qed

lemma log_all_keeps:
  assumes "logger_ok w M config W U"
    and "\<forall>call \<in> set calls. calm (fst call) \<and> le_windows (fst call) = w \<and> length (call_text R config call) \<le> M"
  shows "\<exists>W' dropped. logger_ok w M config W' (log_all R calls U) \<and>
    log_text w W @ concat (map (call_text R config) calls) = dropped @ log_text w W' \<and>
    (dropped \<noteq> [] \<longrightarrow> (lc_max_files config + 1) * (lc_max_file_size config + 1) \<le> length (log_text w W'))"
  using assms
proof (induction calls arbitrary: W U)
  case Nil
  then show ?case by (intro exI [of _ W] exI [of _ "[]"]) simp
next
  case (Cons call calls)
  obtain E t r c where call: "call = (E, t, r, c)" by (cases call)
  obtain W1 d1 where s1: "logger_ok w M config W1 (logger_log E R t r c U)"
      "log_text w W @ call_text R config call = d1 @ log_text w W1"
      "d1 \<noteq> [] \<longrightarrow> (lc_max_files config + 1) * (lc_max_file_size config + 1) \<le> length (log_text w W1)"
    using logger_step [OF Cons.prems(1), of E R t r c] Cons.prems(2) unfolding call by auto
  obtain W2 d2 where s2: "logger_ok w M config W2 (log_all R calls (logger_log E R t r c U))"
      "log_text w W1 @ concat (map (call_text R config) calls) = d2 @ log_text w W2"
      "d2 \<noteq> [] \<longrightarrow> (lc_max_files config + 1) * (lc_max_file_size config + 1) \<le> length (log_text w W2)"
    using Cons.IH [OF s1(1)] Cons.prems(2) by auto
  have "log_text w W @ concat (map (call_text R config) (call # calls)) = (d1 @ d2) @ log_text w W2"
    using s1(2) s2(2) by (simp only: list.map concat.simps append_assoc [symmetric]) (simp only: append_assoc)
  moreover have "length (log_text w W1) \<le> length (log_text w W2)" if "d2 = []"
    using arg_cong [OF s2(2), of length] that by simp
  ultimately show ?case using s1(3) s2(1,3) call
    by (intro exI [of _ W2] exI [of _ "d1 @ d2"]) (auto simp: Let_def)
qed

text \<open>A logger on a disk without a log of this name.\<close>

definition no_log :: "bool \<Rightarrow> LogConfig \<Rightarrow> (string, bytes) hmap \<Rightarrow> bool" where
  "no_log w config files \<longleftrightarrow> lc_file_path config \<noteq> [] \<and> hm_get files (lc_file_path config) = None \<and>
     hm_get files (lock_path w (lc_file_path config)) = None \<and>
     (\<forall>i \<in> {1..lc_max_files config + 1}. hm_get files (backup_path w (lc_file_path config) i) = None)"

lemma new_logger_ok:
  assumes "calm E" "no_log w config files" "unified_logger_new E config files = Inr U"
  shows "\<exists>W. logger_ok w M config W U \<and> log_text w W = []"
proof -
  let ?p = "lc_file_path config"
  define W where "W = \<lparr>fw_path = ?p, fw_max_size = lc_max_file_size config, fw_max_files = lc_max_files config,
    fw_current_size = 0, fw_pending = [], fw_handle = Some ?p, fw_files = hm_insert ?p [] files\<rparr>"
  have "file_writer_new E ?p (lc_max_file_size config) (lc_max_files config) files = Inr W"
    using assms(1,2) by (simp add: file_writer_new_def fs_open_def fw_exists_def hm_has_def no_log_def content_def W_def)
  then have U: "ul_file U = Some W" "ul_config U = config"
    using assms(2,3) by (auto simp: unified_logger_new_def no_log_def)
  have W: "fw_path W = ?p" "fw_max_files W = lc_max_files config" "at W ?p = Some []" "at W (lock_path w ?p) = None"
    "\<And>i. 1 \<le> i \<Longrightarrow> i \<le> lc_max_files config + 1 \<Longrightarrow> at W (backup_path w ?p i) = None"
    using assms(2) by (auto simp: W_def no_log_def name_facts)
  have "writer_ok w M W" using W(4,5) unfolding writer_ok_def W(1,2) by (simp add: content_at W(3)) (simp add: W_def)
  moreover have "log_text w W = []" unfolding log_text_def W(1,2) content_at W(3) using W(5) by (auto simp: Let_def)
  ultimately show ?thesis using U by (intro exI [of _ W]) (simp add: logger_ok_def, simp add: W_def)
qed

text \<open>The logger of the DLL writes the text of a message as it is: nothing is masked, whatever
  the patterns of the masks would find.\<close>

lemma dll_log_is_unmasked:
  assumes "lp_logger (snd (init_logging E (build_dll_log_config w date dir level) files P)) = Some U" "lp_logger P = None"
  shows "\<exists>head. format_record R timestamp r context (ul_config U) = head @ r_args r @ [CHR 0x0A]"
proof -
  have "ul_config U = build_dll_log_config w date dir level"
    using assms by (auto simp: init_logging_def unified_logger_new_def split: sum.splits if_splits)
  then have "\<not> lc_mask_sensitive (ul_config U)" "\<not> lc_enable_context (ul_config U)"
    by (simp_all add: build_dll_log_config_def for_dll_def)
  then show ?thesis by (simp add: format_record_def Let_def)
qed

text \<open>A context inside a context: after the inner one the outer one is gone.\<close>

lemma nested_context_lost: "lp_context (snd (with_log_context inner f (P\<lparr>lp_context := Some outer\<rparr>))) = None"
  by (simp add: with_log_context_def split: prod.split)

text \<open>A second initialisation changes nothing, whatever configuration it is given.\<close>

lemma init_logging_once:
  "init_logging E config files P = (Inr (), P1) \<Longrightarrow> init_logging E' config' files' P1 = (Inr (), P1)"
  by (auto simp: init_logging_def split: sum.splits option.splits if_splits)

text \<open>C25: a logger that starts on a disk without this log keeps the recent part of what it is
  told: whatever records are logged, and however often the file is rotated, the backups from the
  oldest followed by the current file are the formatted records that pass the level, in order
  and unbroken, less a piece at the front.  A piece is lost only when all
  \<open>max_files + 1\<close> backups are there (one more than the configuration asks for), so at
  least \<open>(max_files + 1) * (max_file_size + 1)\<close> bytes are kept, and the log never takes more
  than \<open>(max_files + 2) * (max_file_size + M)\<close>, where no record is longer than \<open>M\<close>.\<close>

theorem log_keeps_recent:
  assumes "calm E" "no_log w config files" "unified_logger_new E config files = Inr U"
    and "\<forall>call \<in> set calls. calm (fst call) \<and> le_windows (fst call) = w \<and> length (call_text R config call) \<le> M"
  shows "\<exists>W dropped. ul_file (log_all R calls U) = Some W \<and>
    concat (map (call_text R config) calls) = dropped @ log_text w W \<and>
    (dropped \<noteq> [] \<longrightarrow> (lc_max_files config + 1) * (lc_max_file_size config + 1) \<le> length (log_text w W)) \<and>
    length (log_text w W) \<le> (lc_max_files config + 2) * (lc_max_file_size config + M)"
proof -
  obtain W0 where ok: "logger_ok w M config W0 U" and t: "log_text w W0 = []"
    using new_logger_ok [OF assms(1-3), of M] by (elim exE conjE) (rule that)
  obtain W d where W: "logger_ok w M config W (log_all R calls U)"
    "log_text w W0 @ concat (map (call_text R config) calls) = d @ log_text w W"
    "d \<noteq> [] \<longrightarrow> (lc_max_files config + 1) * (lc_max_file_size config + 1) \<le> length (log_text w W)"
    using log_all_keeps [OF ok assms(4)] by (elim exE conjE) (rule that)
  then show ?thesis using t log_text_short [of w M W] unfolding logger_ok_def by (intro exI [of _ W] exI [of _ d]) simp
qed

definition calm_env :: log_env where
  "calm_env = \<lparr>le_windows = True, le_fail = (\<lambda>_. None), le_lock_age = None, le_lock_age_again = None,
     le_in_time = True, le_again_in_time = True, le_pid = ''42''\<rparr>"

definition no_regexes :: regexes where
  "no_regexes = \<lparr>re_x25519 = (\<lambda>f s. s), re_ip = (\<lambda>r s. s), re_key = (\<lambda>f s. s)\<rparr>"

definition sample_record :: "Level \<Rightarrow> string \<Rightarrow> log_record" where
  "sample_record l s = \<lparr>r_args = s, r_level = l, r_target = ''dll'', r_file = Some ''a.rs'', r_line = Some 7\<rparr>"

definition sample_calls :: "log_call list" where
  "sample_calls = [(calm_env, ''12:00'', sample_record Lv_Info ''one'', None), (calm_env, ''12:01'', sample_record Lv_Trace ''no'', None),
     (calm_env, ''12:02'', sample_record Lv_Warn ''two'', None), (calm_env, ''12:03'', sample_record Lv_Error ''three'', None)]"

definition sample_config :: LogConfig where
  "sample_config = for_dll\<lparr>lc_max_file_size := 10, lc_max_files := 1\<rparr>"

lemma sample_calls_fit:
  "\<forall>call \<in> set sample_calls. calm (fst call) \<and> le_windows (fst call) = True \<and>
    length (call_text no_regexes sample_config call) \<le> 60"
proof -
  have "\<forall>call \<in> set sample_calls. calm (fst call) \<and> le_windows (fst call) = True"
    by (simp add: sample_calls_def calm_def calm_env_def)
  moreover have "\<forall>call \<in> set sample_calls. length (call_text no_regexes sample_config call) \<le> 60"
  proof -
    have n: "show_nat 7 = ''7''" by code_simp
    show ?thesis
      by (simp add: sample_calls_def call_text_def log_enabled_def less_eq_LevelFilter_def sample_config_def for_dll_def
          sample_record_def format_record_def n)
  qed
  ultimately show ?thesis by blast
qed

theorem log_keeps_recent_witness:
  "\<exists>U. unified_logger_new calm_env sample_config [] = Inr U \<and> (\<exists>W dropped.
    ul_file (log_all no_regexes sample_calls U) = Some W \<and>
    concat (map (call_text no_regexes sample_config) sample_calls) = dropped @ log_text True W \<and>
    (dropped \<noteq> [] \<longrightarrow> (1 + 1) * (10 + 1) \<le> length (log_text True W)) \<and> length (log_text True W) \<le> (1 + 2) * (10 + 60))"
proof -
  have c: "calm calm_env" by (simp add: calm_def calm_env_def)
  have n: "no_log True sample_config []" by (simp add: no_log_def sample_config_def for_dll_def)
  obtain U where U: "unified_logger_new calm_env sample_config [] = Inr U"
    using c by (simp add: unified_logger_new_def sample_config_def for_dll_def file_writer_new_def fs_open_def fw_exists_def)
  have s: "lc_max_files sample_config = 1" "lc_max_file_size sample_config = 10"
    by (simp_all add: sample_config_def)
  show ?thesis using U log_keeps_recent [OF c n U sample_calls_fit] unfolding s by (intro exI [of _ U] conjI)
qed

end
