(* ===== verification/Topics10.thy ===== *)
theory Topics10
  imports Exports Legacy
begin

text \<open>
  The topics of the FiSH 10 layer: plaintext topics kept among the entries of the
  configuration (\<open>legacy/fish10_topics.rs\<close> with its wrappers in \<open>legacy/mod.rs\<close>, exported by
  \<open>dll_interface/fish_10/fish10_settopic.rs\<close>), and the switch for encrypted topics in
  \<open>blowfish.ini\<close> (\<open>fish10_config.rs\<close>, exported by \<open>fish10_settopicsetting.rs\<close> and
  \<open>fish10_gettopicsetting.rs\<close>), which is written through the \<open>ini\<close> crate.
\<close>

section \<open>Plaintext topics\<close>

definition legacy_topic_key :: "string \<Rightarrow> string" where
  "legacy_topic_key channel = ''fish10_topic_'' @ to_lowercase channel"

definition set_legacy_topic ::
  "ext_lib \<Rightarrow> int \<Rightarrow> string \<Rightarrow> string \<Rightarrow> FishConfig \<Rightarrow> (FishError, unit) result \<times> FishConfig" where
  "set_legacy_topic L now channel topic c =
     (if channel = [] then (Inl (FE_InvalidInput ''channel name cannot be empty''), c)
      else if topic = [] then (Inl (FE_InvalidInput ''topic cannot be empty''), c)
      else
        (Inr (), mark_dirty (c\<lparr>c_entries := hm_insert (legacy_topic_key channel)
           \<lparr>e_key = Some topic, e_date = Some (rfc_fmt L now), e_is_exchange = None\<rparr> (c_entries c)\<rparr>)))"

definition get_legacy_topic :: "string \<Rightarrow> FishConfig \<Rightarrow> (FishError, string option) result" where
  "get_legacy_topic channel c =
     (if channel = [] then Inl (FE_InvalidInput ''channel name cannot be empty'')
      else Inr (case hm_get (c_entries c) (legacy_topic_key channel) of
                  Some entry_data \<Rightarrow> e_key entry_data
                | None \<Rightarrow> None))"

definition remove_legacy_topic :: "string \<Rightarrow> FishConfig \<Rightarrow> (FishError, bool) result \<times> FishConfig" where
  "remove_legacy_topic channel c =
     (if channel = [] then (Inl (FE_InvalidInput ''channel name cannot be empty''), c)
      else
        (let removed = hm_has (c_entries c) (legacy_topic_key channel);
             c1 = c\<lparr>c_entries := hm_remove (legacy_topic_key channel) (c_entries c)\<rparr>
         in (Inr removed, if removed then mark_dirty c1 else c1)))"

definition set_legacy_topic_dll ::
  "ext_lib \<Rightarrow> string \<Rightarrow> string \<Rightarrow> store \<Rightarrow> (DllError, unit) result \<times> store" where
  "set_legacy_topic_dll L channel topic st =
     (let (r, st1) = with_config_mut (set_legacy_topic L (s_clock st) channel topic) st in (map_err dll_of_fish r, st1))"

definition get_legacy_topic_dll :: "string \<Rightarrow> store \<Rightarrow> (DllError, string option) result" where
  "get_legacy_topic_dll channel st = map_err dll_of_fish (with_config (get_legacy_topic channel) st)"

definition remove_legacy_topic_dll :: "string \<Rightarrow> store \<Rightarrow> (DllError, bool) result \<times> store" where
  "remove_legacy_topic_dll channel st =
     (let (r, st1) = with_config_mut (remove_legacy_topic channel) st in (map_err dll_of_fish r, st1))"

text \<open>The three exports: as those of FiSH 11, but a result is written for a buffer of 900 bytes
  whatever the size the client announced.\<close>

definition legacy_topic_call ::
  "nat \<Rightarrow> string \<Rightarrow> (string \<Rightarrow> store \<Rightarrow> (DllError, string) result \<times> store) \<Rightarrow> bytes option \<Rightarrow> store
   \<Rightarrow> (int \<times> bytes option) \<times> store" where
  "legacy_topic_call buf_size func_name inner data st =
     (if data = None then (to_mirc_response buf_size (NullPointer func_name) data, st)
      else
        (let (r, st1) = (case parse_buffer_input data of
                           Inl e \<Rightarrow> (Inl (dll_of_str e), st)
                         | Inr input \<Rightarrow> inner input st)
         in case r of
              Inl e \<Rightarrow> (to_mirc_response buf_size e data, st1)
            | Inr result \<Rightarrow>
                (case cstring_new result of
                   None \<Rightarrow> (to_mirc_response buf_size (NulByte ''nul byte found in provided data'') data, st1)
                 | Some c \<Rightarrow> ((1, snd (write_cstring_to_buffer data 900 c)), st1))))"

definition set_legacy_topic_inner :: "ext_lib \<Rightarrow> string \<Rightarrow> store \<Rightarrow> (DllError, string) result \<times> store" where
  "set_legacy_topic_inner L input st =
     (case splitn_char 2 (CHR '' '') input of
        [a, b] \<Rightarrow>
          (let channel = trim a; topic = trim b in
           if \<not> is_chan_prefixed channel then (Inl bad_channel, st)
           else
             (case set_legacy_topic_dll L channel topic st of
                (Inl e, st1) \<Rightarrow> (Inl e, st1)
              | (Inr _, st1) \<Rightarrow> (Inr (''Legacy plaintext topic set for channel: '' @ channel), st1)))
      | _ \<Rightarrow> (Inl (InvalidInput ''input'' ''expected format: <channel> <topic>''), st))"

definition get_legacy_topic_inner :: "string \<Rightarrow> store \<Rightarrow> (DllError, string) result \<times> store" where
  "get_legacy_topic_inner input st =
     (let channel = trim input in
      if \<not> is_chan_prefixed channel then (Inl bad_channel, st)
      else
        (case get_legacy_topic_dll channel st of
           Inl e \<Rightarrow> (Inl e, st)
         | Inr (Some topic) \<Rightarrow> (Inr topic, st)
         | Inr None \<Rightarrow> (Inr ''No legacy topic found for this channel'', st)))"

definition remove_legacy_topic_inner :: "string \<Rightarrow> store \<Rightarrow> (DllError, string) result \<times> store" where
  "remove_legacy_topic_inner input st =
     (let channel = trim input in
      if \<not> is_chan_prefixed channel then (Inl bad_channel, st)
      else
        (case remove_legacy_topic_dll channel st of
           (Inl e, st1) \<Rightarrow> (Inl e, st1)
         | (Inr removed, st1) \<Rightarrow>
             (Inr ((if removed then ''Legacy topic removed for channel: ''
                    else ''No legacy topic was found for channel: '') @ channel), st1)))"

definition FiSH10_SetTopic :: "ext_lib \<Rightarrow> nat \<Rightarrow> bytes option \<Rightarrow> store \<Rightarrow> (int \<times> bytes option) \<times> store" where
  "FiSH10_SetTopic L buf_size = legacy_topic_call buf_size ''FiSH10_SetTopic'' (set_legacy_topic_inner L)"

definition FiSH10_GetTopic :: "nat \<Rightarrow> bytes option \<Rightarrow> store \<Rightarrow> (int \<times> bytes option) \<times> store" where
  "FiSH10_GetTopic buf_size = legacy_topic_call buf_size ''FiSH10_GetTopic'' get_legacy_topic_inner"

definition FiSH10_RemoveTopic :: "nat \<Rightarrow> bytes option \<Rightarrow> store \<Rightarrow> (int \<times> bytes option) \<times> store" where
  "FiSH10_RemoveTopic buf_size = legacy_topic_call buf_size ''FiSH10_RemoveTopic'' remove_legacy_topic_inner"

section \<open>The switch in \<open>blowfish.ini\<close>\<close>

text \<open>A document of the \<open>ini\<close> crate with the properties before the first section under
  \<open>None\<close>; reading and writing lines is the crate's.\<close>

type_synonym ini_doc = "(string option \<times> (string \<times> string) list) list"

record ini_file_crate =
  if_load :: "string list \<Rightarrow> (string, ini_doc) result"
  if_lines :: "ini_doc \<Rightarrow> string list"
  if_new :: ini_doc

definition doc_set :: "string \<Rightarrow> string \<Rightarrow> string \<Rightarrow> ini_doc \<Rightarrow> ini_doc" where
  "doc_set sec k v d =
     AList.update (Some sec) (AList.update k v (case map_of d (Some sec) of Some ps \<Rightarrow> ps | None \<Rightarrow> [])) d"

definition set_encrypt_topic_setting ::
  "ini_file_crate \<Rightarrow> (DllError, string) result \<Rightarrow> string \<Rightarrow> string \<Rightarrow> bool \<Rightarrow> legacy
   \<Rightarrow> (DllError, unit) result \<times> legacy" where
  "set_encrypt_topic_setting I path network channel enabled lg =
     (case path of
        Inl e \<Rightarrow> (Inl e, lg)
      | Inr _ \<Rightarrow>
          (let section_name = network @ '':'' @ channel;
               value = (if enabled then ''1'' else ''0'')
           in case (case lg_file lg of
                      Some ls \<Rightarrow> if lg_file_ok lg then if_load I ls else Inl ''io error''
                    | None \<Rightarrow> Inr (if_new I)) of
                Inl e \<Rightarrow> (Inl (LegacyError ''Loading blowfish.ini'' (''Failed to load: '' @ e)), lg)
              | Inr conf \<Rightarrow>
                  if \<not> lg_file_ok lg then
                    (Inl (LegacyError ''Writing to blowfish.ini'' ''Failed to write: io error''), lg)
                  else (Inr (), lg\<lparr>lg_file := Some (if_lines I (doc_set section_name ''encrypt_topic'' value conf))\<rparr>)))"

definition get_encrypt_topic_setting_at :: "(DllError, string) result \<Rightarrow> string \<Rightarrow> string \<Rightarrow> legacy \<Rightarrow> bool" where
  "get_encrypt_topic_setting_at path network channel lg =
     (case path of Inl _ \<Rightarrow> False | Inr _ \<Rightarrow> get_encrypt_topic_setting network channel lg)"

definition FiSH10_SetTopicSetting ::
  "ini_file_crate \<Rightarrow> (DllError, string) result \<Rightarrow> string \<Rightarrow> legacy \<Rightarrow> (DllError, string) result \<times> legacy" where
  "FiSH10_SetTopicSetting I path input lg =
     (let fail = (\<lambda>cause. Inl (LegacyError ''FiSH10_SetTopicSetting'' cause)) in
      case split_whitespace input of
        network # channel # enabled_str # _ \<Rightarrow>
          (case (if enabled_str = ''1'' then Some True else if enabled_str = ''0'' then Some False else None) of
             None \<Rightarrow> (fail ''Invalid enabled value. Expected 0 or 1'', lg)
           | Some enabled \<Rightarrow>
               (case set_encrypt_topic_setting I path network channel enabled lg of
                  (Inr _, lg1) \<Rightarrow> (Inr ''1'', lg1)
                | (Inl e, lg1) \<Rightarrow> (fail (''Failed to set topic setting: '' @ dll_display e), lg1)))
      | _ \<Rightarrow> (fail ''Invalid input format. Expected: <network> <channel> <enabled>'', lg))"

definition FiSH10_GetTopicSetting :: "(DllError, string) result \<Rightarrow> string \<Rightarrow> legacy \<Rightarrow> (DllError, string) result" where
  "FiSH10_GetTopicSetting path input lg =
     (case split_whitespace input of
        network # channel # _ \<Rightarrow>
          Inr (if get_encrypt_topic_setting_at path network channel lg then ''1'' else ''0'')
      | _ \<Rightarrow> Inl (LegacyError ''FiSH10_GetTopicSetting''
               ''Invalid input format. Expected: <network> <channel>''))"

end
