(* ===== verification/Topics10Facts.thy ===== *)
theory Topics10Facts
  imports Topics10 LegacyFacts ExportFacts
begin

text \<open>
  Facts about the FiSH 10 topics: a plaintext topic is read back under every spelling of its
  channel and touches no other entry, and the switch for encrypted topics rewrites
  \<open>blowfish.ini\<close> without the keys of channels.
\<close>

section \<open>Plaintext topics\<close>

text \<open>The store after a topic was set.\<close>

lemma legacy_topic_stored:
  assumes "ch \<noteq> []" "t \<noteq> []"
  shows "\<exists>c. set_legacy_topic_dll L ch t st = (Inr (), persist c st) \<and>
    c_entries c = hm_insert (legacy_topic_key ch)
      \<lparr>e_key = Some t, e_date = Some (rfc_fmt L (s_clock st)), e_is_exchange = None\<rparr> (c_entries (s_config st))"
proof -
  let ?c = "mark_dirty ((mark_dirty (s_config st))\<lparr>c_entries := hm_insert (legacy_topic_key ch)
      \<lparr>e_key = Some t, e_date = Some (rfc_fmt L (s_clock st)), e_is_exchange = None\<rparr> (c_entries (s_config st))\<rparr>)"
  have "with_config_mut (set_legacy_topic L (s_clock st) ch t) st = (Inr (), persist ?c st)"
    by (rule with_config_mut_persist) (simp_all add: set_legacy_topic_def assms)
  then show ?thesis by (intro exI [of _ ?c]) (simp add: set_legacy_topic_dll_def)
qed

lemma legacy_topic_set_get:
  assumes "list_all graphic ch" "is_chan_prefixed ch" "list_all graphic ch2" "to_lowercase ch2 = to_lowercase ch"
    "trim t = t" "t \<noteq> []"
  shows "\<exists>st1. set_legacy_topic_inner L (ch @ CHR '' '' # t) st =
      (Inr (''Legacy plaintext topic set for channel: '' @ ch), st1) \<and>
    get_legacy_topic_inner ch2 st1 = (Inr t, st1) \<and>
    (\<forall>k. k \<noteq> legacy_topic_key ch \<longrightarrow> hm_get (c_entries (s_config st1)) k = hm_get (c_entries (s_config st)) k)"
proof -
  have c: "is_chan_prefixed ch2" using prefixed_lower [OF assms(2,4)] .
  have sp: "CHR '' '' \<notin> set ch" using assms(1) by (rule graphic_no_space)
  have ne: "ch \<noteq> []" "ch2 \<noteq> []" using assms(2) c by (auto simp: is_chan_prefixed_def)
  have tr: "trim ch = ch" "trim ch2 = ch2" using assms(1,3) by (simp_all add: trim_graphic)
  obtain d where d: "set_legacy_topic_dll L ch t st = (Inr (), persist d st)"
    "c_entries d = hm_insert (legacy_topic_key ch)
      \<lparr>e_key = Some t, e_date = Some (rfc_fmt L (s_clock st)), e_is_exchange = None\<rparr> (c_entries (s_config st))"
    using legacy_topic_stored [OF ne(1) assms(6)] by blast
  have k: "legacy_topic_key ch2 = legacy_topic_key ch" using assms(4) by (simp add: legacy_topic_key_def)
  show ?thesis
    using assms(2) c d ne
    by (intro exI [of _ "persist d st"])
      (simp add: set_legacy_topic_inner_def splitn_2 split_once_char [OF sp] tr assms(5) get_legacy_topic_inner_def
        get_legacy_topic_dll_def with_config_def get_legacy_topic_def k)
qed

section \<open>The switch for encrypted topics\<close>

text \<open>The crate's documented reading: a line that starts with a semicolon or a hash is a
  comment, and comments are not part of the document.\<close>

definition ini_comment :: "string \<Rightarrow> bool" where
  "ini_comment line = (let l = trim line in starts_with '';'' l \<or> starts_with ''#'' l)"

definition comment_law :: "ini_file_crate \<Rightarrow> bool" where
  "comment_law I \<longleftrightarrow> (\<forall>ls. if_load I ls = if_load I (filter (\<lambda>l. \<not> ini_comment l) ls))"

lemma setting_ignores_comments:
  assumes "comment_law I" "lg_file a = Some ls" "lg_file b = Some ms" "lg_file_ok a = lg_file_ok b"
    "filter (\<lambda>l. \<not> ini_comment l) ls = filter (\<lambda>l. \<not> ini_comment l) ms" "lg_file_ok a"
    "FiSH10_SetTopicSetting I path input a = (Inr r, a1)"
  shows "\<exists>b1. FiSH10_SetTopicSetting I path input b = (Inr r, b1) \<and> lg_file b1 = lg_file a1"
proof -
  have eq: "if_load I ms = if_load I ls" using assms(1,5) unfolding comment_law_def by metis
  show ?thesis using assms(2-4,6,7) eq
    unfolding FiSH10_SetTopicSetting_def set_encrypt_topic_setting_def Let_def
    by (auto split: list.splits option.splits if_splits sum.splits prod.splits)
qed

text \<open>A file in which no line sets the key of a target gets the line at its end.\<close>

lemma update_absent:
  "snd (update_lines L t None sec ls) = False \<Longrightarrow> update_lines L t k sec ls = (ls, False)"
proof (induction ls arbitrary: sec)
  case (Cons l ls)
  show ?case
  proof (cases "is_section (trim l)")
    case True
    then show ?thesis using Cons by (simp add: Let_def split_beta)
  next
    case False
    show ?thesis
    proof (cases "parse_ini_line (trim l)")
      case None
      then show ?thesis using Cons False by (simp add: Let_def split_beta)
    next
      case (Some nv)
      obtain n v where nv: "nv = (n, v)" by (cases nv)
      show ?thesis using Cons False Some
        by (cases "line_target sec n") (simp_all add: nv Let_def split_beta split: if_splits)
    qed
  qed
qed simp

lemma channel_line_comment:
  assumes "hex_law L" "ini_name t" "hd t = CHR ''#''" "k \<noteq> []"
  shows "ini_comment (t @ CHR ''='' # hex_enc L k)"
proof -
  have "t \<noteq> []" "trim t = t" using assms(2) by (simp_all add: ini_name_def)
  then show ?thesis using assms(3) trim_key_line [OF assms(1) _ _ assms(4), of t]
    by (cases t) (simp_all add: ini_comment_def starts_with_def)
qed

text \<open>C31: the key of a channel that was stored in \<open>blowfish.ini\<close> is lost from the file when the
  topic setting of any channel is changed.  \<open>FiSH10_SetKey\<close> appends the line \<open>#channel=key\<close>;
  \<open>FiSH10_SetTopicSetting\<close> rewrites the file through the \<open>ini\<close> crate, for which a line that
  starts with a hash is a comment: the file it leaves is the one it leaves when the key was never
  set, although the key is still in memory.\<close>

theorem topic_setting_forgets_channel_key:
  assumes "comment_law I" "hex_law L" "ini_name t" "hd t = CHR ''#''"
    and "lg_ini_path lg = Some p" "lg_file lg = Some ls" "lg_file_ok lg"
    and "snd (update_lines L t None None ls) = False"
    and "set_legacy_key L t key lg = (Inr (), lg1)"
    and "FiSH10_SetTopicSetting I path input lg = (Inr r, lg2)"
  shows "\<exists>k lg3. get_legacy_key t lg1 = Some k \<and> lg_file lg1 = Some (ls @ [t @ ''='' @ hex_enc L k]) \<and>
    FiSH10_SetTopicSetting I path input lg1 = (Inr r, lg3) \<and> lg_file lg3 = lg_file lg2 \<and>
    get_legacy_key t lg3 = Some k"
proof -
  obtain k where k: "4 \<le> length k" and l1: "lg1 = snd (save_key_to_blowfish_ini L t k (lg\<lparr>lg_keys := hm_insert t k (lg_keys lg)\<rparr>))"
    using assms(5,9) by (auto simp: set_legacy_key_def Let_def not_less split: sum.splits if_splits)
  have f: "lg_file lg1 = Some (ls @ [t @ CHR ''='' # hex_enc L k])" "lg_file_ok lg1" "lg_keys lg1 = hm_insert t k (lg_keys lg)"
    using assms(6,7) update_absent [OF assms(8), of "Some k"]
    by (simp_all add: l1 save_key_to_blowfish_ini_def update_blowfish_ini_key_def)
  have "k \<noteq> []" using k by (cases k) simp_all
  then have c: "ini_comment (t @ CHR ''='' # hex_enc L k)" by (rule channel_line_comment [OF assms(2-4)])
  have e: "lg_file_ok lg = lg_file_ok lg1" using f(2) assms(7) by simp
  have "filter (\<lambda>l. \<not> ini_comment l) ls = filter (\<lambda>l. \<not> ini_comment l) (ls @ [t @ CHR ''='' # hex_enc L k])"
    using c by simp
  from setting_ignores_comments [OF assms(1,6) f(1) e this assms(7,10)] obtain lg3
    where s: "FiSH10_SetTopicSetting I path input lg1 = (Inr r, lg3)" "lg_file lg3 = lg_file lg2"
    by (elim exE conjE) (rule that)
  then have "lg_keys lg3 = lg_keys lg1"
    unfolding FiSH10_SetTopicSetting_def set_encrypt_topic_setting_def Let_def
    by (auto split: list.splits option.splits if_splits sum.splits prod.splits)
  then show ?thesis using s f by (intro exI [of _ k] exI [of _ lg3]) (simp add: get_legacy_key_def)
qed

text \<open>A crate that reads and writes plain documents.\<close>

fun ref_read :: "string option \<Rightarrow> (string \<times> string) list \<Rightarrow> string list \<Rightarrow> ini_doc" where
  "ref_read n ps [] = [(n, ps)]"
| "ref_read n ps (l # ls) =
     (if is_section (trim l) then (n, ps) # ref_read (Some (section_name (trim l))) [] ls
      else case parse_ini_line (trim l) of
        Some kv \<Rightarrow> ref_read n (ps @ [kv]) ls
      | None \<Rightarrow> ref_read n ps ls)"

definition ref_ini_file :: ini_file_crate where
  "ref_ini_file = \<lparr>if_load = (\<lambda>ls. Inr (ref_read None [] (filter (\<lambda>l. \<not> ini_comment l) ls))),
     if_lines = (\<lambda>d. concat (map (\<lambda>(n, ps).
       (case n of Some s \<Rightarrow> [''['' @ s @ '']''] | None \<Rightarrow> []) @ map (\<lambda>(k, v). k @ ''='' @ v) ps) d)),
     if_new = [(None, [])]\<rparr>"

lemma ref_comment_law: "comment_law ref_ini_file"
  by (simp add: comment_law_def ref_ini_file_def)

definition ini_with_bob :: legacy where
  "ini_with_bob = no_legacy\<lparr>lg_ini_path := Some ''/mirc/blowfish.ini'', lg_file := Some [''[bob]'', ''key=00112233'']\<rparr>"

text \<open>After the key of \<open>#fish\<close> was set and the topic setting changed, a new process reads the
  key of \<open>bob\<close> from the file and none for the channel.\<close>

theorem topic_setting_forgets_channel_key_witness:
  "\<exists>k lg1 lg3. set_legacy_key ref_lib ''#fish'' ''0102030405060708'' ini_with_bob = (Inr (), lg1) \<and>
    FiSH10_SetTopicSetting ref_ini_file (Inr ''/mirc/blowfish.ini'') ''net #fish 1'' lg1 = (Inr ''1'', lg3) \<and>
    get_legacy_key ''#fish'' lg3 = Some k \<and>
    lg_file lg3 = Some [''[bob]'', ''key=00112233'', ''[net:#fish]'', ''encrypt_topic=1'']"
proof -
  let ?lg1 = "snd (set_legacy_key ref_lib ''#fish'' ''0102030405060708'' ini_with_bob)"
  let ?lg2 = "snd (FiSH10_SetTopicSetting ref_ini_file (Inr ''/mirc/blowfish.ini'') ''net #fish 1'' ini_with_bob)"
  have h: "hex_law ref_lib" using ref_lib_ok by (simp add: lib_ok_def)
  have n: "ini_name ''#fish''" by code_simp
  have f: "lg_ini_path ini_with_bob = Some ''/mirc/blowfish.ini''" "lg_file ini_with_bob = Some [''[bob]'', ''key=00112233'']"
    "lg_file_ok ini_with_bob"
    by code_simp+
  have u: "snd (update_lines ref_lib ''#fish'' None None [''[bob]'', ''key=00112233'']) = False" by code_simp
  have s: "fst (set_legacy_key ref_lib ''#fish'' ''0102030405060708'' ini_with_bob) = Inr ()" by code_simp
  have t: "fst (FiSH10_SetTopicSetting ref_ini_file (Inr ''/mirc/blowfish.ini'') ''net #fish 1'' ini_with_bob) = Inr ''1''"
    by code_simp
  have l: "lg_file ?lg2 = Some [''[bob]'', ''key=00112233'', ''[net:#fish]'', ''encrypt_topic=1'']" by code_simp
  have hd: "hd ''#fish'' = CHR ''#''" by simp
  have s': "set_legacy_key ref_lib ''#fish'' ''0102030405060708'' ini_with_bob = (Inr (), ?lg1)" using s by (simp add: prod_eq_iff)
  have t': "FiSH10_SetTopicSetting ref_ini_file (Inr ''/mirc/blowfish.ini'') ''net #fish 1'' ini_with_bob = (Inr ''1'', ?lg2)"
    using t by (simp add: prod_eq_iff)
  obtain k lg3 where "FiSH10_SetTopicSetting ref_ini_file (Inr ''/mirc/blowfish.ini'') ''net #fish 1'' ?lg1 = (Inr ''1'', lg3)"
    "lg_file lg3 = lg_file ?lg2" "get_legacy_key ''#fish'' lg3 = Some k"
    using topic_setting_forgets_channel_key [OF ref_comment_law h n hd f u s' t'] by (elim exE conjE) (rule that)
  then show ?thesis using s' l by (intro exI [of _ k] exI [of _ ?lg1] exI [of _ lg3] conjI) (simp_all only:)
qed

end
