(* ===== verification/Platform.thy ===== *)
theory Platform
  imports SslHooks
begin

text \<open>
  What the injector asks of the process around it: attempts at locks that other threads may hold
  (\<open>lock_utils.rs\<close>), the check of an address against the image of its library
  (\<open>pointer_validation.rs\<close>), the search for the functions to detour (\<open>hook_ssl.rs\<close>,
  \<open>helpers_inject.rs\<close>) and the inspection of an OpenSSL library (\<open>ssl_detection.rs\<close>).  The loader
  of the operating system is a record of its answers; a lock is what each attempt at it finds.
\<close>

section \<open>Attempts at a lock\<close>

text \<open>What one \<open>try_lock\<close> finds, with the nanoseconds since the first where the lock is taken.\<close>

datatype attempt = Acquired | Was_Poisoned | Would_Block nat

datatype TryLockError = Lock_Timeout | Lock_Poisoned

primrec try_lock_display :: "TryLockError \<Rightarrow> string" where
  "try_lock_display Lock_Timeout = ''lock acquisition timed out''"
| "try_lock_display Lock_Poisoned = ''mutex was poisoned''"

definition DEFAULT_LOCK_TIMEOUT :: nat where "DEFAULT_LOCK_TIMEOUT = 100 * 10 ^ 6"
definition EXTENDED_LOCK_TIMEOUT :: nat where "EXTENDED_LOCK_TIMEOUT = 500 * 10 ^ 6"
definition UNINSTALL_HOOK_LOCK_TIMEOUT :: nat where "UNINSTALL_HOOK_LOCK_TIMEOUT = 5 * 10 ^ 9"

text \<open>The result of waiting: an answer, a panic, or still waiting after the attempts given.\<close>

datatype 'a waiting = Answer 'a | Panic | Waits

fun try_lock_timeout :: "nat \<Rightarrow> attempt list \<Rightarrow> (TryLockError, unit) result waiting" where
  "try_lock_timeout timeout [] = Waits"
| "try_lock_timeout timeout (Acquired # as) = Answer (Inr ())"
| "try_lock_timeout timeout (Was_Poisoned # as) = Panic"
| "try_lock_timeout timeout (Would_Block elapsed # as) =
     (if timeout \<le> elapsed then Answer (Inl Lock_Timeout) else try_lock_timeout timeout as)"

definition try_lock_default :: "attempt list \<Rightarrow> (TryLockError, unit) result waiting" where
  "try_lock_default = try_lock_timeout DEFAULT_LOCK_TIMEOUT"

definition try_lock_extended :: "attempt list \<Rightarrow> (TryLockError, unit) result waiting" where
  "try_lock_extended = try_lock_timeout EXTENDED_LOCK_TIMEOUT"

definition try_lock_engines :: "attempt list \<Rightarrow> (TryLockError, unit) result waiting" where
  "try_lock_engines as =
     (case try_lock_timeout EXTENDED_LOCK_TIMEOUT as of
        Answer (Inr guard) \<Rightarrow> Answer (Inr guard)
      | Answer (Inl Lock_Timeout) \<Rightarrow> Answer (Inl Lock_Timeout)
      | Answer (Inl Lock_Poisoned) \<Rightarrow> Answer (Inl Lock_Poisoned)
      | Panic \<Rightarrow> Panic
      | Waits \<Rightarrow> Waits)"

text \<open>The macro \<open>get_engines!\<close>: the registry in the static, or the fallback.\<close>

definition get_engines_or :: "attempt list \<Rightarrow> nat option \<Rightarrow> nat \<Rightarrow> nat waiting" where
  "get_engines_or as global fallback =
     (case try_lock_engines as of
        Answer (Inr _) \<Rightarrow> Answer (case global of Some registry \<Rightarrow> registry | None \<Rightarrow> fallback)
      | Answer (Inl e) \<Rightarrow> Answer fallback
      | Panic \<Rightarrow> Panic
      | Waits \<Rightarrow> Waits)"

text \<open>The macros \<open>get_hook_fn!\<close> and \<open>get_hook_fn_extended!\<close>: the trampoline of a hook, or the value
  with which the caller returns at once.\<close>

definition get_hook_fn :: "nat \<Rightarrow> attempt list \<Rightarrow> 'f option \<Rightarrow> 'r \<Rightarrow> ('r, 'f) result waiting" where
  "get_hook_fn timeout as hook error_ret =
     (case try_lock_timeout timeout as of
        Answer (Inr _) \<Rightarrow> Answer (case hook of Some trampoline \<Rightarrow> Inr trampoline | None \<Rightarrow> Inl error_ret)
      | Answer (Inl e) \<Rightarrow> Answer (Inl error_ret)
      | Panic \<Rightarrow> Panic
      | Waits \<Rightarrow> Waits)"

section \<open>The loader\<close>

text \<open>Handles and addresses are numbers, 0 the null pointer; \<open>ld_image\<close> is the base and the
  size of a library's image, the strings behind an address are the bytes up to the NUL.\<close>

record loader =
  ld_handle :: "string \<Rightarrow> nat option"
  ld_load :: "string \<Rightarrow> nat option"
  ld_proc :: "nat \<Rightarrow> string \<Rightarrow> nat option"
  ld_image :: "nat \<Rightarrow> (nat \<times> nat) option"
  ld_call :: "nat \<Rightarrow> bytes option"
  ld_text :: "nat \<Rightarrow> bytes option"
  ld_name :: "nat \<Rightarrow> bytes"

fun show_hex :: "nat \<Rightarrow> string" where
  "show_hex n = (let d = [''0123456789abcdef'' ! (n mod 16)] in if n < 16 then d else show_hex (n div 16) @ d)"

declare show_hex.simps [simp del]

definition validate_function_pointer :: "loader \<Rightarrow> nat option \<Rightarrow> nat option \<Rightarrow> (string, unit) result" where
  "validate_function_pointer D ptr module =
     (case ptr of
        None \<Rightarrow> Inl ''Function pointer is NULL''
      | Some func_addr \<Rightarrow>
          (case module of
             None \<Rightarrow> Inr ()
           | Some h \<Rightarrow>
               (case ld_image D h of
                  None \<Rightarrow> Inl ''Failed to retrieve module information for validation''
                | Some (base_addr, extent) \<Rightarrow>
                    if func_addr < base_addr \<or> base_addr + extent \<le> func_addr then
                      Inl (''Function pointer 0x'' @ show_hex func_addr @ '' is outside module address range ['' @
                           show_hex base_addr @ '' - '' @ show_hex (base_addr + extent) @ '']'')
                    else Inr ())))"

definition unsafe_transmute_validated :: "loader \<Rightarrow> nat option \<Rightarrow> nat option \<Rightarrow> (string, nat) result" where
  "unsafe_transmute_validated D ptr module =
     (case validate_function_pointer D ptr module of
        Inl e \<Rightarrow> Inl e
      | Inr _ \<Rightarrow> Inr (case ptr of Some raw \<Rightarrow> raw | None \<Rightarrow> 0))"

section \<open>The functions to detour\<close>

definition get_winsock_function :: "loader \<Rightarrow> string \<Rightarrow> nat option" where
  "get_winsock_function D func_name =
     (case ld_handle D ''ws2_32.dll'' of
        None \<Rightarrow> None
      | Some ws2_32 \<Rightarrow>
          (let func_addr = ld_proc D ws2_32 func_name in
           if is_ok (validate_function_pointer D func_addr (Some ws2_32)) then func_addr else None))"

definition ssl_lib_names :: "string list" where
  "ssl_lib_names = [''libssl-3.dll'', ''libssl-1_1.dll'', ''libssl-1_1-x64.dll'', ''ssleay32.dll'', ''libssl.dll'',
     ''crypt32.dll'', ''schannel.dll'']"

definition function_variants :: "string \<Rightarrow> string list" where
  "function_variants f = [f, f @ ''@4'', f @ ''@8'', f @ ''@12'', ''_'' @ f @ ''@4'', ''_'' @ f @ ''@8'', ''_'' @ f @ ''@12'', ''_'' @ f]"

fun find_variant :: "loader \<Rightarrow> nat \<Rightarrow> string list \<Rightarrow> nat option" where
  "find_variant D h [] = None"
| "find_variant D h (v # vs) =
     (case ld_proc D h v of
        Some func_ptr \<Rightarrow>
          if is_ok (validate_function_pointer D (Some func_ptr) (Some h)) then Some func_ptr else find_variant D h vs
      | None \<Rightarrow> find_variant D h vs)"

fun find_library :: "loader \<Rightarrow> (string \<Rightarrow> nat option) \<Rightarrow> string list \<Rightarrow> string list \<Rightarrow> nat option" where
  "find_library D get [] variants = None"
| "find_library D get (l # ls) variants =
     (case get l of
        Some h \<Rightarrow>
          if h \<noteq> 0 then
            (case find_variant D h variants of Some p \<Rightarrow> Some p | None \<Rightarrow> find_library D get ls variants)
          else find_library D get ls variants
      | None \<Rightarrow> find_library D get ls variants)"

definition find_ssl_function :: "loader \<Rightarrow> string \<Rightarrow> nat option" where
  "find_ssl_function D function_name =
     (case find_library D (ld_handle D) ssl_lib_names (function_variants function_name) of
        Some func_ptr \<Rightarrow> Some func_ptr
      | None \<Rightarrow> find_library D (ld_load D) ssl_lib_names (function_variants function_name))"

text \<open>\<open>install_hooks\<close> with its addresses: nothing is installed unless all four functions of Winsock
  are found; OpenSSL's are detoured when all four of them are, and whether that fails does not matter.\<close>

definition install_hooks_at :: "loader \<Rightarrow> nat \<Rightarrow> nat \<Rightarrow> nat \<Rightarrow> 'w ssl_state \<Rightarrow> bool \<times> 'w ssl_state" where
  "install_hooks_at D installed created enabled x =
     (if \<exists>f \<in> set [''recv'', ''send'', ''connect'', ''closesocket'']. get_winsock_function D f = None then (False, x)
      else
        (let (ok, g) = install_hooks installed (inj x); x1 = x\<lparr>inj := g\<rparr> in
         if \<not> ok then (False, x1)
         else if \<exists>f \<in> set [''SSL_read'', ''SSL_write'', ''SSL_get_fd'', ''SSL_is_init_finished''].
                   find_ssl_function D f = None \<or> find_ssl_function D f = Some 0
         then (True, x1)
         else (True, snd (install_ssl_hooks created enabled x1))))"

section \<open>An OpenSSL library\<close>

definition text_behind :: "bytes option \<Rightarrow> string option" where
  "text_behind t = (case t of Some bs \<Rightarrow> if utf8_valid bs then Some (str_of bs) else None | None \<Rightarrow> None)"

fun version_from :: "loader \<Rightarrow> nat \<Rightarrow> string list \<Rightarrow> string option" where
  "version_from D h [] = None"
| "version_from D h (func_name # fs) =
     (case (case ld_proc D h func_name of
              None \<Rightarrow> None
            | Some version_fn \<Rightarrow>
                if func_name = ''OPENSSL_VERSION_TEXT'' then text_behind (ld_text D version_fn)
                else
                  (case unsafe_transmute_validated D (Some version_fn) (Some h) of
                     Inr f \<Rightarrow> text_behind (ld_call D f)
                   | Inl e \<Rightarrow> None)) of
        Some found \<Rightarrow> Some found
      | None \<Rightarrow> version_from D h fs)"

definition get_openssl_version :: "loader \<Rightarrow> nat \<Rightarrow> string option" where
  "get_openssl_version D h = version_from D h [''OpenSSL_version'', ''SSLeay_version'', ''OPENSSL_VERSION_TEXT'']"

definition find_ssl_functions :: "loader \<Rightarrow> nat \<Rightarrow> (nat \<times> nat) option" where
  "find_ssl_functions D h =
     (case (ld_proc D h ''SSL_read'', ld_proc D h ''SSL_write'') of
        (Some read_ptr, Some write_ptr) \<Rightarrow> Some (read_ptr, write_ptr)
      | _ \<Rightarrow> None)"

definition get_module_filename :: "loader \<Rightarrow> nat \<Rightarrow> string option" where
  "get_module_filename D h =
     (let filename = take 260 (ld_name D h) in
      if filename = [] then None
      else if utf8_valid filename then Some (last (split_char (CHR 0x5C) (str_of filename))) else None)"

section \<open>Facts\<close>

text \<open>A lock that is not got is answered with a timeout, once that has passed; a poisoned
  lock is never an answer: it stops the process.\<close>

lemma try_lock_no_poison: "try_lock_timeout timeout as \<noteq> Answer (Inl Lock_Poisoned)"
  by (induction timeout as rule: try_lock_timeout.induct) auto

lemma try_lock_ends:
  "\<exists>a \<in> set as. case a of Would_Block elapsed \<Rightarrow> timeout \<le> elapsed | _ \<Rightarrow> True \<Longrightarrow> try_lock_timeout timeout as \<noteq> Waits"
  by (induction timeout as rule: try_lock_timeout.induct) auto

lemma validated_inside:
  "validate_function_pointer D (Some a) (Some h) = Inr () \<longleftrightarrow>
     (\<exists>base extent. ld_image D h = Some (base, extent) \<and> base \<le> a \<and> a < base + extent)"
  by (auto simp: validate_function_pointer_def not_less split: option.splits)

text \<open>What a search may find, in the order in which it is looked at.\<close>

definition exported :: "loader \<Rightarrow> string list \<Rightarrow> nat \<Rightarrow> nat list" where
  "exported D variants h = List.map_filter
     (\<lambda>v. case ld_proc D h v of
            Some a \<Rightarrow> if is_ok (validate_function_pointer D (Some a) (Some h)) then Some a else None
          | None \<Rightarrow> None) variants"

definition libraries :: "loader \<Rightarrow> nat list" where
  "libraries D = filter (\<lambda>h. h \<noteq> 0) (List.map_filter (ld_handle D) ssl_lib_names @ List.map_filter (ld_load D) ssl_lib_names)"

definition first :: "'a list \<Rightarrow> 'a option" where
  "first xs = (case xs of [] \<Rightarrow> None | x # _ \<Rightarrow> Some x)"

lemma first_append: "first (xs @ ys) = (case first xs of Some x \<Rightarrow> Some x | None \<Rightarrow> first ys)"
  by (cases xs) (simp_all add: first_def)

lemma find_variant_first: "find_variant D h vs = first (exported D vs h)"
  by (induction vs) (auto simp: exported_def first_def List.map_filter_simps split: option.split)

lemma first_Nil [simp]: "first [] = None"
  by (simp add: first_def)

lemma first_in: "first xs = Some x \<Longrightarrow> x \<in> set xs"
  by (cases xs) (simp_all add: first_def)

lemma find_library_first:
  "find_library D get ls vs = first (concat (map (exported D vs) (filter (\<lambda>h. h \<noteq> 0) (List.map_filter get ls))))"
  by (induction ls) (auto simp: List.map_filter_simps first_append find_variant_first split: option.split)

text \<open>The search for a function of OpenSSL is the first of all candidates: the libraries
  that are loaded before those that can be loaded, each in the order of the list, and in each
  the eight spellings of the name in their order, less the addresses outside the image of
  the library that exports them.\<close>

lemma find_ssl_function_first:
  "find_ssl_function D f = first (concat (map (exported D (function_variants f)) (libraries D)))"
  unfolding find_ssl_function_def libraries_def
  by (simp only: find_library_first filter_append map_append concat_append first_append)

lemma find_ssl_function_sound:
  assumes "find_ssl_function D f = Some a"
  shows "\<exists>l h v base extent. l \<in> set ssl_lib_names \<and> (ld_handle D l = Some h \<or> ld_load D l = Some h) \<and>
    v \<in> set (function_variants f) \<and> ld_proc D h v = Some a \<and>
    ld_image D h = Some (base, extent) \<and> base \<le> a \<and> a < base + extent"
proof -
  have "a \<in> set (concat (map (exported D (function_variants f)) (filter (\<lambda>h. h \<noteq> 0) (List.map_filter (ld_handle D) ssl_lib_names)))) \<or>
      a \<in> set (concat (map (exported D (function_variants f)) (filter (\<lambda>h. h \<noteq> 0) (List.map_filter (ld_load D) ssl_lib_names))))"
    using assms unfolding find_ssl_function_def find_library_first
    by (simp only: split: option.splits) (blast intro: first_in)+
  then obtain h where h: "a \<in> set (exported D (function_variants f) h)"
      "\<exists>l \<in> set ssl_lib_names. ld_handle D l = Some h \<or> ld_load D l = Some h"
    by (fastforce simp: List.map_filter_def)
  then obtain v where v: "v \<in> set (function_variants f)" "ld_proc D h v = Some a"
      "is_ok (validate_function_pointer D (Some a) (Some h))"
    by (auto simp: exported_def List.map_filter_def split: option.splits if_splits)
  then have "validate_function_pointer D (Some a) (Some h) = Inr ()"
    by (cases "validate_function_pointer D (Some a) (Some h)") auto
  then show ?thesis using h(2) v unfolding validated_inside by blast
qed

text \<open>The detours on OpenSSL are in place only after all four functions were found.\<close>

lemma ssl_hooks_need_functions:
  assumes "install_hooks_at D installed created enabled x = (ok, x1)" "\<not> ssl_hooks_installed x" "ssl_hooks_installed x1"
    "f \<in> {''SSL_read'', ''SSL_write'', ''SSL_get_fd'', ''SSL_is_init_finished''}"
  shows "ok \<and> find_ssl_function D f \<noteq> None"
  using assms by (auto simp: install_hooks_at_def Let_def split: prod.splits if_splits)

text \<open>The functions are looked for one by one, so they need not come from one library: here the
  read is detoured in one and the write in another.\<close>

definition two_libraries :: loader where
  "two_libraries = \<lparr>ld_handle = map_of [(''libssl-3.dll'', 1), (''libssl.dll'', 2)], ld_load = (\<lambda>_. None),
     ld_proc = (\<lambda>h f. if h = 1 then map_of [(''SSL_read'', 4100)] f
                     else map_of [(''SSL_read'', 8200), (''SSL_write'', 8300)] f),
     ld_image = (\<lambda>h. Some (4096 * h, 4096)), ld_call = (\<lambda>_. None), ld_text = (\<lambda>_. None), ld_name = (\<lambda>_. [])\<rparr>"

lemma ssl_functions_of_two_libraries:
  "find_ssl_function two_libraries ''SSL_read'' = ld_proc two_libraries 1 ''SSL_read''"
  "find_ssl_function two_libraries ''SSL_write'' = ld_proc two_libraries 2 ''SSL_write''"
  by (simp_all add: find_ssl_function_def ssl_lib_names_def function_variants_def two_libraries_def
      validate_function_pointer_def)

end
