(* ===== verification/CoreBuffers.thy ===== *)
theory CoreBuffers
  imports Buffers
begin

text \<open>
  The second copy of the buffer functions, \<open>fish_11_core/src/buffer_utils.rs\<close>, where it differs
  from the DLL's (\<open>Buffers\<close>): the write clears the whole buffer, the texts of the echo commands
  differ, and the three helpers of a checked write are public.  A write is the bytes of
  the caller's memory, as in \<open>Buffers\<close>; a write past their end is \<open>None\<close>.
\<close>

definition core_write_cstring_to_buffer ::
  "bytes option \<Rightarrow> nat \<Rightarrow> bytes \<Rightarrow> (string, unit) result \<times> bytes option" where
  "core_write_cstring_to_buffer data buffer_size message =
     (case data of
        None \<Rightarrow> (Inl ''null data pointer'', None)
      | Some buf \<Rightarrow>
          if buffer_size = 0 then (Inl ''zero buffer size'', Some buf)
          else
            (let bs = message @ [0];
                 copy_len = min (length bs) buffer_size;
                 safe_len = min copy_len MIRC_DLL_RESULT_PAYLOAD_CAP;
                 cleared = replicate buffer_size 0 @ drop buffer_size buf;
                 copied = take safe_len bs @ drop safe_len cleared;
                 terminated = (if safe_len > 0 then copied[safe_len - 1 := 0] else copied)
             in (Inr (), Some terminated)))"

definition core_write_string_to_buffer ::
  "bytes option \<Rightarrow> nat \<Rightarrow> string \<Rightarrow> (BufferError, unit) result \<times> bytes option" where
  "core_write_string_to_buffer data buffer_size message =
     (case cstring_new message of
        None \<Rightarrow> (Inl BE_EncodingError, data)
      | Some c \<Rightarrow> (let (r, d) = core_write_cstring_to_buffer data buffer_size c in
                  (map_err (\<lambda>_. BE_InvalidBufferSize) r, d)))"

text \<open>\<open>unix\<close> is the time in seconds.\<close>

definition two_digits :: "nat \<Rightarrow> string" where
  "two_digits n = (if n < 10 then ''0'' else []) @ show_nat n"

definition core_create_echo_command :: "nat \<Rightarrow> string \<Rightarrow> EchoStyle \<Rightarrow> string" where
  "core_create_echo_command unix message style =
     (case style of
        Echo_Normal \<Rightarrow> message
      | Echo_Timestamp \<Rightarrow>
          (let secs = unix mod 86400; hours = secs div 3600; minutes = secs mod 3600 div 60; seconds = secs mod 60
           in ''['' @ two_digits hours @ '':'' @ two_digits minutes @ '':'' @ two_digits seconds @ ''] '' @ message)
      | Echo_Error \<Rightarrow> ''ERROR: '' @ message)"

definition core_write_echo_command_to_buffer ::
  "nat \<Rightarrow> bytes option \<Rightarrow> nat \<Rightarrow> string \<Rightarrow> EchoStyle \<Rightarrow> (BufferError, unit) result \<times> bytes option" where
  "core_write_echo_command_to_buffer unix data buffer_size message style =
     core_write_string_to_buffer data buffer_size (core_create_echo_command unix message style)"

definition validate_buffer_params :: "bytes option \<Rightarrow> nat \<Rightarrow> (BufferError, unit) result" where
  "validate_buffer_params data buffer_size =
     (if data = None then Inl BE_NullPointer
      else if buffer_size < 2 then Inl BE_InvalidBufferSize
      else Inr ())"

definition calculate_safe_copy_length :: "nat \<Rightarrow> nat \<Rightarrow> (BufferError, nat) result" where
  "calculate_safe_copy_length message_len buffer_size =
     (if buffer_size < message_len then Inl BE_MessageTooLarge else Inr (min message_len (buffer_size - 1)))"

definition perform_buffer_write :: "bytes \<Rightarrow> nat \<Rightarrow> bytes \<Rightarrow> nat \<Rightarrow> bytes option" where
  "perform_buffer_write buf buffer_size bs safe_len =
     (let cleared = replicate buffer_size 0 @ drop buffer_size buf;
          copied = (if 0 < safe_len then take safe_len bs @ drop safe_len cleared else cleared)
      in if length buf < buffer_size \<or> length buf \<le> safe_len then None else Some (copied[safe_len := 0]))"

definition core_write_error_to_buffer :: "bytes option \<Rightarrow> nat \<Rightarrow> string \<Rightarrow> string option \<Rightarrow> bytes option" where
  "core_write_error_to_buffer data buffer_size error_msg trace_id =
     (let formatted_msg = (case trace_id of
            Some i \<Rightarrow> ''Error ['' @ i @ '']: '' @ error_msg
          | None \<Rightarrow> ''Error: '' @ error_msg);
          error_cstring = create_error_message formatted_msg ''Internal error occurred''
      in case core_write_cstring_to_buffer data buffer_size error_cstring of
           (Inl _, d) \<Rightarrow> snd (core_write_cstring_to_buffer d buffer_size (as_bytes ''Error''))
         | (Inr _, d) \<Rightarrow> d)"

section \<open>The two copies\<close>

text \<open>Both copies give the same answer and write the same bytes up to the NUL; the DLL's leaves
  the rest of the buffer as it was, the other's clears it, against its own comment.\<close>

lemma copies_agree:
  assumes "buffer_size \<le> length buf"
  shows "\<exists>n m. core_write_cstring_to_buffer (Some buf) buffer_size message =
      (fst (write_cstring_to_buffer (Some buf) buffer_size message),
       map_option (\<lambda>b. take n b @ replicate m 0 @ drop (n + m) b)
         (snd (write_cstring_to_buffer (Some buf) buffer_size message))) \<and> n + m = buffer_size \<and>
    n = min (min (length message + 1) buffer_size) MIRC_DLL_RESULT_PAYLOAD_CAP"
proof -
  define n where "n = min (min (length message + 1) buffer_size) MIRC_DLL_RESULT_PAYLOAD_CAP"
  show ?thesis
  proof (cases "buffer_size = 0")
    case True
    then show ?thesis
      by (intro exI [of _ 0]) (simp add: core_write_cstring_to_buffer_def write_cstring_to_buffer_def)
  next
    case False
    have cap: "MIRC_DLL_RESULT_PAYLOAD_CAP \<noteq> 0" by (simp add: MIRC_DLL_RESULT_PAYLOAD_CAP_def)
    have pos: "0 < n" and le: "n \<le> buffer_size" "n \<le> length (message @ [0])"
      using False by (simp_all add: n_def MIRC_DLL_RESULT_PAYLOAD_CAP_def)
    define t where "t = (take n (message @ [0]))[n - 1 := 0]"
    have lt: "length t = n" using le(2) by (simp only: t_def length_list_update length_take min_absorb2)
    have u: "(take n (message @ [0]) @ xs)[n - 1 := 0] = t @ xs" for xs :: bytes
    proof -
      have "n - 1 < length (take n (message @ [0]))" using pos lt unfolding t_def length_list_update by linarith
      then show ?thesis unfolding t_def by (rule list_update_append1)
    qed
    have "write_cstring_to_buffer (Some buf) buffer_size message = (Inr (), Some (t @ drop n buf))"
      using False pos le(1) assms u cap unfolding write_cstring_to_buffer_def
      by (simp add: Let_def n_def [symmetric, simplified])
    moreover have "core_write_cstring_to_buffer (Some buf) buffer_size message =
        (Inr (), Some (t @ replicate (buffer_size - n) 0 @ drop buffer_size buf))"
      using False pos le(1) u cap unfolding core_write_cstring_to_buffer_def
      by (simp add: Let_def n_def [symmetric, simplified])
    ultimately show ?thesis using lt le(1) n_def
      by (intro exI [of _ n] exI [of _ "buffer_size - n"] conjI) simp_all
  qed
qed

text \<open>A write whose parameters were checked and whose length was computed stays inside.\<close>

lemma checked_write_in_bounds:
  assumes "validate_buffer_params (Some buf) buffer_size = Inr ()" "buffer_size \<le> length buf"
    "calculate_safe_copy_length (length bs) buffer_size = Inr n"
  shows "\<exists>b. perform_buffer_write buf buffer_size bs n = Some b \<and> length b = length buf \<and> take n b = take n bs \<and> b ! n = 0"
proof -
  have n: "n = min (length bs) (buffer_size - 1)" "2 \<le> buffer_size"
    using assms(1,3) by (auto simp: validate_buffer_params_def calculate_safe_copy_length_def split: if_splits)
  then have b: "n < length buf" "n \<le> length bs" "n < buffer_size" using assms(2) by auto
  let ?c = "if 0 < n then take n bs @ drop n (replicate buffer_size 0 @ drop buffer_size buf)
    else replicate buffer_size 0 @ drop buffer_size buf"
  have c: "length ?c = length buf" "take n ?c = take n bs" using n b assms(2) by auto
  have "perform_buffer_write buf buffer_size bs n = Some (?c[n := 0])"
    using b assms(2) by (simp add: perform_buffer_write_def Let_def)
  moreover have "?c[n := 0] ! n = 0" using c(1) b(1) by (intro nth_list_update_eq) simp
  moreover have "take n (?c[n := 0]) = take n bs" using c(2) by (simp only: take_update_cancel order_refl)
  ultimately show ?thesis using c(1) by (intro exI [of _ "?c[n := 0]"]) (simp only: length_list_update)
qed

text \<open>A message that fills the buffer is accepted and loses its last byte.\<close>

lemma full_message_loses_last_byte:
  "0 < buffer_size \<Longrightarrow> calculate_safe_copy_length buffer_size buffer_size = Inr (buffer_size - 1)"
  by (simp add: calculate_safe_copy_length_def)

end
