(* ===== verification/Wrappers.thy ===== *)
theory Wrappers
  imports CoreBuffers ExportFacts
begin

text \<open>
  The common frames for an exported function: \<open>dll_function_wrapper\<close> of
  \<open>dll_function_utils.rs\<close>, \<open>execute_dll_function\<close> of \<open>dll_interface/function_template.rs\<close> and the
  error answers of \<open>dll_interface/dll_error.rs\<close>.  The body of a function may panic: its outcome
  is then \<open>Inl\<close> of the text of the panic, where it has one.  \<open>trace\<close> is the trace
  identifier, \<open>buf_size\<close> what \<open>get_buffer_size\<close> reports, times are in nanoseconds.
\<close>

primrec buffer_error_display :: "BufferError \<Rightarrow> string" where
  "buffer_error_display BE_NullPointer = ''null pointer provided''"
| "buffer_error_display BE_InvalidBufferSize = ''invalid buffer size''"
| "buffer_error_display BE_MessageTooLarge = ''message too large for buffer''"
| "buffer_error_display BE_EncodingError = ''string encoding error''"

datatype FunctionError = Fn_InvalidInput string | Fn_BufferError BufferError | Fn_ProcessingError string | Fn_TimeoutError

primrec function_error_display :: "FunctionError \<Rightarrow> string" where
  "function_error_display (Fn_InvalidInput msg) = ''Invalid input: '' @ msg"
| "function_error_display (Fn_BufferError e) = ''Buffer error: '' @ buffer_error_display e"
| "function_error_display (Fn_ProcessingError msg) = ''Processing error: '' @ msg"
| "function_error_display Fn_TimeoutError = ''Operation timed out''"

definition validate_dll_params :: "bytes option \<Rightarrow> nat \<Rightarrow> (FunctionError, unit) result" where
  "validate_dll_params data buffer_size =
     (if data = None then Inl (Fn_InvalidInput ''Data pointer is null'')
      else if buffer_size \<le> 1 then Inl (Fn_InvalidInput (''Invalid buffer size: '' @ show_nat buffer_size))
      else Inr ())"

definition extract_input_string :: "bytes \<Rightarrow> (FunctionError, string) result" where
  "extract_input_string buf =
     (case from_utf8 (read_cstr buf) of
        Some s \<Rightarrow> Inr s
      | None \<Rightarrow> Inl (Fn_InvalidInput ''Invalid ANSI input''))"

definition handle_dll_panic :: "bytes option \<Rightarrow> nat \<Rightarrow> string \<Rightarrow> string option \<Rightarrow> int \<times> bytes option" where
  "handle_dll_panic data buffer_size trace panic_info =
     (let panic_message = (case panic_info of
            Some s \<Rightarrow> ''Critical error: '' @ s
          | None \<Rightarrow> ''Critical error in function'')
      in (MIRC_COMMAND, write_error_to_buffer data buffer_size panic_message (Some trace)))"

type_synonym 'a outcome = "string option + 'a"

definition dll_function_wrapper ::
  "nat \<Rightarrow> string \<Rightarrow> (bytes option \<Rightarrow> (FunctionError, 'a) result outcome \<times> bytes option) \<Rightarrow> bytes option \<Rightarrow> int \<times> bytes option" where
  "dll_function_wrapper buf_size trace operation data =
     (case validate_dll_params data buf_size of
        Inl e \<Rightarrow> (MIRC_HALT, write_error_to_buffer data buf_size (function_error_display e) (Some trace))
      | Inr _ \<Rightarrow>
          (let (r, data1) = operation data in
           case r of
             Inr (Inr _) \<Rightarrow> (MIRC_COMMAND, data1)
           | Inr (Inl e) \<Rightarrow> (MIRC_COMMAND, write_error_to_buffer data1 buf_size (function_error_display e) (Some trace))
           | Inl panic_info \<Rightarrow> handle_dll_panic data1 buf_size trace panic_info))"

definition check_timeout :: "nat \<Rightarrow> nat \<Rightarrow> (FunctionError, unit) result" where
  "check_timeout timeout_secs elapsed = (if timeout_secs * 10 ^ 9 < elapsed then Inl Fn_TimeoutError else Inr ())"

definition execute_dll_function ::
  "nat \<Rightarrow> string \<Rightarrow> nat \<Rightarrow> nat \<Rightarrow> (string \<Rightarrow> string \<Rightarrow> (string, string) result outcome) \<Rightarrow> bytes option \<Rightarrow> int \<times> bytes option" where
  "execute_dll_function buf_size trace timeout elapsed handler data =
     (if buf_size \<le> 1 \<or> data = None then (MIRC_HALT, data)
      else
        (case parse_buffer_input data of
           Inl e \<Rightarrow> write_error_message buf_size data e
         | Inr input \<Rightarrow>
             if timeout < elapsed then write_error_message buf_size data ''function timed out''
             else
               (case handler input trace of
                  Inr (Inr res) \<Rightarrow> write_result buf_size data res
                | Inr (Inl error) \<Rightarrow> write_error_message buf_size data error
                | Inl _ \<Rightarrow> write_error_message buf_size data ''internal error occurred'')))"

datatype InterfaceError = If_InvalidInput string | If_BufferError string | If_ConfigError string | If_CryptoError string
  | If_Timeout | If_NullPointer | If_NotConnected string

definition handle_error :: "nat \<Rightarrow> InterfaceError \<Rightarrow> bytes option \<Rightarrow> int \<times> bytes option" where
  "handle_error buf_size err data =
     (let answer = (\<lambda>text. (MIRC_COMMAND, snd (write_error_message buf_size data text))) in
      case err of
        If_NullPointer \<Rightarrow> (MIRC_HALT, data)
      | If_Timeout \<Rightarrow> answer ''Operation timed out''
      | If_InvalidInput msg \<Rightarrow> answer (''Invalid input: '' @ msg)
      | If_BufferError msg \<Rightarrow> answer (''Buffer error: '' @ msg)
      | If_ConfigError msg \<Rightarrow> answer (''Configuration error: '' @ msg)
      | If_CryptoError msg \<Rightarrow> answer (''Cryptography error: '' @ msg)
      | If_NotConnected msg \<Rightarrow> answer (''Not connected to IRC: '' @ msg))"

definition log_and_return_error_code :: "InterfaceError \<Rightarrow> int" where
  "log_and_return_error_code err = (if err = If_NullPointer then MIRC_HALT else MIRC_COMMAND)"

section \<open>Facts\<close>

text \<open>Whatever the body does, a panic among it, the caller gets one of three codes, and a null
  pointer is never written to.\<close>

lemma frames_answer:
  "fst (execute_dll_function buf_size trace timeout elapsed handler data) \<in> {MIRC_HALT, MIRC_IDENTIFIER}"
  "fst (dll_function_wrapper buf_size trace operation data) \<in> {MIRC_HALT, MIRC_COMMAND}"
  by (auto simp: execute_dll_function_def dll_function_wrapper_def write_error_message_def write_result_def
      handle_dll_panic_def Let_def split: sum.split prod.split)

lemma write_to_null: "snd (write_cstring_to_buffer None n m) = None"
  by (simp add: write_cstring_to_buffer_def)

lemma frames_null:
  "snd (execute_dll_function buf_size trace timeout elapsed handler None) = None"
  "dll_function_wrapper buf_size trace operation None = (MIRC_HALT, None)"
  by (auto simp: execute_dll_function_def dll_function_wrapper_def validate_dll_params_def write_error_to_buffer_def
      write_cstring_to_buffer_def Let_def)

lemma error_codes_agree: "fst (handle_error buf_size err data) = log_and_return_error_code err"
  by (cases err) (simp_all add: handle_error_def log_and_return_error_code_def Let_def)

text \<open>A panic reaches the caller as a text, cut like every result.\<close>

lemma panic_is_reported:
  assumes "operation (Some buf) = (Inl (Some s), Some buf)" "900 \<le> buf_size" "buf_size \<le> length buf"
    "0 \<notin> set (as_bytes (''Error ['' @ trace @ '']: '' @ ''Critical error: '' @ s))"
  shows "\<exists>b. dll_function_wrapper buf_size trace operation (Some buf) = (MIRC_COMMAND, Some b) \<and>
    read_cstr b = take 899 (as_bytes (''Error ['' @ trace @ '']: '' @ ''Critical error: '' @ s))"
proof -
  have v: "validate_dll_params (Some buf) buf_size = Inr ()" using assms(2) by (simp add: validate_dll_params_def)
  have c: "create_error_message (''Error ['' @ trace @ '']: '' @ ''Critical error: '' @ s) f =
      as_bytes (''Error ['' @ trace @ '']: '' @ ''Critical error: '' @ s)" for f
    using assms(4) unfolding create_error_message_def cstring_new_def by (simp only: if_False option.case)
  obtain b where "write_cstring_to_buffer (Some buf) buf_size (as_bytes (''Error ['' @ trace @ '']: '' @ ''Critical error: '' @ s)) = (Inr (), Some b)"
    "read_cstr b = take 899 (as_bytes (''Error ['' @ trace @ '']: '' @ ''Critical error: '' @ s))"
    using written_text [OF assms(2-4)] by (elim exE conjE) (rule that)
  then show ?thesis
    unfolding dll_function_wrapper_def v assms(1) handle_dll_panic_def write_error_to_buffer_def Let_def
    by (intro exI [of _ b]) (simp only: option.case sum.case prod.case c)
qed

end
