(* ===== verification/Registration.thy ===== *)
theory Registration
  imports Lifecycle HookProps
begin

text \<open>
  How the DLL's engine gets into the injector: \<open>register_engine\<close> and
  \<open>get_network_name_from_inject\<close> of \<open>engine_registration.rs\<close>, called from \<open>DllMain\<close>, and the
  injector's own loading and unloading.  \<open>procs\<close> is what \<open>GetProcAddress\<close> finds in
  \<open>fish_11_inject.dll\<close>, \<open>addr\<close> the address of the DLL's static \<open>FISH_INJECT_ENGINE\<close>.
\<close>

section \<open>Registration\<close>

text \<open>The injector with whether its library is in the process, and the two cells of the DLL that
  hold an address once it was found.\<close>

record 'w link =
  lk_inject :: "'w inject"
  lk_present :: bool
  lk_network_fn :: "nat option"
  lk_free_fn :: "nat option"

definition once_set :: "nat option \<Rightarrow> nat option \<Rightarrow> nat option" where
  "once_set found cell = (case cell of Some f \<Rightarrow> Some f | None \<Rightarrow> found)"

definition register_engine :: "(string \<Rightarrow> nat option) \<Rightarrow> nat \<Rightarrow> 'w FishInjectEngine \<Rightarrow> 'w link \<Rightarrow> 'w link" where
  "register_engine procs addr engine k =
     (if \<not> lk_present k then k
      else
        (let k1 = k\<lparr>lk_network_fn := once_set (procs ''GetNetworkName'') (lk_network_fn k)\<rparr>;
             k2 = k1\<lparr>lk_free_fn := once_set (procs ''FreeString'') (lk_free_fn k1)\<rparr>
         in if procs ''RegisterEngine'' = None then k2
            else k2\<lparr>lk_inject := snd (RegisterEngine addr engine (lk_inject k2))\<rparr>))"

definition get_network_name_from_inject :: "u32 \<Rightarrow> 'w link \<Rightarrow> string option" where
  "get_network_name_from_inject socket_id k =
     (if lk_network_fn k = None then None
      else map_option from_utf8_lossy (GetNetworkName socket_id (lk_inject k)))"

section \<open>The life of a process\<close>

text \<open>What mIRC and the traffic make of the two libraries.  \<open>Inject_Load bytes installed\<close> is a
  call of the injector's \<open>LoadDll\<close>, \<open>Inject_Unload\<close> one of its \<open>UnloadDll\<close>, after which the library
  is freed unless the code is 1; \<open>Traffic\<close> the first use of a socket.\<close>

datatype link_event = Inject_Load "u32 option" nat | Inject_Unload int | Traffic u32 | Dll_Attach bool | Dll_Detach

definition dll_main :: "(string \<Rightarrow> nat option) \<Rightarrow> nat \<Rightarrow> 'w FishInjectEngine \<Rightarrow> bool \<Rightarrow> nat \<Rightarrow> 'w link \<Rightarrow> 'w link" where
  "dll_main procs addr engine logger_ok reason k =
     p_state (snd (DllMain logger_ok (register_engine procs addr engine) reason (process_start k)))"

fun link_step :: "(string \<Rightarrow> nat option) \<Rightarrow> nat \<Rightarrow> 'w FishInjectEngine \<Rightarrow> link_event \<Rightarrow> 'w link \<Rightarrow> 'w link" where
  "link_step procs addr engine (Inject_Load bytes installed) k =
     k\<lparr>lk_inject := snd (LoadDll bytes installed (lk_inject k)), lk_present := True\<rparr>"
| "link_step procs addr engine (Inject_Unload action) k =
     k\<lparr>lk_inject := snd (UnloadDll action (lk_inject k)), lk_present := lk_present k \<and> action = 1\<rparr>"
| "link_step procs addr engine (Traffic socket) k =
     k\<lparr>lk_inject := snd (get_or_create_socket socket (lk_inject k))\<rparr>"
| "link_step procs addr engine (Dll_Attach logger_ok) k = dll_main procs addr engine logger_ok 1 k"
| "link_step procs addr engine Dll_Detach k =
     (dll_main procs addr engine True 0 k)\<lparr>lk_network_fn := None, lk_free_fn := None\<rparr>"

definition link_run :: "(string \<Rightarrow> nat option) \<Rightarrow> nat \<Rightarrow> 'w FishInjectEngine \<Rightarrow> link_event list \<Rightarrow> 'w link \<Rightarrow> 'w link" where
  "link_run procs addr engine = fold (link_step procs addr engine)"

definition link_start :: "'w link" where
  "link_start = \<lparr>lk_inject = inject_start, lk_present = False, lk_network_fn = None, lk_free_fn = None\<rparr>"

text \<open>The engine at an address is in the registry that new sockets get.\<close>

definition listed :: "nat \<Rightarrow> 'w inject \<Rightarrow> bool" where
  "listed addr g = (case engines g of Some i \<Rightarrow> hm_has (registered_ptrs (registries g ! i)) addr | None \<Rightarrow> False)"

section \<open>Facts\<close>

definition registry_allocated :: "'w inject \<Rightarrow> bool" where
  "registry_allocated g \<longleftrightarrow> (\<forall>i. engines g = Some i \<longrightarrow> i < length (registries g))"

lemma listed_iff: "listed addr g \<longleftrightarrow> (\<exists>i. engines g = Some i \<and> hm_has (registered_ptrs (registries g ! i)) addr)"
  by (simp add: listed_def split: option.split)

lemma init_engines_listed:
  assumes "registry_allocated g"
  shows "registry_allocated (snd (init_engines g))" "listed addr (snd (init_engines g)) = listed addr g"
  using assms by (auto simp: registry_allocated_def listed_iff init_engines_def InjectEngines_new_def nth_append split: option.splits)

lemma load_listed:
  assumes "registry_allocated g"
  shows "registry_allocated (snd (LoadDll bytes installed g))" "listed addr (snd (LoadDll bytes installed g)) = listed addr g"
proof -
  have "registry_allocated (g\<lparr>max_mirc_return_bytes := b\<rparr>)" "listed addr (g\<lparr>max_mirc_return_bytes := b\<rparr>) = listed addr g" for b
    using assms by (simp_all add: registry_allocated_def listed_iff)
  note I = init_engines_listed(1) [OF this(1)] init_engines_listed(2) [where addr = addr, OF this(1), unfolded this(2)]
  have "registry_allocated (snd (LoadDll bytes installed g)) \<and> listed addr (snd (LoadDll bytes installed g)) = listed addr g"
  proof (cases bytes)
    case (Some b)
    obtain r g1 where "init_engines (g\<lparr>max_mirc_return_bytes := unat b\<rparr>) = (r, g1)" by fastforce
    with I [of "unat b"] Some
    show ?thesis
      by (simp_all add: LoadDll_def install_hooks_def listed_iff registry_allocated_def Let_def)
  qed (use assms in \<open>simp_all add: LoadDll_def\<close>)
  then show "registry_allocated (snd (LoadDll bytes installed g))" "listed addr (snd (LoadDll bytes installed g)) = listed addr g" by simp_all
qed

lemma unload_listed:
  "registry_allocated g \<Longrightarrow> registry_allocated (snd (UnloadDll action g))"
  "listed addr (snd (UnloadDll action g)) \<longleftrightarrow> listed addr g \<and> action = 1"
  by (auto simp: UnloadDll_def registry_allocated_def listed_iff)

lemma traffic_listed:
  assumes "registry_allocated g"
  shows "registry_allocated (snd (get_or_create_socket socket g))" "listed addr (snd (get_or_create_socket socket g)) = listed addr g"
  using init_engines_listed(1) [OF assms] init_engines_listed(2) [where addr = addr, OF assms] assms
  by (auto simp: get_or_create_socket_def registry_allocated_def listed_iff put_socket_def Let_def split: option.splits prod.splits)

lemma register_listed:
  assumes "addr \<noteq> 0" "fe_version engine = FISH_INJECT_ENGINE_VERSION" "registry_allocated (lk_inject k)" "procs ''RegisterEngine'' \<noteq> None"
  shows "listed addr (lk_inject (register_engine procs addr engine k)) \<longleftrightarrow>
      listed addr (lk_inject k) \<or> lk_present k \<and> engines (lk_inject k) \<noteq> None"
    "registry_allocated (lk_inject (register_engine procs addr engine k))"
proof -
  obtain e where e: "SafeEngine_new addr engine = Some e" "engine_addr e = addr"
    using assms(1,2) by (simp add: SafeEngine_new_def)
  show "listed addr (lk_inject (register_engine procs addr engine k)) \<longleftrightarrow>
      listed addr (lk_inject k) \<or> lk_present k \<and> engines (lk_inject k) \<noteq> None"
    using assms e by (auto simp: register_engine_def RegisterEngine_def register_def listed_iff registry_allocated_def Let_def
        split: option.splits prod.splits)
  show "registry_allocated (lk_inject (register_engine procs addr engine k))"
    using assms(3) by (auto simp: register_engine_def RegisterEngine_def registry_allocated_def Let_def split: option.splits prod.splits)
qed

text \<open>One event.\<close>

definition attaches :: "link_event \<Rightarrow> 'w link \<Rightarrow> bool" where
  "attaches ev k \<longleftrightarrow> ev = Dll_Attach True \<and> lk_present k \<and> engines (lk_inject k) \<noteq> None"

definition unloads :: "link_event \<Rightarrow> bool" where
  "unloads ev \<longleftrightarrow> (\<exists>action. ev = Inject_Unload action \<and> action \<noteq> 1)"

lemma link_step_listed:
  assumes "addr \<noteq> 0" "fe_version engine = FISH_INJECT_ENGINE_VERSION" "procs ''RegisterEngine'' \<noteq> None" "registry_allocated (lk_inject k)"
  shows "registry_allocated (lk_inject (link_step procs addr engine ev k)) \<and>
    (listed addr (lk_inject (link_step procs addr engine ev k)) \<longleftrightarrow> attaches ev k \<or> listed addr (lk_inject k) \<and> \<not> unloads ev)"
proof (cases ev)
  case (Dll_Attach ok)
  then show ?thesis using register_listed [where procs = procs and addr = addr and engine = engine, OF assms(1,2,4,3)] assms(4)
    by (cases ok) (auto simp: dll_main_def DllMain_def process_start_def attaches_def unloads_def)
qed (use assms(4) in \<open>simp_all add: load_listed unload_listed traffic_listed dll_main_def DllMain_def process_start_def
    attaches_def unloads_def\<close>)

lemma link_start_ok: "registry_allocated (lk_inject link_start)" "\<not> listed addr (lk_inject link_start)"
  by (simp_all add: registry_allocated_def listed_iff link_start_def inject_start_def)

lemma link_run_ok:
  assumes "addr \<noteq> 0" "fe_version engine = FISH_INJECT_ENGINE_VERSION" "procs ''RegisterEngine'' \<noteq> None"
  shows "registry_allocated (lk_inject (link_run procs addr engine es link_start))"
  unfolding link_run_def
  by (induction es rule: rev_induct) (use link_start_ok(1) link_step_listed [where procs = procs and addr = addr and engine = engine, OF assms] in auto)

text \<open>C17: the DLL's engine is in the registry that new sockets get exactly when the DLL was
  attached, with its logger running, while the injector was already loaded, and the injector was
  not unloaded since.  So a DLL that is loaded before the injector, as the start-up script
  \<open>fish_11.mrc\<close> does it, never encrypts or decrypts a line, whatever is loaded later; and the engine of a DLL that is detached stays registered, though
  the addresses of its callbacks are no longer valid: nothing ever calls \<open>UnregisterEngine\<close>.\<close>

theorem engine_registered_iff:
  assumes "addr \<noteq> 0" "fe_version engine = FISH_INJECT_ENGINE_VERSION" "procs ''RegisterEngine'' \<noteq> None"
  shows "listed addr (lk_inject (link_run procs addr engine es link_start)) \<longleftrightarrow>
    (\<exists>xs ev ys. es = xs @ ev # ys \<and> attaches ev (link_run procs addr engine xs link_start) \<and> (\<forall>y \<in> set ys. \<not> unloads y))"
proof (induction es rule: rev_induct)
  case Nil
  then show ?case using link_start_ok(2) by (simp add: link_run_def)
next
  case (snoc ev es)
  let ?k = "link_run procs addr engine es link_start"
  have step: "listed addr (lk_inject (link_run procs addr engine (es @ [ev]) link_start)) \<longleftrightarrow>
      attaches ev ?k \<or> listed addr (lk_inject ?k) \<and> \<not> unloads ev"
    using link_step_listed [where procs = procs and addr = addr and engine = engine, OF assms link_run_ok [where procs = procs and addr = addr and engine = engine, OF assms]]
    by (simp add: link_run_def)
  show ?case unfolding step snoc.IH
  proof (intro iffI; elim disjE conjE exE)
    assume "attaches ev ?k"
    then show "\<exists>xs ev' ys. es @ [ev] = xs @ ev' # ys \<and> attaches ev' (link_run procs addr engine xs link_start) \<and>
        (\<forall>y \<in> set ys. \<not> unloads y)"
      by (intro exI [of _ es] exI [of _ ev] exI [of _ "[]"]) simp
  next
    fix xs ev' ys
    assume "es = xs @ ev' # ys" "attaches ev' (link_run procs addr engine xs link_start)" "\<forall>y \<in> set ys. \<not> unloads y" "\<not> unloads ev"
    then show "\<exists>xs ev' ys. es @ [ev] = xs @ ev' # ys \<and> attaches ev' (link_run procs addr engine xs link_start) \<and>
        (\<forall>y \<in> set ys. \<not> unloads y)"
      by (intro exI [of _ xs] exI [of _ ev'] exI [of _ "ys @ [ev]"]) auto
  next
    fix xs ev' ys
    assume a: "es @ [ev] = xs @ ev' # ys" "attaches ev' (link_run procs addr engine xs link_start)" "\<forall>y \<in> set ys. \<not> unloads y"
    show "attaches ev ?k \<or> (\<exists>xs ev' ys. es = xs @ ev' # ys \<and> attaches ev' (link_run procs addr engine xs link_start) \<and>
        (\<forall>y \<in> set ys. \<not> unloads y)) \<and> \<not> unloads ev"
    proof (cases ys rule: rev_cases)
      case Nil
      then show ?thesis using a by simp
    next
      case (snoc zs z)
      then have "es = xs @ ev' # zs" "ev = z" using a(1) by simp_all
      then show ?thesis using a snoc by auto
    qed
  qed
qed

text \<open>The DLL first, the injector second: never registered.  The other way round, and the DLL
  detached: still registered.\<close>

theorem engine_registered_iff_witness:
  "\<not> listed 4096 (lk_inject (link_run (\<lambda>_. Some 1) 4096 (quiet_engine :: unit FishInjectEngine)
      [Dll_Attach True, Inject_Load (Some 4096) 4, Traffic 7] link_start)) \<and>
   listed 4096 (lk_inject (link_run (\<lambda>_. Some 1) 4096 (quiet_engine :: unit FishInjectEngine)
      [Inject_Load (Some 4096) 4, Dll_Attach True, Dll_Detach, Traffic 7] link_start))"
proof -
  have v: "fe_version (quiet_engine :: unit FishInjectEngine) = FISH_INJECT_ENGINE_VERSION"
    by (simp add: quiet_engine_def FISH_INJECT_ENGINE_VERSION_def)
  have p: "(\<lambda>_ :: string. Some (1 :: nat)) ''RegisterEngine'' \<noteq> None" by simp
  note R = engine_registered_iff [where procs = "\<lambda>_. Some 1" and addr = 4096 and engine = "quiet_engine :: unit FishInjectEngine", OF _ v p]
  have a: "attaches (Dll_Attach True) (link_run (\<lambda>_. Some 1) 4096 (quiet_engine :: unit FishInjectEngine) [Inject_Load (Some 4096) 4] link_start)"
    by (simp add: attaches_def link_run_def link_start_def inject_start_def LoadDll_def install_hooks_def init_engines_def)
  have "listed 4096 (lk_inject (link_run (\<lambda>_. Some 1) 4096 (quiet_engine :: unit FishInjectEngine)
      [Inject_Load (Some 4096) 4, Dll_Attach True, Dll_Detach, Traffic 7] link_start))"
    using a unfolding R [OF zero_neq_numeral [symmetric]]
    by (intro exI [of _ "[Inject_Load (Some 4096) 4]"] exI [of _ "Dll_Attach True"] exI [of _ "[Dll_Detach, Traffic 7]"])
      (simp add: unloads_def)
  moreover have "\<not> listed 4096 (lk_inject (link_run (\<lambda>_. Some 1) 4096 (quiet_engine :: unit FishInjectEngine)
      [Dll_Attach True, Inject_Load (Some 4096) 4, Traffic 7] link_start))"
    unfolding R [OF zero_neq_numeral [symmetric]]
    by (auto simp: Cons_eq_append_conv attaches_def link_run_def link_start_def)
  ultimately show ?thesis by blast
qed

end
